(* ===== verification/Prelude.thy ===== *)
theory Prelude
  imports Main "HOL-Library.Char_ord" "HOL-Library.List_Lexorder"
begin

text \<open>
  The parts every component shares: the collections of rewrite rules, Go's 64-bit
  integers, decimal printing (\<^verbatim>\<open>strconv.Itoa\<close>, \<^verbatim>\<open>%d\<close>), database
  transactions as functions that may fail, and the lemmas on tables kept as lists of
  rows.
\<close>

named_theorems tx_simps \<open>unfolding rules of transactions\<close>
named_theorems table_simps \<open>rewriting of tables after an insert or an update\<close>
named_theorems inv_intros \<open>preservation lemmas of the invariants\<close>

section \<open>Go's 64-bit integers\<close>

definition int64_min :: int where
  "int64_min = - (2 ^ 63)"

definition int64_max :: int where
  "int64_max = 2 ^ 63 - 1"

definition in_int64 :: "int \<Rightarrow> bool" where
  "in_int64 x \<longleftrightarrow> int64_min \<le> x \<and> x \<le> int64_max"

definition i64 :: "int \<Rightarrow> int" where
  "i64 x = (x + 2 ^ 63) mod 2 ^ 64 - 2 ^ 63"

lemma i64_in_int64 [simp]: "in_int64 (i64 x)"
proof -
  have "0 \<le> (x + 2 ^ 63) mod 2 ^ 64" "(x + 2 ^ 63) mod 2 ^ 64 < (2 ^ 64 :: int)"
    by (simp_all only: pos_mod_sign pos_mod_bound zero_less_numeral zero_less_power)
  then show ?thesis by (simp add: in_int64_def i64_def int64_min_def int64_max_def)
qed

lemma i64_id: "in_int64 x \<Longrightarrow> i64 x = x"
  by (simp add: in_int64_def i64_def int64_min_def int64_max_def)

lemma in_int64_between:
  "in_int64 a \<Longrightarrow> in_int64 b \<Longrightarrow> a \<le> x \<Longrightarrow> x \<le> b \<Longrightarrow> in_int64 x"
  by (simp add: in_int64_def)

lemma in_int64_0 [simp]: "in_int64 0"
  by (simp add: in_int64_def int64_min_def int64_max_def)

lemma in_int64_uminus: "in_int64 x \<Longrightarrow> 0 \<le> x \<Longrightarrow> in_int64 (- x)"
  by (simp add: in_int64_def int64_min_def int64_max_def)

lemma in_int64_diff: "in_int64 x \<Longrightarrow> in_int64 y \<Longrightarrow> 0 \<le> x \<Longrightarrow> 0 \<le> y \<Longrightarrow> in_int64 (x - y)"
  by (simp add: in_int64_def int64_min_def int64_max_def)

lemma in_int64_pos: "0 \<le> x \<Longrightarrow> x \<le> y \<Longrightarrow> in_int64 y \<Longrightarrow> in_int64 x"
  by (simp add: in_int64_def int64_min_def int64_max_def)

section \<open>Decimal printing\<close>

definition digit_char :: "nat \<Rightarrow> char" where
  "digit_char d = char_of (48 + d)"

definition char_digit :: "char \<Rightarrow> nat" where
  "char_digit c = of_char c - 48"

fun show_nat :: "nat \<Rightarrow> string" where
  "show_nat n = (if n < 10 then [digit_char n] else show_nat (n div 10) @ [digit_char (n mod 10)])"

declare show_nat.simps [simp del]

definition itoa :: "int \<Rightarrow> string" where
  "itoa i = (if i < 0 then CHR ''-'' # show_nat (nat (- i)) else show_nat (nat i))"

definition read_nat :: "string \<Rightarrow> nat" where
  "read_nat = foldl (\<lambda>a c. 10 * a + char_digit c) 0"

lemma char_digit_char [simp]: "d < 10 \<Longrightarrow> char_digit (digit_char d) = d"
  by (simp add: char_digit_def digit_char_def)

lemma read_show_nat [simp]: "read_nat (show_nat n) = n"
proof (induction n rule: show_nat.induct)
  case (1 n)
  show ?case
  proof (cases "n < 10")
    case True
    then show ?thesis by (subst show_nat.simps) (simp add: read_nat_def)
  next
    case False
    with 1 have "foldl (\<lambda>a c. 10 * a + char_digit c) 0 (show_nat (n div 10)) = n div 10"
      by (simp add: read_nat_def)
    with False show ?thesis
      by (subst show_nat.simps) (simp add: read_nat_def)
  qed
qed

lemma show_nat_inj [simp]: "show_nat m = show_nat n \<longleftrightarrow> m = n"
  by (metis read_show_nat)

lemma digit_char_not_sign: "d < 10 \<Longrightarrow> digit_char d \<notin> {CHR ''-'', CHR '':''}"
  by (auto simp: digit_char_def dest!: arg_cong [of _ _ "of_char :: char \<Rightarrow> nat"])

lemma show_nat_chars: "set (show_nat n) \<subseteq> digit_char ` {..<10}"
proof (induction n rule: show_nat.induct)
  case (1 n)
  show ?case
  proof (cases "n < 10")
    case True
    then show ?thesis by (subst show_nat.simps) simp
  next
    case False
    with 1 show ?thesis by (subst show_nat.simps) simp
  qed
qed

lemma show_nat_no_sign: "CHR ''-'' \<notin> set (show_nat n)" "CHR '':'' \<notin> set (show_nat n)"
  using show_nat_chars [of n] by (auto dest!: subsetD digit_char_not_sign)

lemma show_nat_not_Nil [simp]: "show_nat n \<noteq> []"
  by (subst show_nat.simps) simp

lemma length_show_nat: "n < 10 ^ k \<Longrightarrow> 0 < k \<Longrightarrow> length (show_nat n) \<le> k"
proof (induction n arbitrary: k rule: show_nat.induct)
  case (1 n)
  show ?case
  proof (cases "n < 10")
    case True
    then show ?thesis using 1 by (subst show_nat.simps) simp
  next
    case False
    obtain j where k: "k = Suc j" using 1(3) by (cases k) auto
    with 1(2) False have j: "k = Suc j" "0 < j" by (cases j; simp)+
    have "n div 10 < 10 ^ j" using 1(2) j(1) by (simp add: less_mult_imp_div_less mult.commute)
    with 1(1) [OF False] j False show ?thesis by (subst show_nat.simps) simp
  qed
qed

lemma itoa_inj [simp]: "itoa i = itoa j \<longleftrightarrow> i = j"
proof
  assume eq: "itoa i = itoa j"
  have sign: "CHR ''-'' # show_nat m \<noteq> show_nat n" for m n
    using show_nat_no_sign(1) [of n] by (metis list.set_intros(1))
  show "i = j"
    using eq sign sign [symmetric] by (auto simp: itoa_def split: if_splits)
qed simp

lemma itoa_no_colon: "CHR '':'' \<notin> set (itoa i)"
  by (auto simp: itoa_def show_nat_no_sign)

lemma itoa_not_Nil [simp]: "itoa i \<noteq> []"
  by (simp add: itoa_def)

section \<open>Transactions\<close>

text \<open>
  A statement of a database transaction reads and writes the database or fails;
  \<open>tx_bind\<close> runs one after another and stops at the first failure. \<open>run_tx\<close>
  is \<^verbatim>\<open>pgx.BeginFunc\<close> (and order-service's \<^verbatim>\<open>inTx\<close>): a failure
  rolls every change back, a success commits.
\<close>

type_synonym ('s, 'e, 'a) tx = "'s \<Rightarrow> 'e + ('a \<times> 's)"

definition tx_return :: "'a \<Rightarrow> ('s, 'e, 'a) tx" where
  "tx_return a = (\<lambda>s. Inr (a, s))"

definition tx_fail :: "'e \<Rightarrow> ('s, 'e, 'a) tx" where
  "tx_fail e = (\<lambda>s. Inl e)"

definition tx_bind :: "('s, 'e, 'a) tx \<Rightarrow> ('a \<Rightarrow> ('s, 'e, 'b) tx) \<Rightarrow> ('s, 'e, 'b) tx" where
  "tx_bind m f = (\<lambda>s. case m s of Inl e \<Rightarrow> Inl e | Inr (a, s') \<Rightarrow> f a s')"

definition tx_get :: "('s \<Rightarrow> 'a) \<Rightarrow> ('s, 'e, 'a) tx" where
  "tx_get f = (\<lambda>s. Inr (f s, s))"

definition tx_put :: "('s \<Rightarrow> 's) \<Rightarrow> ('s, 'e, unit) tx" where
  "tx_put f = (\<lambda>s. Inr ((), f s))"

definition tx_catch :: "('s, 'e, 'a) tx \<Rightarrow> ('e \<Rightarrow> ('s, 'd, 'b) tx) \<Rightarrow> ('a \<Rightarrow> ('s, 'd, 'b) tx) \<Rightarrow> ('s, 'd, 'b) tx" where
  "tx_catch m h f = (\<lambda>s. case m s of Inl e \<Rightarrow> h e s | Inr (a, s') \<Rightarrow> f a s')"

definition run_tx :: "('s, 'e, 'a) tx \<Rightarrow> 's \<Rightarrow> ('e + 'a) \<times> 's" where
  "run_tx m s = (case m s of Inl e \<Rightarrow> (Inl e, s) | Inr (a, s') \<Rightarrow> (Inr a, s'))"

lemma tx_return_apply [simp, tx_simps]: "tx_return a s = Inr (a, s)"
  by (simp add: tx_return_def)

lemma tx_fail_apply [simp, tx_simps]: "tx_fail e s = Inl e"
  by (simp add: tx_fail_def)

lemma tx_get_apply [simp, tx_simps]: "tx_get f s = Inr (f s, s)"
  by (simp add: tx_get_def)

lemma tx_put_apply [simp, tx_simps]: "tx_put f s = Inr ((), f s)"
  by (simp add: tx_put_def)

lemma tx_bind_Inl: "m s = Inl e \<Longrightarrow> tx_bind m f s = Inl e"
  by (simp add: tx_bind_def)

lemma tx_bind_Inr: "m s = Inr (a, s') \<Longrightarrow> tx_bind m f s = f a s'"
  by (simp add: tx_bind_def)

lemma tx_bind_return [simp]: "tx_bind (tx_return a) f = f a"
  by (simp add: tx_bind_def fun_eq_iff)

lemma tx_bind_InrE:
  assumes "tx_bind m f s = Inr r"
  obtains a s' where "m s = Inr (a, s')" "f a s' = Inr r"
  using assms by (auto simp: tx_bind_def split: sum.splits prod.splits)

lemma tx_bind_InlE:
  assumes "tx_bind m f s = Inl e"
  obtains "m s = Inl e" | a s' where "m s = Inr (a, s')" "f a s' = Inl e"
  using assms by (auto simp: tx_bind_def split: sum.splits prod.splits)

lemma run_tx_InlD: "run_tx m s = (Inl e, s') \<Longrightarrow> m s = Inl e \<and> s' = s"
  by (auto simp: run_tx_def split: sum.splits prod.splits)

lemma run_tx_InrD: "run_tx m s = (Inr a, s') \<Longrightarrow> m s = Inr (a, s')"
  by (auto simp: run_tx_def split: sum.splits prod.splits)

lemma run_tx_cases:
  obtains e where "m s = Inl e" "run_tx m s = (Inl e, s)"
  | a s' where "m s = Inr (a, s')" "run_tx m s = (Inr a, s')"
  by (cases "m s") (auto simp: run_tx_def)

text \<open>
  A relation that every statement of a transaction keeps between the state it starts
  from and the state it leaves holds of the whole transaction.
\<close>

definition tx_keeps :: "('s \<Rightarrow> 's \<Rightarrow> bool) \<Rightarrow> ('s, 'e, 'a) tx \<Rightarrow> bool" where
  "tx_keeps R m \<longleftrightarrow> (\<forall>s a s'. m s = Inr (a, s') \<longrightarrow> R s s')"

lemma tx_keepsI: "(\<And>s a s'. m s = Inr (a, s') \<Longrightarrow> R s s') \<Longrightarrow> tx_keeps R m"
  by (simp add: tx_keeps_def)

lemma tx_keepsD: "tx_keeps R m \<Longrightarrow> m s = Inr (a, s') \<Longrightarrow> R s s'"
  by (simp add: tx_keeps_def)

lemma tx_keeps_bind:
  assumes "tx_keeps R m" "\<And>a. tx_keeps R (f a)" "transp R"
  shows "tx_keeps R (tx_bind m f)"
  using assms by (fastforce simp: tx_keeps_def elim!: tx_bind_InrE dest: transpD)

section \<open>Tables as lists of rows\<close>

definition update_where :: "('r \<Rightarrow> bool) \<Rightarrow> ('r \<Rightarrow> 'r) \<Rightarrow> 'r list \<Rightarrow> 'r list" where
  "update_where p f rows = map (\<lambda>r. if p r then f r else r) rows"

lemma length_update_where [simp]: "length (update_where p f rows) = length rows"
  by (simp add: update_where_def)

lemma update_where_Nil [simp]: "update_where p f [] = []"
  by (simp add: update_where_def)

lemma update_where_Cons [simp]:
  "update_where p f (r # rows) = (if p r then f r else r) # update_where p f rows"
  by (simp add: update_where_def)

lemma update_where_append [simp]: "update_where p f (xs @ ys) = update_where p f xs @ update_where p f ys"
  by (simp add: update_where_def)

lemma map_update_where:
  "(\<And>r. g (f r) = g r) \<Longrightarrow> map g (update_where p f rows) = map g rows"
  by (simp add: update_where_def)

lemma set_update_where:
  "set (update_where p f rows) = f ` {r \<in> set rows. p r} \<union> {r \<in> set rows. \<not> p r}"
  by (auto simp: update_where_def)

lemma find_Some_mem: "find p xs = Some x \<Longrightarrow> x \<in> set xs \<and> p x"
  by (induction xs) (auto split: if_splits)

lemma find_None_iff2: "find p xs = None \<longleftrightarrow> (\<forall>x \<in> set xs. \<not> p x)"
  by (induction xs) auto

lemma find_snoc: "(\<And>x. x \<in> set xs \<Longrightarrow> \<not> p x) \<Longrightarrow> find p (xs @ [y]) = (if p y then Some y else None)"
  by (induction xs) auto

lemma find_key_unique:
  "distinct (map key rows) \<Longrightarrow> r \<in> set rows \<Longrightarrow> find (\<lambda>r'. key r' = key r) rows = Some r"
  by (induction rows) (auto simp: image_iff)

lemma distinct_key_eq:
  "distinct (map key rows) \<Longrightarrow> r \<in> set rows \<Longrightarrow> r' \<in> set rows \<Longrightarrow> key r = key r' \<Longrightarrow> r = r'"
  by (induction rows) (auto simp: image_iff)

lemma update_where_no_match:
  "(\<And>r. r \<in> set rows \<Longrightarrow> \<not> p r) \<Longrightarrow> update_where p f rows = rows"
  by (induction rows) auto

lemma set_update_key:
  assumes "distinct (map key rows)" "r \<in> set rows"
  shows "set (update_where (\<lambda>r'. key r' = key r) f rows) = insert (f r) (set rows - {r})"
proof -
  have "{r' \<in> set rows. key r' = key r} = {r}" using distinct_key_eq [OF assms(1)] assms(2) by blast
  moreover have "{r' \<in> set rows. key r' \<noteq> key r} = set rows - {r}" using distinct_key_eq [OF assms(1)] assms(2) by blast
  ultimately show ?thesis by (simp add: set_update_where)
qed

lemma find_update_where_key:
  "(\<And>r. key (f r) = key r) \<Longrightarrow>
   find (\<lambda>r. key r = k) (update_where p f rows) = map_option (\<lambda>r. if p r then f r else r) (find (\<lambda>r. key r = k) rows)"
  by (induction rows) auto

lemma last_filter: "filter p xs \<noteq> [] \<Longrightarrow> last (filter p xs) \<in> set xs \<and> p (last (filter p xs))"
  using last_in_set [of "filter p xs"] by auto

text \<open>Summing a column after one row, found by its unique key, changed.\<close>

lemma sum_list_update_key:
  fixes g :: "'r \<Rightarrow> 'v::ab_group_add"
  assumes "distinct (map key rows)" "r \<in> set rows"
  shows "sum_list (map g (update_where (\<lambda>r'. key r' = key r) f rows))
       = sum_list (map g rows) - g r + g (f r)"
  using assms
proof (induction rows)
  case Nil
  then show ?case by simp
next
  case (Cons x rows)
  show ?case
  proof (cases "key x = key r")
    case True
    with Cons.prems have "x = r" using distinct_key_eq by fastforce
    moreover have "update_where (\<lambda>r'. key r' = key r) f rows = rows"
      using Cons.prems True by (intro update_where_no_match) (auto simp: image_iff)
    ultimately show ?thesis by simp
  next
    case False
    with Cons.prems have "r \<in> set rows" by auto
    with Cons False show ?thesis by (simp add: algebra_simps)
  qed
qed

lemma member_le_sum_list_pos:
  fixes g :: "'r \<Rightarrow> int"
  assumes "x \<in> set xs" "\<And>y. y \<in> set xs \<Longrightarrow> 0 \<le> g y"
  shows "g x \<le> sum_list (map g xs)"
  using assms
proof (induction xs)
  case (Cons y xs)
  have "0 \<le> sum_list (map g xs)" using Cons.prems(2) by (intro sum_list_nonneg) auto
  with Cons show ?case by (auto intro: add_increasing)
qed simp

lemma sum_list_filter_snoc:
  "sum_list (map g (filter p (xs @ [x]))) = sum_list (map g (filter p xs)) + (if p x then g x else (0::'v::comm_monoid_add))"
  by simp

end
