(* ===== verification/Go_Strings.thy ===== *)
theory Go_Strings
  imports Prelude
begin

text \<open>
  Go strings are byte sequences, so they are \<open>string\<close> here (a \<open>char\<close> is a byte).
  This theory models the standard-library string functions the services rely on: UTF-8
  decoding as \<^verbatim>\<open>range\<close>, \<^verbatim>\<open>utf8.RuneCountInString\<close> and
  \<^verbatim>\<open>strings.TrimSpace\<close> do it (an invalid byte is one replacement rune),
  \<^verbatim>\<open>unicode.IsControl\<close>, \<^verbatim>\<open>strings.ToLower\<close> on ASCII text, and the
  UUID pattern of credit-service with its canonical lower-case form.
\<close>

section \<open>UTF-8 decoding\<close>

abbreviation byte_of :: "char \<Rightarrow> nat" where
  "byte_of \<equiv> of_char"

definition rune_error :: nat where
  "rune_error = 65533"

definition continuation :: "nat \<Rightarrow> nat \<Rightarrow> nat \<Rightarrow> bool" where
  "continuation lo hi b \<longleftrightarrow> lo \<le> b \<and> b \<le> hi"

definition second_range :: "nat \<Rightarrow> nat \<times> nat" where
  "second_range b0 =
     (if b0 = 224 then (160, 191) else if b0 = 237 then (128, 159)
      else if b0 = 240 then (144, 191) else if b0 = 244 then (128, 143) else (128, 191))"

text \<open>The rune at the front of a non-empty byte sequence and its width in bytes.\<close>

definition decode_rune :: "string \<Rightarrow> nat \<times> nat" where
  "decode_rune s =
     (case map byte_of (take 4 s) of
        [] \<Rightarrow> (rune_error, 0)
      | b0 # rest \<Rightarrow>
          if b0 < 128 then (b0, 1)
          else if 194 \<le> b0 \<and> b0 \<le> 223 then
            (case rest of
               b1 # _ \<Rightarrow> if continuation 128 191 b1 then ((b0 - 192) * 64 + (b1 - 128), 2) else (rune_error, 1)
             | _ \<Rightarrow> (rune_error, 1))
          else if 224 \<le> b0 \<and> b0 \<le> 239 then
            (case rest of
               b1 # b2 # _ \<Rightarrow>
                 if continuation (fst (second_range b0)) (snd (second_range b0)) b1 \<and> continuation 128 191 b2
                 then ((b0 - 224) * 4096 + (b1 - 128) * 64 + (b2 - 128), 3) else (rune_error, 1)
             | _ \<Rightarrow> (rune_error, 1))
          else if 240 \<le> b0 \<and> b0 \<le> 244 then
            (case rest of
               b1 # b2 # b3 # _ \<Rightarrow>
                 if continuation (fst (second_range b0)) (snd (second_range b0)) b1
                    \<and> continuation 128 191 b2 \<and> continuation 128 191 b3
                 then ((b0 - 240) * 262144 + (b1 - 128) * 4096 + (b2 - 128) * 64 + (b3 - 128), 4)
                 else (rune_error, 1)
             | _ \<Rightarrow> (rune_error, 1))
          else (rune_error, 1))"

text \<open>A string cut into its runes, each with the bytes it was decoded from.\<close>

fun chunks :: "string \<Rightarrow> (nat \<times> string) list" where
  "chunks [] = []"
| "chunks (c # cs) =
     (let (r, n) = decode_rune (c # cs) in (r, c # take (n - 1) cs) # chunks (drop (n - 1) cs))"

declare chunks.simps(2) [simp del]

text \<open>An ASCII byte is a rune of its own.\<close>

lemma chunks_ascii: "byte_of c < 128 \<Longrightarrow> chunks (c # cs) = (byte_of c, [c]) # chunks cs"
  by (simp add: chunks.simps(2) decode_rune_def take_Cons' del: take_Suc_Cons)

definition runes :: "string \<Rightarrow> nat list" where
  "runes s = map fst (chunks s)"

definition rune_count :: "string \<Rightarrow> nat" where
  "rune_count s = length (runes s)"

definition is_control :: "nat \<Rightarrow> bool" where
  "is_control r \<longleftrightarrow> r \<le> 31 \<or> (127 \<le> r \<and> r \<le> 159)"

definition is_space :: "nat \<Rightarrow> bool" where
  "is_space r \<longleftrightarrow> (9 \<le> r \<and> r \<le> 13) \<or> r = 32 \<or> r = 133 \<or> r = 160 \<or> r = 5760
     \<or> (8192 \<le> r \<and> r \<le> 8202) \<or> r = 8232 \<or> r = 8233 \<or> r = 8239 \<or> r = 8287 \<or> r = 12288"

definition trim_space :: "string \<Rightarrow> string" where
  "trim_space s =
     concat (map snd (rev (dropWhile (is_space \<circ> fst) (rev (dropWhile (is_space \<circ> fst) (chunks s))))))"

definition is_blank :: "string \<Rightarrow> bool" where
  "is_blank s \<longleftrightarrow> trim_space s = []"

lemma chunks_nonempty: "(r, bs) \<in> set (chunks s) \<Longrightarrow> bs \<noteq> []"
  by (induction s rule: chunks.induct) (auto simp: chunks.simps(2) split: prod.splits)

lemma concat_chunks: "concat (map snd (chunks s)) = s"
  by (induction s rule: chunks.induct) (auto simp: chunks.simps(2) split: prod.splits)

lemma length_chunks: "length (chunks s) \<le> length s"
proof (induction s rule: chunks.induct)
  case (2 c cs)
  obtain r n where d: "decode_rune (c # cs) = (r, n)" by fastforce
  with 2 have "length (chunks (drop (n - 1) cs)) \<le> length (drop (n - 1) cs)" by auto
  with d show ?case by (simp add: chunks.simps(2))
qed simp

lemma rune_count_le_length: "rune_count s \<le> length s"
  by (simp add: rune_count_def runes_def length_chunks)

lemma is_blank_iff: "is_blank s \<longleftrightarrow> list_all is_space (runes s)"
proof -
  have ne: "concat (map snd xs) = [] \<longleftrightarrow> xs = []" if "set xs \<subseteq> set (chunks s)" for xs
    using that chunks_nonempty by (cases xs) fastforce+
  let ?d = "dropWhile (is_space \<circ> fst)"
  have sub: "set (rev (?d (rev (?d (chunks s))))) \<subseteq> set (chunks s)"
    by (auto dest!: set_dropWhileD)
  have "?d (rev (?d (chunks s))) = [] \<longleftrightarrow> ?d (chunks s) = []"
  proof (cases "?d (chunks s)")
    case (Cons x xs)
    then have "\<not> (is_space \<circ> fst) x"
      using hd_dropWhile [of "is_space \<circ> fst" "chunks s"] by simp
    then show ?thesis unfolding Cons by (auto simp: dropWhile_eq_Nil_conv)
  next
    case Nil
    then show ?thesis unfolding Nil by simp
  qed
  with ne [OF sub] show ?thesis
    by (auto simp: is_blank_def trim_space_def runes_def dropWhile_eq_Nil_conv list_all_iff)
qed

lemma is_blank_Nil [simp]: "is_blank []"
  by (simp add: is_blank_iff runes_def)

section \<open>ASCII case folding and UUIDs\<close>

definition to_lower_char :: "char \<Rightarrow> char" where
  "to_lower_char c = (if 65 \<le> byte_of c \<and> byte_of c \<le> 90 then char_of (byte_of c + 32) else c)"

definition to_lower :: "string \<Rightarrow> string" where
  "to_lower = map to_lower_char"

text \<open>
  \<^verbatim>\<open>strings.EqualFold\<close> on ASCII text. The services compare UUIDs with it: hexadecimal digits and
  dashes have no case variants outside ASCII.
\<close>

definition equal_fold :: "string \<Rightarrow> string \<Rightarrow> bool" where
  "equal_fold a b \<longleftrightarrow> to_lower a = to_lower b"

definition is_hex :: "char \<Rightarrow> bool" where
  "is_hex c \<longleftrightarrow> (48 \<le> byte_of c \<and> byte_of c \<le> 57) \<or> (97 \<le> byte_of c \<and> byte_of c \<le> 102)
     \<or> (65 \<le> byte_of c \<and> byte_of c \<le> 70)"

definition uuid_shape :: "(char \<Rightarrow> bool) list" where
  "uuid_shape =
     replicate 8 is_hex @ [(=) CHR ''-''] @ replicate 4 is_hex @ [(=) CHR ''-'']
     @ replicate 4 is_hex @ [(=) CHR ''-''] @ replicate 4 is_hex @ [(=) CHR ''-''] @ replicate 12 is_hex"

definition uuid_pattern :: "string \<Rightarrow> bool" where
  "uuid_pattern s \<longleftrightarrow> list_all2 (\<lambda>p c. p c) uuid_shape s"

lemma uuid_pattern_length: "uuid_pattern s \<Longrightarrow> length s = 36"
  by (auto simp: uuid_pattern_def uuid_shape_def dest!: list_all2_lengthD)

lemma length_to_lower [simp]: "length (to_lower s) = length s"
  by (simp add: to_lower_def)

lemma to_lower_idem [simp]: "to_lower (to_lower s) = to_lower s"
  by (auto simp: to_lower_def to_lower_char_def)

lemma to_lower_hex: "is_hex c \<Longrightarrow> is_hex (to_lower_char c)"
  by (auto simp: is_hex_def to_lower_char_def)

lemma to_lower_dash [simp]: "to_lower_char CHR ''-'' = CHR ''-''"
  by (simp add: to_lower_char_def)

lemma uuid_pattern_to_lower:
  assumes "uuid_pattern s"
  shows "uuid_pattern (to_lower s)"
proof -
  have keep: "p (to_lower_char c)" if "p \<in> set uuid_shape" "p c" for p c
    using that by (auto simp: uuid_shape_def to_lower_hex)
  show ?thesis unfolding uuid_pattern_def to_lower_def list_all2_conv_all_nth
  proof (intro conjI allI impI)
    show "length uuid_shape = length (map to_lower_char s)"
      using assms by (simp add: uuid_pattern_def list_all2_lengthD)
    fix i assume i: "i < length uuid_shape"
    then have "(uuid_shape ! i) (s ! i)" "i < length s"
      using assms by (auto simp: uuid_pattern_def list_all2_conv_all_nth)
    with keep nth_mem [OF i] show "(uuid_shape ! i) (map to_lower_char s ! i)" by simp
  qed
qed

end
