(* ===== verification/Go_Json.thy ===== *)
theory Go_Json
  imports Go_Strings
begin

text \<open>
  JSON values, and the part of \<^verbatim>\<open>encoding/json\<close> the services use: a
  \<^verbatim>\<open>json.RawMessage\<close> is either text that is no JSON value or the value it
  holds; encoding a struct drops \<^verbatim>\<open>omitempty\<close> fields that are zero; decoding
  into a struct field takes the last key that matches it whatever its case, ignores
  \<^verbatim>\<open>null\<close>, and fails on a value of another type. Numbers are whole (no field of a
  message is a float).
\<close>

datatype json = JNull | JBool bool | JNum int | JStr string | JArr "json list"
  | JObj "(string \<times> json) list"

text \<open>\<^verbatim>\<open>json.RawMessage\<close>: \<open>None\<close> is text that does not parse.\<close>

type_synonym raw_json = "json option"

definition omit_empty_num :: "string \<Rightarrow> int \<Rightarrow> (string \<times> json) list" where
  "omit_empty_num name n = (if n = 0 then [] else [(name, JNum n)])"

definition omit_empty_str :: "string \<Rightarrow> string \<Rightarrow> (string \<times> json) list" where
  "omit_empty_str name s = (if s = [] then [] else [(name, JStr s)])"

definition field_matches :: "string \<Rightarrow> string \<Rightarrow> bool" where
  "field_matches name key \<longleftrightarrow> to_lower key = to_lower name"

fun set_string :: "json \<Rightarrow> string option \<Rightarrow> string option" where
  "set_string _ None = None"
| "set_string JNull (Some d) = Some d"
| "set_string (JStr s) (Some d) = Some s"
| "set_string _ (Some d) = None"

fun set_int :: "json \<Rightarrow> int option \<Rightarrow> int option" where
  "set_int _ None = None"
| "set_int JNull (Some d) = Some d"
| "set_int (JNum n) (Some d) = (if in_int64 n then Some n else None)"
| "set_int _ (Some d) = None"

text \<open>
  The value of a struct field after decoding an object: \<open>None\<close> when a matching key holds
  a value of the wrong type, which makes the whole decoding fail.
\<close>

definition string_field :: "string \<Rightarrow> (string \<times> json) list \<Rightarrow> string option" where
  "string_field name fields =
     foldl (\<lambda>acc (k, v). if field_matches name k then set_string v acc else acc) (Some []) fields"

definition int_field :: "string \<Rightarrow> (string \<times> json) list \<Rightarrow> int option" where
  "int_field name fields =
     foldl (\<lambda>acc (k, v). if field_matches name k then set_int v acc else acc) (Some 0) fields"

text \<open>A field of type \<^verbatim>\<open>json.RawMessage\<close>: the last matching value as it is, absent when there is none.\<close>

definition raw_field :: "string \<Rightarrow> (string \<times> json) list \<Rightarrow> json option" where
  "raw_field name fields =
     foldl (\<lambda>acc (k, v). if field_matches name k then Some v else acc) None fields"

lemma string_field_Nil [simp]: "string_field name [] = Some []"
  by (simp add: string_field_def)

lemma int_field_Nil [simp]: "int_field name [] = Some 0"
  by (simp add: int_field_def)

lemma int_field_in_int64:
  assumes "int_field name fields = Some n"
  shows "in_int64 n"
proof -
  have aux: "foldl (\<lambda>acc (k, v). if field_matches name k then set_int v acc else acc) acc fields = Some n
     \<Longrightarrow> (\<And>m. acc = Some m \<Longrightarrow> in_int64 m) \<Longrightarrow> in_int64 n" for acc
  proof (induction fields arbitrary: acc)
    case (Cons kv fields)
    obtain k v where [simp]: "kv = (k, v)" by fastforce
    have "in_int64 m" if "set_int v acc = Some m" for m
      using that Cons.prems(2) by (cases "(v, acc)" rule: set_int.cases) (auto split: if_splits)
    with Cons show ?case by (auto split: if_splits)
  qed simp
  show ?thesis using aux [of "Some 0"] assms by (simp add: int_field_def)
qed

end
