(* ===== verification/Credit_Db.thy ===== *)
theory Credit_Db
  imports Go_Json
begin

text \<open>
  The database of credit-service: the tables of its migrations as lists of rows, with the
  constraints an \<^verbatim>\<open>INSERT\<close> or \<^verbatim>\<open>UPDATE\<close> checks, and one definition
  per function of package \<^verbatim>\<open>walletrepo\<close>. A statement fails with a PostgreSQL
  error, which \<open>map_error\<close> translates as the package does. The UUID a row gets and the
  clock come from the environment of the statement. UUID columns hold their canonical
  lower-case text; the callers pass UUIDs they validated or read from a row.
\<close>

section \<open>Rows and tables\<close>

record wallet_row =
  w_id :: string
  w_owner_id :: string
  w_auth0_subject :: string
  w_available :: int
  w_reserved :: int
  w_version :: int
  w_created_at :: int
  w_updated_at :: int

datatype reservation_status = ReservationActive | ReservationReleased | ReservationTransferred

record reservation =
  r_id :: string
  r_wallet_id :: string
  r_order_id :: string
  r_amount :: int
  r_status :: reservation_status
  r_last_adjust_seq :: int
  r_created_at :: int
  r_updated_at :: int

datatype entry_type = EntryAllocate | EntryReserve | EntryReservationAdjust | EntryRelease
  | EntryTransferOut | EntryTransferIn

record ledger_entry =
  l_id :: int
  l_wallet_id :: string
  l_type :: entry_type
  l_available_delta :: int
  l_reserved_delta :: int
  l_order_id :: "string option"
  l_counterparty_wallet_id :: "string option"
  l_idempotency_key :: string
  l_created_at :: int

record processed_command =
  pc_message_id :: string
  pc_result_type :: string
  pc_result :: json

datatype credit_outbox_status = OutboxPending | OutboxSent | OutboxFailed

record credit_outbox_row =
  co_id :: int
  co_key :: string
  co_routing_key :: string
  co_payload :: json
  co_status :: credit_outbox_status
  co_attempts :: int
  co_next_attempt_at :: int
  co_lease_owner :: "string option"
  co_lease_expires_at :: "int option"
  co_last_failure_code :: "string option"
  co_sent_at :: "int option"

record credit_db =
  db_wallets :: "wallet_row list"
  db_reservations :: "reservation list"
  db_ledger :: "ledger_entry list"
  db_ledger_seq :: int
  db_processed :: "processed_command list"
  db_released :: "string list"
  db_outbox :: "credit_outbox_row list"
  db_outbox_seq :: int

definition empty_credit_db :: credit_db where
  "empty_credit_db = \<lparr>db_wallets = [], db_reservations = [], db_ledger = [], db_ledger_seq = 0,
     db_processed = [], db_released = [], db_outbox = [], db_outbox_seq = 0\<rparr>"

text \<open>What the database supplies to a transaction: its clock and the next \<^verbatim>\<open>gen_random_uuid()\<close>.\<close>

record db_env =
  env_now :: int
  env_uuid :: string

section \<open>Errors\<close>

datatype pg_error = PgNoRows | PgError string string | PgOther string

datatype repo_error = ErrNotFound | ErrAlreadyExists | ErrSubjectTaken | ErrDuplicateOperation
  | ErrNegativeBalance | ErrUnmapped pg_error

definition code_unique_violation :: string where "code_unique_violation = ''23505''"
definition code_check_violation :: string where "code_check_violation = ''23514''"
definition code_foreign_key_violation :: string where "code_foreign_key_violation = ''23503''"
definition code_out_of_range :: string where "code_out_of_range = ''22003''"

definition constraint_idempotency :: string where
  "constraint_idempotency = ''ledger_entries_wallet_idempotency_key''"
definition constraint_subject :: string where "constraint_subject = ''wallets_auth0_subject_key''"
definition constraint_available :: string where "constraint_available = ''wallets_available_nonneg''"
definition constraint_reserved :: string where "constraint_reserved = ''wallets_reserved_nonneg''"

fun map_error :: "pg_error \<Rightarrow> repo_error" where
  "map_error PgNoRows = ErrNotFound"
| "map_error (PgError code con) =
     (if code = code_unique_violation then
        (if con = constraint_idempotency then ErrDuplicateOperation
         else if con = constraint_subject then ErrSubjectTaken
         else ErrAlreadyExists)
      else if code = code_check_violation \<and> (con = constraint_available \<or> con = constraint_reserved)
        then ErrNegativeBalance
      else ErrUnmapped (PgError code con))"
| "map_error (PgOther m) = ErrUnmapped (PgOther m)"

type_synonym 'a sql = "(credit_db, pg_error, 'a) tx"
type_synonym 'a repo = "(credit_db, repo_error, 'a) tx"

definition mapped :: "'a sql \<Rightarrow> 'a repo" where
  "mapped m = (\<lambda>s. case m s of Inl e \<Rightarrow> Inl (map_error e) | Inr r \<Rightarrow> Inr r)"

definition check_that :: "bool \<Rightarrow> pg_error \<Rightarrow> unit sql" where
  "check_that ok e = (\<lambda>s. if ok then Inr ((), s) else Inl e)"

definition one_row :: "'a option \<Rightarrow> 'a sql" where
  "one_row r = (\<lambda>s. case r of None \<Rightarrow> Inl PgNoRows | Some a \<Rightarrow> Inr (a, s))"

lemma mapped_Inr [simp]: "mapped m s = Inr r \<longleftrightarrow> m s = Inr r"
  by (simp add: mapped_def split: sum.splits)

section \<open>Wallets\<close>

definition find_wallet :: "(wallet_row \<Rightarrow> bool) \<Rightarrow> wallet_row sql" where
  "find_wallet p = (\<lambda>s. one_row (find p (db_wallets s)) s)"

text \<open>\<^verbatim>\<open>btrim\<close> removes spaces only.\<close>

definition subject_check :: "string \<Rightarrow> bool" where
  "subject_check sub \<longleftrightarrow> sub \<noteq> [] \<and> hd sub \<noteq> CHR '' '' \<and> last sub \<noteq> CHR '' ''"

definition new_wallet_row :: "db_env \<Rightarrow> string \<Rightarrow> string \<Rightarrow> wallet_row" where
  "new_wallet_row env owner sub =
     \<lparr>w_id = env_uuid env, w_owner_id = owner, w_auth0_subject = sub, w_available = 0, w_reserved = 0,
      w_version = 1, w_created_at = env_now env, w_updated_at = env_now env\<rparr>"

definition insert_wallet_row :: "db_env \<Rightarrow> string \<Rightarrow> string \<Rightarrow> wallet_row sql" where
  "insert_wallet_row env owner sub = (\<lambda>s.
     if env_uuid env \<in> w_id ` set (db_wallets s)
       then Inl (PgError code_unique_violation ''wallets_pkey'')
     else if owner \<in> w_owner_id ` set (db_wallets s)
       then Inl (PgError code_unique_violation ''wallets_owner_id_key'')
     else if sub \<in> w_auth0_subject ` set (db_wallets s)
       then Inl (PgError code_unique_violation constraint_subject)
     else Inr (new_wallet_row env owner sub,
               s\<lparr>db_wallets := db_wallets s @ [new_wallet_row env owner sub]\<rparr>))"

definition create_wallet_repo :: "db_env \<Rightarrow> string \<Rightarrow> string \<Rightarrow> wallet_row repo" where
  "create_wallet_repo env owner sub =
     mapped (tx_bind (check_that (subject_check sub) (PgError code_check_violation ''wallets_auth0_subject_valid''))
       (\<lambda>_. insert_wallet_row env owner sub))"

text \<open>
  \<^verbatim>\<open>ON CONFLICT (owner_id) DO NOTHING\<close> looks at the owner first and returns no
  row on a conflict, which the function turns into \<open>False\<close>.
\<close>

definition insert_wallet_if_absent :: "db_env \<Rightarrow> string \<Rightarrow> string \<Rightarrow> (wallet_row option \<times> bool) repo" where
  "insert_wallet_if_absent env owner sub =
     mapped (tx_bind (check_that (subject_check sub) (PgError code_check_violation ''wallets_auth0_subject_valid''))
       (\<lambda>_ s. if owner \<in> w_owner_id ` set (db_wallets s) then Inr ((None, False), s)
              else tx_bind (insert_wallet_row env owner sub) (\<lambda>w. tx_return (Some w, True)) s))"

definition get_wallet :: "string \<Rightarrow> wallet_row repo" where
  "get_wallet wid = mapped (find_wallet (\<lambda>w. w_id w = wid))"

definition get_wallet_by_auth0_subject :: "string \<Rightarrow> wallet_row repo" where
  "get_wallet_by_auth0_subject sub = mapped (find_wallet (\<lambda>w. w_auth0_subject w = sub))"

definition get_wallet_by_owner :: "string \<Rightarrow> wallet_row repo" where
  "get_wallet_by_owner owner = mapped (find_wallet (\<lambda>w. w_owner_id w = owner))"

definition lock_wallets_by_auth0_subject :: "string list \<Rightarrow> wallet_row list repo" where
  "lock_wallets_by_auth0_subject subjects = (\<lambda>s.
     let unique = remdups_adj (sort subjects);
         wallets = sort_key w_id (filter (\<lambda>w. w_auth0_subject w \<in> set unique) (db_wallets s))
     in if length wallets \<noteq> length unique then Inl ErrNotFound else Inr (wallets, s))"

definition add_deltas :: "db_env \<Rightarrow> int \<Rightarrow> int \<Rightarrow> wallet_row \<Rightarrow> wallet_row" where
  "add_deltas env ad rd w =
     w\<lparr>w_available := w_available w + ad, w_reserved := w_reserved w + rd,
       w_version := w_version w + 1, w_updated_at := env_now env\<rparr>"

definition apply_deltas :: "db_env \<Rightarrow> string \<Rightarrow> int \<Rightarrow> int \<Rightarrow> wallet_row repo" where
  "apply_deltas env wid ad rd =
     mapped (tx_bind (find_wallet (\<lambda>w. w_id w = wid)) (\<lambda>w.
       tx_bind (check_that (in_int64 (w_available w + ad) \<and> in_int64 (w_reserved w + rd) \<and> in_int64 (w_version w + 1))
                  (PgError code_out_of_range [])) (\<lambda>_.
       tx_bind (check_that (0 \<le> w_available w + ad) (PgError code_check_violation constraint_available)) (\<lambda>_.
       tx_bind (check_that (0 \<le> w_reserved w + rd) (PgError code_check_violation constraint_reserved)) (\<lambda>_.
       tx_bind (tx_put (\<lambda>s. s\<lparr>db_wallets := update_where (\<lambda>w'. w_id w' = wid) (add_deltas env ad rd) (db_wallets s)\<rparr>))
         (\<lambda>_. tx_return (add_deltas env ad rd w)))))))"

section \<open>Reservations\<close>

definition new_reservation :: "db_env \<Rightarrow> string \<Rightarrow> string \<Rightarrow> int \<Rightarrow> reservation" where
  "new_reservation env wid oid amount =
     \<lparr>r_id = env_uuid env, r_wallet_id = wid, r_order_id = oid, r_amount = amount,
      r_status = ReservationActive, r_last_adjust_seq = 0,
      r_created_at = env_now env, r_updated_at = env_now env\<rparr>"

definition create_reservation :: "db_env \<Rightarrow> string \<Rightarrow> string \<Rightarrow> int \<Rightarrow> reservation repo" where
  "create_reservation env wid oid amount =
     mapped (tx_bind (check_that (0 < amount) (PgError code_check_violation ''reservations_amount_positive'')) (\<lambda>_ s.
       if env_uuid env \<in> r_id ` set (db_reservations s)
         then Inl (PgError code_unique_violation ''reservations_pkey'')
       else if oid \<in> r_order_id ` set (db_reservations s)
         then Inl (PgError code_unique_violation ''reservations_order_id_key'')
       else if wid \<notin> w_id ` set (db_wallets s)
         then Inl (PgError code_foreign_key_violation ''reservations_wallet_id_fkey'')
       else Inr (new_reservation env wid oid amount,
                 s\<lparr>db_reservations := db_reservations s @ [new_reservation env wid oid amount]\<rparr>)))"

text \<open>\<^verbatim>\<open>FOR UPDATE\<close> locks the row and reads the same columns.\<close>

definition get_reservation_by_order :: "string \<Rightarrow> reservation repo" where
  "get_reservation_by_order oid =
     mapped (\<lambda>s. one_row (find (\<lambda>r. r_order_id r = oid) (db_reservations s)) s)"

definition change_reservation :: "string \<Rightarrow> int \<Rightarrow> (reservation \<Rightarrow> reservation) \<Rightarrow> reservation repo" where
  "change_reservation rid amount f =
     mapped (tx_bind (\<lambda>s. one_row (find (\<lambda>r. r_id r = rid) (db_reservations s)) s) (\<lambda>r.
       tx_bind (check_that (0 < amount) (PgError code_check_violation ''reservations_amount_positive'')) (\<lambda>_.
       tx_bind (tx_put (\<lambda>s. s\<lparr>db_reservations := update_where (\<lambda>r'. r_id r' = rid) f (db_reservations s)\<rparr>))
         (\<lambda>_. tx_return (f r)))))"

definition update_reservation :: "db_env \<Rightarrow> string \<Rightarrow> int \<Rightarrow> reservation_status \<Rightarrow> reservation repo" where
  "update_reservation env rid amount status =
     change_reservation rid amount (\<lambda>r. r\<lparr>r_amount := amount, r_status := status, r_updated_at := env_now env\<rparr>)"

definition adjust_reservation :: "db_env \<Rightarrow> string \<Rightarrow> int \<Rightarrow> int \<Rightarrow> reservation repo" where
  "adjust_reservation env rid amount seq =
     change_reservation rid amount (\<lambda>r. r\<lparr>r_amount := amount, r_last_adjust_seq := seq, r_updated_at := env_now env\<rparr>)"

section \<open>The ledger\<close>

text \<open>The arguments of an insert: the columns the caller gives.\<close>

record ledger_params =
  lp_wallet_id :: string
  lp_type :: entry_type
  lp_available_delta :: int
  lp_reserved_delta :: int
  lp_order_id :: "string option"
  lp_counterparty :: "string option"
  lp_key :: string

definition new_ledger_entry :: "db_env \<Rightarrow> int \<Rightarrow> ledger_params \<Rightarrow> ledger_entry" where
  "new_ledger_entry env n p =
     \<lparr>l_id = n, l_wallet_id = lp_wallet_id p, l_type = lp_type p,
      l_available_delta = lp_available_delta p, l_reserved_delta = lp_reserved_delta p,
      l_order_id = lp_order_id p, l_counterparty_wallet_id = lp_counterparty p,
      l_idempotency_key = lp_key p, l_created_at = env_now env\<rparr>"

definition ledger_has :: "ledger_entry list \<Rightarrow> string \<Rightarrow> string \<Rightarrow> bool" where
  "ledger_has es wid key \<longleftrightarrow> (\<exists>e \<in> set es. l_wallet_id e = wid \<and> l_idempotency_key e = key)"

definition insert_ledger_entry :: "db_env \<Rightarrow> ledger_params \<Rightarrow> ledger_entry repo" where
  "insert_ledger_entry env p =
     mapped (tx_bind (check_that (lp_available_delta p \<noteq> 0 \<or> lp_reserved_delta p \<noteq> 0)
                        (PgError code_check_violation ''ledger_entries_delta_nonzero'')) (\<lambda>_.
       tx_bind (check_that (lp_key p \<noteq> []) (PgError code_check_violation ''ledger_entries_key_nonempty'')) (\<lambda>_ s.
       if ledger_has (db_ledger s) (lp_wallet_id p) (lp_key p)
         then Inl (PgError code_unique_violation constraint_idempotency)
       else if lp_wallet_id p \<notin> w_id ` set (db_wallets s)
         then Inl (PgError code_foreign_key_violation ''ledger_entries_wallet_id_fkey'')
       else if (case lp_counterparty p of None \<Rightarrow> False | Some c \<Rightarrow> c \<notin> w_id ` set (db_wallets s))
         then Inl (PgError code_foreign_key_violation ''ledger_entries_counterparty_wallet_id_fkey'')
       else let e = new_ledger_entry env (db_ledger_seq s + 1) p
            in Inr (e, s\<lparr>db_ledger := db_ledger s @ [e], db_ledger_seq := db_ledger_seq s + 1\<rparr>))))"

definition get_ledger_entry_by_key :: "string \<Rightarrow> string \<Rightarrow> ledger_entry repo" where
  "get_ledger_entry_by_key wid key =
     mapped (\<lambda>s. one_row (find (\<lambda>e. l_wallet_id e = wid \<and> l_idempotency_key e = key) (db_ledger s)) s)"

definition list_ledger_entries :: "string \<Rightarrow> int \<Rightarrow> nat \<Rightarrow> ledger_entry list repo" where
  "list_ledger_entries wid after limit = (\<lambda>s.
     Inr (take limit (sort_key l_id (filter (\<lambda>e. l_wallet_id e = wid \<and> after < l_id e) (db_ledger s))), s))"

section \<open>Processed commands and release tombstones\<close>

text \<open>
  \<^verbatim>\<open>pg_advisory_xact_lock\<close> makes transactions of one message wait for each other.
  Transactions are atomic steps here, so the lock changes no state.
\<close>

definition lock_command :: "string \<Rightarrow> unit repo" where
  "lock_command mid = tx_return ()"

definition get_processed_command :: "string \<Rightarrow> processed_command repo" where
  "get_processed_command mid =
     mapped (\<lambda>s. one_row (find (\<lambda>c. pc_message_id c = mid) (db_processed s)) s)"

definition insert_processed_command :: "processed_command \<Rightarrow> unit repo" where
  "insert_processed_command c =
     mapped (tx_bind (check_that (pc_message_id c \<noteq> [])
                        (PgError code_check_violation ''processed_commands_message_id_nonempty'')) (\<lambda>_ s.
       if pc_message_id c \<in> pc_message_id ` set (db_processed s)
         then Inl (PgError code_unique_violation ''processed_commands_pkey'')
       else Inr ((), s\<lparr>db_processed := db_processed s @ [c]\<rparr>)))"

definition insert_released_order :: "string \<Rightarrow> unit repo" where
  "insert_released_order oid =
     tx_put (\<lambda>s. if oid \<in> set (db_released s) then s else s\<lparr>db_released := db_released s @ [oid]\<rparr>)"

definition is_order_released :: "string \<Rightarrow> bool repo" where
  "is_order_released oid = tx_get (\<lambda>s. oid \<in> set (db_released s))"

end
