(* ===== verification/Credit_Outbox.thy ===== *)
theory Credit_Outbox
  imports Credit_Db
begin

text \<open>
  The result outbox of credit-service: package \<^verbatim>\<open>outboxrepo\<close> on the
  \<^verbatim>\<open>outbox\<close> table. Rows are added (or revived) by \<open>enqueue\<close> in the
  transaction of the balance change and published by dispatchers that lease them.
\<close>

definition known_routing_keys :: "string list" where
  "known_routing_keys =
     [''credit.reserved'', ''credit.reservation_refused'', ''credit.adjusted'', ''credit.adjust_refused'',
      ''credit.released'', ''credit.transferred'', ''credit.operation_failed'']"

definition new_outbox_row :: "int \<Rightarrow> int \<Rightarrow> string \<Rightarrow> string \<Rightarrow> json \<Rightarrow> credit_outbox_row" where
  "new_outbox_row now n key rk payload =
     \<lparr>co_id = n, co_key = key, co_routing_key = rk, co_payload = payload, co_status = OutboxPending,
      co_attempts = 0, co_next_attempt_at = now, co_lease_owner = None, co_lease_expires_at = None,
      co_last_failure_code = None, co_sent_at = None\<rparr>"

definition revive :: "int \<Rightarrow> credit_outbox_row \<Rightarrow> credit_outbox_row" where
  "revive now o' =
     (if co_status o' \<noteq> OutboxPending then
        o'\<lparr>co_status := OutboxPending, co_attempts := 0, co_next_attempt_at := now,
           co_lease_owner := None, co_lease_expires_at := None, co_last_failure_code := None\<rparr>
      else o')"

definition enqueue :: "db_env \<Rightarrow> string \<Rightarrow> string \<Rightarrow> json \<Rightarrow> unit sql" where
  "enqueue env key rk payload = (\<lambda>s.
     if rk \<notin> set known_routing_keys then Inl (PgError code_check_violation ''outbox_routing_key_known'')
     else if key \<in> co_key ` set (db_outbox s) then
       Inr ((), s\<lparr>db_outbox := update_where (\<lambda>o'. co_key o' = key) (revive (env_now env)) (db_outbox s)\<rparr>)
     else Inr ((), s\<lparr>db_outbox := db_outbox s @ [new_outbox_row (env_now env) (db_outbox_seq s + 1) key rk payload],
                     db_outbox_seq := db_outbox_seq s + 1\<rparr>))"

text \<open>The row as the dispatcher sees it.\<close>

record dispatch_row =
  dr_id :: int
  dr_key :: string
  dr_routing_key :: string
  dr_payload :: json
  dr_status :: credit_outbox_status
  dr_attempts :: int

definition dispatch_row_of :: "credit_outbox_row \<Rightarrow> dispatch_row" where
  "dispatch_row_of o' = \<lparr>dr_id = co_id o', dr_key = co_key o', dr_routing_key = co_routing_key o',
     dr_payload = co_payload o', dr_status = co_status o', dr_attempts = co_attempts o'\<rparr>"

definition outbox_due :: "int \<Rightarrow> credit_outbox_row \<Rightarrow> bool" where
  "outbox_due now o' \<longleftrightarrow> co_status o' = OutboxPending \<and> co_next_attempt_at o' \<le> now
     \<and> (case co_lease_expires_at o' of None \<Rightarrow> True | Some t \<Rightarrow> t < now)"

definition due_ids :: "int \<Rightarrow> nat \<Rightarrow> credit_outbox_row list \<Rightarrow> int list" where
  "due_ids now limit rows =
     map co_id (take limit (sort_key co_next_attempt_at (sort_key co_id (filter (outbox_due now) rows))))"

definition lease_to :: "string \<Rightarrow> int \<Rightarrow> credit_outbox_row \<Rightarrow> credit_outbox_row" where
  "lease_to worker until o' =
     o'\<lparr>co_lease_owner := Some worker, co_lease_expires_at := Some until, co_attempts := co_attempts o' + 1\<rparr>"

definition claim :: "int \<Rightarrow> string \<Rightarrow> nat \<Rightarrow> int \<Rightarrow> credit_outbox_row list \<Rightarrow> dispatch_row list \<times> credit_outbox_row list" where
  "claim now worker limit lease rows =
     (let ids = due_ids now limit rows;
          rows' = update_where (\<lambda>o'. co_id o' \<in> set ids) (lease_to worker (now + lease)) rows
      in (sort_key dr_id (map dispatch_row_of (filter (\<lambda>o'. co_id o' \<in> set ids) rows')), rows'))"

definition holds_lease :: "int \<Rightarrow> string \<Rightarrow> credit_outbox_row \<Rightarrow> bool" where
  "holds_lease i worker o' \<longleftrightarrow> co_id o' = i \<and> co_lease_owner o' = Some worker \<and> co_status o' = OutboxPending"

definition settle_row :: "int \<Rightarrow> string \<Rightarrow> (credit_outbox_row \<Rightarrow> credit_outbox_row) \<Rightarrow> credit_outbox_row list
    \<Rightarrow> bool \<times> credit_outbox_row list" where
  "settle_row i worker f rows =
     (length (filter (holds_lease i worker) rows) = 1, update_where (holds_lease i worker) f rows)"

definition mark_sent :: "int \<Rightarrow> int \<Rightarrow> string \<Rightarrow> credit_outbox_row list \<Rightarrow> bool \<times> credit_outbox_row list" where
  "mark_sent now i worker =
     settle_row i worker (\<lambda>o'. o'\<lparr>co_status := OutboxSent, co_sent_at := Some now, co_last_failure_code := None,
       co_lease_owner := None, co_lease_expires_at := None\<rparr>)"

definition reschedule :: "int \<Rightarrow> int \<Rightarrow> string \<Rightarrow> int \<Rightarrow> string \<Rightarrow> credit_outbox_row list
    \<Rightarrow> bool \<times> credit_outbox_row list" where
  "reschedule now i worker delay code =
     settle_row i worker (\<lambda>o'. o'\<lparr>co_next_attempt_at := now + delay, co_last_failure_code := Some code,
       co_lease_owner := None, co_lease_expires_at := None\<rparr>)"

definition mark_failed :: "int \<Rightarrow> string \<Rightarrow> string \<Rightarrow> credit_outbox_row list \<Rightarrow> bool \<times> credit_outbox_row list" where
  "mark_failed i worker code =
     settle_row i worker (\<lambda>o'. o'\<lparr>co_status := OutboxFailed, co_last_failure_code := Some code,
       co_lease_owner := None, co_lease_expires_at := None\<rparr>)"

section \<open>What the outbox keeps\<close>

text \<open>Rows have distinct identities and distinct keys, and no row loses its key or its message.\<close>

definition outbox_ok :: "credit_db \<Rightarrow> bool" where
  "outbox_ok s \<longleftrightarrow> distinct (map co_key (db_outbox s)) \<and> distinct (map co_id (db_outbox s))
     \<and> (\<forall>o' \<in> set (db_outbox s). co_id o' \<le> db_outbox_seq s)"

definition messages :: "credit_outbox_row list \<Rightarrow> (string \<times> string \<times> json) list" where
  "messages rows = map (\<lambda>o'. (co_key o', co_routing_key o', co_payload o')) rows"

lemma revive_fields [simp]:
  "co_key (revive now o') = co_key o'" "co_id (revive now o') = co_id o'"
  "co_routing_key (revive now o') = co_routing_key o'" "co_payload (revive now o') = co_payload o'"
  "co_status (revive now o') = OutboxPending"
  by (auto simp: revive_def)

lemma enqueue_ok: "enqueue env key rk payload s = Inr ((), s') \<Longrightarrow> outbox_ok s \<Longrightarrow> outbox_ok s'"
  by (force simp: enqueue_def outbox_ok_def map_update_where set_update_where new_outbox_row_def split: if_splits)

lemma enqueue_pending:
  assumes "enqueue env key rk payload s = Inr ((), s')"
  shows "\<exists>o' \<in> set (db_outbox s'). co_key o' = key \<and> co_status o' = OutboxPending"
proof (cases "key \<in> co_key ` set (db_outbox s)")
  case True
  then obtain o' where "o' \<in> set (db_outbox s)" "co_key o' = key" by auto
  then have "revive (env_now env) o' \<in> set (update_where (\<lambda>o'. co_key o' = key) (revive (env_now env)) (db_outbox s))"
    by (auto simp: set_update_where)
  with True assms \<open>co_key o' = key\<close> show ?thesis
    by (auto simp: enqueue_def split: if_splits intro!: bexI [of _ "revive (env_now env) o'"])
qed (use assms in \<open>auto simp: enqueue_def new_outbox_row_def split: if_splits\<close>)

lemma enqueue_keeps_messages:
  "enqueue env key rk payload s = Inr ((), s') \<Longrightarrow>
   \<exists>new. messages (db_outbox s') = messages (db_outbox s) @ new"
  by (auto simp: enqueue_def messages_def map_update_where split: if_splits)

lemma messages_settle_row [simp]:
  assumes "\<And>o'. co_key (f o') = co_key o'" "\<And>o'. co_routing_key (f o') = co_routing_key o'"
    "\<And>o'. co_payload (f o') = co_payload o'"
  shows "messages (snd (settle_row i worker f rows)) = messages rows"
  by (simp add: settle_row_def messages_def map_update_where assms)

end
