(* ===== verification/Wallet_Service.thy ===== *)
theory Wallet_Service
  imports Credit_Outbox
begin

text \<open>
  The credit use cases (package \<^verbatim>\<open>wallet\<close>): creating a wallet with its
  allocation, reading one, and the four order commands Reserve, Adjust, Release and
  Transfer, each run by \<open>execute\<close> in one transaction that is idempotent on the
  message that carried the command. Texts of error values are not modelled.
\<close>

section \<open>Errors, results and validation\<close>

datatype wallet_error = WNotFound | WConflict | WInvalid | WRepo repo_error | WSql pg_error | WOther string

type_synonym 'a svc = "(credit_db, wallet_error, 'a) tx"

definition lift_repo :: "'a repo \<Rightarrow> 'a svc" where
  "lift_repo m = (\<lambda>s. case m s of Inl e \<Rightarrow> Inl (WRepo e) | Inr r \<Rightarrow> Inr r)"

text \<open>\<^verbatim>\<open>errors.Is(err, walletrepo.ErrNotFound)\<close> takes one branch, any other error the early return.\<close>

definition on_not_found :: "'a repo \<Rightarrow> 'b svc \<Rightarrow> ('a \<Rightarrow> 'b svc) \<Rightarrow> 'b svc" where
  "on_not_found m missing found =
     tx_catch m (\<lambda>e. if e = ErrNotFound then missing else tx_fail (WRepo e)) found"

datatype result_type = ResultReserved | ResultReservationRefused | ResultAdjusted | ResultAdjustRefused
  | ResultReleased | ResultTransferred | ResultOperationFailed

fun result_type_text :: "result_type \<Rightarrow> string" where
  "result_type_text ResultReserved = ''credit.reserved''"
| "result_type_text ResultReservationRefused = ''credit.reservation_refused''"
| "result_type_text ResultAdjusted = ''credit.adjusted''"
| "result_type_text ResultAdjustRefused = ''credit.adjust_refused''"
| "result_type_text ResultReleased = ''credit.released''"
| "result_type_text ResultTransferred = ''credit.transferred''"
| "result_type_text ResultOperationFailed = ''credit.operation_failed''"

datatype result_code = CodeNone | CodeInsufficientCredits | CodeAccountNotFound | CodeReservationReleased
  | CodeReservationNotActive | CodeReservationAlreadyTransferred | CodeReservationAlreadyReleased
  | CodeReservationNotFound

fun result_code_text :: "result_code \<Rightarrow> string" where
  "result_code_text CodeNone = []"
| "result_code_text CodeInsufficientCredits = ''INSUFFICIENT_CREDITS''"
| "result_code_text CodeAccountNotFound = ''ACCOUNT_NOT_FOUND''"
| "result_code_text CodeReservationReleased = ''RESERVATION_RELEASED''"
| "result_code_text CodeReservationNotActive = ''RESERVATION_NOT_ACTIVE''"
| "result_code_text CodeReservationAlreadyTransferred = ''RESERVATION_ALREADY_TRANSFERRED''"
| "result_code_text CodeReservationAlreadyReleased = ''RESERVATION_ALREADY_RELEASED''"
| "result_code_text CodeReservationNotFound = ''RESERVATION_NOT_FOUND''"

record credit_result =
  res_type :: result_type
  res_amount :: int
  res_seq :: int
  res_code :: result_code

definition mk_result :: "result_type \<Rightarrow> credit_result" where
  "mk_result t = \<lparr>res_type = t, res_amount = 0, res_seq = 0, res_code = CodeNone\<rparr>"

text \<open>The stored form of a result: zero fields are omitted.\<close>

definition result_to_json :: "credit_result \<Rightarrow> json" where
  "result_to_json r = JObj ([(''type'', JStr (result_type_text (res_type r)))]
     @ omit_empty_num ''amount'' (res_amount r) @ omit_empty_num ''seq'' (res_seq r)
     @ omit_empty_str ''code'' (result_code_text (res_code r)))"

definition all_result_types :: "result_type list" where
  "all_result_types = [ResultReserved, ResultReservationRefused, ResultAdjusted, ResultAdjustRefused,
     ResultReleased, ResultTransferred, ResultOperationFailed]"

definition all_result_codes :: "result_code list" where
  "all_result_codes = [CodeNone, CodeInsufficientCredits, CodeAccountNotFound, CodeReservationReleased,
     CodeReservationNotActive, CodeReservationAlreadyTransferred, CodeReservationAlreadyReleased,
     CodeReservationNotFound]"

definition result_of_json :: "json \<Rightarrow> credit_result option" where
  "result_of_json j =
     (case j of JObj fs \<Rightarrow>
        (case (string_field ''type'' fs, int_field ''amount'' fs, int_field ''seq'' fs, string_field ''code'' fs) of
           (Some t, Some a, Some q, Some c) \<Rightarrow>
             (case (find (\<lambda>rt. result_type_text rt = t) all_result_types,
                    find (\<lambda>rc. result_code_text rc = c) all_result_codes) of
                (Some rt, Some rc) \<Rightarrow> Some \<lparr>res_type = rt, res_amount = a, res_seq = q, res_code = rc\<rparr>
              | _ \<Rightarrow> None)
         | _ \<Rightarrow> None)
      | _ \<Rightarrow> None)"

record reply =
  rp_command_message_id :: string
  rp_order_id :: string
  rp_errand_version :: int

type_synonym recorder = "db_env \<Rightarrow> reply \<Rightarrow> credit_result \<Rightarrow> unit svc"

record wallet_service =
  ws_initial_credit :: int
  ws_recorder :: "recorder option"

text \<open>\<^verbatim>\<open>NewService\<close> panics (\<open>None\<close>) on a negative allocation.\<close>

definition new_service :: "int \<Rightarrow> wallet_service option" where
  "new_service initial_credit =
     (if initial_credit < 0 then None else Some \<lparr>ws_initial_credit = initial_credit, ws_recorder = None\<rparr>)"

definition with_result_recorder :: "recorder \<Rightarrow> wallet_service \<Rightarrow> wallet_service" where
  "with_result_recorder r svc = svc\<lparr>ws_recorder := Some r\<rparr>"

record wallet =
  wal_owner_id :: string
  wal_auth0_subject :: string
  wal_available :: int
  wal_reserved :: int
  wal_created_at :: int

definition from_row :: "wallet_row \<Rightarrow> wallet" where
  "from_row w = \<lparr>wal_owner_id = w_owner_id w, wal_auth0_subject = w_auth0_subject w,
     wal_available = w_available w, wal_reserved = w_reserved w, wal_created_at = w_created_at w\<rparr>"

definition max_subject_length :: nat where "max_subject_length = 255"
definition max_message_id_length :: nat where "max_message_id_length = 512"

definition validate_owner_id :: "string \<Rightarrow> wallet_error + string" where
  "validate_owner_id owner = (if \<not> uuid_pattern owner then Inl WInvalid else Inr (to_lower owner))"

definition validate_order_id :: "string \<Rightarrow> wallet_error + string" where
  "validate_order_id oid = (if \<not> uuid_pattern oid then Inl WInvalid else Inr (to_lower oid))"

definition validate_subject :: "string \<Rightarrow> bool" where
  "validate_subject sub \<longleftrightarrow> \<not> (sub = [] \<or> trim_space sub \<noteq> sub)
     \<and> \<not> (max_subject_length < length sub) \<and> \<not> list_ex is_control (runes sub)"

section \<open>Wallets\<close>

definition initial_allocation_key :: string where
  "initial_allocation_key = ''initial-allocation''"

definition create_wallet_tx :: "wallet_service \<Rightarrow> db_env \<Rightarrow> string \<Rightarrow> string \<Rightarrow> (wallet \<times> bool) svc" where
  "create_wallet_tx svc env owner sub =
     tx_catch (insert_wallet_if_absent env owner sub)
       (\<lambda>e. tx_fail (if e = ErrSubjectTaken then WConflict else WRepo e))
       (\<lambda>(_, inserted). tx_bind (lift_repo (get_wallet_by_owner owner)) (\<lambda>row.
          if \<not> inserted then
            (if w_auth0_subject row \<noteq> sub then tx_fail WConflict else tx_return (from_row row, False))
          else if ws_initial_credit svc > 0 then
            tx_bind (lift_repo (insert_ledger_entry env
              \<lparr>lp_wallet_id = w_id row, lp_type = EntryAllocate, lp_available_delta = ws_initial_credit svc,
               lp_reserved_delta = 0, lp_order_id = None, lp_counterparty = None,
               lp_key = initial_allocation_key\<rparr>)) (\<lambda>_.
            tx_bind (lift_repo (apply_deltas env (w_id row) (ws_initial_credit svc) 0)) (\<lambda>row'.
              tx_return (from_row row', True)))
          else tx_return (from_row row, True)))"

definition create_wallet :: "wallet_service \<Rightarrow> db_env \<Rightarrow> string \<Rightarrow> string \<Rightarrow> credit_db
    \<Rightarrow> (wallet_error + wallet \<times> bool) \<times> credit_db" where
  "create_wallet svc env owner sub s =
     (case validate_owner_id owner of Inl e \<Rightarrow> (Inl e, s)
      | Inr owner' \<Rightarrow> if \<not> validate_subject sub then (Inl WInvalid, s)
                     else run_tx (create_wallet_tx svc env owner' sub) s)"

definition wallet_read :: "(repo_error + wallet_row \<times> credit_db) \<Rightarrow> wallet_error + wallet" where
  "wallet_read r =
     (case r of Inl e \<Rightarrow> Inl (if e = ErrNotFound then WNotFound else WRepo e) | Inr (row, _) \<Rightarrow> Inr (from_row row))"

definition get_by_owner :: "string \<Rightarrow> credit_db \<Rightarrow> wallet_error + wallet" where
  "get_by_owner owner s =
     (case validate_owner_id owner of Inl e \<Rightarrow> Inl e | Inr owner' \<Rightarrow> wallet_read (get_wallet_by_owner owner' s))"

definition get_by_subject :: "string \<Rightarrow> credit_db \<Rightarrow> wallet_error + wallet" where
  "get_by_subject sub s =
     (if \<not> validate_subject sub then Inl WNotFound else wallet_read (get_wallet_by_auth0_subject sub s))"

section \<open>The order commands\<close>

text \<open>The idempotency keys of the ledger entries an order causes.\<close>

definition reserve_key :: "string \<Rightarrow> string" where "reserve_key oid = ''reserve:'' @ oid"
definition adjust_key :: "string \<Rightarrow> int \<Rightarrow> string" where "adjust_key oid seq = ''adjust:'' @ oid @ '':'' @ itoa seq"
definition release_key :: "string \<Rightarrow> string" where "release_key oid = ''release:'' @ oid"
definition transfer_key :: "string \<Rightarrow> string" where "transfer_key oid = ''transfer:'' @ oid"
definition surplus_key :: "string \<Rightarrow> string" where "surplus_key oid = ''transfer-surplus:'' @ oid"

lemmas ledger_key_defs = reserve_key_def adjust_key_def release_key_def transfer_key_def surplus_key_def
  initial_allocation_key_def

lemma ledger_keys_distinct [simp]:
  "reserve_key a \<noteq> adjust_key b q" "reserve_key a \<noteq> release_key b" "reserve_key a \<noteq> transfer_key b" "reserve_key a \<noteq> surplus_key b"
  "adjust_key b q \<noteq> reserve_key a" "adjust_key b q \<noteq> release_key a" "adjust_key b q \<noteq> transfer_key a" "adjust_key b q \<noteq> surplus_key a"
  "release_key a \<noteq> reserve_key b" "release_key a \<noteq> adjust_key b q" "release_key a \<noteq> transfer_key b" "release_key a \<noteq> surplus_key b"
  "transfer_key a \<noteq> reserve_key b" "transfer_key a \<noteq> adjust_key b q" "transfer_key a \<noteq> release_key b" "transfer_key a \<noteq> surplus_key b"
  "surplus_key a \<noteq> reserve_key b" "surplus_key a \<noteq> adjust_key b q" "surplus_key a \<noteq> release_key b" "surplus_key a \<noteq> transfer_key b"
  by (simp_all add: ledger_key_defs)

lemma ledger_keys_inj [simp]:
  "reserve_key a = reserve_key b \<longleftrightarrow> a = b" "release_key a = release_key b \<longleftrightarrow> a = b"
  "transfer_key a = transfer_key b \<longleftrightarrow> a = b" "surplus_key a = surplus_key b \<longleftrightarrow> a = b"
  by (simp_all add: ledger_key_defs)

lemma adjust_key_inj: "adjust_key a p = adjust_key b q \<Longrightarrow> length a = length b \<Longrightarrow> a = b \<and> p = q"
  by (simp add: adjust_key_def)

lemma ledger_keys_not_Nil [simp]:
  "reserve_key a \<noteq> []" "adjust_key a q \<noteq> []" "release_key a \<noteq> []" "transfer_key a \<noteq> []" "surplus_key a \<noteq> []"
  "initial_allocation_key \<noteq> []"
  by (simp_all add: ledger_key_defs)

record reserve_command =
  rc_order_id :: string
  rc_errand_version :: int
  rc_requester_subject :: string
  rc_amount :: int

record adjust_command =
  ac_order_id :: string
  ac_errand_version :: int
  ac_requester_subject :: string
  ac_new_amount :: int
  ac_seq :: int

record release_command =
  lc_order_id :: string
  lc_errand_version :: int
  lc_requester_subject :: string

record transfer_command =
  tc_order_id :: string
  tc_errand_version :: int
  tc_requester_subject :: string
  tc_courier_subject :: string
  tc_amount :: int

definition lock_reservation :: "string \<Rightarrow> string \<Rightarrow> (reservation \<times> wallet_row) option svc" where
  \<comment> \<open>\<open>None\<close> is the \<open>ErrNotFound\<close> of a missing reservation, which both callers single out.\<close>
  "lock_reservation oid sub =
     on_not_found (get_reservation_by_order oid) (tx_return None) (\<lambda>_.
       on_not_found (lock_wallets_by_auth0_subject [sub]) (tx_fail WConflict) (\<lambda>wallets.
         on_not_found (get_reservation_by_order oid) (tx_return None) (\<lambda>res.
           if r_wallet_id res \<noteq> w_id (hd wallets) then tx_fail WConflict
           else tx_return (Some (res, hd wallets)))))"

definition reserve_op :: "db_env \<Rightarrow> string \<Rightarrow> string \<Rightarrow> int \<Rightarrow> credit_result svc" where
  "reserve_op env oid sub amount =
     tx_bind (lift_repo (is_order_released oid)) (\<lambda>released.
     if released then tx_return ((mk_result ResultReservationRefused)\<lparr>res_code := CodeReservationReleased\<rparr>)
     else on_not_found (get_reservation_by_order oid)
       (on_not_found (lock_wallets_by_auth0_subject [sub])
          (tx_return ((mk_result ResultReservationRefused)\<lparr>res_code := CodeAccountNotFound\<rparr>))
          (\<lambda>wallets. let w = hd wallets in
             if w_available w < amount
             then tx_return ((mk_result ResultReservationRefused)\<lparr>res_code := CodeInsufficientCredits\<rparr>)
             else
               tx_bind (lift_repo (insert_ledger_entry env
                 \<lparr>lp_wallet_id = w_id w, lp_type = EntryReserve, lp_available_delta = i64 (- amount),
                  lp_reserved_delta = amount, lp_order_id = Some oid, lp_counterparty = None,
                  lp_key = reserve_key oid\<rparr>)) (\<lambda>_.
               tx_bind (lift_repo (apply_deltas env (w_id w) (i64 (- amount)) amount)) (\<lambda>_.
               tx_bind (lift_repo (create_reservation env (w_id w) oid amount)) (\<lambda>_.
               tx_return ((mk_result ResultReserved)\<lparr>res_amount := amount\<rparr>))))))
       (\<lambda>existing. tx_return ((mk_result ResultReserved)\<lparr>res_amount := r_amount existing\<rparr>)))"

definition adjust_refused :: "int \<Rightarrow> result_code \<Rightarrow> credit_result" where
  "adjust_refused seq code = (mk_result ResultAdjustRefused)\<lparr>res_code := code, res_seq := seq\<rparr>"

definition adjust_op :: "db_env \<Rightarrow> string \<Rightarrow> string \<Rightarrow> int \<Rightarrow> int \<Rightarrow> credit_result svc" where
  "adjust_op env oid sub new_amount seq =
     tx_bind (lock_reservation oid sub) (\<lambda>locked. case locked of
       None \<Rightarrow> tx_return (adjust_refused seq CodeReservationNotActive)
     | Some (res, w) \<Rightarrow>
         if r_status res \<noteq> ReservationActive then tx_return (adjust_refused seq CodeReservationNotActive)
         else if seq \<le> r_last_adjust_seq res
           then tx_return ((mk_result ResultAdjusted)\<lparr>res_amount := r_amount res, res_seq := seq\<rparr>)
         else let delta = i64 (new_amount - r_amount res) in
           if delta > w_available w then tx_return (adjust_refused seq CodeInsufficientCredits)
           else
             tx_bind (if delta \<noteq> 0 then
                 tx_bind (lift_repo (insert_ledger_entry env
                   \<lparr>lp_wallet_id = w_id w, lp_type = EntryReservationAdjust, lp_available_delta = i64 (- delta),
                    lp_reserved_delta = delta, lp_order_id = Some oid, lp_counterparty = None,
                    lp_key = adjust_key oid seq\<rparr>)) (\<lambda>_.
                 tx_bind (lift_repo (apply_deltas env (w_id w) (i64 (- delta)) delta)) (\<lambda>_. tx_return ()))
               else tx_return ()) (\<lambda>_.
             tx_bind (lift_repo (adjust_reservation env (r_id res) new_amount seq)) (\<lambda>_.
             tx_return ((mk_result ResultAdjusted)\<lparr>res_amount := new_amount, res_seq := seq\<rparr>))))"

definition release_op :: "db_env \<Rightarrow> string \<Rightarrow> string \<Rightarrow> credit_result svc" where
  "release_op env oid sub =
     tx_bind (lock_reservation oid sub) (\<lambda>locked. case locked of
       None \<Rightarrow> tx_bind (lift_repo (insert_released_order oid)) (\<lambda>_. tx_return (mk_result ResultReleased))
     | Some (res, w) \<Rightarrow>
         (case r_status res of
            ReservationReleased \<Rightarrow> tx_return (mk_result ResultReleased)
          | ReservationTransferred \<Rightarrow>
              tx_return ((mk_result ResultOperationFailed)\<lparr>res_code := CodeReservationAlreadyTransferred\<rparr>)
          | ReservationActive \<Rightarrow>
              tx_bind (lift_repo (insert_ledger_entry env
                \<lparr>lp_wallet_id = w_id w, lp_type = EntryRelease, lp_available_delta = r_amount res,
                 lp_reserved_delta = i64 (- r_amount res), lp_order_id = Some oid, lp_counterparty = None,
                 lp_key = release_key oid\<rparr>)) (\<lambda>_.
              tx_bind (lift_repo (apply_deltas env (w_id w) (r_amount res) (i64 (- r_amount res)))) (\<lambda>_.
              tx_bind (lift_repo (update_reservation env (r_id res) (r_amount res) ReservationReleased)) (\<lambda>_.
              tx_return (mk_result ResultReleased))))))"

definition op_failed :: "result_code \<Rightarrow> credit_result" where
  "op_failed code = (mk_result ResultOperationFailed)\<lparr>res_code := code\<rparr>"

text \<open>
  The rows the transfer locked, told apart by subject: the loop keeps the last row of each kind.
\<close>

definition pick_wallets :: "string \<Rightarrow> wallet_row list \<Rightarrow> wallet_row \<times> wallet_row" where
  "pick_wallets requester ws =
     (last (filter (\<lambda>w. w_auth0_subject w = requester) ws), last (filter (\<lambda>w. w_auth0_subject w \<noteq> requester) ws))"

definition transfer_writes :: "db_env \<Rightarrow> string \<Rightarrow> int \<Rightarrow> reservation \<Rightarrow> wallet_row \<Rightarrow> wallet_row \<Rightarrow> credit_result svc" where
  "transfer_writes env oid amount res requester courier =
     (let from_reservation = min (r_amount res) amount;
          shortfall = i64 (amount - from_reservation);
          surplus = i64 (r_amount res - from_reservation)
      in if shortfall > w_available requester then tx_return (op_failed CodeInsufficientCredits)
         else
           tx_bind (lift_repo (insert_ledger_entry env
             \<lparr>lp_wallet_id = w_id requester, lp_type = EntryTransferOut, lp_available_delta = i64 (- shortfall),
              lp_reserved_delta = i64 (- from_reservation), lp_order_id = Some oid,
              lp_counterparty = Some (w_id courier), lp_key = transfer_key oid\<rparr>)) (\<lambda>_.
           tx_bind (lift_repo (insert_ledger_entry env
             \<lparr>lp_wallet_id = w_id courier, lp_type = EntryTransferIn, lp_available_delta = amount,
              lp_reserved_delta = 0, lp_order_id = Some oid,
              lp_counterparty = Some (w_id requester), lp_key = transfer_key oid\<rparr>)) (\<lambda>_.
           tx_bind (if surplus > 0 then
               tx_bind (lift_repo (insert_ledger_entry env
                 \<lparr>lp_wallet_id = w_id requester, lp_type = EntryRelease, lp_available_delta = surplus,
                  lp_reserved_delta = i64 (- surplus), lp_order_id = Some oid, lp_counterparty = None,
                  lp_key = surplus_key oid\<rparr>)) (\<lambda>_. tx_return ())
             else tx_return ()) (\<lambda>_.
           tx_bind (lift_repo (apply_deltas env (w_id requester) (i64 (surplus - shortfall)) (i64 (- r_amount res)))) (\<lambda>_.
           tx_bind (lift_repo (apply_deltas env (w_id courier) amount 0)) (\<lambda>_.
           tx_bind (lift_repo (update_reservation env (r_id res) (r_amount res) ReservationTransferred)) (\<lambda>_.
           tx_return (mk_result ResultTransferred))))))))"

definition transfer_op :: "db_env \<Rightarrow> string \<Rightarrow> string \<Rightarrow> string \<Rightarrow> int \<Rightarrow> credit_result svc" where
  "transfer_op env oid requester_sub courier_sub amount =
     on_not_found (get_reservation_by_order oid)
       (tx_bind (lift_repo (is_order_released oid)) (\<lambda>released.
          tx_return (op_failed (if released then CodeReservationAlreadyReleased else CodeReservationNotFound))))
       (\<lambda>res0.
          on_not_found (lock_wallets_by_auth0_subject [requester_sub, courier_sub])
            (tx_return (op_failed CodeAccountNotFound))
            (\<lambda>wallets. let (requester, courier) = pick_wallets requester_sub wallets in
               if w_id requester \<noteq> r_wallet_id res0 then tx_fail WConflict
               else tx_bind (lift_repo (get_reservation_by_order oid)) (\<lambda>res.
                 case r_status res of
                   ReservationTransferred \<Rightarrow> tx_return (mk_result ResultTransferred)
                 | ReservationReleased \<Rightarrow> tx_return (op_failed CodeReservationAlreadyReleased)
                 | ReservationActive \<Rightarrow> transfer_writes env oid amount res requester courier)))"

section \<open>Running a command once\<close>

definition execute_tx :: "wallet_service \<Rightarrow> db_env \<Rightarrow> string \<Rightarrow> reply \<Rightarrow> credit_result svc \<Rightarrow> credit_result svc" where
  "execute_tx svc env mid rp op =
     tx_bind (lift_repo (lock_command mid)) (\<lambda>_.
     tx_bind (on_not_found (get_processed_command mid)
         (tx_bind op (\<lambda>result.
            if res_type result \<noteq> ResultOperationFailed then
              tx_bind (lift_repo (insert_processed_command
                \<lparr>pc_message_id = mid, pc_result_type = result_type_text (res_type result),
                 pc_result = result_to_json result\<rparr>)) (\<lambda>_. tx_return result)
            else tx_return result))
         (\<lambda>stored. case result_of_json (pc_result stored) of
            None \<Rightarrow> tx_fail (WOther ''unmarshal'') | Some result \<Rightarrow> tx_return result)) (\<lambda>result.
     case ws_recorder svc of
       None \<Rightarrow> tx_return result
     | Some record_result \<Rightarrow>
         tx_bind (record_result env (rp\<lparr>rp_command_message_id := mid\<rparr>) result) (\<lambda>_. tx_return result)))"

definition execute :: "wallet_service \<Rightarrow> db_env \<Rightarrow> string \<Rightarrow> reply \<Rightarrow> credit_result svc \<Rightarrow> credit_db
    \<Rightarrow> (wallet_error + credit_result) \<times> credit_db" where
  "execute svc env mid rp op s =
     (if mid = [] \<or> max_message_id_length < length mid then (Inl WInvalid, s)
      else run_tx (execute_tx svc env mid rp op) s)"

definition mk_reply :: "string \<Rightarrow> int \<Rightarrow> reply" where
  "mk_reply oid version = \<lparr>rp_command_message_id = [], rp_order_id = oid, rp_errand_version = version\<rparr>"

definition reserve :: "wallet_service \<Rightarrow> db_env \<Rightarrow> string \<Rightarrow> reserve_command \<Rightarrow> credit_db
    \<Rightarrow> (wallet_error + credit_result) \<times> credit_db" where
  "reserve svc env mid c s =
     (case validate_order_id (rc_order_id c) of Inl e \<Rightarrow> (Inl e, s)
      | Inr oid \<Rightarrow>
          if \<not> validate_subject (rc_requester_subject c) then (Inl WInvalid, s)
          else if rc_amount c \<le> 0 then (Inl WInvalid, s)
          else execute svc env mid (mk_reply oid (rc_errand_version c))
                 (reserve_op env oid (rc_requester_subject c) (rc_amount c)) s)"

definition adjust :: "wallet_service \<Rightarrow> db_env \<Rightarrow> string \<Rightarrow> adjust_command \<Rightarrow> credit_db
    \<Rightarrow> (wallet_error + credit_result) \<times> credit_db" where
  "adjust svc env mid c s =
     (case validate_order_id (ac_order_id c) of Inl e \<Rightarrow> (Inl e, s)
      | Inr oid \<Rightarrow>
          if \<not> validate_subject (ac_requester_subject c) then (Inl WInvalid, s)
          else if ac_new_amount c \<le> 0 then (Inl WInvalid, s)
          else if ac_seq c \<le> 0 then (Inl WInvalid, s)
          else execute svc env mid (mk_reply oid (ac_errand_version c))
                 (adjust_op env oid (ac_requester_subject c) (ac_new_amount c) (ac_seq c)) s)"

definition release :: "wallet_service \<Rightarrow> db_env \<Rightarrow> string \<Rightarrow> release_command \<Rightarrow> credit_db
    \<Rightarrow> (wallet_error + credit_result) \<times> credit_db" where
  "release svc env mid c s =
     (case validate_order_id (lc_order_id c) of Inl e \<Rightarrow> (Inl e, s)
      | Inr oid \<Rightarrow>
          if \<not> validate_subject (lc_requester_subject c) then (Inl WInvalid, s)
          else execute svc env mid (mk_reply oid (lc_errand_version c))
                 (release_op env oid (lc_requester_subject c)) s)"

definition transfer :: "wallet_service \<Rightarrow> db_env \<Rightarrow> string \<Rightarrow> transfer_command \<Rightarrow> credit_db
    \<Rightarrow> (wallet_error + credit_result) \<times> credit_db" where
  "transfer svc env mid c s =
     (case validate_order_id (tc_order_id c) of Inl e \<Rightarrow> (Inl e, s)
      | Inr oid \<Rightarrow>
          if \<not> validate_subject (tc_requester_subject c) then (Inl WInvalid, s)
          else if \<not> validate_subject (tc_courier_subject c) then (Inl WInvalid, s)
          else if tc_courier_subject c = tc_requester_subject c then (Inl WInvalid, s)
          else if tc_amount c \<le> 0 then (Inl WInvalid, s)
          else execute svc env mid (mk_reply oid (tc_errand_version c))
                 (transfer_op env oid (tc_requester_subject c) (tc_courier_subject c) (tc_amount c)) s)"

end
