(* ===== verification/Wallet_Invariant.thy ===== *)
theory Wallet_Invariant
  imports Wallet_Service
begin

text \<open>
  What the tables of credit-service keep: keys are unique and refer to existing rows,
  balances and amounts are in range, every balance is the sum of its ledger entries
  (the audit equation of the migration), every reserved balance is the sum of the active
  reservations it backs, and every ledger key belongs to the allocation or to a reservation
  whose state allows it. Each command is first characterised by the state it leaves
  (\<open>reserve_op_cases\<close> and its kin); the invariant and the conservation of credits
  follow for each of these states.
\<close>

section \<open>Statements that succeed\<close>

definition post_entry :: "db_env \<Rightarrow> ledger_params \<Rightarrow> credit_db \<Rightarrow> credit_db" where
  "post_entry env p s =
     s\<lparr>db_ledger := db_ledger s @ [new_ledger_entry env (db_ledger_seq s + 1) p], db_ledger_seq := db_ledger_seq s + 1\<rparr>"

definition post_deltas :: "db_env \<Rightarrow> string \<Rightarrow> int \<Rightarrow> int \<Rightarrow> credit_db \<Rightarrow> credit_db" where
  "post_deltas env wid ad rd s =
     s\<lparr>db_wallets := update_where (\<lambda>w. w_id w = wid) (add_deltas env ad rd) (db_wallets s)\<rparr>"

definition post_reservation :: "string \<Rightarrow> (reservation \<Rightarrow> reservation) \<Rightarrow> credit_db \<Rightarrow> credit_db" where
  "post_reservation rid f s = s\<lparr>db_reservations := update_where (\<lambda>r. r_id r = rid) f (db_reservations s)\<rparr>"

definition add_reservation :: "reservation \<Rightarrow> credit_db \<Rightarrow> credit_db" where
  "add_reservation r s = s\<lparr>db_reservations := db_reservations s @ [r]\<rparr>"

lemmas post_defs = post_entry_def post_deltas_def post_reservation_def add_reservation_def

lemma lift_repo_Inr [simp]: "lift_repo m s = Inr r \<longleftrightarrow> m s = Inr r"
  by (simp add: lift_repo_def split: sum.splits)

lemma check_that_Inr [simp]: "check_that ok e s = Inr (u, s') \<longleftrightarrow> ok \<and> s' = s"
  by (auto simp: check_that_def)

lemma one_row_Inr [simp]: "one_row r s = Inr (a, s') \<longleftrightarrow> r = Some a \<and> s' = s"
  by (auto simp: one_row_def split: option.splits)

lemma tx_bind_Inr_iff: "tx_bind m f s = Inr r \<longleftrightarrow> (\<exists>a s1. m s = Inr (a, s1) \<and> f a s1 = Inr r)"
  by (auto simp: tx_bind_def split: sum.splits prod.splits)

lemma on_not_found_Inr_iff:
  "on_not_found m missing found s = Inr r \<longleftrightarrow>
     (m s = Inl ErrNotFound \<and> missing s = Inr r) \<or> (\<exists>a s1. m s = Inr (a, s1) \<and> found a s1 = Inr r)"
  by (auto simp: on_not_found_def tx_catch_def split: sum.splits prod.splits if_splits)

lemma insert_ledger_entry_Inr:
  "insert_ledger_entry env p s = Inr (e, s') \<longleftrightarrow>
     (lp_available_delta p \<noteq> 0 \<or> lp_reserved_delta p \<noteq> 0) \<and> lp_key p \<noteq> []
     \<and> \<not> ledger_has (db_ledger s) (lp_wallet_id p) (lp_key p)
     \<and> lp_wallet_id p \<in> w_id ` set (db_wallets s)
     \<and> (case lp_counterparty p of None \<Rightarrow> True | Some c \<Rightarrow> c \<in> w_id ` set (db_wallets s))
     \<and> e = new_ledger_entry env (db_ledger_seq s + 1) p \<and> s' = post_entry env p s"
  by (auto simp: insert_ledger_entry_def tx_bind_Inr_iff post_entry_def Let_def split: if_splits option.splits)

lemma apply_deltas_Inr:
  "apply_deltas env wid ad rd s = Inr (w', s') \<longleftrightarrow>
     (\<exists>w. find (\<lambda>w. w_id w = wid) (db_wallets s) = Some w
        \<and> in_int64 (w_available w + ad) \<and> in_int64 (w_reserved w + rd) \<and> in_int64 (w_version w + 1)
        \<and> 0 \<le> w_available w + ad \<and> 0 \<le> w_reserved w + rd
        \<and> w' = add_deltas env ad rd w \<and> s' = post_deltas env wid ad rd s)"
  by (auto simp: apply_deltas_def find_wallet_def tx_bind_Inr_iff post_deltas_def)

lemma create_reservation_Inr:
  "create_reservation env wid oid amount s = Inr (r, s') \<longleftrightarrow>
     0 < amount \<and> env_uuid env \<notin> r_id ` set (db_reservations s) \<and> oid \<notin> r_order_id ` set (db_reservations s)
     \<and> wid \<in> w_id ` set (db_wallets s)
     \<and> r = new_reservation env wid oid amount \<and> s' = add_reservation r s"
  by (auto simp: create_reservation_def tx_bind_Inr_iff add_reservation_def split: if_splits)

lemma change_reservation_Inr:
  "change_reservation rid amount f s = Inr (r', s') \<longleftrightarrow>
     (\<exists>r. find (\<lambda>r. r_id r = rid) (db_reservations s) = Some r \<and> 0 < amount \<and> r' = f r
        \<and> s' = post_reservation rid f s)"
  by (auto simp: change_reservation_def tx_bind_Inr_iff post_reservation_def)

lemma get_reservation_Inr:
  "get_reservation_by_order oid s = Inr (r, s') \<longleftrightarrow>
     find (\<lambda>r. r_order_id r = oid) (db_reservations s) = Some r \<and> s' = s"
  by (auto simp: get_reservation_by_order_def)

lemma get_reservation_missing:
  "get_reservation_by_order oid s = Inl e \<longleftrightarrow> e = ErrNotFound \<and> oid \<notin> r_order_id ` set (db_reservations s)"
  by (auto simp: get_reservation_by_order_def mapped_def one_row_def find_None_iff2 split: sum.splits option.splits
      dest: find_Some_mem)

lemma remdups_adj_sort_single [simp]: "remdups_adj (sort [x]) = [x :: string]"
  by simp

lemma lock_one_Inr:
  assumes "lock_wallets_by_auth0_subject [sub] s = Inr (ws, s')"
  obtains w where "ws = [w]" "s' = s" "w \<in> set (db_wallets s)" "w_auth0_subject w = sub"
proof -
  from assms have ws: "ws = sort_key w_id (filter (\<lambda>w. w_auth0_subject w \<in> {sub}) (db_wallets s))"
    "length ws = 1" "s' = s"
    by (auto simp: lock_wallets_by_auth0_subject_def Let_def split: if_splits)
  from ws(2) obtain w where "ws = [w]" by (metis One_nat_def length_0_conv length_Suc_conv)
  moreover have "set ws = {w \<in> set (db_wallets s). w_auth0_subject w = sub}" using ws(1) by auto
  ultimately have "w \<in> set (db_wallets s)" "w_auth0_subject w = sub" by auto
  then show thesis using that \<open>ws = [w]\<close> ws(3) by blast
qed

lemma lock_wallets_same: "lock_wallets_by_auth0_subject subs s = Inr (ws, s') \<Longrightarrow> s' = s"
  by (auto simp: lock_wallets_by_auth0_subject_def Let_def split: if_splits)

lemma lock_one_Inl:
  "lock_wallets_by_auth0_subject [sub] s = Inl e \<Longrightarrow> e = ErrNotFound"
  by (auto simp: lock_wallets_by_auth0_subject_def Let_def split: if_splits)

lemma lock_reservation_Inr:
  assumes "lock_reservation oid sub s = Inr (locked, s')"
  shows "s' = s \<and> (case locked of
      None \<Rightarrow> oid \<notin> r_order_id ` set (db_reservations s)
    | Some (res, w) \<Rightarrow> find (\<lambda>r. r_order_id r = oid) (db_reservations s) = Some res
        \<and> w \<in> set (db_wallets s) \<and> w_auth0_subject w = sub \<and> r_wallet_id res = w_id w)"
  using assms unfolding lock_reservation_def
  by (auto simp: on_not_found_Inr_iff get_reservation_Inr get_reservation_missing elim!: lock_one_Inr split: if_splits)

lemma lock_reservation_same: "lock_reservation oid sub s = Inr (locked, s') \<Longrightarrow> s' = s"
  using lock_reservation_Inr by blast

section \<open>The invariant\<close>

definition keys_unique :: "credit_db \<Rightarrow> bool" where
  "keys_unique s \<longleftrightarrow> distinct (map w_id (db_wallets s)) \<and> distinct (map w_owner_id (db_wallets s))
     \<and> distinct (map w_auth0_subject (db_wallets s))
     \<and> distinct (map r_id (db_reservations s)) \<and> distinct (map r_order_id (db_reservations s))
     \<and> distinct (map (\<lambda>e. (l_wallet_id e, l_idempotency_key e)) (db_ledger s))"

definition refs_exist :: "credit_db \<Rightarrow> bool" where
  "refs_exist s \<longleftrightarrow> (\<forall>r \<in> set (db_reservations s). r_wallet_id r \<in> w_id ` set (db_wallets s))
     \<and> (\<forall>e \<in> set (db_ledger s). l_wallet_id e \<in> w_id ` set (db_wallets s))"

definition in_range :: "credit_db \<Rightarrow> bool" where
  "in_range s \<longleftrightarrow>
     (\<forall>w \<in> set (db_wallets s). 0 \<le> w_available w \<and> in_int64 (w_available w) \<and> 0 \<le> w_reserved w \<and> in_int64 (w_reserved w))
     \<and> (\<forall>r \<in> set (db_reservations s). 0 < r_amount r \<and> in_int64 (r_amount r) \<and> 0 \<le> r_last_adjust_seq r
          \<and> length (r_order_id r) = 36)"

definition ledger_total :: "(ledger_entry \<Rightarrow> int) \<Rightarrow> string \<Rightarrow> ledger_entry list \<Rightarrow> int" where
  "ledger_total f wid es = sum_list (map f (filter (\<lambda>e. l_wallet_id e = wid) es))"

definition active_total :: "string \<Rightarrow> reservation list \<Rightarrow> int" where
  "active_total wid rs =
     sum_list (map (\<lambda>r. if r_wallet_id r = wid \<and> r_status r = ReservationActive then r_amount r else 0) rs)"

definition books_balance :: "credit_db \<Rightarrow> bool" where
  "books_balance s \<longleftrightarrow> (\<forall>w \<in> set (db_wallets s).
     w_available w = ledger_total l_available_delta (w_id w) (db_ledger s)
     \<and> w_reserved w = ledger_total l_reserved_delta (w_id w) (db_ledger s))"

definition reserved_backed :: "credit_db \<Rightarrow> bool" where
  "reserved_backed s \<longleftrightarrow>
     (\<forall>w \<in> set (db_wallets s). w_reserved w = active_total (w_id w) (db_reservations s))"

definition key_fits :: "reservation \<Rightarrow> string \<Rightarrow> bool" where
  "key_fits r k \<longleftrightarrow> k = reserve_key (r_order_id r)
     \<or> (\<exists>seq. 0 < seq \<and> seq \<le> r_last_adjust_seq r \<and> k = adjust_key (r_order_id r) seq)
     \<or> (r_status r = ReservationReleased \<and> k = release_key (r_order_id r))
     \<or> (r_status r = ReservationTransferred
         \<and> (k = transfer_key (r_order_id r) \<or> k = surplus_key (r_order_id r)))"

definition ledger_keys_fit :: "credit_db \<Rightarrow> bool" where
  "ledger_keys_fit s \<longleftrightarrow> (\<forall>e \<in> set (db_ledger s).
     l_idempotency_key e = initial_allocation_key
     \<or> (\<exists>r \<in> set (db_reservations s). key_fits r (l_idempotency_key e)))"

definition credit_inv :: "credit_db \<Rightarrow> bool" where
  "credit_inv s \<longleftrightarrow> keys_unique s \<and> refs_exist s \<and> in_range s \<and> books_balance s \<and> reserved_backed s
     \<and> ledger_keys_fit s"

definition total_credits :: "credit_db \<Rightarrow> int" where
  "total_credits s = sum_list (map (\<lambda>w. w_available w + w_reserved w) (db_wallets s))"

lemma credit_inv_empty: "credit_inv empty_credit_db"
  by (simp add: credit_inv_def empty_credit_db_def keys_unique_def refs_exist_def in_range_def books_balance_def
      reserved_backed_def ledger_keys_fit_def)

lemmas inv_defs = keys_unique_def refs_exist_def in_range_def books_balance_def reserved_backed_def
  ledger_keys_fit_def

section \<open>The state each command leaves\<close>

definition reserve_entry :: "string \<Rightarrow> string \<Rightarrow> int \<Rightarrow> ledger_params" where
  "reserve_entry wid oid amount =
     \<lparr>lp_wallet_id = wid, lp_type = EntryReserve, lp_available_delta = - amount, lp_reserved_delta = amount,
      lp_order_id = Some oid, lp_counterparty = None, lp_key = reserve_key oid\<rparr>"

definition adjust_entry :: "string \<Rightarrow> string \<Rightarrow> int \<Rightarrow> int \<Rightarrow> ledger_params" where
  "adjust_entry wid oid seq delta =
     \<lparr>lp_wallet_id = wid, lp_type = EntryReservationAdjust, lp_available_delta = - delta, lp_reserved_delta = delta,
      lp_order_id = Some oid, lp_counterparty = None, lp_key = adjust_key oid seq\<rparr>"

definition release_entry :: "string \<Rightarrow> string \<Rightarrow> int \<Rightarrow> ledger_params" where
  "release_entry wid oid amount =
     \<lparr>lp_wallet_id = wid, lp_type = EntryRelease, lp_available_delta = amount, lp_reserved_delta = - amount,
      lp_order_id = Some oid, lp_counterparty = None, lp_key = release_key oid\<rparr>"

definition reserve_post :: "db_env \<Rightarrow> string \<Rightarrow> string \<Rightarrow> int \<Rightarrow> credit_db \<Rightarrow> credit_db" where
  "reserve_post env wid oid amount s =
     add_reservation (new_reservation env wid oid amount)
       (post_deltas env wid (- amount) amount (post_entry env (reserve_entry wid oid amount) s))"

definition set_adjusted :: "db_env \<Rightarrow> int \<Rightarrow> int \<Rightarrow> reservation \<Rightarrow> reservation" where
  "set_adjusted env amount seq = (\<lambda>r. r\<lparr>r_amount := amount, r_last_adjust_seq := seq, r_updated_at := env_now env\<rparr>)"

definition set_status :: "db_env \<Rightarrow> int \<Rightarrow> reservation_status \<Rightarrow> reservation \<Rightarrow> reservation" where
  "set_status env amount status = (\<lambda>r. r\<lparr>r_amount := amount, r_status := status, r_updated_at := env_now env\<rparr>)"

definition adjust_post :: "db_env \<Rightarrow> string \<Rightarrow> reservation \<Rightarrow> int \<Rightarrow> int \<Rightarrow> credit_db \<Rightarrow> credit_db" where
  "adjust_post env oid res new_amount seq s =
     (let delta = new_amount - r_amount res; wid = r_wallet_id res in
      post_reservation (r_id res) (set_adjusted env new_amount seq)
        (if delta \<noteq> 0 then post_deltas env wid (- delta) delta (post_entry env (adjust_entry wid oid seq delta) s)
         else s))"

definition release_post :: "db_env \<Rightarrow> string \<Rightarrow> reservation \<Rightarrow> credit_db \<Rightarrow> credit_db" where
  "release_post env oid res s =
     post_reservation (r_id res) (set_status env (r_amount res) ReservationReleased)
       (post_deltas env (r_wallet_id res) (r_amount res) (- r_amount res)
         (post_entry env (release_entry (r_wallet_id res) oid (r_amount res)) s))"

lemma find_wallet_by_id:
  "keys_unique s \<Longrightarrow> w \<in> set (db_wallets s) \<Longrightarrow> find (\<lambda>w'. w_id w' = w_id w) (db_wallets s) = Some w"
  by (auto simp: keys_unique_def intro: find_key_unique)

lemma find_reservation_by_id:
  "keys_unique s \<Longrightarrow> r \<in> set (db_reservations s) \<Longrightarrow> find (\<lambda>r'. r_id r' = r_id r) (db_reservations s) = Some r"
  by (auto simp: keys_unique_def intro: find_key_unique)

lemma find_key_None: "k \<notin> key ` set rows \<Longrightarrow> find (\<lambda>r. key r = k) rows = None"
  by (auto simp: find_None_iff2)

lemma reserve_op_cases:
  assumes "reserve_op env oid sub amount s = Inr (result, s')" "keys_unique s" "in_range s" "0 < amount"
  obtains (unchanged) "s' = s" "res_type result = ResultReserved \<Longrightarrow> oid \<in> r_order_id ` set (db_reservations s)"
  | (reserved) w where
    "w \<in> set (db_wallets s)" "w_auth0_subject w = sub" "amount \<le> w_available w"
    "oid \<notin> set (db_released s)" "oid \<notin> r_order_id ` set (db_reservations s)"
    "env_uuid env \<notin> r_id ` set (db_reservations s)" "in_int64 (w_reserved w + amount)"
    "\<not> ledger_has (db_ledger s) (w_id w) (reserve_key oid)"
    "result = (mk_result ResultReserved)\<lparr>res_amount := amount\<rparr>" "s' = reserve_post env (w_id w) oid amount s"
proof -
  have neg: "i64 (- amount) = - amount" if "w \<in> set (db_wallets s)" "amount \<le> w_available w" for w
    using assms(3,4) that by (intro i64_id in_int64_uminus) (auto simp: in_range_def intro: in_int64_pos)
  show thesis
  proof (cases "s' = s \<and> (res_type result = ResultReserved \<longrightarrow> oid \<in> r_order_id ` set (db_reservations s))")
    case False
    with assms(1) obtain ws where ws: "lock_wallets_by_auth0_subject [sub] s = Inr (ws, s)"
      and av: "\<not> w_available (hd ws) < amount" and fresh: "oid \<notin> set (db_released s)" "oid \<notin> r_order_id ` set (db_reservations s)"
      by (auto simp: reserve_op_def is_order_released_def tx_bind_Inr_iff on_not_found_Inr_iff get_reservation_Inr
          get_reservation_missing Let_def mk_result_def elim: lock_one_Inr dest: find_Some_mem split: if_splits)
    from ws obtain w where w: "ws = [w]" "w \<in> set (db_wallets s)" "w_auth0_subject w = sub"
      by (rule lock_one_Inr)
    have "find (\<lambda>w'. w_id w' = w_id w) (db_wallets s) = Some w"
      using assms(2) w(2) by (rule find_wallet_by_id)
    with False assms(1) ws w av fresh neg [of w] find_key_None [OF fresh(2)] show thesis
      by (intro reserved [of w])
        (auto simp: reserve_op_def is_order_released_def tx_bind_Inr_iff on_not_found_Inr_iff get_reservation_Inr
          get_reservation_missing Let_def insert_ledger_entry_Inr apply_deltas_Inr create_reservation_Inr
          reserve_post_def reserve_entry_def post_defs split: if_splits)
  qed (rule unchanged, auto)
qed

lemma adjust_op_cases:
  assumes "adjust_op env oid sub new_amount seq s = Inr (result, s')" "keys_unique s" "in_range s"
    "0 < new_amount" "in_int64 new_amount"
  obtains (unchanged) "s' = s" | (adjusted) res w where
    "find (\<lambda>r. r_order_id r = oid) (db_reservations s) = Some res" "w \<in> set (db_wallets s)"
    "w_id w = r_wallet_id res" "w_auth0_subject w = sub" "r_status res = ReservationActive"
    "r_last_adjust_seq res < seq" "new_amount - r_amount res \<le> w_available w"
    "in_int64 (w_available w + (r_amount res - new_amount))" "in_int64 (w_reserved w + (new_amount - r_amount res))"
    "0 \<le> w_reserved w + (new_amount - r_amount res)"
    "new_amount \<noteq> r_amount res \<Longrightarrow> \<not> ledger_has (db_ledger s) (r_wallet_id res) (adjust_key oid seq)"
    "s' = adjust_post env oid res new_amount seq s"
proof (cases "s' = s")
  case True
  then show thesis by (rule unchanged)
next
  case False
  from assms(1) obtain locked where l0: "lock_reservation oid sub s = Inr (locked, s)"
    by (auto simp: adjust_op_def tx_bind_Inr_iff dest: lock_reservation_same)
  with False assms(1) obtain res w where l: "lock_reservation oid sub s = Inr (Some (res, w), s)"
    by (cases locked) (auto simp: adjust_op_def tx_bind_Inr_iff)
  from lock_reservation_Inr [OF this] have
    res: "find (\<lambda>r. r_order_id r = oid) (db_reservations s) = Some res" and
    w: "w \<in> set (db_wallets s)" "w_auth0_subject w = sub" "r_wallet_id res = w_id w" by auto
  have rin: "res \<in> set (db_reservations s)" using find_Some_mem [OF res] by simp
  then have delta: "i64 (new_amount - r_amount res) = new_amount - r_amount res"
    using assms(3-5) by (intro i64_id in_int64_diff) (auto simp: in_range_def)
  have ndelta: "i64 (r_amount res - new_amount) = r_amount res - new_amount"
    using assms(3-5) rin by (intro i64_id in_int64_diff) (auto simp: in_range_def)
  have rng: "0 \<le> w_available w" "in_int64 (w_available w)" "0 \<le> w_reserved w" "in_int64 (w_reserved w)"
    using assms(3) w(1) by (auto simp: in_range_def)
  from find_wallet_by_id [OF assms(2) w(1)] find_reservation_by_id [OF assms(2) rin] False assms(1) l res w delta ndelta rng
  have "r_status res = ReservationActive \<and> r_last_adjust_seq res < seq \<and> new_amount - r_amount res \<le> w_available w
      \<and> in_int64 (w_available w + (r_amount res - new_amount)) \<and> in_int64 (w_reserved w + (new_amount - r_amount res))
      \<and> 0 \<le> w_reserved w + (new_amount - r_amount res)
      \<and> (new_amount \<noteq> r_amount res \<longrightarrow> \<not> ledger_has (db_ledger s) (r_wallet_id res) (adjust_key oid seq))
      \<and> s' = adjust_post env oid res new_amount seq s"
    by (auto simp: adjust_op_def tx_bind_Inr_iff Let_def insert_ledger_entry_Inr apply_deltas_Inr adjust_reservation_def
        change_reservation_Inr adjust_post_def adjust_entry_def set_adjusted_def post_defs split: if_splits)
  with res w show thesis by (intro adjusted [of res w]) auto
qed

lemma release_op_cases:
  assumes "release_op env oid sub s = Inr (result, s')" "keys_unique s" "in_range s"
  obtains (unchanged) "s' = s"
      "\<And>res. find (\<lambda>r. r_order_id r = oid) (db_reservations s) = Some res \<Longrightarrow> r_status res \<noteq> ReservationActive"
      "oid \<notin> r_order_id ` set (db_reservations s) \<Longrightarrow> oid \<in> set (db_released s)"
  | (tombstone) "oid \<notin> r_order_id ` set (db_reservations s)"
    "result = mk_result ResultReleased" "s' = s\<lparr>db_released := db_released s @ [oid]\<rparr>"
  | (released) res w where
    "find (\<lambda>r. r_order_id r = oid) (db_reservations s) = Some res" "w \<in> set (db_wallets s)"
    "w_id w = r_wallet_id res" "w_auth0_subject w = sub" "r_status res = ReservationActive"
    "in_int64 (w_available w + r_amount res)" "r_amount res \<le> w_reserved w"
    "\<not> ledger_has (db_ledger s) (r_wallet_id res) (release_key oid)"
    "result = mk_result ResultReleased" "s' = release_post env oid res s"
proof (cases "s' = s \<and> (\<forall>res. find (\<lambda>r. r_order_id r = oid) (db_reservations s) = Some res \<longrightarrow> r_status res \<noteq> ReservationActive)
    \<and> (oid \<notin> r_order_id ` set (db_reservations s) \<longrightarrow> oid \<in> set (db_released s))")
  case True
  then show thesis by (intro unchanged) auto
next
  case False
  from assms(1) obtain locked where l: "lock_reservation oid sub s = Inr (locked, s)"
    by (auto simp: release_op_def tx_bind_Inr_iff dest: lock_reservation_same)
  show thesis
  proof (cases locked)
    case None
    with lock_reservation_Inr [OF l] have "oid \<notin> r_order_id ` set (db_reservations s)" by simp
    with l None False assms(1) find_key_None [OF this] show thesis
      by (intro tombstone) (auto simp: release_op_def tx_bind_Inr_iff insert_released_order_def split: if_splits)
  next
    case (Some rw)
    obtain res w where rw: "rw = (res, w)" by fastforce
    from lock_reservation_Inr [OF l] Some rw have
      res: "find (\<lambda>r. r_order_id r = oid) (db_reservations s) = Some res" and
      w: "w \<in> set (db_wallets s)" "w_auth0_subject w = sub" "r_wallet_id res = w_id w" by auto
    have rin: "res \<in> set (db_reservations s)" and known: "oid \<in> r_order_id ` set (db_reservations s)"
      using find_Some_mem [OF res] by auto
    then have neg: "i64 (- r_amount res) = - r_amount res"
      using assms(3) by (intro i64_id in_int64_uminus) (auto simp: in_range_def)
    from find_wallet_by_id [OF assms(2) w(1)] find_reservation_by_id [OF assms(2) rin] known False assms(1) l Some rw res w neg
    have "r_status res = ReservationActive \<and> in_int64 (w_available w + r_amount res) \<and> r_amount res \<le> w_reserved w
        \<and> \<not> ledger_has (db_ledger s) (r_wallet_id res) (release_key oid)
        \<and> result = mk_result ResultReleased \<and> s' = release_post env oid res s"
      by (auto simp: release_op_def tx_bind_Inr_iff insert_ledger_entry_Inr apply_deltas_Inr update_reservation_def
          change_reservation_Inr release_post_def release_entry_def set_status_def post_defs split: reservation_status.splits)
    with res w show thesis by (intro released [of res w]) auto
  qed
qed

definition transfer_out_entry :: "string \<Rightarrow> string \<Rightarrow> string \<Rightarrow> int \<Rightarrow> int \<Rightarrow> ledger_params" where
  "transfer_out_entry wid cid oid shortfall from_reservation =
     \<lparr>lp_wallet_id = wid, lp_type = EntryTransferOut, lp_available_delta = - shortfall,
      lp_reserved_delta = - from_reservation, lp_order_id = Some oid, lp_counterparty = Some cid,
      lp_key = transfer_key oid\<rparr>"

definition transfer_in_entry :: "string \<Rightarrow> string \<Rightarrow> string \<Rightarrow> int \<Rightarrow> ledger_params" where
  "transfer_in_entry cid wid oid amount =
     \<lparr>lp_wallet_id = cid, lp_type = EntryTransferIn, lp_available_delta = amount, lp_reserved_delta = 0,
      lp_order_id = Some oid, lp_counterparty = Some wid, lp_key = transfer_key oid\<rparr>"

definition surplus_entry :: "string \<Rightarrow> string \<Rightarrow> int \<Rightarrow> ledger_params" where
  "surplus_entry wid oid surplus =
     \<lparr>lp_wallet_id = wid, lp_type = EntryRelease, lp_available_delta = surplus, lp_reserved_delta = - surplus,
      lp_order_id = Some oid, lp_counterparty = None, lp_key = surplus_key oid\<rparr>"

definition transfer_post :: "db_env \<Rightarrow> string \<Rightarrow> int \<Rightarrow> reservation \<Rightarrow> string \<Rightarrow> string \<Rightarrow> credit_db \<Rightarrow> credit_db" where
  "transfer_post env oid amount res wid cid s =
     (let from_reservation = min (r_amount res) amount;
          shortfall = amount - from_reservation;
          surplus = r_amount res - from_reservation;
          s1 = post_entry env (transfer_in_entry cid wid oid amount)
                 (post_entry env (transfer_out_entry wid cid oid shortfall from_reservation) s);
          s2 = (if surplus > 0 then post_entry env (surplus_entry wid oid surplus) s1 else s1)
      in post_reservation (r_id res) (set_status env (r_amount res) ReservationTransferred)
           (post_deltas env cid amount 0 (post_deltas env wid (surplus - shortfall) (- r_amount res) s2)))"

lemma remdups_adj_sort_two:
  "x \<noteq> (y :: string) \<Longrightarrow> set (remdups_adj (sort [x, y])) = {x, y} \<and> length (remdups_adj (sort [x, y])) = 2"
  by auto

lemma lock_two_Inr:
  assumes "lock_wallets_by_auth0_subject [x, y] s = Inr (ws, s')" "x \<noteq> y" "keys_unique s"
  obtains rw cw where "pick_wallets x ws = (rw, cw)" "s' = s" "rw \<in> set (db_wallets s)" "w_auth0_subject rw = x"
    "cw \<in> set (db_wallets s)" "w_auth0_subject cw = y"
proof -
  let ?f = "filter (\<lambda>w. w_auth0_subject w \<in> {x, y}) (db_wallets s)"
  from assms(1) remdups_adj_sort_two [OF assms(2)] have ws: "ws = sort_key w_id ?f" "length ws = 2" "s' = s"
    by (auto simp: lock_wallets_by_auth0_subject_def Let_def split: if_splits)
  have "distinct (map w_auth0_subject ?f)"
    using assms(3) by (simp add: keys_unique_def distinct_map_filter)
  then have "card (w_auth0_subject ` set ws) = 2"
    using ws(1,2) distinct_card [of "map w_auth0_subject ?f"] by simp
  moreover have "w_auth0_subject ` set ws \<subseteq> {x, y}" using ws(1) by auto
  ultimately have both: "w_auth0_subject ` set ws = {x, y}"
    using assms(2) by (intro card_subset_eq) auto
  from both have "x \<in> w_auth0_subject ` set ws" "y \<in> w_auth0_subject ` set ws" by simp_all
  then obtain a b where "a \<in> set ws" "w_auth0_subject a = x" "b \<in> set ws" "w_auth0_subject b = y"
    by (elim imageE) simp
  with assms(2) have "a \<in> set (filter (\<lambda>w. w_auth0_subject w = x) ws)" "b \<in> set (filter (\<lambda>w. w_auth0_subject w \<noteq> x) ws)"
    by simp_all
  then have "filter (\<lambda>w. w_auth0_subject w = x) ws \<noteq> []" "filter (\<lambda>w. w_auth0_subject w \<noteq> x) ws \<noteq> []"
    by (metis empty_iff empty_set)+
  note mem = this [THEN last_filter]
  let ?rw = "last (filter (\<lambda>w. w_auth0_subject w = x) ws)" and ?cw = "last (filter (\<lambda>w. w_auth0_subject w \<noteq> x) ws)"
  have sub: "set ws \<subseteq> set (db_wallets s)" using ws(1) by auto
  have "w_auth0_subject ?cw \<in> {x, y}" using both mem(2) by blast
  with mem(2) have "w_auth0_subject ?cw = y" by simp
  then show thesis
    using that [of ?rw ?cw] ws(3) mem sub by (simp add: pick_wallets_def subset_iff)
qed

lemma transfer_writes_cases:
  assumes "transfer_writes env oid amount res rw cw s = Inr (result, s')" "keys_unique s" "in_range s"
    "res \<in> set (db_reservations s)" "rw \<in> set (db_wallets s)" "cw \<in> set (db_wallets s)" "w_id rw \<noteq> w_id cw"
    "0 < amount" "in_int64 amount"
  obtains (unchanged) "s' = s" "result = op_failed CodeInsufficientCredits"
  | (paid) "amount - r_amount res \<le> w_available rw" "r_amount res \<le> w_reserved rw"
    "in_int64 (w_available rw + (r_amount res - amount))" "in_int64 (w_available cw + amount)"
    "result = mk_result ResultTransferred" "s' = transfer_post env oid amount res (w_id rw) (w_id cw) s"
proof (cases "s' = s \<and> result = op_failed CodeInsufficientCredits")
  case True
  then show thesis using unchanged by blast
next
  case False
  have rng: "0 < r_amount res" "in_int64 (r_amount res)" "0 \<le> w_available rw" "in_int64 (w_available rw)"
    using assms(3-5) by (auto simp: in_range_def)
  let ?f = "min (r_amount res) amount"
  have i64s: "i64 (amount - ?f) = amount - ?f" "i64 (r_amount res - ?f) = r_amount res - ?f"
    "i64 (- (amount - ?f)) = - (amount - ?f)" "i64 (- ?f) = - ?f" "i64 (- (r_amount res - ?f)) = - (r_amount res - ?f)"
    "i64 (r_amount res - ?f - (amount - ?f)) = r_amount res - ?f - (amount - ?f)" "i64 (- r_amount res) = - r_amount res"
    using rng assms(8,9) by (auto intro!: i64_id simp: in_int64_def int64_min_def int64_max_def)
  have found: "find (\<lambda>w. w_id w = w_id rw) (db_wallets s) = Some rw" "find (\<lambda>w. w_id w = w_id cw) (db_wallets s) = Some cw"
    using assms(2,5,6) by (simp_all add: find_wallet_by_id)
  have sums: "r_amount res - ?f - (amount - ?f) = r_amount res - amount" by simp
  have "amount - ?f \<le> w_available rw \<and> r_amount res \<le> w_reserved rw \<and> in_int64 (w_available rw + (r_amount res - amount))
      \<and> in_int64 (w_available cw + amount)
      \<and> result = mk_result ResultTransferred \<and> s' = transfer_post env oid amount res (w_id rw) (w_id cw) s"
    using assms(1) False assms(7)
    unfolding transfer_writes_def Let_def i64s
    by (auto simp: tx_bind_Inr_iff insert_ledger_entry_Inr apply_deltas_Inr update_reservation_def
        change_reservation_Inr transfer_post_def Let_def transfer_out_entry_def transfer_in_entry_def surplus_entry_def
        set_status_def found find_update_where_key add_deltas_def post_defs sums split: if_splits)
  then show thesis by (intro paid) auto
qed

lemma transfer_op_cases:
  assumes "transfer_op env oid x y amount s = Inr (result, s')" "x \<noteq> y" "keys_unique s" "in_range s"
    "0 < amount" "in_int64 amount"
  obtains (unchanged) "s' = s" "res_type result = ResultTransferred \<Longrightarrow>
      \<exists>res. find (\<lambda>r. r_order_id r = oid) (db_reservations s) = Some res \<and> r_status res = ReservationTransferred"
  | (paid) res rw cw where
    "find (\<lambda>r. r_order_id r = oid) (db_reservations s) = Some res" "r_status res = ReservationActive"
    "rw \<in> set (db_wallets s)" "w_auth0_subject rw = x" "w_id rw = r_wallet_id res"
    "cw \<in> set (db_wallets s)" "w_auth0_subject cw = y" "w_id rw \<noteq> w_id cw"
    "amount - r_amount res \<le> w_available rw" "r_amount res \<le> w_reserved rw"
    "in_int64 (w_available rw + (r_amount res - amount))" "in_int64 (w_available cw + amount)"
    "result = mk_result ResultTransferred" "s' = transfer_post env oid amount res (w_id rw) (w_id cw) s"
proof (cases "find (\<lambda>r. r_order_id r = oid) (db_reservations s)")
  case None
  with assms(1) show thesis
    by (intro unchanged) (auto simp: transfer_op_def on_not_found_Inr_iff get_reservation_Inr tx_bind_Inr_iff is_order_released_def
        op_failed_def mk_result_def)
next
  case (Some res)
  then have got: "get_reservation_by_order oid s = Inr (res, s)" by (simp add: get_reservation_Inr)
  show thesis
  proof (cases "lock_wallets_by_auth0_subject [x, y] s")
    case (Inl e)
    with assms(1) got show thesis
      by (intro unchanged) (auto simp: transfer_op_def on_not_found_Inr_iff op_failed_def mk_result_def)
  next
    case (Inr wss)
    obtain ws where ws: "lock_wallets_by_auth0_subject [x, y] s = Inr (ws, s)"
      using Inr lock_wallets_same by (cases wss) blast
    from lock_two_Inr [OF ws assms(2,3)] obtain rw cw where
      p: "pick_wallets x ws = (rw, cw)" "rw \<in> set (db_wallets s)" "w_auth0_subject rw = x"
        "cw \<in> set (db_wallets s)" "w_auth0_subject cw = y" by blast
    have ne: "w_id rw \<noteq> w_id cw"
      using p assms(2,3) distinct_key_eq [of w_id "db_wallets s" rw cw] by (auto simp: keys_unique_def)
    from assms(1) got ws p(1) have id: "w_id rw = r_wallet_id res"
      by (auto simp: transfer_op_def on_not_found_Inr_iff split: if_splits)
    have run: "transfer_op env oid x y amount s = (case r_status res of
        ReservationTransferred \<Rightarrow> tx_return (mk_result ResultTransferred)
      | ReservationReleased \<Rightarrow> tx_return (op_failed CodeReservationAlreadyReleased)
      | ReservationActive \<Rightarrow> transfer_writes env oid amount res rw cw) s"
      using got ws p(1) id by (simp add: transfer_op_def on_not_found_def tx_catch_def tx_bind_def lift_repo_def)
    show thesis
    proof (cases "r_status res")
      case ReservationActive
      then have tw: "transfer_writes env oid amount res rw cw s = Inr (result, s')" using run assms(1) by simp
      have "res \<in> set (db_reservations s)" using find_Some_mem [OF Some] by simp
      with tw assms(3,4) show thesis
      proof (cases rule: transfer_writes_cases [OF _ _ _ _ p(2,4) ne assms(5,6), consumes 4, case_names unchanged paid])
        case paid
        then show thesis by (rule that(2) [OF Some ReservationActive p(2,3) id p(4,5) ne])
      qed (auto intro!: that(1) simp: op_failed_def mk_result_def)
    qed (use run assms(1) Some in \<open>auto intro!: unchanged simp: op_failed_def mk_result_def\<close>)
  qed
qed

section \<open>Every command keeps the invariant\<close>

lemma add_deltas_fields [simp]:
  "w_id (add_deltas env ad rd w) = w_id w" "w_owner_id (add_deltas env ad rd w) = w_owner_id w"
  "w_auth0_subject (add_deltas env ad rd w) = w_auth0_subject w"
  "w_available (add_deltas env ad rd w) = w_available w + ad" "w_reserved (add_deltas env ad rd w) = w_reserved w + rd"
  by (simp_all add: add_deltas_def)

lemma set_status_fields [simp]:
  "r_id (set_status env a st r) = r_id r" "r_order_id (set_status env a st r) = r_order_id r"
  "r_wallet_id (set_status env a st r) = r_wallet_id r" "r_amount (set_status env a st r) = a"
  "r_status (set_status env a st r) = st" "r_last_adjust_seq (set_status env a st r) = r_last_adjust_seq r"
  by (simp_all add: set_status_def)

lemma set_adjusted_fields [simp]:
  "r_id (set_adjusted env a q r) = r_id r" "r_order_id (set_adjusted env a q r) = r_order_id r"
  "r_wallet_id (set_adjusted env a q r) = r_wallet_id r" "r_amount (set_adjusted env a q r) = a"
  "r_status (set_adjusted env a q r) = r_status r" "r_last_adjust_seq (set_adjusted env a q r) = q"
  by (simp_all add: set_adjusted_def)

lemma new_ledger_entry_fields [simp]:
  "l_wallet_id (new_ledger_entry env n p) = lp_wallet_id p" "l_idempotency_key (new_ledger_entry env n p) = lp_key p"
  "l_available_delta (new_ledger_entry env n p) = lp_available_delta p"
  "l_reserved_delta (new_ledger_entry env n p) = lp_reserved_delta p"
  by (simp_all add: new_ledger_entry_def)

lemma new_reservation_fields [simp]:
  "r_id (new_reservation env wid oid a) = env_uuid env" "r_wallet_id (new_reservation env wid oid a) = wid"
  "r_order_id (new_reservation env wid oid a) = oid" "r_amount (new_reservation env wid oid a) = a"
  "r_status (new_reservation env wid oid a) = ReservationActive" "r_last_adjust_seq (new_reservation env wid oid a) = 0"
  by (simp_all add: new_reservation_def)

lemma post_fields [simp]:
  "db_wallets (post_entry env p s) = db_wallets s" "db_reservations (post_entry env p s) = db_reservations s"
  "db_ledger (post_entry env p s) = db_ledger s @ [new_ledger_entry env (db_ledger_seq s + 1) p]"
  "db_reservations (post_deltas env wid ad rd s) = db_reservations s" "db_ledger (post_deltas env wid ad rd s) = db_ledger s"
  "db_wallets (post_deltas env wid ad rd s) = update_where (\<lambda>w. w_id w = wid) (add_deltas env ad rd) (db_wallets s)"
  "db_wallets (post_reservation rid f s) = db_wallets s" "db_ledger (post_reservation rid f s) = db_ledger s"
  "db_reservations (post_reservation rid f s) = update_where (\<lambda>r. r_id r = rid) f (db_reservations s)"
  "db_wallets (add_reservation r s) = db_wallets s" "db_ledger (add_reservation r s) = db_ledger s"
  "db_reservations (add_reservation r s) = db_reservations s @ [r]"
  by (simp_all add: post_defs)

lemma ledger_has_image: "ledger_has es wid k \<longleftrightarrow> (wid, k) \<in> (\<lambda>e. (l_wallet_id e, l_idempotency_key e)) ` set es"
  by (auto simp: ledger_has_def)

lemma ledger_total_simps [simp]:
  "ledger_total f wid [] = 0"
  "ledger_total f wid (e # es) = (if l_wallet_id e = wid then f e else 0) + ledger_total f wid es"
  "ledger_total f wid (es @ es') = ledger_total f wid es + ledger_total f wid es'"
  by (simp_all add: ledger_total_def)

lemma active_total_snoc [simp]:
  "active_total wid (rs @ [r]) =
     active_total wid rs + (if r_wallet_id r = wid \<and> r_status r = ReservationActive then r_amount r else 0)"
  by (simp add: active_total_def)

lemma active_total_update:
  assumes "distinct (map r_id rs)" "r \<in> set rs"
  shows "active_total wid (update_where (\<lambda>r'. r_id r' = r_id r) f rs) = active_total wid rs
     - (if r_wallet_id r = wid \<and> r_status r = ReservationActive then r_amount r else 0)
     + (if r_wallet_id (f r) = wid \<and> r_status (f r) = ReservationActive then r_amount (f r) else 0)"
  unfolding active_total_def by (rule sum_list_update_key [OF assms])

lemma key_fits_adjusted:
  "key_fits r k \<Longrightarrow> r_last_adjust_seq r \<le> q \<Longrightarrow> key_fits (set_adjusted env a q r) k"
  unfolding key_fits_def set_adjusted_fields by (elim disjE exE conjE) (auto intro: order_trans)

lemma key_fits_status:
  "key_fits r k \<Longrightarrow> r_status r = ReservationActive \<Longrightarrow> key_fits (set_status env a st r) k"
  by (auto simp: key_fits_def)

lemma map_wallet_keys [simp]:
  "map w_id (update_where p (add_deltas env ad rd) ws) = map w_id ws"
  "map w_owner_id (update_where p (add_deltas env ad rd) ws) = map w_owner_id ws"
  "map w_auth0_subject (update_where p (add_deltas env ad rd) ws) = map w_auth0_subject ws"
  by (simp_all add: map_update_where)

lemma image_wallet_ids [simp]: "w_id ` set (update_where p (add_deltas env ad rd) ws) = w_id ` set ws"
  by (metis list.set_map map_wallet_keys(1))

lemma image_reservation_orders [simp]:
  "(\<And>r. r_order_id (f r) = r_order_id r) \<Longrightarrow> r_order_id ` set (update_where p f rs) = r_order_id ` set rs"
  by (metis list.set_map map_update_where)

lemma keys_unique_deltas [simp]: "keys_unique (post_deltas env wid ad rd s) = keys_unique s"
  by (simp add: keys_unique_def)

lemma keys_unique_reservation [simp]:
  "(\<And>r. r_id (f r) = r_id r) \<Longrightarrow> (\<And>r. r_order_id (f r) = r_order_id r) \<Longrightarrow>
   keys_unique (post_reservation rid f s) = keys_unique s"
  by (simp add: keys_unique_def map_update_where)

lemma keys_unique_entry:
  "keys_unique s \<Longrightarrow> \<not> ledger_has (db_ledger s) (lp_wallet_id p) (lp_key p) \<Longrightarrow> keys_unique (post_entry env p s)"
  by (simp add: keys_unique_def ledger_has_image)

lemma keys_unique_add_reservation:
  "keys_unique s \<Longrightarrow> r_id r \<notin> r_id ` set (db_reservations s) \<Longrightarrow> r_order_id r \<notin> r_order_id ` set (db_reservations s)
   \<Longrightarrow> keys_unique (add_reservation r s)"
  by (simp add: keys_unique_def)

lemma same_wallet: "keys_unique s \<Longrightarrow> w \<in> set (db_wallets s) \<Longrightarrow> v \<in> set (db_wallets s) \<Longrightarrow> w_id w = w_id v \<Longrightarrow> w = v"
  using distinct_key_eq [of w_id "db_wallets s"] by (simp add: keys_unique_def)

lemma same_reservation:
  "keys_unique s \<Longrightarrow> q \<in> set (db_reservations s) \<Longrightarrow> r \<in> set (db_reservations s) \<Longrightarrow> r_id q = r_id r \<Longrightarrow> q = r"
  using distinct_key_eq [of r_id "db_reservations s"] by (simp add: keys_unique_def)

lemma set_wallets_deltas:
  "keys_unique s \<Longrightarrow> w \<in> set (db_wallets s) \<Longrightarrow>
   set (db_wallets (post_deltas env (w_id w) ad rd s)) = insert (add_deltas env ad rd w) (set (db_wallets s) - {w})"
  by (simp add: keys_unique_def set_update_key)

lemma set_reservations_post:
  "keys_unique s \<Longrightarrow> r \<in> set (db_reservations s) \<Longrightarrow>
   set (db_reservations (post_reservation (r_id r) f s)) = insert (f r) (set (db_reservations s) - {r})"
  by (simp add: keys_unique_def set_update_key)

lemma in_range_entry [simp]: "in_range (post_entry env p s) = in_range s"
  by (simp add: in_range_def)

lemma in_range_deltas:
  assumes "in_range s" "keys_unique s" "w \<in> set (db_wallets s)" "0 \<le> w_available w + ad" "in_int64 (w_available w + ad)"
    "0 \<le> w_reserved w + rd" "in_int64 (w_reserved w + rd)"
  shows "in_range (post_deltas env (w_id w) ad rd s)"
  using assms(1,4-) unfolding in_range_def set_wallets_deltas [OF assms(2,3)] by simp

lemma in_range_add_reservation:
  "in_range s \<Longrightarrow> 0 < r_amount r \<Longrightarrow> in_int64 (r_amount r) \<Longrightarrow> 0 \<le> r_last_adjust_seq r \<Longrightarrow> length (r_order_id r) = 36
   \<Longrightarrow> in_range (add_reservation r s)"
  by (simp add: in_range_def)

lemma in_range_reservation:
  assumes "in_range s" "keys_unique s" "r \<in> set (db_reservations s)" "0 < r_amount (f r)" "in_int64 (r_amount (f r))"
    "0 \<le> r_last_adjust_seq (f r)" "r_order_id (f r) = r_order_id r"
  shows "in_range (post_reservation (r_id r) f s)"
  using assms(1,3-) unfolding in_range_def set_reservations_post [OF assms(2,3)] by simp

lemma reserve_post_inv:
  assumes inv: "credit_inv s" and w: "w \<in> set (db_wallets s)" "amount \<le> w_available w" "0 < amount" "in_int64 (w_reserved w + amount)"
    and fresh: "oid \<notin> r_order_id ` set (db_reservations s)" "env_uuid env \<notin> r_id ` set (db_reservations s)"
      "\<not> ledger_has (db_ledger s) (w_id w) (reserve_key oid)" and oid: "length oid = 36"
  shows "credit_inv (reserve_post env (w_id w) oid amount s)"
proof -
  from inv have k: "keys_unique s" and r: "refs_exist s" and g: "in_range s" and b: "books_balance s"
    and c: "reserved_backed s" and f: "ledger_keys_fit s" by (simp_all add: credit_inv_def)
  have "keys_unique (reserve_post env (w_id w) oid amount s)"
    using k fresh unfolding reserve_post_def
    by (intro keys_unique_add_reservation) (simp_all add: keys_unique_entry reserve_entry_def)
  moreover have "refs_exist (reserve_post env (w_id w) oid amount s)"
    using r w(1) by (auto simp: refs_exist_def reserve_post_def reserve_entry_def)
  moreover have "in_int64 amount" using g w by (auto simp: in_range_def intro: in_int64_pos)
  then have "in_range (reserve_post env (w_id w) oid amount s)"
    using g w oid k keys_unique_entry [OF k, of "reserve_entry (w_id w) oid amount" env] fresh(3) unfolding reserve_post_def
    by (intro in_range_add_reservation in_range_deltas)
      (auto simp: in_range_def reserve_entry_def intro: in_int64_pos [of _ "w_available w"])
  moreover have "books_balance (reserve_post env (w_id w) oid amount s)"
    using b by (auto simp: books_balance_def reserve_post_def set_update_where reserve_entry_def)
  moreover have "reserved_backed (reserve_post env (w_id w) oid amount s)"
    using c by (auto simp: reserved_backed_def reserve_post_def set_update_where)
  moreover have "ledger_keys_fit (reserve_post env (w_id w) oid amount s)"
    using f by (auto simp: ledger_keys_fit_def reserve_post_def reserve_entry_def key_fits_def)
  ultimately show ?thesis by (simp add: credit_inv_def)
qed

lemma refs_exist_entry:
  "refs_exist s \<Longrightarrow> lp_wallet_id p \<in> w_id ` set (db_wallets s) \<Longrightarrow> refs_exist (post_entry env p s)"
  by (auto simp: refs_exist_def)

lemma refs_exist_deltas [simp]: "refs_exist (post_deltas env wid ad rd s) = refs_exist s"
  by (simp add: refs_exist_def)

lemma refs_exist_reservation:
  "refs_exist s \<Longrightarrow> (\<And>r. r_wallet_id (f r) = r_wallet_id r) \<Longrightarrow> refs_exist (post_reservation rid f s)"
  by (auto simp: refs_exist_def set_update_where)

text \<open>Changing one reservation keeps every ledger key fitting, if the new row admits the old one's keys.\<close>

lemma ledger_keys_fit_reservation:
  assumes "keys_unique s" "r \<in> set (db_reservations s)" "\<And>k. key_fits r k \<Longrightarrow> key_fits (f r) k"
    and "\<forall>e \<in> set (db_ledger s). l_idempotency_key e = initial_allocation_key
      \<or> (\<exists>q \<in> set (db_reservations s). key_fits q (l_idempotency_key e)) \<or> key_fits (f r) (l_idempotency_key e)"
  shows "ledger_keys_fit (post_reservation (r_id r) f s)"
  using assms(3,4) unfolding ledger_keys_fit_def set_reservations_post [OF assms(1,2)]
  by (auto simp del: post_fields(9))

lemma release_post_inv:
  assumes inv: "credit_inv s" and res: "find (\<lambda>r. r_order_id r = oid) (db_reservations s) = Some res" "r_status res = ReservationActive"
    and w: "w \<in> set (db_wallets s)" "w_id w = r_wallet_id res" "in_int64 (w_available w + r_amount res)" "r_amount res \<le> w_reserved w"
    and fresh: "\<not> ledger_has (db_ledger s) (r_wallet_id res) (release_key oid)"
  shows "credit_inv (release_post env oid res s)"
proof -
  from inv have k: "keys_unique s" and r: "refs_exist s" and g: "in_range s" and b: "books_balance s"
    and c: "reserved_backed s" and f: "ledger_keys_fit s" by (simp_all add: credit_inv_def)
  from find_Some_mem [OF res(1)] have rin: "res \<in> set (db_reservations s)" and oid: "r_order_id res = oid" by auto
  let ?e = "release_entry (r_wallet_id res) oid (r_amount res)"
  have k1: "keys_unique (post_entry env ?e s)"
    using k fresh by (intro keys_unique_entry) (simp_all add: release_entry_def)
  have rng: "0 < r_amount res" "in_int64 (r_amount res)" "0 \<le> r_last_adjust_seq res" using g rin by (auto simp: in_range_def)
  have "keys_unique (release_post env oid res s)" using k1 by (simp add: release_post_def)
  moreover have "refs_exist (post_deltas env (r_wallet_id res) (r_amount res) (- r_amount res) (post_entry env ?e s))"
    using r rin by (auto simp: release_entry_def refs_exist_def)
  then have "refs_exist (release_post env oid res s)"
    unfolding release_post_def by (intro refs_exist_reservation) auto
  moreover have "in_range (post_deltas env (w_id w) (r_amount res) (- r_amount res) (post_entry env ?e s))"
    using g w rng k1 by (intro in_range_deltas) (auto simp: in_range_def intro: in_int64_pos [of _ "w_reserved w"])
  then have "in_range (release_post env oid res s)"
    using k1 rin rng unfolding release_post_def w(2) by (intro in_range_reservation) auto
  moreover have "books_balance (release_post env oid res s)"
    using b by (auto simp: books_balance_def release_post_def set_update_where release_entry_def)
  moreover have "reserved_backed (release_post env oid res s)"
    using c k rin res(2) by (auto simp: reserved_backed_def release_post_def set_update_where keys_unique_def active_total_update)
  moreover have "ledger_keys_fit (release_post env oid res s)"
    unfolding release_post_def using k1 rin res(2) f oid
    by (intro ledger_keys_fit_reservation)
      (auto simp: ledger_keys_fit_def release_entry_def key_fits_status, auto simp: key_fits_def)
  ultimately show ?thesis by (simp add: credit_inv_def)
qed

lemma adjust_post_inv:
  assumes inv: "credit_inv s" and res: "find (\<lambda>r. r_order_id r = oid) (db_reservations s) = Some res" "r_status res = ReservationActive"
    and w: "w \<in> set (db_wallets s)" "w_id w = r_wallet_id res" "new_amount - r_amount res \<le> w_available w"
      "in_int64 (w_available w + (r_amount res - new_amount))" "in_int64 (w_reserved w + (new_amount - r_amount res))"
      "0 \<le> w_reserved w + (new_amount - r_amount res)"
    and seq: "r_last_adjust_seq res < seq" and amt: "0 < new_amount" "in_int64 new_amount"
    and fresh: "new_amount \<noteq> r_amount res \<Longrightarrow> \<not> ledger_has (db_ledger s) (r_wallet_id res) (adjust_key oid seq)"
  shows "credit_inv (adjust_post env oid res new_amount seq s)"
proof -
  from inv have k: "keys_unique s" and r: "refs_exist s" and g: "in_range s" and b: "books_balance s"
    and c: "reserved_backed s" and f: "ledger_keys_fit s" by (simp_all add: credit_inv_def)
  from find_Some_mem [OF res(1)] have rin: "res \<in> set (db_reservations s)" and oid: "r_order_id res = oid" by auto
  let ?d = "new_amount - r_amount res" and ?e = "adjust_entry (r_wallet_id res) oid seq (new_amount - r_amount res)"
  let ?s = "if ?d \<noteq> 0 then post_deltas env (r_wallet_id res) (- ?d) ?d (post_entry env ?e s) else s"
  have post: "adjust_post env oid res new_amount seq s = post_reservation (r_id res) (set_adjusted env new_amount seq) ?s"
    by (simp add: adjust_post_def Let_def)
  have k1: "keys_unique ?s" using k fresh by (auto simp: adjust_entry_def intro!: keys_unique_entry)
  have rng: "0 < r_amount res" "in_int64 (r_amount res)" "0 \<le> r_last_adjust_seq res" using g rin by (auto simp: in_range_def)
  have "keys_unique (adjust_post env oid res new_amount seq s)" using k1 by (simp only: post keys_unique_reservation set_adjusted_fields)
  moreover have "refs_exist ?s"
    using r rin by (auto simp: adjust_entry_def refs_exist_def)
  then have "refs_exist (adjust_post env oid res new_amount seq s)" unfolding post by (intro refs_exist_reservation) auto
  moreover have "in_range ?s"
  proof (cases "?d = 0")
    case False
    with fresh k have "keys_unique (post_entry env ?e s)" by (auto simp: adjust_entry_def intro!: keys_unique_entry)
    with g w False show ?thesis by (auto simp flip: w(2) intro!: in_range_deltas simp: algebra_simps)
  qed (simp add: g)
  then have "in_range (adjust_post env oid res new_amount seq s)"
    using k1 rin rng amt seq unfolding post by (intro in_range_reservation) auto
  moreover have "books_balance (adjust_post env oid res new_amount seq s)"
    using b by (auto simp: books_balance_def post set_update_where adjust_entry_def)
  moreover have "reserved_backed (adjust_post env oid res new_amount seq s)"
    using c k rin res(2) by (auto simp: reserved_backed_def post set_update_where keys_unique_def active_total_update)
  moreover have "ledger_keys_fit (adjust_post env oid res new_amount seq s)"
    unfolding post using k1 rin f oid seq rng(3)
    by (intro ledger_keys_fit_reservation)
      (auto simp: ledger_keys_fit_def adjust_entry_def key_fits_adjusted, auto simp: key_fits_def)
  ultimately show ?thesis by (simp add: credit_inv_def)
qed

lemma reserved_backed_two:
  assumes "reserved_backed s" "a \<noteq> b"
    and "\<And>wid. active_total wid rs = active_total wid (db_reservations s) - (if a = wid then x else 0)"
  shows "\<forall>w \<in> set (update_where (\<lambda>w. w_id w = b) (add_deltas env ad' 0)
      (update_where (\<lambda>w. w_id w = a) (add_deltas env ad (- x)) (db_wallets s))). w_reserved w = active_total (w_id w) rs"
proof -
  have w: "w_reserved w + (if w_id w = a then - x else 0) = active_total (w_id w) rs" if "w \<in> set (db_wallets s)" for w
    using assms(1) that unfolding assms(3) by (simp add: reserved_backed_def)
  have "w_reserved w - x = active_total a rs" if "w \<in> set (db_wallets s)" "w_id w = a" for w
    using w [OF that(1)] that(2) by simp
  moreover have "w_reserved w = active_total (w_id w) rs" if "w \<in> set (db_wallets s)" "w_id w \<noteq> a" for w
    using w [OF that(1)] that(2) by simp
  ultimately show ?thesis using assms(2) by (auto simp: update_where_def split: if_splits)
qed

lemma transfer_post_inv:
  assumes inv: "credit_inv s" and res: "find (\<lambda>r. r_order_id r = oid) (db_reservations s) = Some res" "r_status res = ReservationActive"
    and rw: "rw \<in> set (db_wallets s)" "w_id rw = r_wallet_id res" "amount - r_amount res \<le> w_available rw" "r_amount res \<le> w_reserved rw"
      "in_int64 (w_available rw + (r_amount res - amount))"
    and cw: "cw \<in> set (db_wallets s)" "w_id rw \<noteq> w_id cw" "in_int64 (w_available cw + amount)"
    and amt: "0 < amount"
    and fresh: "\<not> ledger_has (db_ledger s) (w_id rw) (transfer_key oid)" "\<not> ledger_has (db_ledger s) (w_id cw) (transfer_key oid)"
      "amount < r_amount res \<Longrightarrow> \<not> ledger_has (db_ledger s) (w_id rw) (surplus_key oid)"
  shows "credit_inv (transfer_post env oid amount res (w_id rw) (w_id cw) s)"
proof -
  from inv have k: "keys_unique s" and r: "refs_exist s" and g: "in_range s" and b: "books_balance s"
    and c: "reserved_backed s" and f: "ledger_keys_fit s" by (simp_all add: credit_inv_def)
  from find_Some_mem [OF res(1)] have rin: "res \<in> set (db_reservations s)" and oid: "r_order_id res = oid" by auto
  let ?f = "min (r_amount res) amount"
  let ?e1 = "transfer_out_entry (w_id rw) (w_id cw) oid (amount - ?f) ?f" and ?e2 = "transfer_in_entry (w_id cw) (w_id rw) oid amount"
    and ?e3 = "surplus_entry (w_id rw) oid (r_amount res - ?f)"
  let ?s1 = "post_entry env ?e2 (post_entry env ?e1 s)"
  define s2 where "s2 = (if r_amount res - ?f > 0 then post_entry env ?e3 ?s1 else ?s1)"
  have s2 [simp]: "db_wallets s2 = db_wallets s" "db_reservations s2 = db_reservations s" "in_range s2 = in_range s"
    by (simp_all add: s2_def)
  let ?s3 = "post_deltas env (w_id rw) (r_amount res - ?f - (amount - ?f)) (- r_amount res) s2"
  let ?s4 = "post_deltas env (w_id cw) amount 0 ?s3"
  have post: "transfer_post env oid amount res (w_id rw) (w_id cw) s
      = post_reservation (r_id res) (set_status env (r_amount res) ReservationTransferred) ?s4"
    by (simp add: transfer_post_def Let_def s2_def)
  have rng: "0 < r_amount res" "in_int64 (r_amount res)" "0 \<le> r_last_adjust_seq res" using g rin by (auto simp: in_range_def)
  have k1: "keys_unique ?s1"
    using k fresh(1,2) cw(2)
    by (intro keys_unique_entry) (auto simp: transfer_out_entry_def transfer_in_entry_def ledger_has_def)
  have no: "\<not> ledger_has (db_ledger ?s1) (lp_wallet_id ?e3) (lp_key ?e3)" if "r_amount res - ?f > 0"
    using fresh(3) that by (auto simp: transfer_out_entry_def transfer_in_entry_def surplus_entry_def ledger_has_def)
  have k2: "keys_unique s2"
    unfolding s2_def by (cases "r_amount res - ?f > 0") (simp_all only: if_True if_False k1 keys_unique_entry [OF k1 no])
  then have k3: "keys_unique ?s3" and k4: "keys_unique ?s4" by simp_all
  have "keys_unique (transfer_post env oid amount res (w_id rw) (w_id cw) s)"
    using k4 by (simp only: post keys_unique_reservation set_status_fields)
  moreover have "refs_exist ?s4"
    using r rw(1) cw(1) by (auto simp: s2_def transfer_out_entry_def transfer_in_entry_def surplus_entry_def refs_exist_def)
  then have "refs_exist (transfer_post env oid amount res (w_id rw) (w_id cw) s)"
    unfolding post by (intro refs_exist_reservation) auto
  moreover have "in_range ?s3"
    using g rw rng k2 in_int64_pos [of "w_reserved rw - r_amount res" "w_reserved rw"]
    by (intro in_range_deltas) (auto simp: in_range_def [of s])
  then have "in_range ?s4"
    using k3 cw g amt by - (rule in_range_deltas, auto simp: set_update_where in_range_def [of s])
  then have "in_range (transfer_post env oid amount res (w_id rw) (w_id cw) s)"
    using k4 rin rng unfolding post by (intro in_range_reservation) auto
  moreover have tot: "ledger_total l_available_delta wid (db_ledger s2) = ledger_total l_available_delta wid (db_ledger s)
        + (if wid = w_id rw then r_amount res - amount else 0) + (if wid = w_id cw then amount else 0)"
    "ledger_total l_reserved_delta wid (db_ledger s2) = ledger_total l_reserved_delta wid (db_ledger s)
        + (if wid = w_id rw then - r_amount res else 0)" for wid
    using cw(2) unfolding s2_def
    by (cases "r_amount res - ?f > 0"; simp add: transfer_out_entry_def transfer_in_entry_def surplus_entry_def)+
  have "books_balance ?s4"
    using b cw(2) unfolding books_balance_def by (auto simp: set_update_where tot)
  then have "books_balance (transfer_post env oid amount res (w_id rw) (w_id cw) s)"
    by (simp add: post books_balance_def)
  moreover have act: "active_total wid (update_where (\<lambda>r. r_id r = r_id res) (set_status env (r_amount res) ReservationTransferred)
      (db_reservations s)) = active_total wid (db_reservations s) - (if w_id rw = wid then r_amount res else 0)" for wid
    using k rin res(2) by (simp add: active_total_update keys_unique_def rw(2))
  have "reserved_backed (post_reservation (r_id res) (set_status env (r_amount res) ReservationTransferred) ?s4)"
    unfolding reserved_backed_def post_fields s2 using c cw(2) act by (rule reserved_backed_two)
  then have "reserved_backed (transfer_post env oid amount res (w_id rw) (w_id cw) s)" unfolding post .
  moreover have "ledger_keys_fit (transfer_post env oid amount res (w_id rw) (w_id cw) s)"
    unfolding post using k4 rin f oid res(2)
    by (intro ledger_keys_fit_reservation)
      (auto simp: s2_def ledger_keys_fit_def transfer_out_entry_def transfer_in_entry_def surplus_entry_def key_fits_status,
       auto simp: key_fits_def)
  ultimately show ?thesis by (simp add: credit_inv_def)
qed

text \<open>A ledger key that the invariant does not admit is not in the ledger.\<close>

lemma ledger_has_fits:
  "ledger_keys_fit s \<Longrightarrow> ledger_has (db_ledger s) wid k \<Longrightarrow>
   k = initial_allocation_key \<or> (\<exists>r \<in> set (db_reservations s). key_fits r k)"
  by (auto simp: ledger_has_def ledger_keys_fit_def)

lemma key_fits_reserve: "key_fits r (reserve_key oid) \<Longrightarrow> r_order_id r = oid"
  by (auto simp: key_fits_def)

lemma key_fits_adjust:
  "key_fits r (adjust_key oid seq) \<Longrightarrow> length (r_order_id r) = length oid \<Longrightarrow>
   r_order_id r = oid \<and> seq \<le> r_last_adjust_seq r"
  by (auto simp: key_fits_def dest: adjust_key_inj)

lemma key_fits_release: "key_fits r (release_key oid) \<Longrightarrow> r_order_id r = oid \<and> r_status r = ReservationReleased"
  by (auto simp: key_fits_def)

lemma key_fits_transfer:
  "key_fits r (transfer_key oid) \<Longrightarrow> r_order_id r = oid \<and> r_status r = ReservationTransferred"
  "key_fits r (surplus_key oid) \<Longrightarrow> r_order_id r = oid \<and> r_status r = ReservationTransferred"
  by (auto simp: key_fits_def)

lemma same_order:
  assumes "keys_unique s" "find (\<lambda>r. r_order_id r = oid) (db_reservations s) = Some res" "r \<in> set (db_reservations s)"
    "r_order_id r = oid"
  shows "r = res"
proof -
  from find_Some_mem [OF assms(2)] have "res \<in> set (db_reservations s)" "r_order_id r = r_order_id res"
    using assms(4) by auto
  then show ?thesis using distinct_key_eq [of r_order_id "db_reservations s"] assms(1,3) by (simp add: keys_unique_def)
qed

lemma initial_allocation_key_other [simp]:
  "reserve_key x \<noteq> initial_allocation_key" "adjust_key x q \<noteq> initial_allocation_key"
  "release_key x \<noteq> initial_allocation_key" "transfer_key x \<noteq> initial_allocation_key"
  "surplus_key x \<noteq> initial_allocation_key"
  by (simp_all add: ledger_key_defs)

lemma no_reserve_key:
  "credit_inv s \<Longrightarrow> oid \<notin> r_order_id ` set (db_reservations s) \<Longrightarrow> \<not> ledger_has (db_ledger s) wid (reserve_key oid)"
  using ledger_has_fits [of s wid "reserve_key oid"] by (auto simp: credit_inv_def dest: key_fits_reserve)

lemma no_adjust_key:
  assumes "credit_inv s" "find (\<lambda>r. r_order_id r = oid) (db_reservations s) = Some res" "r_last_adjust_seq res < seq"
  shows "\<not> ledger_has (db_ledger s) wid (adjust_key oid seq)"
proof
  assume "ledger_has (db_ledger s) wid (adjust_key oid seq)"
  with assms(1) obtain r where r: "r \<in> set (db_reservations s)" "key_fits r (adjust_key oid seq)"
    using ledger_has_fits initial_allocation_key_other(2) unfolding credit_inv_def by blast
  have "length (r_order_id r) = length oid"
    using assms(1,2) r(1) find_Some_mem [OF assms(2)] by (auto simp: credit_inv_def in_range_def)
  from key_fits_adjust [OF r(2) this] r(1) assms show False
    using same_order [of s oid res r] by (auto simp: credit_inv_def)
qed

lemma no_settle_key:
  assumes "credit_inv s" "find (\<lambda>r. r_order_id r = oid) (db_reservations s) = Some res" "r_status res = ReservationActive"
  shows "\<not> ledger_has (db_ledger s) wid (release_key oid)" "\<not> ledger_has (db_ledger s) wid (transfer_key oid)"
    "\<not> ledger_has (db_ledger s) wid (surplus_key oid)"
proof -
  have no: "\<not> ledger_has (db_ledger s) wid k"
    if "k \<noteq> initial_allocation_key" "\<And>r. key_fits r k \<Longrightarrow> r_order_id r = oid \<and> r_status r \<noteq> ReservationActive" for k
    using assms that same_order [of s oid res] ledger_has_fits [of s wid k] by (auto simp: credit_inv_def)
  show "\<not> ledger_has (db_ledger s) wid (release_key oid)" "\<not> ledger_has (db_ledger s) wid (transfer_key oid)"
    "\<not> ledger_has (db_ledger s) wid (surplus_key oid)"
    using key_fits_release [of _ oid] key_fits_transfer [of _ oid] by (intro no; simp)+
qed

end
