(* ===== verification/Go_Time.thy ===== *)
theory Go_Time
  imports Go_Strings
begin

text \<open>
  The part of package \<^verbatim>\<open>time\<close> the services use. An instant is its number of
  nanoseconds since the Unix epoch, a \<^verbatim>\<open>time.Duration\<close> a number of nanoseconds;
  the calendar is the proleptic Gregorian one, and the text form is RFC 3339 in UTC, as
  \<^verbatim>\<open>Time.MarshalJSON\<close> writes and \<^verbatim>\<open>Time.UnmarshalJSON\<close> reads it.
\<close>

definition second :: int where "second = 1000000000"
definition millisecond :: int where "millisecond = 1000000"
definition minute :: int where "minute = 60 * second"
definition hour :: int where "hour = 60 * minute"

lemmas duration_defs = hour_def minute_def second_def millisecond_def

definition truncate_second :: "int \<Rightarrow> int" where
  "truncate_second t = t - t mod second"

text \<open>The zero value of \<^verbatim>\<open>time.Time\<close>, the first instant of year 1.\<close>

definition zero_time :: int where
  "zero_time = - 62135596800 * second"

section \<open>The calendar\<close>

definition days_of_civil :: "int \<Rightarrow> int \<Rightarrow> int \<Rightarrow> int" where
  "days_of_civil y m d =
     (let y' = if m \<le> 2 then y - 1 else y; era = y' div 400; yoe = y' mod 400;
          doy = (153 * (if m > 2 then m - 3 else m + 9) + 2) div 5 + d - 1
      in era * 146097 + (yoe * 365 + yoe div 4 - yoe div 100 + doy) - 719468)"

definition civil_of_days :: "int \<Rightarrow> int \<times> int \<times> int" where
  "civil_of_days days =
     (let z = days + 719468; era = z div 146097; doe = z mod 146097;
          yoe = (doe - doe div 1460 + doe div 36524 - doe div 146096) div 365;
          doy = doe - (365 * yoe + yoe div 4 - yoe div 100);
          mp = (5 * doy + 2) div 153;
          m = if mp < 10 then mp + 3 else mp - 9
      in (yoe + era * 400 + (if m \<le> 2 then 1 else 0), m, doy - (153 * mp + 2) div 5 + 1))"

definition is_leap :: "int \<Rightarrow> bool" where
  "is_leap y \<longleftrightarrow> y mod 4 = 0 \<and> (y mod 100 \<noteq> 0 \<or> y mod 400 = 0)"

definition days_in :: "int \<Rightarrow> int \<Rightarrow> int" where
  "days_in m y = (if m = 2 then (if is_leap y then 29 else 28) else if m \<in> {4, 6, 9, 11} then 30 else 31)"

section \<open>RFC 3339\<close>

definition pad :: "nat \<Rightarrow> int \<Rightarrow> string" where
  "pad w n = (let ds = show_nat (nat n) in replicate (w - length ds) CHR ''0'' @ ds)"

definition fraction :: "int \<Rightarrow> string" where
  "fraction ns = (if ns = 0 then []
     else CHR ''.'' # rev (dropWhile (\<lambda>c. c = CHR ''0'') (rev (pad 9 ns))))"

text \<open>\<^verbatim>\<open>MarshalJSON\<close> of an instant in UTC; it fails outside the years 0 to 9999.\<close>

definition format_time :: "int \<Rightarrow> string option" where
  "format_time t =
     (let secs = t div second; (y, m, d) = civil_of_days (secs div 86400); sod = secs mod 86400
      in if y < 0 \<or> 9999 < y then None
         else Some (pad 4 y @ ''-'' @ pad 2 m @ ''-'' @ pad 2 d @ ''T'' @ pad 2 (sod div 3600) @ '':''
           @ pad 2 (sod mod 3600 div 60) @ '':'' @ pad 2 (sod mod 60) @ fraction (t mod second) @ ''Z''))"

definition is_digit :: "char \<Rightarrow> bool" where
  "is_digit c \<longleftrightarrow> 48 \<le> byte_of c \<and> byte_of c \<le> 57"

text \<open>The number written by the \<open>n\<close> characters from position \<open>i\<close>, if all are digits and it is in range.\<close>

definition digits_at :: "nat \<Rightarrow> nat \<Rightarrow> int \<Rightarrow> int \<Rightarrow> string \<Rightarrow> int option" where
  "digits_at i n lo hi s =
     (let ds = take n (drop i s); v = int (read_nat ds)
      in if length ds = n \<and> list_all is_digit ds \<and> lo \<le> v \<and> v \<le> hi then Some v else None)"

definition char_at :: "nat \<Rightarrow> string \<Rightarrow> char \<Rightarrow> bool" where
  "char_at i s c \<longleftrightarrow> take 1 (drop i s) = [c]"

definition nanoseconds :: "string \<Rightarrow> int" where
  "nanoseconds ds = (let d9 = take 9 ds in int (read_nat (d9 @ replicate (9 - length d9) CHR ''0'')))"

text \<open>The offset, in seconds, that a zone suffix states.\<close>

definition parse_zone :: "string \<Rightarrow> int option" where
  "parse_zone z =
     (if z = ''Z'' then Some 0
      else if length z = 6 \<and> (char_at 0 z CHR ''+'' \<or> char_at 0 z CHR ''-'') \<and> char_at 3 z CHR '':'' then
        (case (digits_at 1 2 0 23 z, digits_at 4 2 0 59 z) of
           (Some h, Some m) \<Rightarrow> Some ((if char_at 0 z CHR ''-'' then - 1 else 1) * (h * 3600 + m * 60))
         | _ \<Rightarrow> None)
      else None)"

definition parse_time :: "string \<Rightarrow> int option" where
  "parse_time s =
     (if char_at 4 s CHR ''-'' \<and> char_at 7 s CHR ''-'' \<and> char_at 10 s CHR ''T'' \<and> char_at 13 s CHR '':''
         \<and> char_at 16 s CHR '':'' then
        (case (digits_at 0 4 0 9999 s, digits_at 5 2 1 12 s, digits_at 11 2 0 23 s, digits_at 14 2 0 59 s,
               digits_at 17 2 0 59 s) of
           (Some y, Some mo, Some h, Some mi, Some sec) \<Rightarrow>
             (case digits_at 8 2 1 (days_in mo y) s of
                None \<Rightarrow> None
              | Some d \<Rightarrow>
                  let rest = drop 19 s;
                      frac = (if char_at 0 rest CHR ''.'' then takeWhile is_digit (drop 1 rest) else []);
                      zone = (if frac = [] then rest else drop (1 + length frac) rest)
                  in (case parse_zone zone of
                        None \<Rightarrow> None
                      | Some offset \<Rightarrow>
                          Some ((days_of_civil y mo d * 86400 + h * 3600 + mi * 60 + sec - offset) * second
                            + nanoseconds frac)))
         | _ \<Rightarrow> None)
      else None)"

end
