(* ===== verification/Credit_Message.thy ===== *)
theory Credit_Message
  imports Wallet_Service Go_Time
begin

text \<open>
  The message layer of credit-service (package \<^verbatim>\<open>creditmsg\<close>): decoding a
  command message into a call of the wallet use cases, and turning a result into the
  message that the outbox stores. \<open>handle\<close> is \<^verbatim>\<open>Handler.Handle\<close> on the
  real service, \<open>record_result\<close> the recorder the service runs in the transaction of
  each command. Field names match their JSON keys up to ASCII case.
\<close>

section \<open>Envelopes\<close>

definition command_reserve :: string where "command_reserve = ''credit.reserve''"
definition command_adjust :: string where "command_adjust = ''credit.adjust''"
definition command_release :: string where "command_release = ''credit.release''"
definition command_transfer :: string where "command_transfer = ''credit.transfer''"

lemmas command_defs = command_reserve_def command_adjust_def command_release_def command_transfer_def

definition command_keys :: "string list" where
  "command_keys = [command_reserve, command_adjust, command_release, command_transfer]"

datatype handle_error = Undecodable | Wallet wallet_error

record envelope =
  env_message_id :: string
  env_correlation_id :: string
  env_type :: string
  env_occurred_at :: int
  env_errand_id :: string
  env_errand_version :: int
  env_data :: "json option"

text \<open>\<^verbatim>\<open>json.Marshal\<close> of an envelope; an empty \<^verbatim>\<open>RawMessage\<close> is written as null.\<close>

definition envelope_to_json :: "envelope \<Rightarrow> json option" where
  "envelope_to_json e =
     (case format_time (env_occurred_at e) of
        None \<Rightarrow> None
      | Some at \<Rightarrow> Some (JObj
          ([(''messageId'', JStr (env_message_id e))]
           @ omit_empty_str ''correlationId'' (env_correlation_id e)
           @ [(''type'', JStr (env_type e)), (''occurredAt'', JStr at), (''errandId'', JStr (env_errand_id e)),
              (''errandVersion'', JNum (env_errand_version e)),
              (''data'', (case env_data e of None \<Rightarrow> JNull | Some d \<Rightarrow> d))])))"

fun set_time :: "json \<Rightarrow> int option \<Rightarrow> int option" where
  "set_time _ None = None"
| "set_time JNull (Some d) = Some d"
| "set_time (JStr s) (Some d) = parse_time s"
| "set_time _ (Some d) = None"

definition time_field :: "string \<Rightarrow> (string \<times> json) list \<Rightarrow> int option" where
  "time_field name fs =
     foldl (\<lambda>acc (k, v). if field_matches name k then set_time v acc else acc) (Some zero_time) fs"

text \<open>The fields of a JSON value decoded into a struct: null sets none of them.\<close>

definition struct_fields :: "json \<Rightarrow> (string \<times> json) list option" where
  "struct_fields j = (case j of JObj fs \<Rightarrow> Some fs | JNull \<Rightarrow> Some [] | _ \<Rightarrow> None)"

definition envelope_of_json :: "json \<Rightarrow> envelope option" where
  "envelope_of_json j =
     (case struct_fields j of None \<Rightarrow> None | Some fs \<Rightarrow>
        (case (string_field ''messageId'' fs, string_field ''correlationId'' fs, string_field ''type'' fs,
               time_field ''occurredAt'' fs, string_field ''errandId'' fs, int_field ''errandVersion'' fs) of
           (Some mid, Some cid, Some t, Some at, Some eid, Some v) \<Rightarrow>
             Some \<lparr>env_message_id = mid, env_correlation_id = cid, env_type = t, env_occurred_at = at,
                   env_errand_id = eid, env_errand_version = v, env_data = raw_field ''data'' fs\<rparr>
         | _ \<Rightarrow> None))"

definition decode_envelope :: "string \<Rightarrow> raw_json \<Rightarrow> handle_error + envelope" where
  "decode_envelope routing_key body =
     (case Option.bind body envelope_of_json of
        None \<Rightarrow> Inl Undecodable
      | Some e \<Rightarrow>
          if env_message_id e = [] then Inl Undecodable
          else if env_type e \<noteq> routing_key then Inl Undecodable
          else if env_errand_id e = [] then Inl Undecodable
          else if env_errand_version e < 1 then Inl Undecodable
          else Inr e)"

text \<open>
  The data of a command: every command repeats the identity of the errand, which has to
  be the envelope's; \<open>get\<close> reads the other fields of the command's struct.
\<close>

definition decode_data :: "envelope \<Rightarrow> ((string \<times> json) list \<Rightarrow> 'd option) \<Rightarrow> handle_error + 'd" where
  "decode_data e get =
     (case Option.bind (env_data e) struct_fields of
        None \<Rightarrow> Inl Undecodable
      | Some fs \<Rightarrow>
          (case (string_field ''errandId'' fs, int_field ''errandVersion'' fs, get fs) of
             (Some eid, Some v, Some d) \<Rightarrow>
               if \<not> equal_fold eid (env_errand_id e) \<or> v \<noteq> env_errand_version e then Inl Undecodable else Inr d
           | _ \<Rightarrow> Inl Undecodable))"

definition pair_option :: "'a option \<Rightarrow> 'b option \<Rightarrow> ('a \<times> 'b) option" where
  "pair_option x y = (case (x, y) of (Some a, Some b) \<Rightarrow> Some (a, b) | _ \<Rightarrow> None)"

definition reserve_data :: "(string \<times> json) list \<Rightarrow> (string \<times> int) option" where
  "reserve_data fs = pair_option (string_field ''requesterId'' fs) (int_field ''amount'' fs)"

definition adjust_data :: "(string \<times> json) list \<Rightarrow> (string \<times> int \<times> int) option" where
  "adjust_data fs = pair_option (string_field ''requesterId'' fs)
     (pair_option (int_field ''newAmount'' fs) (int_field ''seq'' fs))"

definition release_data :: "(string \<times> json) list \<Rightarrow> string option" where
  "release_data fs = string_field ''requesterId'' fs"

definition transfer_data :: "(string \<times> json) list \<Rightarrow> (string \<times> string \<times> int) option" where
  "transfer_data fs = pair_option (string_field ''requesterId'' fs)
     (pair_option (string_field ''courierId'' fs) (int_field ''amount'' fs))"

section \<open>Handling a command\<close>

text \<open>What the handler calls, decided from the message alone.\<close>

datatype command = Reserve reserve_command | Adjust adjust_command | Release release_command
  | Transfer transfer_command

definition decode_command :: "string \<Rightarrow> envelope \<Rightarrow> handle_error + command" where
  "decode_command routing_key e =
     (if routing_key = command_reserve then
        (case decode_data e reserve_data of Inl x \<Rightarrow> Inl x
         | Inr (requester, amount) \<Rightarrow> Inr (Reserve \<lparr>rc_order_id = env_errand_id e,
             rc_errand_version = env_errand_version e, rc_requester_subject = requester, rc_amount = amount\<rparr>))
      else if routing_key = command_adjust then
        (case decode_data e adjust_data of Inl x \<Rightarrow> Inl x
         | Inr (requester, new_amount, seq) \<Rightarrow> Inr (Adjust \<lparr>ac_order_id = env_errand_id e,
             ac_errand_version = env_errand_version e, ac_requester_subject = requester,
             ac_new_amount = new_amount, ac_seq = seq\<rparr>))
      else if routing_key = command_release then
        (case decode_data e release_data of Inl x \<Rightarrow> Inl x
         | Inr requester \<Rightarrow> Inr (Release \<lparr>lc_order_id = env_errand_id e,
             lc_errand_version = env_errand_version e, lc_requester_subject = requester\<rparr>))
      else if routing_key = command_transfer then
        (case decode_data e transfer_data of Inl x \<Rightarrow> Inl x
         | Inr (requester, courier, amount) \<Rightarrow> Inr (Transfer \<lparr>tc_order_id = env_errand_id e,
             tc_errand_version = env_errand_version e, tc_requester_subject = requester,
             tc_courier_subject = courier, tc_amount = amount\<rparr>))
      else Inl Undecodable)"

fun run_command :: "wallet_service \<Rightarrow> db_env \<Rightarrow> string \<Rightarrow> command \<Rightarrow> credit_db
    \<Rightarrow> (wallet_error + credit_result) \<times> credit_db" where
  "run_command svc env mid (Reserve c) = reserve svc env mid c"
| "run_command svc env mid (Adjust c) = adjust svc env mid c"
| "run_command svc env mid (Release c) = release svc env mid c"
| "run_command svc env mid (Transfer c) = transfer svc env mid c"

definition handle :: "wallet_service \<Rightarrow> db_env \<Rightarrow> string \<Rightarrow> raw_json \<Rightarrow> credit_db \<Rightarrow> handle_error option \<times> credit_db" where
  "handle svc env routing_key body s =
     (case decode_envelope routing_key body of
        Inl e \<Rightarrow> (Some e, s)
      | Inr en \<Rightarrow>
          (case decode_command routing_key en of
             Inl e \<Rightarrow> (Some e, s)
           | Inr c \<Rightarrow>
               (case run_command svc env (env_message_id en) c s of
                  (Inl e, s') \<Rightarrow> (Some (Wallet e), s')
                | (Inr _, s') \<Rightarrow> (None, s'))))"

datatype disposition = Ack | Reject | Requeue

fun disposition_of :: "handle_error option \<Rightarrow> disposition" where
  "disposition_of None = Ack"
| "disposition_of (Some Undecodable) = Reject"
| "disposition_of (Some (Wallet WInvalid)) = Reject"
| "disposition_of (Some (Wallet WConflict)) = Reject"
| "disposition_of (Some (Wallet _)) = Requeue"

section \<open>Result messages\<close>

definition build_result :: "reply \<Rightarrow> credit_result \<Rightarrow> int \<Rightarrow> envelope" where
  "build_result rp r occurred_at =
     \<lparr>env_message_id = rp_command_message_id rp @ '':'' @ result_type_text (res_type r),
      env_correlation_id = rp_command_message_id rp, env_type = result_type_text (res_type r),
      env_occurred_at = truncate_second occurred_at, env_errand_id = rp_order_id rp,
      env_errand_version = rp_errand_version rp,
      env_data = Some (JObj (omit_empty_num ''amount'' (res_amount r) @ omit_empty_num ''seq'' (res_seq r)
        @ omit_empty_str ''code'' (result_code_text (res_code r))))\<rparr>"

definition lift_sql :: "'a sql \<Rightarrow> 'a svc" where
  "lift_sql m = (\<lambda>s. case m s of Inl e \<Rightarrow> Inl (WSql e) | Inr r \<Rightarrow> Inr r)"

text \<open>\<open>now\<close> is the reading of the recorder's clock.\<close>

definition record_result :: "int \<Rightarrow> recorder" where
  "record_result now env rp r =
     (if rp_errand_version rp < 1 then tx_fail (WOther ''version'')
      else let e = build_result rp r now in
        (case envelope_to_json e of
           None \<Rightarrow> tx_fail (WOther ''marshal'')
         | Some payload \<Rightarrow> lift_sql (enqueue env (env_message_id e) (env_type e) payload)))"

text \<open>The service as \<^verbatim>\<open>app.New\<close> builds it.\<close>

definition credit_service :: "int \<Rightarrow> int \<Rightarrow> wallet_service" where
  "credit_service initial_credit now =
     with_result_recorder (record_result now) \<lparr>ws_initial_credit = initial_credit, ws_recorder = None\<rparr>"

section \<open>What may be published\<close>

datatype publish_error = ErrUnpublishable | ErrUnroutable | ErrBrokerUnavailable | ErrDeadline | ErrPublishOther

definition result_keys :: "string list" where
  "result_keys = map result_type_text all_result_types"

text \<open>
  A JSON value starts with a brace exactly when it is an object; an absent \<^verbatim>\<open>data\<close>
  has no bytes.
\<close>

definition check_result :: "string \<Rightarrow> raw_json \<Rightarrow> publish_error + envelope" where
  "check_result routing_key payload =
     (case Option.bind payload envelope_of_json of
        None \<Rightarrow> Inl ErrUnpublishable
      | Some e \<Rightarrow>
          if routing_key \<notin> set result_keys \<or> env_type e \<noteq> routing_key then Inl ErrUnpublishable
          else if env_message_id e = [] \<or> 255 < length (env_message_id e)
            \<or> env_correlation_id e = [] \<or> 255 < length (env_correlation_id e) then Inl ErrUnpublishable
          else if env_errand_id e = [] \<or> env_errand_version e < 1 \<or> env_occurred_at e = zero_time
            then Inl ErrUnpublishable
          else if \<not> (case env_data e of Some (JObj _) \<Rightarrow> True | _ \<Rightarrow> False) then Inl ErrUnpublishable
          else Inr e)"

end
