(* ===== verification/Wallet_Commands.thy ===== *)
theory Wallet_Commands
  imports Wallet_Invariant Credit_Message
begin

text \<open>
  The order commands as a whole: what one of them may do to the books
  (\<open>books_step\<close>), the two interfaces a command runs behind (the recorder of its result
  and the operation itself), and the execution of an operation behind both of them,
  proved once and used for each command.
\<close>

section \<open>What a command may do to the books\<close>

text \<open>Everything but the outbox.\<close>

definition books :: "credit_db \<Rightarrow> wallet_row list \<times> reservation list \<times> ledger_entry list \<times> string list" where
  "books s = (db_wallets s, db_reservations s, db_ledger s, db_released s)"

definition settled_kept :: "credit_db \<Rightarrow> credit_db \<Rightarrow> bool" where
  "settled_kept s s' \<longleftrightarrow> (\<forall>r \<in> set (db_reservations s). r_status r \<noteq> ReservationActive \<longrightarrow> r \<in> set (db_reservations s'))"

definition wallet_ids :: "credit_db \<Rightarrow> (string \<times> string \<times> string) list" where
  "wallet_ids s = map (\<lambda>w. (w_id w, w_owner_id w, w_auth0_subject w)) (db_wallets s)"

definition books_step :: "credit_db \<Rightarrow> credit_db \<Rightarrow> bool" where
  "books_step s s' \<longleftrightarrow> credit_inv s' \<and> total_credits s' = total_credits s
     \<and> take (length (db_ledger s)) (db_ledger s') = db_ledger s
     \<and> settled_kept s s' \<and> wallet_ids s' = wallet_ids s \<and> set (db_released s) \<subseteq> set (db_released s')"

lemma books_step_refl: "credit_inv s \<Longrightarrow> books_step s s"
  by (simp add: books_step_def settled_kept_def)

lemma credit_inv_tables:
  "db_wallets s' = db_wallets s \<Longrightarrow> db_reservations s' = db_reservations s \<Longrightarrow> db_ledger s' = db_ledger s
   \<Longrightarrow> credit_inv s' = credit_inv s"
  by (simp add: credit_inv_def inv_defs)

lemma credit_inv_books: "books s' = books s \<Longrightarrow> credit_inv s' = credit_inv s"
  by (rule credit_inv_tables) (simp_all add: books_def)

lemma books_step_cong: "books s' = books s \<Longrightarrow> books_step s0 s' = books_step s0 s"
  unfolding books_step_def settled_kept_def wallet_ids_def total_credits_def
  by (frule credit_inv_books) (simp add: books_def)

lemma wallet_ids_post [simp]:
  "wallet_ids (post_entry env p s) = wallet_ids s" "wallet_ids (post_deltas env wid ad rd s) = wallet_ids s"
  "wallet_ids (post_reservation rid f s) = wallet_ids s" "wallet_ids (add_reservation r s) = wallet_ids s"
  by (simp_all add: wallet_ids_def map_update_where)

lemma released_post [simp]:
  "db_released (post_entry env p s) = db_released s" "db_released (post_deltas env wid ad rd s) = db_released s"
  "db_released (post_reservation rid f s) = db_released s" "db_released (add_reservation r s) = db_released s"
  by (simp_all add: post_defs)

lemma other_tables_post [simp]:
  "db_processed (post_entry env p s) = db_processed s" "db_processed (post_deltas env wid ad rd s) = db_processed s"
  "db_processed (post_reservation rid f s) = db_processed s" "db_processed (add_reservation r s) = db_processed s"
  "db_outbox (post_entry env p s) = db_outbox s" "db_outbox (post_deltas env wid ad rd s) = db_outbox s"
  "db_outbox (post_reservation rid f s) = db_outbox s" "db_outbox (add_reservation r s) = db_outbox s"
  "db_outbox_seq (post_entry env p s) = db_outbox_seq s" "db_outbox_seq (post_deltas env wid ad rd s) = db_outbox_seq s"
  "db_outbox_seq (post_reservation rid f s) = db_outbox_seq s" "db_outbox_seq (add_reservation r s) = db_outbox_seq s"
  by (simp_all add: post_defs)

lemma total_credits_post [simp]:
  "total_credits (post_entry env p s) = total_credits s" "total_credits (post_reservation rid f s) = total_credits s"
  "total_credits (add_reservation r s) = total_credits s"
  by (simp_all add: total_credits_def)

lemma total_credits_deltas:
  assumes "keys_unique s" "wid \<in> w_id ` set (db_wallets s)"
  shows "total_credits (post_deltas env wid ad rd s) = total_credits s + ad + rd"
proof -
  from assms(2) obtain w where w: "w \<in> set (db_wallets s)" "wid = w_id w" by auto
  show ?thesis
    using sum_list_update_key [of w_id "db_wallets s" w "\<lambda>w. w_available w + w_reserved w" "add_deltas env ad rd"] assms(1) w
    by (simp add: total_credits_def keys_unique_def)
qed

lemma settled_kept_update:
  assumes "keys_unique s" "r \<in> set (db_reservations s)" "r_status r = ReservationActive"
    "db_reservations s' = db_reservations (post_reservation (r_id r) f s)"
  shows "settled_kept s s'"
  using assms(3) unfolding settled_kept_def assms(4) set_reservations_post [OF assms(1,2)] by auto

text \<open>The tables an operation leaves to \<open>execute\<close> and the recorder.\<close>

definition side_tables_kept :: "credit_db \<Rightarrow> credit_db \<Rightarrow> bool" where
  "side_tables_kept s s' \<longleftrightarrow> db_processed s' = db_processed s \<and> db_outbox s' = db_outbox s \<and> db_outbox_seq s' = db_outbox_seq s"

lemma side_tables_kept_refl [simp]: "side_tables_kept s s"
  by (simp add: side_tables_kept_def)

lemma reserve_op_step:
  assumes op: "reserve_op env oid sub amount s = Inr (result, s')" and inv: "credit_inv s"
    and ok: "0 < amount" "length oid = 36"
  shows "books_step s s' \<and> side_tables_kept s s'"
proof -
  have k: "keys_unique s" "in_range s" using inv by (simp_all add: credit_inv_def)
  from op k ok(1) show ?thesis
  proof (cases rule: reserve_op_cases)
    case unchanged
    then show ?thesis using inv by (simp add: books_step_refl)
  next
    case (reserved w)
    have post: "s' = reserve_post env (w_id w) oid amount s" by fact
    have "credit_inv s'" unfolding post by (rule reserve_post_inv [OF inv]) (use reserved ok in simp_all)
    moreover have "keys_unique (post_entry env (reserve_entry (w_id w) oid amount) s)"
      using reserved k by (intro keys_unique_entry) (simp_all add: reserve_entry_def)
    then have "total_credits s' = total_credits s"
      using reserved(1) by (simp add: post reserve_post_def total_credits_deltas)
    ultimately show ?thesis
      by (simp add: post books_step_def settled_kept_def reserve_post_def side_tables_kept_def)
  qed
qed

lemma adjust_op_step:
  assumes op: "adjust_op env oid sub new_amount seq s = Inr (result, s')" and inv: "credit_inv s"
    and ok: "0 < new_amount" "in_int64 new_amount"
  shows "books_step s s' \<and> side_tables_kept s s'"
proof -
  have k: "keys_unique s" "in_range s" using inv by (simp_all add: credit_inv_def)
  from op k ok show ?thesis
  proof (cases rule: adjust_op_cases)
    case unchanged
    then show ?thesis using inv by (simp add: books_step_refl)
  next
    case (adjusted res w)
    have post: "s' = adjust_post env oid res new_amount seq s" by fact
    have "credit_inv s'" unfolding post by (rule adjust_post_inv [OF inv]) (use adjusted ok in simp_all)
    moreover have "settled_kept s s'"
      using adjusted k find_Some_mem [OF adjusted(1)]
      by (intro settled_kept_update [of _ res _ "set_adjusted env new_amount seq"]) (auto simp: post adjust_post_def Let_def)
    moreover have "r_wallet_id res \<in> w_id ` set (db_wallets s)" using adjusted(2,3) by force
    then have "total_credits s' = total_credits s"
      using k adjusted
      by (auto simp: post adjust_post_def Let_def total_credits_deltas keys_unique_entry adjust_entry_def)
    ultimately show ?thesis
      by (simp add: post books_step_def adjust_post_def Let_def side_tables_kept_def)
  qed
qed

lemma release_op_step:
  assumes op: "release_op env oid sub s = Inr (result, s')" and inv: "credit_inv s"
  shows "books_step s s' \<and> side_tables_kept s s'"
proof -
  have k: "keys_unique s" "in_range s" using inv by (simp_all add: credit_inv_def)
  from op k show ?thesis
  proof (cases rule: release_op_cases)
    case unchanged
    then show ?thesis using inv by (simp add: books_step_refl)
  next
    case tombstone
    have "credit_inv s'" using inv credit_inv_tables [of s' s] by (simp add: tombstone(3))
    then show ?thesis
      unfolding books_step_def by (auto simp: tombstone(3) settled_kept_def wallet_ids_def total_credits_def side_tables_kept_def)
  next
    case (released res w)
    have post: "s' = release_post env oid res s" by fact
    have "credit_inv s'" unfolding post by (rule release_post_inv [OF inv]) (use released in simp_all)
    moreover have "settled_kept s s'"
      using released k find_Some_mem [OF released(1)]
      by (intro settled_kept_update [of _ res _ "set_status env (r_amount res) ReservationReleased"])
        (auto simp: post release_post_def)
    moreover have "r_wallet_id res \<in> w_id ` set (db_wallets s)" using released(2,3) by force
    then have "total_credits s' = total_credits s"
      using k released by (auto simp: post release_post_def total_credits_deltas keys_unique_entry release_entry_def)
    ultimately show ?thesis
      by (simp add: post books_step_def release_post_def side_tables_kept_def)
  qed
qed

lemma transfer_post_tables [simp]:
  "wallet_ids (transfer_post env oid amount res wid cid s) = wallet_ids s"
  "db_released (transfer_post env oid amount res wid cid s) = db_released s"
  "side_tables_kept s (transfer_post env oid amount res wid cid s)"
  "take (length (db_ledger s)) (db_ledger (transfer_post env oid amount res wid cid s)) = db_ledger s"
  "db_reservations (transfer_post env oid amount res wid cid s)
     = db_reservations (post_reservation (r_id res) (set_status env (r_amount res) ReservationTransferred) s)"
  by (simp_all add: transfer_post_def Let_def side_tables_kept_def)

lemma total_credits_transfer_post:
  assumes "keys_unique s" "wid \<in> w_id ` set (db_wallets s)" "cid \<in> w_id ` set (db_wallets s)"
  shows "total_credits (transfer_post env oid amount res wid cid s) = total_credits s"
proof -
  have deltas: "sum_list (map (\<lambda>w. w_available w + w_reserved w)
        (update_where (\<lambda>w. w_id w = x) (add_deltas env ad rd) ws))
      = sum_list (map (\<lambda>w. w_available w + w_reserved w) ws) + ad + rd"
    if "distinct (map w_id ws)" "x \<in> w_id ` set ws" for x ad rd ws
  proof -
    from that(2) obtain w where "w \<in> set ws" "x = w_id w" by auto
    with sum_list_update_key [OF that(1), of w "\<lambda>w. w_available w + w_reserved w" "add_deltas env ad rd"]
    show ?thesis by simp
  qed
  have "db_wallets (transfer_post env oid amount res wid cid s)
      = update_where (\<lambda>w. w_id w = cid) (add_deltas env amount 0)
          (update_where (\<lambda>w. w_id w = wid) (add_deltas env (r_amount res - amount) (- r_amount res)) (db_wallets s))"
    by (simp add: transfer_post_def Let_def)
  then show ?thesis
    using assms unfolding total_credits_def keys_unique_def by (simp add: deltas)
qed

lemma transfer_op_step:
  assumes op: "transfer_op env oid x y amount s = Inr (result, s')" and inv: "credit_inv s"
    and ok: "x \<noteq> y" "0 < amount" "in_int64 amount"
  shows "books_step s s' \<and> side_tables_kept s s'"
proof -
  have k: "keys_unique s" "in_range s" using inv by (simp_all add: credit_inv_def)
  from op ok(1) k ok(2,3) show ?thesis
  proof (cases rule: transfer_op_cases)
    case unchanged
    then show ?thesis using inv by (simp add: books_step_refl)
  next
    case (paid res rw cw)
    have post: "s' = transfer_post env oid amount res (w_id rw) (w_id cw) s" by fact
    have "credit_inv s'"
      unfolding post using no_settle_key [OF inv paid(1,2)]
      by (intro transfer_post_inv [OF inv paid(1,2,3,5,9,10,11,6,8,12) ok(2)]) simp_all
    moreover have "settled_kept s s'"
      using paid k find_Some_mem [OF paid(1)]
      by (intro settled_kept_update [of _ res _ "set_status env (r_amount res) ReservationTransferred"]) (auto simp: post)
    ultimately show ?thesis
      using k(1) paid(3,6) by (simp add: post books_step_def total_credits_transfer_post)
  qed
qed

section \<open>The interfaces of a command\<close>

definition result_key :: "string \<Rightarrow> credit_result \<Rightarrow> string" where
  "result_key mid r = mid @ '':'' @ result_type_text (res_type r)"

definition result_pending :: "string \<Rightarrow> credit_result \<Rightarrow> credit_db \<Rightarrow> bool" where
  "result_pending mid r s \<longleftrightarrow> (\<exists>o' \<in> set (db_outbox s). co_key o' = result_key mid r \<and> co_status o' = OutboxPending)"

text \<open>A recorder stores the result for delivery and touches nothing else.\<close>

locale result_recorder =
  fixes rec :: recorder
  assumes keeps_books: "rec env rp r s = Inr (u, s') \<Longrightarrow> books s' = books s \<and> db_processed s' = db_processed s"
    and keeps_outbox: "rec env rp r s = Inr (u, s') \<Longrightarrow> outbox_ok s \<Longrightarrow> outbox_ok s'"
    and stores: "rec env rp r s = Inr (u, s') \<Longrightarrow> result_pending (rp_command_message_id rp) r s'"
begin

lemma execute_failed: "execute svc env mid rp op s = (Inl e, s') \<Longrightarrow> s' = s"
  by (auto simp: execute_def dest: run_tx_InlD split: if_splits)

lemma execute_cases:
  assumes "execute svc env mid rp op s = (Inr result, s')" "ws_recorder svc = Some rec"
  obtains (replayed) stored where "find (\<lambda>c. pc_message_id c = mid) (db_processed s) = Some stored"
      "result_of_json (pc_result stored) = Some result" "books s' = books s" "db_processed s' = db_processed s"
      "outbox_ok s \<Longrightarrow> outbox_ok s'" "result_pending mid result s'"
  | (run) s1 where "mid \<notin> pc_message_id ` set (db_processed s)" "op s = Inr (result, s1)" "books s' = books s1"
      "db_processed s' = db_processed s1 @ (if res_type result \<noteq> ResultOperationFailed
         then [\<lparr>pc_message_id = mid, pc_result_type = result_type_text (res_type result), pc_result = result_to_json result\<rparr>]
         else [])"
      "db_outbox s1 = db_outbox s \<Longrightarrow> db_outbox_seq s1 = db_outbox_seq s \<Longrightarrow> outbox_ok s \<Longrightarrow> outbox_ok s'"
      "result_pending mid result s'"
proof -
  from assms have tx: "execute_tx svc env mid rp op s = Inr (result, s')"
    by (auto simp: execute_def dest: run_tx_InrD split: if_splits)
  then obtain s2 u where
    body: "on_not_found (get_processed_command mid)
         (tx_bind op (\<lambda>result.
            if res_type result \<noteq> ResultOperationFailed then
              tx_bind (lift_repo (insert_processed_command
                \<lparr>pc_message_id = mid, pc_result_type = result_type_text (res_type result),
                 pc_result = result_to_json result\<rparr>)) (\<lambda>_. tx_return result)
            else tx_return result))
         (\<lambda>stored. case result_of_json (pc_result stored) of
            None \<Rightarrow> tx_fail (WOther ''unmarshal'') | Some result \<Rightarrow> tx_return result) s = Inr (result, s2)"
    and rec: "rec env (rp\<lparr>rp_command_message_id := mid\<rparr>) result s2 = Inr (u, s')"
    using assms(2) by (auto simp: execute_tx_def tx_bind_Inr_iff lock_command_def)
  note kept = keeps_books [OF rec] keeps_outbox [OF rec] stores [OF rec]
  from body show thesis
    unfolding on_not_found_Inr_iff
  proof (elim disjE conjE exE)
    assume missing: "get_processed_command mid s = Inl ErrNotFound"
      and opr: "tx_bind op (\<lambda>result.
            if res_type result \<noteq> ResultOperationFailed then
              tx_bind (lift_repo (insert_processed_command
                \<lparr>pc_message_id = mid, pc_result_type = result_type_text (res_type result),
                 pc_result = result_to_json result\<rparr>)) (\<lambda>_. tx_return result)
            else tx_return result) s = Inr (result, s2)"
    have "mid \<notin> pc_message_id ` set (db_processed s)"
      using missing by (auto simp: get_processed_command_def mapped_def one_row_def find_None_iff2
          split: sum.splits option.splits dest: find_Some_mem)
    moreover from opr obtain s1 where "op s = Inr (result, s1)"
      "s2 = s1\<lparr>db_processed := db_processed s1 @ (if res_type result \<noteq> ResultOperationFailed
         then [\<lparr>pc_message_id = mid, pc_result_type = result_type_text (res_type result), pc_result = result_to_json result\<rparr>]
         else [])\<rparr>"
      by (auto simp: tx_bind_Inr_iff insert_processed_command_def split: if_splits)
    ultimately show thesis
      using kept by (intro run [of s1]) (simp_all add: books_def outbox_ok_def)
  next
    fix stored s1
    assume "get_processed_command mid s = Inr (stored, s1)"
      "(case result_of_json (pc_result stored) of None \<Rightarrow> tx_fail (WOther ''unmarshal'')
        | Some result \<Rightarrow> tx_return result) s1 = Inr (result, s2)"
    with kept show thesis
      by (auto simp: get_processed_command_def split: option.splits intro!: replayed)
  qed
qed

end

text \<open>An operation on the books, with the commands the use case lets through to it.\<close>

locale order_operation =
  fixes op :: "db_env \<Rightarrow> 'c \<Rightarrow> credit_result svc" and valid :: "'c \<Rightarrow> bool"
  assumes op_step: "valid c \<Longrightarrow> op env c s = Inr (r, s') \<Longrightarrow> credit_inv s \<Longrightarrow> books_step s s' \<and> side_tables_kept s s'"

locale recorded_operation = order_operation op valid + result_recorder rec
  for op :: "db_env \<Rightarrow> 'c \<Rightarrow> credit_result svc" and valid :: "'c \<Rightarrow> bool" and rec :: recorder
begin

lemma execute_step:
  assumes "execute svc env mid rp (op env c) s = (out, s')" "ws_recorder svc = Some rec" "valid c"
    and inv: "credit_inv s" and ob: "outbox_ok s"
  shows "books_step s s' \<and> outbox_ok s'"
proof (cases out)
  case (Inl e)
  with assms(1) have "s' = s" by (intro execute_failed) simp
  with inv ob show ?thesis by (simp add: books_step_refl)
next
  case (Inr result)
  with assms(1) have "execute svc env mid rp (op env c) s = (Inr result, s')" by simp
  from this assms(2) show ?thesis
  proof (cases rule: execute_cases)
    case (replayed stored)
    with ob books_step_cong [of s' s s] inv show ?thesis by (simp add: books_step_refl)
  next
    case (run s1)
    with op_step [OF assms(3) _ inv] ob books_step_cong [of s' s1 s] show ?thesis
      by (simp add: side_tables_kept_def)
  qed
qed

end

section \<open>The model provides the interfaces\<close>

lemma lift_sql_Inr [simp]: "lift_sql m s = Inr r \<longleftrightarrow> m s = Inr r"
  by (simp add: lift_sql_def split: sum.splits)

lemma record_result_Inr:
  "record_result now env rp r s = Inr (u, s') \<longleftrightarrow>
     1 \<le> rp_errand_version rp \<and> (\<exists>payload. envelope_to_json (build_result rp r now) = Some payload
       \<and> enqueue env (result_key (rp_command_message_id rp) r) (result_type_text (res_type r)) payload s = Inr (u, s'))"
  by (auto simp: record_result_def Let_def build_result_def result_key_def split: option.splits)

lemma enqueue_books: "enqueue env key rk payload s = Inr (u, s') \<Longrightarrow> books s' = books s \<and> db_processed s' = db_processed s"
  by (auto simp: enqueue_def books_def split: if_splits)

interpretation outbox_recorder: result_recorder "record_result now" for now
proof unfold_locales
  fix env rp r s u s' assume rec: "record_result now env rp r s = Inr (u, s')"
  then obtain payload where enq:
    "enqueue env (result_key (rp_command_message_id rp) r) (result_type_text (res_type r)) payload s = Inr ((), s')"
    by (auto simp: record_result_Inr)
  show "books s' = books s \<and> db_processed s' = db_processed s" by (rule enqueue_books [OF enq])
  show "result_pending (rp_command_message_id rp) r s'" using enqueue_pending [OF enq] by (simp add: result_pending_def)
  show "outbox_ok s'" if "outbox_ok s" using enqueue_ok [OF enq that] .
qed

definition reserve_args :: "db_env \<Rightarrow> string \<times> string \<times> int \<Rightarrow> credit_result svc" where
  "reserve_args env = (\<lambda>(oid, sub, amount). reserve_op env oid sub amount)"

definition adjust_args :: "db_env \<Rightarrow> string \<times> string \<times> int \<times> int \<Rightarrow> credit_result svc" where
  "adjust_args env = (\<lambda>(oid, sub, new_amount, seq). adjust_op env oid sub new_amount seq)"

definition release_args :: "db_env \<Rightarrow> string \<times> string \<Rightarrow> credit_result svc" where
  "release_args env = (\<lambda>(oid, sub). release_op env oid sub)"

definition transfer_args :: "db_env \<Rightarrow> string \<times> string \<times> string \<times> int \<Rightarrow> credit_result svc" where
  "transfer_args env = (\<lambda>(oid, requester, courier, amount). transfer_op env oid requester courier amount)"

lemmas args_defs = reserve_args_def adjust_args_def release_args_def transfer_args_def

interpretation reserve_cmd: recorded_operation reserve_args "\<lambda>(oid, sub, amount). length oid = 36 \<and> 0 < amount"
  "record_result now" for now
  by unfold_locales (auto simp: args_defs dest: reserve_op_step)

interpretation adjust_cmd: recorded_operation adjust_args "\<lambda>(oid, sub, new_amount, seq). 0 < new_amount \<and> in_int64 new_amount"
  "record_result now" for now
  by unfold_locales (auto simp: args_defs dest: adjust_op_step)

interpretation release_cmd: recorded_operation release_args "\<lambda>_. True" "record_result now" for now
  by unfold_locales (auto simp: args_defs dest: release_op_step)

interpretation transfer_cmd: recorded_operation transfer_args
  "\<lambda>(oid, requester, courier, amount). requester \<noteq> courier \<and> 0 < amount \<and> in_int64 amount" "record_result now" for now
  by unfold_locales (auto simp: args_defs dest: transfer_op_step)

section \<open>Commands and messages\<close>

text \<open>The amounts of a command are 64-bit integers in the code.\<close>

fun command_typed :: "command \<Rightarrow> bool" where
  "command_typed (Reserve c) \<longleftrightarrow> in_int64 (rc_amount c)"
| "command_typed (Adjust c) \<longleftrightarrow> in_int64 (ac_new_amount c) \<and> in_int64 (ac_seq c)"
| "command_typed (Release c) \<longleftrightarrow> True"
| "command_typed (Transfer c) \<longleftrightarrow> in_int64 (tc_amount c)"

text \<open>The operation a valid command runs, and the reply it names; \<open>None\<close> for a command the use case refuses.\<close>

fun command_op :: "db_env \<Rightarrow> command \<Rightarrow> (reply \<times> credit_result svc) option" where
  "command_op env (Reserve c) =
     (if uuid_pattern (rc_order_id c) \<and> validate_subject (rc_requester_subject c) \<and> 0 < rc_amount c
      then Some (mk_reply (to_lower (rc_order_id c)) (rc_errand_version c),
        reserve_args env (to_lower (rc_order_id c), rc_requester_subject c, rc_amount c)) else None)"
| "command_op env (Adjust c) =
     (if uuid_pattern (ac_order_id c) \<and> validate_subject (ac_requester_subject c) \<and> 0 < ac_new_amount c \<and> 0 < ac_seq c
      then Some (mk_reply (to_lower (ac_order_id c)) (ac_errand_version c),
        adjust_args env (to_lower (ac_order_id c), ac_requester_subject c, ac_new_amount c, ac_seq c)) else None)"
| "command_op env (Release c) =
     (if uuid_pattern (lc_order_id c) \<and> validate_subject (lc_requester_subject c)
      then Some (mk_reply (to_lower (lc_order_id c)) (lc_errand_version c),
        release_args env (to_lower (lc_order_id c), lc_requester_subject c)) else None)"
| "command_op env (Transfer c) =
     (if uuid_pattern (tc_order_id c) \<and> validate_subject (tc_requester_subject c) \<and> validate_subject (tc_courier_subject c)
         \<and> tc_requester_subject c \<noteq> tc_courier_subject c \<and> 0 < tc_amount c
      then Some (mk_reply (to_lower (tc_order_id c)) (tc_errand_version c),
        transfer_args env (to_lower (tc_order_id c), tc_requester_subject c, tc_courier_subject c, tc_amount c)) else None)"

lemma run_command_eq:
  "run_command svc env mid c s =
     (case command_op env c of None \<Rightarrow> (Inl WInvalid, s) | Some (rp, op) \<Rightarrow> execute svc env mid rp op s)"
  by (cases c) (auto simp: reserve_def adjust_def release_def transfer_def validate_order_id_def args_defs)

lemma credit_service_recorder [simp]: "ws_recorder (credit_service ic now) = Some (record_result now)"
  by (simp add: credit_service_def with_result_recorder_def)

lemma run_command_step:
  assumes run: "run_command (credit_service ic now) env mid c s = (out, s')"
    and ok: "command_typed c" "credit_inv s" "outbox_ok s"
  shows "books_step s s' \<and> outbox_ok s'"
proof (cases "command_op env c")
  case None
  with run ok show ?thesis by (simp add: run_command_eq books_step_refl)
next
  case (Some rpop)
  obtain rp op where [simp]: "rpop = (rp, op)" by fastforce
  from Some run have ex: "execute (credit_service ic now) env mid rp op s = (out, s')" by (simp add: run_command_eq)
  show ?thesis
  proof (cases c)
    case (Reserve d)
    with Some have op: "op = reserve_args env (to_lower (rc_order_id d), rc_requester_subject d, rc_amount d)"
      and "uuid_pattern (rc_order_id d)" "0 < rc_amount d" by (auto split: if_splits)
    with ok show ?thesis
      by (intro reserve_cmd.execute_step [OF ex [unfolded op]]) (auto dest: uuid_pattern_length)
  next
    case (Adjust d)
    with Some have op: "op = adjust_args env (to_lower (ac_order_id d), ac_requester_subject d, ac_new_amount d, ac_seq d)"
      and "0 < ac_new_amount d" by (auto split: if_splits)
    with Adjust ok show ?thesis by (intro adjust_cmd.execute_step [OF ex [unfolded op]]) auto
  next
    case (Release d)
    with Some have op: "op = release_args env (to_lower (lc_order_id d), lc_requester_subject d)" by (auto split: if_splits)
    with ok show ?thesis by (intro release_cmd.execute_step [OF ex [unfolded op]]) auto
  next
    case (Transfer d)
    with Some have op: "op = transfer_args env (to_lower (tc_order_id d), tc_requester_subject d, tc_courier_subject d, tc_amount d)"
      and "tc_requester_subject d \<noteq> tc_courier_subject d" "0 < tc_amount d" by (auto split: if_splits)
    with Transfer ok show ?thesis by (intro transfer_cmd.execute_step [OF ex [unfolded op]]) auto
  qed
qed

lemma pair_option_Some [simp]: "pair_option x y = Some (a, b) \<longleftrightarrow> x = Some a \<and> y = Some b"
  by (auto simp: pair_option_def split: option.splits)

lemma decode_data_Inr:
  "decode_data e get = Inr d \<Longrightarrow> \<exists>fs. get fs = Some d"
  by (auto simp: decode_data_def split: option.splits if_splits)

lemma decode_command_typed: "decode_command rk e = Inr c \<Longrightarrow> command_typed c"
  by (auto simp: decode_command_def reserve_data_def adjust_data_def transfer_data_def
      dest!: decode_data_Inr dest: int_field_in_int64 split: if_splits sum.splits)

lemma handle_cases:
  assumes "handle svc env rk body s = (err, s')"
  obtains (unread) "err = Some Undecodable" "s' = s"
  | (run) e c out where "decode_envelope rk body = Inr e" "decode_command rk e = Inr c"
      "run_command svc env (env_message_id e) c s = (out, s')" "err = (case out of Inl x \<Rightarrow> Some (Wallet x) | Inr _ \<Rightarrow> None)"
proof -
  have u1: "x = Undecodable" if "decode_envelope rk body = Inl x" for x
    using that by (auto simp: decode_envelope_def split: option.splits if_splits)
  have u2: "x = Undecodable" if "decode_data e get = Inl x" for x e and get :: "(string \<times> json) list \<Rightarrow> 'd option"
    using that by (auto simp: decode_data_def split: option.splits if_splits)
  have u3: "x = Undecodable" if "decode_command rk e = Inl x" for x e
    using that by (auto simp: decode_command_def decode_data_def split: if_splits sum.splits option.splits)
  show thesis
    using assms unread run u1 u3 by (auto simp: handle_def split: sum.splits prod.splits)
qed

lemma handle_step:
  assumes "handle (credit_service ic now) env rk body s = (err, s')" "credit_inv s" "outbox_ok s"
  shows "books_step s s' \<and> outbox_ok s'"
  using assms(1)
proof (cases rule: handle_cases)
  case unread
  with assms show ?thesis by (simp add: books_step_refl)
next
  case (run e c out)
  show ?thesis by (rule run_command_step [OF run(3) decode_command_typed [OF run(2)] assms(2,3)])
qed

end
