(* ===== verification/Wallet_Opening.thy ===== *)
theory Wallet_Opening
  imports Wallet_Commands
begin

text \<open>
  Opening a wallet: the state \<open>create_wallet\<close> leaves, that it keeps the invariant, and
  the runs of the whole service (wallets opened over HTTP, order commands arriving as
  messages) as a step relation with its reachable states.
\<close>

definition allocate_entry :: "string \<Rightarrow> int \<Rightarrow> ledger_params" where
  "allocate_entry wid credit =
     \<lparr>lp_wallet_id = wid, lp_type = EntryAllocate, lp_available_delta = credit, lp_reserved_delta = 0,
      lp_order_id = None, lp_counterparty = None, lp_key = initial_allocation_key\<rparr>"

definition add_wallet :: "wallet_row \<Rightarrow> credit_db \<Rightarrow> credit_db" where
  "add_wallet w s = s\<lparr>db_wallets := db_wallets s @ [w]\<rparr>"

definition open_post :: "db_env \<Rightarrow> string \<Rightarrow> string \<Rightarrow> int \<Rightarrow> credit_db \<Rightarrow> credit_db" where
  "open_post env owner sub credit s =
     (let s1 = add_wallet (new_wallet_row env owner sub) s; wid = env_uuid env in
      if credit > 0 then post_deltas env wid credit 0 (post_entry env (allocate_entry wid credit) s1) else s1)"

lemma add_wallet_fields [simp]:
  "db_wallets (add_wallet w s) = db_wallets s @ [w]" "db_reservations (add_wallet w s) = db_reservations s"
  "db_ledger (add_wallet w s) = db_ledger s" "db_ledger_seq (add_wallet w s) = db_ledger_seq s"
  "db_outbox (add_wallet w s) = db_outbox s" "db_outbox_seq (add_wallet w s) = db_outbox_seq s"
  "db_released (add_wallet w s) = db_released s" "db_processed (add_wallet w s) = db_processed s"
  by (simp_all add: add_wallet_def)

lemma new_wallet_row_fields [simp]:
  "w_id (new_wallet_row env owner sub) = env_uuid env" "w_owner_id (new_wallet_row env owner sub) = owner"
  "w_auth0_subject (new_wallet_row env owner sub) = sub" "w_available (new_wallet_row env owner sub) = 0"
  "w_reserved (new_wallet_row env owner sub) = 0"
  by (simp_all add: new_wallet_row_def)

lemma create_wallet_cases:
  assumes "create_wallet svc env owner sub s = (Inr (w, created), s')"
  obtains (existing) row where "\<not> created" "s' = s" "row \<in> set (db_wallets s)" "w_owner_id row = to_lower owner"
      "w_auth0_subject row = sub" "w = from_row row"
  | (opened) "created" "env_uuid env \<notin> w_id ` set (db_wallets s)" "to_lower owner \<notin> w_owner_id ` set (db_wallets s)"
      "sub \<notin> w_auth0_subject ` set (db_wallets s)" "ws_initial_credit svc > 0 \<Longrightarrow> in_int64 (ws_initial_credit svc)"
      "s' = open_post env (to_lower owner) sub (ws_initial_credit svc) s"
proof -
  let ?o = "to_lower owner"
  from assms have tx: "create_wallet_tx svc env ?o sub s = Inr ((w, created), s')"
    by (auto simp: create_wallet_def validate_owner_id_def dest: run_tx_InrD split: sum.splits if_splits)
  show thesis
  proof (cases "?o \<in> w_owner_id ` set (db_wallets s)")
    case True
    with tx existing show thesis
      by (auto simp: create_wallet_tx_def tx_catch_def insert_wallet_if_absent_def mapped_def tx_bind_def check_that_def
          get_wallet_by_owner_def find_wallet_def one_row_def lift_repo_def
          split: sum.splits prod.splits if_splits option.splits dest: find_Some_mem)
  next
    case False
    let ?row = "new_wallet_row env ?o sub" and ?s1 = "add_wallet (new_wallet_row env ?o sub) s"
    from tx False have ins: "insert_wallet_if_absent env ?o sub s = Inr ((Some ?row, True), ?s1)"
      by (auto simp: create_wallet_tx_def tx_catch_def insert_wallet_if_absent_def insert_wallet_row_def mapped_def
          tx_bind_def check_that_def add_wallet_def split: sum.splits prod.splits if_splits)
    then have fresh: "env_uuid env \<notin> w_id ` set (db_wallets s)" "sub \<notin> w_auth0_subject ` set (db_wallets s)"
      using False by (auto simp: insert_wallet_if_absent_def insert_wallet_row_def tx_bind_Inr_iff split: if_splits)
    have found: "find (\<lambda>w. w_owner_id w = ?o) (db_wallets s @ [?row]) = Some ?row"
      "find (\<lambda>w. w_id w = env_uuid env) (db_wallets s @ [?row]) = Some ?row"
      using False fresh(1) by (subst find_snoc, force, simp)+
    from tx ins found have "created \<and> s' = open_post env ?o sub (ws_initial_credit svc) s
        \<and> (ws_initial_credit svc > 0 \<longrightarrow> in_int64 (ws_initial_credit svc))"
      unfolding create_wallet_tx_def tx_catch_def
      by (auto simp: tx_bind_Inr_iff get_wallet_by_owner_def find_wallet_def insert_ledger_entry_Inr apply_deltas_Inr
          open_post_def Let_def allocate_entry_def split: if_splits)
    with fresh False show thesis by (intro opened) auto
  qed
qed

lemma ledger_total_no_wallet:
  "refs_exist s \<Longrightarrow> wid \<notin> w_id ` set (db_wallets s) \<Longrightarrow> ledger_total f wid (db_ledger s) = 0"
  unfolding refs_exist_def ledger_total_def by (subst filter_False) auto

lemma active_total_no_wallet:
  assumes "refs_exist s" "wid \<notin> w_id ` set (db_wallets s)"
  shows "active_total wid (db_reservations s) = 0"
proof -
  have "map (\<lambda>r. if r_wallet_id r = wid \<and> r_status r = ReservationActive then r_amount r else 0) (db_reservations s)
      = map (\<lambda>_. 0) (db_reservations s)"
    using assms by (intro map_cong) (auto simp: refs_exist_def)
  then show ?thesis unfolding active_total_def by (simp only: sum_list_0)
qed

lemma add_wallet_inv:
  assumes "credit_inv s" "env_uuid env \<notin> w_id ` set (db_wallets s)" "owner \<notin> w_owner_id ` set (db_wallets s)"
    "sub \<notin> w_auth0_subject ` set (db_wallets s)"
  shows "credit_inv (add_wallet (new_wallet_row env owner sub) s)"
proof -
  have "refs_exist s" using assms(1) by (simp add: credit_inv_def)
  note none = ledger_total_no_wallet [OF this assms(2)] active_total_no_wallet [OF this assms(2)]
  have "keys_unique (add_wallet (new_wallet_row env owner sub) s)"
    using assms by (simp add: credit_inv_def keys_unique_def)
  moreover have "refs_exist (add_wallet (new_wallet_row env owner sub) s)" "in_range (add_wallet (new_wallet_row env owner sub) s)"
    using assms by (simp_all add: credit_inv_def refs_exist_def in_range_def)
  moreover have "books_balance (add_wallet (new_wallet_row env owner sub) s)"
    using assms none by (auto simp: credit_inv_def books_balance_def)
  moreover have "reserved_backed (add_wallet (new_wallet_row env owner sub) s)"
    using assms none by (auto simp: credit_inv_def reserved_backed_def)
  moreover have "ledger_keys_fit (add_wallet (new_wallet_row env owner sub) s)"
    using assms by (simp add: credit_inv_def ledger_keys_fit_def)
  ultimately show ?thesis by (simp add: credit_inv_def)
qed

lemma allocate_inv:
  assumes "credit_inv s" "w \<in> set (db_wallets s)" "w_available w = 0" "w_reserved w = 0" "in_int64 credit" "0 < credit"
    and fresh: "\<not> ledger_has (db_ledger s) (w_id w) initial_allocation_key"
  shows "credit_inv (post_deltas env (w_id w) credit 0 (post_entry env (allocate_entry (w_id w) credit) s))"
    (is "credit_inv ?s")
proof -
  have k: "keys_unique (post_entry env (allocate_entry (w_id w) credit) s)"
    using assms by (intro keys_unique_entry) (simp_all add: credit_inv_def allocate_entry_def)
  then have "keys_unique ?s" by simp
  moreover have "refs_exist ?s"
    using assms by (auto simp: credit_inv_def allocate_entry_def intro: refs_exist_entry)
  moreover have "in_range ?s"
    using assms k by (intro in_range_deltas) (auto simp: credit_inv_def)
  moreover have "books_balance ?s"
    using assms(1) by (auto simp: credit_inv_def books_balance_def set_update_where allocate_entry_def)
  moreover have "reserved_backed ?s"
    using assms(1) by (auto simp: credit_inv_def reserved_backed_def set_update_where)
  moreover have "ledger_keys_fit ?s"
    using assms(1) by (auto simp: credit_inv_def ledger_keys_fit_def allocate_entry_def)
  ultimately show ?thesis by (simp add: credit_inv_def)
qed

lemma open_post_inv:
  assumes inv: "credit_inv s" and fresh: "env_uuid env \<notin> w_id ` set (db_wallets s)" "owner \<notin> w_owner_id ` set (db_wallets s)"
    "sub \<notin> w_auth0_subject ` set (db_wallets s)" and credit: "0 \<le> credit" "credit > 0 \<Longrightarrow> in_int64 credit"
  shows "credit_inv (open_post env owner sub credit s)" "total_credits (open_post env owner sub credit s) = total_credits s + credit"
proof -
  let ?w = "new_wallet_row env owner sub"
  have i1: "credit_inv (add_wallet ?w s)" by (rule add_wallet_inv [OF inv fresh])
  have no: "\<not> ledger_has (db_ledger s) (env_uuid env) initial_allocation_key"
    using inv fresh(1) unfolding ledger_has_def credit_inv_def refs_exist_def by metis
  have i2: "credit_inv (post_deltas env (w_id ?w) credit 0 (post_entry env (allocate_entry (w_id ?w) credit) (add_wallet ?w s)))"
    if "credit > 0"
    using that credit(2) no by (intro allocate_inv [OF i1]) simp_all
  show "credit_inv (open_post env owner sub credit s)"
    using i1 i2 unfolding open_post_def Let_def by (auto simp del: post_fields)
  have "keys_unique (post_entry env (allocate_entry (env_uuid env) credit) (add_wallet ?w s))"
    using i1 no by (intro keys_unique_entry) (simp_all add: credit_inv_def allocate_entry_def)
  then show "total_credits (open_post env owner sub credit s) = total_credits s + credit"
    using credit(1) by (simp add: open_post_def Let_def total_credits_deltas)
      (simp add: total_credits_def)
qed

lemma create_wallet_step:
  assumes cw: "create_wallet svc env owner sub s = (out, s')" and inv: "credit_inv s" and credit: "0 \<le> ws_initial_credit svc"
  shows "credit_inv s'
    \<and> total_credits s' = total_credits s + (case out of Inr (_, True) \<Rightarrow> ws_initial_credit svc | _ \<Rightarrow> 0)
    \<and> db_outbox s' = db_outbox s \<and> db_outbox_seq s' = db_outbox_seq s"
proof (cases out)
  case (Inl e)
  with cw have "s' = s"
    by (auto simp: create_wallet_def dest: run_tx_InlD split: sum.splits if_splits)
  with inv Inl show ?thesis by simp
next
  case (Inr wc)
  obtain w created where wc: "wc = (w, created)" by fastforce
  with Inr cw have "create_wallet svc env owner sub s = (Inr (w, created), s')" by simp
  then show ?thesis
  proof (cases rule: create_wallet_cases)
    case (existing row)
    with inv Inr wc show ?thesis by simp
  next
    case opened
    with open_post_inv [OF inv opened(2,3,4) credit opened(5)] Inr wc show ?thesis
      by (simp add: open_post_def Let_def)
  qed
qed

lemma create_wallet_existing:
  assumes "w \<in> set (db_wallets s)" "w_owner_id w = to_lower owner" "w_auth0_subject w = sub" "keys_unique s"
    "uuid_pattern owner" "validate_subject sub" "subject_check sub"
  shows "create_wallet svc env owner sub s = (Inr (from_row w, False), s)"
proof -
  have "find (\<lambda>v. w_owner_id v = to_lower owner) (db_wallets s) = Some w"
    using find_key_unique [of w_owner_id "db_wallets s" w] assms(1,2,4) by (simp add: keys_unique_def)
  moreover have "to_lower owner \<in> w_owner_id ` set (db_wallets s)" using assms(1,2) by force
  ultimately show ?thesis
    using assms(3,5-7)
    by (simp add: create_wallet_def validate_owner_id_def run_tx_def create_wallet_tx_def tx_catch_def
        insert_wallet_if_absent_def mapped_def tx_bind_def check_that_def get_wallet_by_owner_def find_wallet_def
        one_row_def lift_repo_def)
qed

lemma create_wallet_accepted:
  "create_wallet svc env owner sub s = (Inr (w, created), s') \<Longrightarrow> uuid_pattern owner \<and> validate_subject sub \<and> subject_check sub"
  by (auto simp: create_wallet_def validate_owner_id_def create_wallet_tx_def tx_catch_def insert_wallet_if_absent_def
      mapped_def tx_bind_def check_that_def dest!: run_tx_InrD split: sum.splits if_splits prod.splits)

lemma create_wallet_again:
  assumes "create_wallet svc env owner sub s = (Inr (w, created), s1)" "credit_inv s" "0 \<le> ws_initial_credit svc"
  shows "\<exists>w'. create_wallet svc env' owner sub s1 = (Inr (w', False), s1)"
proof -
  have k: "keys_unique s1" using create_wallet_step [OF assms] by (simp add: credit_inv_def)
  note acc = create_wallet_accepted [OF assms(1)]
  from assms(1) have "\<exists>v \<in> set (db_wallets s1). w_owner_id v = to_lower owner \<and> w_auth0_subject v = sub"
  proof (cases rule: create_wallet_cases)
    case (existing row)
    then show ?thesis by blast
  next
    case opened
    then show ?thesis by (auto simp: open_post_def Let_def)
  qed
  with create_wallet_existing [OF _ _ _ k] acc show ?thesis by blast
qed

section \<open>Runs of the service\<close>

text \<open>
  One step of a run of credit-service with the allocation \<open>ic\<close>: a request that opens a
  wallet, or the handling of a message, with whatever the database clock, its UUIDs and the
  process clock give.
\<close>

inductive credit_step :: "int \<Rightarrow> credit_db \<Rightarrow> credit_db \<Rightarrow> bool" for ic where
  open_wallet: "create_wallet (credit_service ic now) env owner sub s = (out, s') \<Longrightarrow> credit_step ic s s'"
| message: "handle (credit_service ic now) env routing_key body s = (err, s') \<Longrightarrow> credit_step ic s s'"

inductive credit_reachable :: "int \<Rightarrow> credit_db \<Rightarrow> bool" for ic where
  start: "credit_reachable ic empty_credit_db"
| step: "credit_reachable ic s \<Longrightarrow> credit_step ic s s' \<Longrightarrow> credit_reachable ic s'"

inductive_cases credit_stepE: "credit_step ic s s'"

lemma credit_step_inv:
  assumes "credit_step ic s s'" "0 \<le> ic" "credit_inv s" "outbox_ok s"
  shows "credit_inv s' \<and> outbox_ok s'"
  using assms(1)
proof cases
  case (open_wallet now env owner sub out)
  with create_wallet_step [OF open_wallet assms(3)] assms(2,4) show ?thesis
    by (simp add: credit_service_def with_result_recorder_def outbox_ok_def)
next
  case (message now env rk body err)
  with handle_step [OF message assms(3,4)] show ?thesis by (simp add: books_step_def)
qed

lemma credit_reachable_inv:
  "credit_reachable ic s \<Longrightarrow> 0 \<le> ic \<Longrightarrow> credit_inv s \<and> outbox_ok s"
proof (induction rule: credit_reachable.induct)
  case start
  show ?case by (simp add: credit_inv_empty) (simp add: outbox_ok_def empty_credit_db_def)
next
  case (step s s')
  then show ?case using credit_step_inv by blast
qed

end
