(* ===== verification/Credit_Effects.thy ===== *)
theory Credit_Effects
  imports Wallet_Opening
begin

text \<open>
  The effect of a command on the balances people see, the stored results and their JSON
  form, and how a command that ran before is answered. These lemmas carry the properties
  of credit-service in \<open>Credit_Properties\<close>.
\<close>

section \<open>Stored results\<close>

lemma field_matches_literals [simp]:
  "field_matches ''type'' ''amount'' = False" "field_matches ''type'' ''seq'' = False" "field_matches ''type'' ''code'' = False"
  "field_matches ''amount'' ''type'' = False" "field_matches ''amount'' ''seq'' = False" "field_matches ''amount'' ''code'' = False"
  "field_matches ''seq'' ''type'' = False" "field_matches ''seq'' ''amount'' = False" "field_matches ''seq'' ''code'' = False"
  "field_matches ''code'' ''type'' = False" "field_matches ''code'' ''amount'' = False" "field_matches ''code'' ''seq'' = False"
  by (simp_all add: field_matches_def to_lower_def to_lower_char_def)

lemma field_matches_refl [simp]: "field_matches k k"
  by (simp add: field_matches_def)

lemma result_type_text_inj [simp]: "result_type_text a = result_type_text b \<longleftrightarrow> a = b"
  by (cases a; cases b) simp_all

lemma result_code_text_inj [simp]: "result_code_text a = result_code_text b \<longleftrightarrow> a = b"
  by (cases a; cases b) simp_all

lemma find_result_type: "find (\<lambda>rt. result_type_text rt = result_type_text t) all_result_types = Some t"
  by (cases t) (simp_all add: all_result_types_def)

lemma find_result_code: "find (\<lambda>rc. result_code_text rc = result_code_text c) all_result_codes = Some c"
  by (cases c) (simp_all add: all_result_codes_def)

lemma result_roundtrip:
  assumes "in_int64 (res_amount r)" "in_int64 (res_seq r)"
  shows "result_of_json (result_to_json r) = Some r"
proof -
  have code: "result_code_text (res_code r) = [] \<Longrightarrow> res_code r = CodeNone" by (cases "res_code r") simp_all
  show ?thesis
    using assms find_result_type [of "res_type r"] find_result_code [of "res_code r"] find_result_code [of CodeNone] code
    by (auto simp: result_of_json_def result_to_json_def omit_empty_num_def omit_empty_str_def string_field_def int_field_def
        simp del: result_type_text_inj result_code_text_inj)
qed

section \<open>Answering a command\<close>

definition clock_ok :: "int \<Rightarrow> bool" where
  "clock_ok now \<longleftrightarrow> format_time (truncate_second now) \<noteq> None"

lemma result_type_known: "result_type_text t \<in> set known_routing_keys"
  by (cases t) (simp_all add: known_routing_keys_def)

lemma record_result_ok:
  "1 \<le> rp_errand_version rp \<Longrightarrow> clock_ok now \<Longrightarrow> \<exists>s'. record_result now env rp r s = Inr ((), s')"
proof -
  assume ok: "1 \<le> rp_errand_version rp" "clock_ok now"
  then obtain payload where "envelope_to_json (build_result rp r now) = Some payload"
    by (auto simp: envelope_to_json_def build_result_def clock_ok_def)
  moreover have "\<exists>s'. enqueue env key (result_type_text (res_type r)) payload s = Inr ((), s')" for key
    by (simp add: enqueue_def result_type_known)
  ultimately show ?thesis using ok(1) by (auto simp: record_result_Inr)
qed

lemma processed_unique_find:
  "mid \<notin> pc_message_id ` set xs \<Longrightarrow> pc_message_id c = mid \<Longrightarrow> find (\<lambda>c. pc_message_id c = mid) (xs @ [c]) = Some c"
  by (subst find_snoc) (blast, simp)

lemma execute_replay:
  assumes "find (\<lambda>c. pc_message_id c = mid) (db_processed s) = Some stored" "result_of_json (pc_result stored) = Some r"
    "mid \<noteq> []" "length mid \<le> max_message_id_length" "1 \<le> rp_errand_version rp" "clock_ok now"
  shows "\<exists>s'. execute (credit_service ic now) env mid rp op s = (Inr r, s')"
proof -
  from record_result_ok [of "rp\<lparr>rp_command_message_id := mid\<rparr>" now env r s] assms(5,6)
  obtain s' where rec: "record_result now env (rp\<lparr>rp_command_message_id := mid\<rparr>) r s = Inr ((), s')" by auto
  have "get_processed_command mid s = Inr (stored, s)" using assms(1) by (simp add: get_processed_command_def)
  with assms rec have "execute_tx (credit_service ic now) env mid rp op s = Inr (r, s')"
    by (simp add: execute_tx_def tx_bind_Inr_iff on_not_found_Inr_iff lock_command_def)
  with assms(3,4) show ?thesis by (simp add: execute_def run_tx_def)
qed

lemma run_command_fresh:
  assumes "run_command (credit_service ic now) env mid c s = (Inr r, s')" "mid \<notin> pc_message_id ` set (db_processed s)"
  obtains rp op s1 where "command_op env c = Some (rp, op)" "op s = Inr (r, s1)" "books s' = books s1"
proof -
  from assms(1) obtain rp op where op: "command_op env c = Some (rp, op)"
    and ex: "execute (credit_service ic now) env mid rp op s = (Inr r, s')"
    by (auto simp: run_command_eq split: option.splits)
  from ex credit_service_recorder show thesis
  proof (cases rule: outbox_recorder.execute_cases)
    case (replayed stored)
    with assms(2) find_Some_mem [OF replayed(1)] show thesis by auto
  next
    case (run s1)
    with op that show thesis by blast
  qed
qed

text \<open>A valid command whose operation succeeds is executed, recorded and answered.\<close>

lemma run_command_ok:
  assumes "command_op env c = Some (rp, op)" "op s = Inr (r, s1)" "mid \<notin> pc_message_id ` set (db_processed s)"
    "db_processed s1 = db_processed s" "mid \<noteq> []" "length mid \<le> max_message_id_length" "1 \<le> rp_errand_version rp" "clock_ok now"
  obtains s' where "run_command (credit_service ic now) env mid c s = (Inr r, s')" "books s' = books s1"
    "pc_message_id ` set (db_processed s') \<subseteq> insert mid (pc_message_id ` set (db_processed s))"
proof -
  let ?row = "\<lparr>pc_message_id = mid, pc_result_type = result_type_text (res_type r), pc_result = result_to_json r\<rparr>"
  let ?s2 = "if res_type r \<noteq> ResultOperationFailed then s1\<lparr>db_processed := db_processed s1 @ [?row]\<rparr> else s1"
  from record_result_ok [of "rp\<lparr>rp_command_message_id := mid\<rparr>" now env r ?s2] assms(7,8)
  obtain s' where rec: "record_result now env (rp\<lparr>rp_command_message_id := mid\<rparr>) r ?s2 = Inr ((), s')" by auto
  have missing: "get_processed_command mid s = Inl ErrNotFound"
    using assms(3) find_None_iff2 [of "\<lambda>c. pc_message_id c = mid" "db_processed s"]
    by (auto simp: get_processed_command_def mapped_def one_row_def)
  have "on_not_found (get_processed_command mid)
       (tx_bind op (\<lambda>result. if res_type result \<noteq> ResultOperationFailed then
          tx_bind (lift_repo (insert_processed_command \<lparr>pc_message_id = mid,
            pc_result_type = result_type_text (res_type result), pc_result = result_to_json result\<rparr>)) (\<lambda>_. tx_return result)
          else tx_return result)) found s = Inr (r, ?s2)" for found
    using missing assms(2-5) by (simp add: on_not_found_Inr_iff tx_bind_Inr_iff insert_processed_command_def)
  with rec have "execute_tx (credit_service ic now) env mid rp op s = Inr (r, s')"
    by (simp add: execute_tx_def tx_bind_Inr_iff lock_command_def)
  then have "run_command (credit_service ic now) env mid c s = (Inr r, s')"
    using assms(1,5,6) by (simp add: run_command_eq execute_def run_tx_def del: run_command.simps)
  moreover have "books s' = books s1" "pc_message_id ` set (db_processed s') \<subseteq> insert mid (pc_message_id ` set (db_processed s))"
    using outbox_recorder.keeps_books [OF rec] assms(4) by (auto simp: books_def split: if_splits)
  ultimately show thesis by (rule that)
qed

lemma run_command_answers:
  assumes "run_command (credit_service ic now) env mid c s = (Inr r, s')"
  shows "result_pending mid r s'"
proof -
  from assms obtain rp op where "execute (credit_service ic now) env mid rp op s = (Inr r, s')"
    by (auto simp: run_command_eq split: option.splits)
  from this credit_service_recorder show ?thesis by (cases rule: outbox_recorder.execute_cases) auto
qed

lemma run_command_failed: "run_command (credit_service ic now) env mid c s = (Inl e, s') \<Longrightarrow> s' = s"
  by (auto simp: run_command_eq split: option.splits dest: outbox_recorder.execute_failed)

lemma command_op_step:
  assumes "command_op env c = Some (rp, op)" "op s = Inr (r, s')" "command_typed c" "credit_inv s"
  shows "books_step s s' \<and> side_tables_kept s s'"
  using assms
  by (cases c) (auto simp: args_defs split: if_splits
      simp: uuid_pattern_length dest: reserve_op_step adjust_op_step release_op_step transfer_op_step)

lemma command_op_dests:
  "command_op env (Reserve rc) = Some (rp, op) \<Longrightarrow>
     op = reserve_op env (to_lower (rc_order_id rc)) (rc_requester_subject rc) (rc_amount rc) \<and> uuid_pattern (rc_order_id rc) \<and> 0 < rc_amount rc"
  "command_op env (Adjust ac) = Some (rp, op) \<Longrightarrow>
     op = adjust_op env (to_lower (ac_order_id ac)) (ac_requester_subject ac) (ac_new_amount ac) (ac_seq ac) \<and> 0 < ac_new_amount ac \<and> 0 < ac_seq ac"
  "command_op env (Release lc) = Some (rp, op) \<Longrightarrow> op = release_op env (to_lower (lc_order_id lc)) (lc_requester_subject lc)"
  "command_op env (Transfer c) = Some (rp, op) \<Longrightarrow>
     op = transfer_op env (to_lower (tc_order_id c)) (tc_requester_subject c) (tc_courier_subject c) (tc_amount c)
     \<and> tc_requester_subject c \<noteq> tc_courier_subject c \<and> 0 < tc_amount c"
  by (auto simp: args_defs split: if_splits)

lemma command_op_env: "command_op env c = Some (rp, op) \<Longrightarrow> \<exists>op'. command_op env' c = Some (rp, op')"
  by (cases c) (auto split: if_splits)

lemma execute_accepted:
  "execute (credit_service ic now) env mid rp op s = (Inr r, s') \<Longrightarrow>
   mid \<noteq> [] \<and> length mid \<le> max_message_id_length \<and> 1 \<le> rp_errand_version rp"
  by (auto simp: execute_def execute_tx_def tx_bind_Inr_iff record_result_Inr dest!: run_tx_InrD split: if_splits)

lemma mk_result_fields [simp]:
  "res_amount (mk_result t) = 0" "res_seq (mk_result t) = 0" "res_type (mk_result t) = t" "res_code (mk_result t) = CodeNone"
  by (simp_all add: mk_result_def)

lemma found_amount: "in_range s \<Longrightarrow> find p (db_reservations s) = Some res \<Longrightarrow> in_int64 (r_amount res)"
  using find_Some_mem [of p "db_reservations s" res] by (simp add: in_range_def)

lemma reserve_op_typed:
  "reserve_op env oid sub amount s = Inr (r, s') \<Longrightarrow> in_range s \<Longrightarrow> in_int64 amount \<Longrightarrow> in_int64 (res_amount r) \<and> in_int64 (res_seq r)"
  by (auto simp: reserve_op_def tx_bind_Inr_iff on_not_found_Inr_iff is_order_released_def Let_def get_reservation_Inr
      dest: lock_wallets_same intro: found_amount split: if_splits)

lemma adjust_op_typed:
  "adjust_op env oid sub new_amount seq s = Inr (r, s') \<Longrightarrow> in_range s \<Longrightarrow> in_int64 new_amount \<Longrightarrow> in_int64 seq
   \<Longrightarrow> in_int64 (res_amount r) \<and> in_int64 (res_seq r)"
  by (auto simp: adjust_op_def Let_def adjust_refused_def elim!: tx_bind_InrE
      dest!: lock_reservation_Inr split: if_splits option.splits) (simp add: found_amount)

lemma release_op_typed:
  assumes "release_op env oid sub s = Inr (r, s')"
  shows "in_int64 (res_amount r) \<and> in_int64 (res_seq r)"
proof -
  from assms obtain locked where l: "lock_reservation oid sub s = Inr (locked, s)"
    by (auto simp: release_op_def tx_bind_Inr_iff dest: lock_reservation_same)
  with assms show ?thesis
    by (cases locked) (auto simp: release_op_def tx_bind_Inr_iff split: reservation_status.splits)
qed

lemma transfer_writes_typed:
  "transfer_writes env oid amount res rw cw s = Inr (r, s') \<Longrightarrow> in_int64 (res_amount r) \<and> in_int64 (res_seq r)"
  by (auto simp: transfer_writes_def Let_def op_failed_def elim!: tx_bind_InrE split: if_splits)

lemma transfer_op_typed:
  assumes "transfer_op env oid x y amount s = Inr (r, s')"
  shows "in_int64 (res_amount r) \<and> in_int64 (res_seq r)"
proof -
  from assms show ?thesis
    unfolding transfer_op_def on_not_found_Inr_iff
    by (elim disjE exE conjE)
      (auto simp: op_failed_def Let_def elim!: tx_bind_InrE dest: transfer_writes_typed
       split: if_splits prod.splits reservation_status.splits)
qed

lemma command_op_typed:
  assumes "command_op env c = Some (rp, op)" "op s = Inr (r, s')" "command_typed c" "in_range s"
  shows "in_int64 (res_amount r) \<and> in_int64 (res_seq r)"
  using assms
  by (cases c) (auto simp: args_defs split: if_splits
      dest: reserve_op_typed adjust_op_typed release_op_typed transfer_op_typed)

text \<open>A repeat of a message is answered with the stored result and leaves the books as they are.\<close>

lemma run_command_repeat:
  assumes first: "run_command (credit_service ic now) env mid c s = (Inr r, s1)" and final: "res_type r \<noteq> ResultOperationFailed"
    and ok: "clock_ok now'" "command_typed c" "credit_inv s"
  shows "\<exists>s2. run_command (credit_service ic now') env' mid c s1 = (Inr r, s2) \<and> books s2 = books s1"
proof -
  from first obtain rp op where op: "command_op env c = Some (rp, op)"
    and ex: "execute (credit_service ic now) env mid rp op s = (Inr r, s1)"
    by (auto simp: run_command_eq split: option.splits)
  note acc = execute_accepted [OF ex]
  from ex credit_service_recorder have
    "\<exists>stored. find (\<lambda>c. pc_message_id c = mid) (db_processed s1) = Some stored \<and> result_of_json (pc_result stored) = Some r"
  proof (cases rule: outbox_recorder.execute_cases)
    case (replayed stored)
    then show ?thesis by auto
  next
    case (run s0)
    have "db_processed s0 = db_processed s"
      using command_op_step [OF op run(2) ok(2,3)] by (simp add: side_tables_kept_def)
    moreover have "result_of_json (result_to_json r) = Some r"
      using command_op_typed [OF op run(2) ok(2)] ok(3) by (simp add: result_roundtrip credit_inv_def)
    ultimately show ?thesis using run(1,4) final by (simp add: processed_unique_find)
  qed
  then obtain stored where st: "find (\<lambda>c. pc_message_id c = mid) (db_processed s1) = Some stored"
    "result_of_json (pc_result stored) = Some r" by blast
  obtain op' where op': "command_op env' c = Some (rp, op')" using command_op_env [OF op] by blast
  from execute_replay [OF st, of rp now'] acc ok(1) obtain s2 where
    ex2: "execute (credit_service ic now') env' mid rp op' s1 = (Inr r, s2)" by blast
  from ex2 credit_service_recorder have "books s2 = books s1"
  proof (cases rule: outbox_recorder.execute_cases)
    case (run s0)
    then show ?thesis using find_Some_mem [OF st(1)] by auto
  qed
  with ex2 op' show ?thesis by (auto simp: run_command_eq simp del: run_command.simps)
qed

lemma run_reserve_fresh:
  assumes "run_command (credit_service ic now) env mid (Reserve c) s = (Inr r, s1)" "credit_inv s"
    "mid \<notin> pc_message_id ` set (db_processed s)" "to_lower (rc_order_id c) \<notin> r_order_id ` set (db_reservations s)"
    "res_type r = ResultReserved"
  obtains w where "w \<in> set (db_wallets s)" "w_auth0_subject w = rc_requester_subject c"
    "books s1 = books (reserve_post env (w_id w) (to_lower (rc_order_id c)) (rc_amount c) s)"
proof -
  have k: "keys_unique s" "in_range s" using assms(2) by (simp_all add: credit_inv_def)
  obtain rp opn t1 where c: "command_op env (Reserve c) = Some (rp, opn)" "opn s = Inr (r, t1)" and books1: "books s1 = books t1"
    by (rule run_command_fresh [OF assms(1,3)])
  note op = c(2) [unfolded command_op_dests(1) [OF c(1), THEN conjunct1]]
  from op k command_op_dests(1) [OF c(1), THEN conjunct2, THEN conjunct2] show thesis
  proof (cases rule: reserve_op_cases)
    case unchanged
    with assms(4,5) show thesis by simp
  next
    case (reserved w)
    with books1 that show thesis by simp
  qed
qed

lemma run_release_active:
  assumes "run_command (credit_service ic now) env mid (Release d) s = (Inr r, s1)" "credit_inv s"
    "mid \<notin> pc_message_id ` set (db_processed s)"
    "find (\<lambda>r. r_order_id r = to_lower (lc_order_id d)) (db_reservations s) = Some res" "r_status res = ReservationActive"
  obtains w where "w \<in> set (db_wallets s)" "r_wallet_id res = w_id w" "r = mk_result ResultReleased"
    "books s1 = books (release_post env (to_lower (lc_order_id d)) res s)"
proof -
  have k: "keys_unique s" "in_range s" using assms(2) by (simp_all add: credit_inv_def)
  obtain rp opn t1 where c: "command_op env (Release d) = Some (rp, opn)" "opn s = Inr (r, t1)" and books1: "books s1 = books t1"
    by (rule run_command_fresh [OF assms(1,3)])
  note op = c(2) [unfolded command_op_dests(3) [OF c(1)]]
  from op k show thesis
  proof (cases rule: release_op_cases)
    case unchanged
    with assms(4,5) show thesis by simp
  next
    case tombstone
    with find_key_None [OF tombstone(1)] assms(4) show thesis by simp
  next
    case (released res' w)
    with assms(4) books1 that [of w] show thesis by simp
  qed
qed

section \<open>Balances\<close>

definition balance :: "credit_db \<Rightarrow> string \<Rightarrow> (int \<times> int) option" where
  "balance s sub = map_option (\<lambda>w. (w_available w, w_reserved w)) (find (\<lambda>w. w_auth0_subject w = sub) (db_wallets s))"

lemma balance_books: "books s' = books s \<Longrightarrow> balance s' = balance s"
  by (simp add: balance_def books_def fun_eq_iff)

lemma balance_post [simp]:
  "balance (post_entry env p s) = balance s" "balance (post_reservation rid f s) = balance s"
  "balance (add_reservation r s) = balance s"
  by (simp_all add: balance_def fun_eq_iff)

lemma find_wallet_by_subject:
  "keys_unique s \<Longrightarrow> w \<in> set (db_wallets s) \<Longrightarrow> find (\<lambda>v. w_auth0_subject v = w_auth0_subject w) (db_wallets s) = Some w"
  by (auto simp: keys_unique_def intro: find_key_unique)

lemma balance_wallet:
  "keys_unique s \<Longrightarrow> w \<in> set (db_wallets s) \<Longrightarrow> balance s (w_auth0_subject w) = Some (w_available w, w_reserved w)"
  by (simp add: balance_def find_wallet_by_subject)

lemma balance_deltas:
  assumes "keys_unique s" "w \<in> set (db_wallets s)"
  shows "balance (post_deltas env (w_id w) ad rd s) sub =
     (if sub = w_auth0_subject w then map_option (\<lambda>(a, r). (a + ad, r + rd)) (balance s sub) else balance s sub)"
proof -
  let ?f = "find (\<lambda>w. w_auth0_subject w = sub) (db_wallets s)"
  have other: "w_id v \<noteq> w_id w" if "?f = Some v" "sub \<noteq> w_auth0_subject w" for v
    using that assms find_Some_mem [OF that(1)] same_wallet by blast
  have "?f = Some w" if "sub = w_auth0_subject w" using assms that by (simp add: find_wallet_by_subject)
  with other show ?thesis
    by (cases ?f) (auto simp: balance_def find_update_where_key)
qed

lemma reserve_post_balance:
  assumes "keys_unique s" "w \<in> set (db_wallets s)"
  shows "balance (reserve_post env (w_id w) oid amount s) sub =
     (if sub = w_auth0_subject w then map_option (\<lambda>(a, r). (a - amount, r + amount)) (balance s sub) else balance s sub)"
proof -
  have "balance (post_deltas env (w_id w) (- amount) amount (post_entry env (reserve_entry (w_id w) oid amount) s)) sub
      = balance (post_deltas env (w_id w) (- amount) amount s) sub"
    by (simp add: balance_def)
  then show ?thesis
    unfolding reserve_post_def balance_post using assms by (simp add: balance_deltas)
qed

lemma release_post_balance:
  assumes "keys_unique s" "w \<in> set (db_wallets s)" "r_wallet_id res = w_id w"
  shows "balance (release_post env oid res s) sub =
     (if sub = w_auth0_subject w then map_option (\<lambda>(a, r). (a + r_amount res, r - r_amount res)) (balance s sub)
      else balance s sub)"
proof -
  have "balance (post_deltas env (w_id w) (r_amount res) (- r_amount res)
        (post_entry env (release_entry (w_id w) oid (r_amount res)) s)) sub
      = balance (post_deltas env (w_id w) (r_amount res) (- r_amount res) s) sub"
    by (simp add: balance_def)
  then show ?thesis
    unfolding release_post_def balance_post assms(3) using assms by (simp add: balance_deltas)
qed

lemma transfer_post_balance:
  assumes "keys_unique s" "rw \<in> set (db_wallets s)" "cw \<in> set (db_wallets s)" "w_id rw \<noteq> w_id cw"
  shows "balance (transfer_post env oid amount res (w_id rw) (w_id cw) s) sub =
     (if sub = w_auth0_subject rw then map_option (\<lambda>(a, r). (a + (r_amount res - amount), r - r_amount res)) (balance s sub)
      else if sub = w_auth0_subject cw then map_option (\<lambda>(a, r). (a + amount, r)) (balance s sub)
      else balance s sub)"
proof -
  let ?s1 = "post_deltas env (w_id rw) (r_amount res - amount) (- r_amount res) s"
  have "balance (transfer_post env oid amount res (w_id rw) (w_id cw) s) sub = balance (post_deltas env (w_id cw) amount 0 ?s1) sub"
    by (simp add: balance_def transfer_post_def Let_def)
  moreover have cw: "cw \<in> set (db_wallets ?s1)" "keys_unique ?s1" using assms by (auto simp: set_update_where)
  moreover have "w_auth0_subject rw \<noteq> w_auth0_subject cw"
    using assms distinct_key_eq [of w_auth0_subject "db_wallets s" rw cw] by (auto simp: keys_unique_def)
  ultimately show ?thesis
    using assms(1,2) by (simp only: balance_deltas [OF cw(2,1)]) (auto simp: balance_deltas split: option.splits)
qed

end
