(* ===== verification/Credit_Progress.thy ===== *)
theory Credit_Progress
  imports Credit_Effects
begin

text \<open>
  When a command succeeds: the invariant rules out every failure of the database except
  numbers that leave the 64-bit range, so a reservation the requester can afford is made
  and an active reservation can always be released.
\<close>

lemma filter_key_unique:
  "distinct (map key rows) \<Longrightarrow> r \<in> set rows \<Longrightarrow> filter (\<lambda>x. key x = key r) rows = [r]"
proof (induction rows)
  case (Cons x rows)
  show ?case
  proof (cases "key x = key r")
    case True
    with Cons.prems have "x = r" using distinct_key_eq [of key "x # rows" x r] by simp
    moreover have "filter (\<lambda>x. key x = key r) rows = []"
      using Cons.prems True by (auto simp: filter_empty_conv image_iff)
    ultimately show ?thesis by simp
  next
    case False
    with Cons show ?thesis by auto
  qed
qed simp

lemma lock_one_ok:
  assumes "keys_unique s" "w \<in> set (db_wallets s)"
  shows "lock_wallets_by_auth0_subject [w_auth0_subject w] s = Inr ([w], s)"
  using filter_key_unique [of w_auth0_subject "db_wallets s" w] assms
  by (simp add: lock_wallets_by_auth0_subject_def Let_def keys_unique_def)

lemma active_total_ge:
  assumes "in_range s" "r \<in> set (db_reservations s)" "r_status r = ReservationActive"
  shows "r_amount r \<le> active_total (r_wallet_id r) (db_reservations s)"
proof -
  let ?f = "\<lambda>q. if r_wallet_id q = r_wallet_id r \<and> r_status q = ReservationActive then r_amount q else 0"
  have "?f r \<le> sum_list (map ?f (db_reservations s))"
    using assms(1,2) by (intro member_le_sum_list_pos) (auto simp: in_range_def less_imp_le)
  with assms(3) show ?thesis by (simp add: active_total_def)
qed

lemma wallet_le_total:
  assumes "in_range s" "w \<in> set (db_wallets s)"
  shows "w_available w + w_reserved w \<le> total_credits s"
  using member_le_sum_list_pos [of w "db_wallets s" "\<lambda>w. w_available w + w_reserved w"] assms
  by (simp add: total_credits_def in_range_def)

lemma insert_ledger_ok:
  "lp_available_delta p \<noteq> 0 \<or> lp_reserved_delta p \<noteq> 0 \<Longrightarrow> lp_key p \<noteq> [] \<Longrightarrow>
   \<not> ledger_has (db_ledger s) (lp_wallet_id p) (lp_key p) \<Longrightarrow> lp_wallet_id p \<in> w_id ` set (db_wallets s) \<Longrightarrow>
   lp_counterparty p = None \<Longrightarrow>
   insert_ledger_entry env p s = Inr (new_ledger_entry env (db_ledger_seq s + 1) p, post_entry env p s)"
  by (simp add: insert_ledger_entry_Inr)

lemma reserve_op_succeeds:
  assumes inv: "credit_inv s" and total: "total_credits s \<le> int64_max"
    and w: "w \<in> set (db_wallets s)" "amount \<le> w_available w" "in_int64 (w_version w + 1)"
    and amt: "0 < amount"
    and fresh: "oid \<notin> set (db_released s)" "oid \<notin> r_order_id ` set (db_reservations s)" "env_uuid env \<notin> r_id ` set (db_reservations s)"
  shows "reserve_op env oid (w_auth0_subject w) amount s
    = Inr ((mk_result ResultReserved)\<lparr>res_amount := amount\<rparr>, reserve_post env (w_id w) oid amount s)"
proof -
  have k: "keys_unique s" "in_range s" using inv by (simp_all add: credit_inv_def)
  have rng: "0 \<le> w_available w" "in_int64 (w_available w)" "0 \<le> w_reserved w" "in_int64 (w_reserved w)"
    using k(2) w(1) by (auto simp: in_range_def)
  have "w_reserved w + amount \<le> int64_max" using wallet_le_total [OF k(2) w(1)] total w(2) by simp
  then have fits: "in_int64 (w_reserved w + amount)" "in_int64 (w_available w - amount)" "i64 (- amount) = - amount"
    using rng amt w(2) by (auto simp: in_int64_def int64_min_def int64_max_def intro!: i64_id)
  have found: "find (\<lambda>v. w_id v = w_id w) (db_wallets s) = Some w" by (rule find_wallet_by_id [OF k(1) w(1)])
  have "\<not> ledger_has (db_ledger s) (w_id w) (reserve_key oid)" by (rule no_reserve_key [OF inv fresh(2)])
  then show ?thesis
    using fresh w amt fits rng find_key_None [OF fresh(2)] lock_one_ok [OF k(1) w(1)] found get_reservation_missing [of oid s ErrNotFound]
    by (auto simp: reserve_op_def is_order_released_def tx_bind_Inr_iff on_not_found_Inr_iff Let_def insert_ledger_entry_Inr
        apply_deltas_Inr create_reservation_Inr reserve_post_def reserve_entry_def)
qed

lemma release_op_succeeds:
  assumes inv: "credit_inv s"
    and res: "find (\<lambda>r. r_order_id r = oid) (db_reservations s) = Some res" "r_status res = ReservationActive"
    and w: "w \<in> set (db_wallets s)" "w_id w = r_wallet_id res" "in_int64 (w_available w + r_amount res)" "in_int64 (w_version w + 1)"
  shows "release_op env oid (w_auth0_subject w) s = Inr (mk_result ResultReleased, release_post env oid res s)"
proof -
  have k: "keys_unique s" "in_range s" using inv by (simp_all add: credit_inv_def)
  have rin: "res \<in> set (db_reservations s)" using find_Some_mem [OF res(1)] by simp
  have rng: "0 < r_amount res" "in_int64 (r_amount res)" "0 \<le> w_available w" "in_int64 (w_reserved w)"
    using k(2) w(1) rin by (auto simp: in_range_def)
  have backed: "r_amount res \<le> w_reserved w"
    using active_total_ge [OF k(2) rin res(2)] inv w(1,2) by (simp add: credit_inv_def reserved_backed_def)
  have neg: "i64 (- r_amount res) = - r_amount res" using rng by (intro i64_id in_int64_uminus) auto
  have fits: "in_int64 (w_reserved w - r_amount res)"
    using in_int64_pos [OF _ _ rng(4)] rng(1) backed by simp
  have got: "get_reservation_by_order oid s = Inr (res, s)" using res(1) by (simp add: get_reservation_Inr)
  have lock: "lock_reservation oid (w_auth0_subject w) s = Inr (Some (res, w), s)"
    using got lock_one_ok [OF k(1) w(1)] w(2) by (simp add: lock_reservation_def on_not_found_def tx_catch_def)
  have "r_wallet_id res \<in> w_id ` set (db_wallets s)" using w(1,2) by force
  moreover have "\<not> ledger_has (db_ledger s) (w_id w) (release_key oid)" using no_settle_key(1) [OF inv res] .
  ultimately show ?thesis
    using lock res w rng backed neg fits find_wallet_by_id [OF k(1) w(1)] find_reservation_by_id [OF k(1) rin]
    by (simp add: release_op_def tx_bind_Inr_iff insert_ledger_entry_Inr apply_deltas_Inr update_reservation_def
        change_reservation_Inr release_post_def release_entry_def set_status_def)
qed

lemma run_reserve_succeeds:
  assumes inv: "credit_inv s" "total_credits s \<le> int64_max"
    and w: "w \<in> set (db_wallets s)" "w_auth0_subject w = rc_requester_subject c" "rc_amount c \<le> w_available w" "in_int64 (w_version w + 1)"
    and valid: "uuid_pattern (rc_order_id c)" "validate_subject (rc_requester_subject c)" "0 < rc_amount c" "1 \<le> rc_errand_version c"
    and fresh: "to_lower (rc_order_id c) \<notin> set (db_released s)" "to_lower (rc_order_id c) \<notin> r_order_id ` set (db_reservations s)"
      "env_uuid env \<notin> r_id ` set (db_reservations s)" "mid \<notin> pc_message_id ` set (db_processed s)"
    and msg: "mid \<noteq> []" "length mid \<le> max_message_id_length" "clock_ok now"
  shows "\<exists>s'. run_command (credit_service ic now) env mid (Reserve c) s
      = (Inr ((mk_result ResultReserved)\<lparr>res_amount := rc_amount c\<rparr>), s')
    \<and> books s' = books (reserve_post env (w_id w) (to_lower (rc_order_id c)) (rc_amount c) s)
    \<and> pc_message_id ` set (db_processed s') \<subseteq> insert mid (pc_message_id ` set (db_processed s))
    \<and> balance s' (rc_requester_subject c) = Some (w_available w - rc_amount c, w_reserved w + rc_amount c)"
proof -
  let ?oid = "to_lower (rc_order_id c)" and ?s1 = "reserve_post env (w_id w) (to_lower (rc_order_id c)) (rc_amount c) s"
  have op: "reserve_args env (?oid, rc_requester_subject c, rc_amount c) s
      = Inr ((mk_result ResultReserved)\<lparr>res_amount := rc_amount c\<rparr>, ?s1)"
    using reserve_op_succeeds [OF inv w(1,3,4) valid(3) fresh(1-3)] w(2) by (simp add: args_defs)
  have c: "command_op env (Reserve c) = Some (mk_reply ?oid (rc_errand_version c), reserve_args env (?oid, rc_requester_subject c, rc_amount c))"
    using valid by simp
  have k: "keys_unique s" using inv(1) by (simp add: credit_inv_def)
  obtain s' where s': "run_command (credit_service ic now) env mid (Reserve c) s
      = (Inr ((mk_result ResultReserved)\<lparr>res_amount := rc_amount c\<rparr>), s')" "books s' = books ?s1"
      "pc_message_id ` set (db_processed s') \<subseteq> insert mid (pc_message_id ` set (db_processed s))"
    by (rule run_command_ok [OF c op fresh(4) _ msg(1,2) _ msg(3)]) (simp_all add: reserve_post_def mk_reply_def valid(4))
  have "balance s' (rc_requester_subject c) = Some (w_available w - rc_amount c, w_reserved w + rc_amount c)"
    using balance_books [OF s'(2)] reserve_post_balance [OF k w(1)] balance_wallet [OF k w(1)] w(2) by simp
  with s' show ?thesis by blast
qed

lemma run_release_succeeds:
  assumes inv: "credit_inv s"
    and res: "find (\<lambda>r. r_order_id r = to_lower (lc_order_id c)) (db_reservations s) = Some res" "r_status res = ReservationActive"
    and w: "w \<in> set (db_wallets s)" "w_id w = r_wallet_id res" "w_auth0_subject w = lc_requester_subject c"
      "in_int64 (w_available w + r_amount res)" "in_int64 (w_version w + 1)"
    and valid: "uuid_pattern (lc_order_id c)" "validate_subject (lc_requester_subject c)" "1 \<le> lc_errand_version c"
    and msg: "mid \<notin> pc_message_id ` set (db_processed s)" "mid \<noteq> []" "length mid \<le> max_message_id_length" "clock_ok now"
  shows "\<exists>s'. run_command (credit_service ic now) env mid (Release c) s = (Inr (mk_result ResultReleased), s')
    \<and> balance s' (lc_requester_subject c) = Some (w_available w + r_amount res, w_reserved w - r_amount res)"
proof -
  let ?oid = "to_lower (lc_order_id c)" and ?s1 = "release_post env (to_lower (lc_order_id c)) res s"
  have op: "release_args env (?oid, lc_requester_subject c) s = Inr (mk_result ResultReleased, ?s1)"
    using release_op_succeeds [OF inv res w(1,2,4,5)] w(3) by (simp add: args_defs)
  have c: "command_op env (Release c) = Some (mk_reply ?oid (lc_errand_version c), release_args env (?oid, lc_requester_subject c))"
    using valid by simp
  have k: "keys_unique s" using inv(1) by (simp add: credit_inv_def)
  obtain s' where s': "run_command (credit_service ic now) env mid (Release c) s = (Inr (mk_result ResultReleased), s')" "books s' = books ?s1"
    by (rule run_command_ok [OF c op msg(1) _ msg(2,3) _ msg(4)]) (simp_all add: release_post_def mk_reply_def valid(3))
  have "balance s' (lc_requester_subject c) = Some (w_available w + r_amount res, w_reserved w - r_amount res)"
    using balance_books [OF s'(2)] release_post_balance [OF k w(1) w(2) [symmetric]] balance_wallet [OF k w(1)] w(3) by simp
  with s'(1) show ?thesis by blast
qed

section \<open>Commands out of order\<close>

lemma run_release_leaves_tombstone:
  assumes "run_command (credit_service ic now) env mid (Release d) s = (Inr r, s1)" "credit_inv s"
    "mid \<notin> pc_message_id ` set (db_processed s)" "to_lower (lc_order_id d) \<notin> r_order_id ` set (db_reservations s)"
  shows "to_lower (lc_order_id d) \<in> set (db_released s1) \<and> balance s1 = balance s"
proof -
  have k: "keys_unique s" "in_range s" using assms(2) by (simp_all add: credit_inv_def)
  obtain rp opn t1 where c: "command_op env (Release d) = Some (rp, opn)" "opn s = Inr (r, t1)" and books1: "books s1 = books t1"
    by (rule run_command_fresh [OF assms(1,3)])
  note op = c(2) [unfolded command_op_dests(3) [OF c(1)]]
  from op k show ?thesis
  proof (cases rule: release_op_cases)
    case unchanged
    with assms(4) books1 show ?thesis by (simp add: books_def balance_def fun_eq_iff)
  next
    case tombstone
    with books1 show ?thesis by (simp add: books_def balance_def fun_eq_iff)
  next
    case (released res w)
    with find_key_None [OF assms(4)] show ?thesis by simp
  qed
qed

lemma run_reserve_after_release:
  assumes valid: "uuid_pattern (rc_order_id c)" "validate_subject (rc_requester_subject c)" "0 < rc_amount c" "1 \<le> rc_errand_version c"
    and rel: "to_lower (rc_order_id c) \<in> set (db_released s)"
    and msg: "mid \<notin> pc_message_id ` set (db_processed s)" "mid \<noteq> []" "length mid \<le> max_message_id_length" "clock_ok now"
  shows "\<exists>s'. run_command (credit_service ic now) env mid (Reserve c) s
      = (Inr ((mk_result ResultReservationRefused)\<lparr>res_code := CodeReservationReleased\<rparr>), s') \<and> books s' = books s"
proof -
  let ?oid = "to_lower (rc_order_id c)"
  have c: "command_op env (Reserve c) = Some (mk_reply ?oid (rc_errand_version c), reserve_args env (?oid, rc_requester_subject c, rc_amount c))"
    using valid by simp
  have op: "reserve_args env (?oid, rc_requester_subject c, rc_amount c) s
      = Inr ((mk_result ResultReservationRefused)\<lparr>res_code := CodeReservationReleased\<rparr>, s)"
    using rel by (simp add: args_defs reserve_op_def is_order_released_def tx_bind_def lift_repo_def)
  obtain s' where "run_command (credit_service ic now) env mid (Reserve c) s
      = (Inr ((mk_result ResultReservationRefused)\<lparr>res_code := CodeReservationReleased\<rparr>), s')" "books s' = books s"
    by (rule run_command_ok [OF c op msg(1) _ msg(2,3) _ msg(4)]) (simp_all add: mk_reply_def valid(4))
  then show ?thesis by blast
qed

lemma run_stale_adjust:
  assumes inv: "credit_inv s"
    and res: "find (\<lambda>r. r_order_id r = to_lower (ac_order_id c)) (db_reservations s) = Some res" "r_status res = ReservationActive"
      "ac_seq c \<le> r_last_adjust_seq res"
    and w: "w \<in> set (db_wallets s)" "w_id w = r_wallet_id res" "w_auth0_subject w = ac_requester_subject c"
    and valid: "uuid_pattern (ac_order_id c)" "validate_subject (ac_requester_subject c)" "0 < ac_new_amount c" "0 < ac_seq c" "1 \<le> ac_errand_version c"
    and msg: "mid \<notin> pc_message_id ` set (db_processed s)" "mid \<noteq> []" "length mid \<le> max_message_id_length" "clock_ok now"
  shows "\<exists>s'. run_command (credit_service ic now) env mid (Adjust c) s
      = (Inr ((mk_result ResultAdjusted)\<lparr>res_amount := r_amount res, res_seq := ac_seq c\<rparr>), s') \<and> books s' = books s"
proof -
  let ?oid = "to_lower (ac_order_id c)"
  have k: "keys_unique s" using inv by (simp add: credit_inv_def)
  have got: "get_reservation_by_order ?oid s = Inr (res, s)" using res(1) by (simp add: get_reservation_Inr)
  have "lock_reservation ?oid (ac_requester_subject c) s = Inr (Some (res, w), s)"
    using got lock_one_ok [OF k w(1)] w(2,3) by (simp add: lock_reservation_def on_not_found_def tx_catch_def)
  then have op: "adjust_args env (?oid, ac_requester_subject c, ac_new_amount c, ac_seq c) s
      = Inr ((mk_result ResultAdjusted)\<lparr>res_amount := r_amount res, res_seq := ac_seq c\<rparr>, s)"
    using res by (simp add: args_defs adjust_op_def tx_bind_Inr_iff)
  have c: "command_op env (Adjust c) = Some (mk_reply ?oid (ac_errand_version c),
      adjust_args env (?oid, ac_requester_subject c, ac_new_amount c, ac_seq c))"
    using valid by simp
  obtain s' where "run_command (credit_service ic now) env mid (Adjust c) s
      = (Inr ((mk_result ResultAdjusted)\<lparr>res_amount := r_amount res, res_seq := ac_seq c\<rparr>), s')" "books s' = books s"
    by (rule run_command_ok [OF c op msg(1) _ msg(2,3) _ msg(4)]) (simp_all add: mk_reply_def valid(5))
  then show ?thesis by blast
qed

section \<open>The message an execution leaves in the outbox\<close>

lemma execute_records:
  assumes "execute (credit_service ic now) env mid rp op s = (Inr r, s')"
    and kept: "\<And>s1. op s = Inr (r, s1) \<Longrightarrow> side_tables_kept s s1"
  obtains s2 where "record_result now env (rp\<lparr>rp_command_message_id := mid\<rparr>) r s2 = Inr ((), s')" "db_outbox s2 = db_outbox s"
proof -
  from assms(1) have "execute_tx (credit_service ic now) env mid rp op s = Inr (r, s')"
    by (auto simp: execute_def dest: run_tx_InrD split: if_splits)
  then obtain s2 where rec: "record_result now env (rp\<lparr>rp_command_message_id := mid\<rparr>) r s2 = Inr ((), s')"
    and body: "on_not_found (get_processed_command mid)
         (tx_bind op (\<lambda>result.
            if res_type result \<noteq> ResultOperationFailed then
              tx_bind (lift_repo (insert_processed_command
                \<lparr>pc_message_id = mid, pc_result_type = result_type_text (res_type result),
                 pc_result = result_to_json result\<rparr>)) (\<lambda>_. tx_return result)
            else tx_return result))
         (\<lambda>stored. case result_of_json (pc_result stored) of
            None \<Rightarrow> tx_fail (WOther ''unmarshal'') | Some result \<Rightarrow> tx_return result) s = Inr (r, s2)"
    by (auto simp: execute_tx_def tx_bind_Inr_iff lock_command_def)
  from body kept have "db_outbox s2 = db_outbox s"
    by (auto simp: on_not_found_Inr_iff get_processed_command_def insert_processed_command_def side_tables_kept_def
        elim!: tx_bind_InrE split: if_splits option.splits)
  with rec that show thesis by blast
qed

lemma result_payload_id:
  assumes "envelope_to_json (build_result rp r now) = Some payload" "envelope_of_json payload = Some e"
  shows "env_message_id e = result_key (rp_command_message_id rp) r"
  using assms
  by (auto simp: envelope_to_json_def build_result_def envelope_of_json_def struct_fields_def string_field_def
      omit_empty_str_def field_matches_def to_lower_def to_lower_char_def result_key_def split: option.splits if_splits)

lemma run_command_message:
  assumes run: "run_command (credit_service ic now) env mid c s = (Inr r, s')" and ok: "command_typed c" "credit_inv s"
    and fresh: "result_key mid r \<notin> co_key ` set (db_outbox s)"
  obtains row rp op where "row \<in> set (db_outbox s')" "co_key row = result_key mid r" "co_routing_key row = result_type_text (res_type r)"
    "envelope_to_json (build_result (rp\<lparr>rp_command_message_id := mid\<rparr>) r now) = Some (co_payload row)" "command_op env c = Some (rp, op)"
proof -
  from run obtain rp op where op: "command_op env c = Some (rp, op)"
    and ex: "execute (credit_service ic now) env mid rp op s = (Inr r, s')"
    by (auto simp: run_command_eq split: option.splits)
  obtain s2 where rec: "record_result now env (rp\<lparr>rp_command_message_id := mid\<rparr>) r s2 = Inr ((), s')" "db_outbox s2 = db_outbox s"
    by (rule execute_records [OF ex]) (use command_op_step [OF op _ ok] in blast)
  from rec(1) obtain payload where payload: "envelope_to_json (build_result (rp\<lparr>rp_command_message_id := mid\<rparr>) r now) = Some payload"
    "enqueue env (result_key mid r) (result_type_text (res_type r)) payload s2 = Inr ((), s')"
    by (auto simp: record_result_Inr)
  from payload(2) fresh rec(2) have
    "new_outbox_row (env_now env) (db_outbox_seq s2 + 1) (result_key mid r) (result_type_text (res_type r)) payload \<in> set (db_outbox s')"
    by (auto simp: enqueue_def split: if_splits)
  then show thesis using payload(1) op by (intro that) (auto simp: new_outbox_row_def)
qed

end
