(* ===== verification/Credit_Example.thy ===== *)
theory Credit_Example
  imports Credit_Progress
begin

text \<open>
  A small ledger on which the properties of credit-service are exercised: Alice was given
  50 credits and reserved 20 of them for an errand, Bob was given 50.
\<close>

definition ex_order :: string where "ex_order = ''00000000-0000-0000-0000-00000000000a''"
definition ex_other_order :: string where "ex_other_order = ''00000000-0000-0000-0000-00000000000b''"

definition ex_env :: db_env where "ex_env = \<lparr>env_now = 5, env_uuid = ''u''\<rparr>"

definition ex_alice :: wallet_row where
  "ex_alice = \<lparr>w_id = ''1'', w_owner_id = ''oa'', w_auth0_subject = ''a'', w_available = 30, w_reserved = 20,
     w_version = 3, w_created_at = 0, w_updated_at = 0\<rparr>"

definition ex_bob :: wallet_row where
  "ex_bob = \<lparr>w_id = ''2'', w_owner_id = ''ob'', w_auth0_subject = ''b'', w_available = 50, w_reserved = 0,
     w_version = 2, w_created_at = 0, w_updated_at = 0\<rparr>"

definition ex_reservation :: reservation where
  "ex_reservation = \<lparr>r_id = ''r'', r_wallet_id = ''1'', r_order_id = ex_order, r_amount = 20,
     r_status = ReservationActive, r_last_adjust_seq = 0, r_created_at = 0, r_updated_at = 0\<rparr>"

definition ex_entry :: "int \<Rightarrow> string \<Rightarrow> entry_type \<Rightarrow> int \<Rightarrow> int \<Rightarrow> string option \<Rightarrow> string \<Rightarrow> ledger_entry" where
  "ex_entry n wid t a r oid k = \<lparr>l_id = n, l_wallet_id = wid, l_type = t, l_available_delta = a, l_reserved_delta = r,
     l_order_id = oid, l_counterparty_wallet_id = None, l_idempotency_key = k, l_created_at = 0\<rparr>"

definition ex_db :: credit_db where
  "ex_db = \<lparr>db_wallets = [ex_alice, ex_bob], db_reservations = [ex_reservation],
     db_ledger = [ex_entry 1 ''1'' EntryAllocate 50 0 None initial_allocation_key,
                  ex_entry 2 ''2'' EntryAllocate 50 0 None initial_allocation_key,
                  ex_entry 3 ''1'' EntryReserve (- 20) 20 (Some ex_order) (reserve_key ex_order)],
     db_ledger_seq = 3, db_processed = [], db_released = [], db_outbox = [], db_outbox_seq = 0\<rparr>"

lemmas ex_defs = ex_db_def ex_alice_def ex_bob_def ex_reservation_def ex_entry_def ex_env_def

lemma ex_in_int64 [simp]: "in_int64 20" "in_int64 30" "in_int64 50" "in_int64 80" "in_int64 4" "in_int64 3" "in_int64 40" "in_int64 10"
  by (simp_all add: in_int64_def int64_min_def int64_max_def)

lemma ex_credit_inv: "credit_inv ex_db" "outbox_ok ex_db"
  by (simp_all add: credit_inv_def inv_defs ex_defs active_total_def key_fits_def outbox_ok_def)
    (simp_all add: ex_order_def ledger_key_defs)

lemma ex_uuid [simp]: "uuid_pattern ex_order" "uuid_pattern ex_other_order"
  by (simp_all add: uuid_pattern_def uuid_shape_def ex_order_def ex_other_order_def is_hex_def numeral_eq_Suc)

lemma ex_lower [simp]: "to_lower ex_order = ex_order" "to_lower ex_other_order = ex_other_order"
  by (simp_all add: ex_order_def ex_other_order_def to_lower_def to_lower_char_def)

lemma ex_subjects [simp]: "validate_subject ''a''" "validate_subject ''b''"
  by (simp_all add: validate_subject_def max_subject_length_def trim_space_def runes_def chunks_ascii
      is_space_def is_control_def)

definition ex_transfer :: command where
  "ex_transfer = Transfer \<lparr>tc_order_id = ex_order, tc_errand_version = 4, tc_requester_subject = ''a'',
     tc_courier_subject = ''b'', tc_amount = 30\<rparr>"

lemma ex_clock: "clock_ok 0"
  by code_simp

definition ex_body :: json where
  "ex_body = JObj [(''messageId'', JStr ''m''), (''type'', JStr command_transfer),
     (''occurredAt'', JStr ''2026-01-01T00:00:00Z''), (''errandId'', JStr ex_order), (''errandVersion'', JNum 4),
     (''data'', JObj [(''errandId'', JStr ex_order), (''errandVersion'', JNum 4), (''requesterId'', JStr ''a''),
       (''courierId'', JStr ''b''), (''amount'', JNum 30)])]"

lemma ex_decode:
  "case decode_envelope command_transfer (Some ex_body) of
     Inr e \<Rightarrow> env_message_id e = ''m'' \<and> (case decode_command command_transfer e of Inr c \<Rightarrow> c = ex_transfer | _ \<Rightarrow> False)
   | _ \<Rightarrow> False"
  by code_simp

lemma ex_transfer_op:
  "\<exists>s1. command_op ex_env ex_transfer = Some (mk_reply ex_order 4, transfer_args ex_env (ex_order, ''a'', ''b'', 30))
     \<and> transfer_args ex_env (ex_order, ''a'', ''b'', 30) ex_db = Inr (mk_result ResultTransferred, s1)
     \<and> db_processed s1 = [] \<and> map r_status (db_reservations s1) = [ReservationTransferred]"
proof -
  have "case transfer_op ex_env ex_order ''a'' ''b'' 30 ex_db of Inr (r, s1) \<Rightarrow> r = mk_result ResultTransferred
      \<and> map r_status (db_reservations s1) = [ReservationTransferred] | _ \<Rightarrow> False"
    by code_simp
  then obtain s1 where op: "transfer_op ex_env ex_order ''a'' ''b'' 30 ex_db = Inr (mk_result ResultTransferred, s1)"
    "map r_status (db_reservations s1) = [ReservationTransferred]"
    by (auto split: sum.splits)
  with transfer_op_step [OF op(1) ex_credit_inv(1)] show ?thesis
    by (auto simp: ex_transfer_def args_defs side_tables_kept_def ex_db_def)
qed

lemma ex_transfer_run:
  "\<exists>s'. run_command (credit_service 50 0) ex_env ''m'' ex_transfer ex_db = (Inr (mk_result ResultTransferred), s')
     \<and> map r_status (db_reservations s') = [ReservationTransferred]"
proof -
  from ex_transfer_op obtain s1 where s1: "command_op ex_env ex_transfer = Some (mk_reply ex_order 4, transfer_args ex_env (ex_order, ''a'', ''b'', 30))"
    "transfer_args ex_env (ex_order, ''a'', ''b'', 30) ex_db = Inr (mk_result ResultTransferred, s1)" "db_processed s1 = []"
    "map r_status (db_reservations s1) = [ReservationTransferred]" by (elim exE conjE)
  have ok: "''m'' \<notin> pc_message_id ` set (db_processed ex_db)" "db_processed s1 = db_processed ex_db" "''m'' \<noteq> []"
    "length ''m'' \<le> max_message_id_length" "1 \<le> rp_errand_version (mk_reply ex_order 4)"
    by (simp_all add: ex_db_def s1(3) max_message_id_length_def mk_reply_def)
  obtain s' where "run_command (credit_service 50 0) ex_env ''m'' ex_transfer ex_db = (Inr (mk_result ResultTransferred), s')"
    "books s' = books s1" by (rule run_command_ok [OF s1(1,2) ok ex_clock])
  with s1(4) show ?thesis by (intro exI [of _ s'] conjI) (simp_all add: books_def)
qed

lemma ex_handle:
  "\<exists>s'. handle (credit_service 50 0) ex_env command_transfer (Some ex_body) ex_db = (None, s')
     \<and> map r_status (db_reservations s') = [ReservationTransferred]"
  using ex_decode ex_transfer_run by (auto simp: handle_def split: sum.splits)

definition ex_reserve_command :: reserve_command where
  "ex_reserve_command = \<lparr>rc_order_id = ex_other_order, rc_errand_version = 1, rc_requester_subject = ''a'', rc_amount = 10\<rparr>"

definition ex_reserve :: command where "ex_reserve = Reserve ex_reserve_command"

definition ex_release_command :: release_command where
  "ex_release_command = \<lparr>lc_order_id = ex_order, lc_errand_version = 2, lc_requester_subject = ''a''\<rparr>"

definition ex_release :: command where "ex_release = Release ex_release_command"

lemma ex_reserve_facts:
  "total_credits ex_db \<le> int64_max" "ex_alice \<in> set (db_wallets ex_db)" "w_auth0_subject ex_alice = ''a''"
  "w_available ex_alice = 30" "w_reserved ex_alice = 20" "w_version ex_alice = 3" "w_id ex_alice = ''1''"
  "rc_order_id ex_reserve_command = ex_other_order" "rc_errand_version ex_reserve_command = 1"
  "rc_requester_subject ex_reserve_command = ''a''" "rc_amount ex_reserve_command = 10"
  "db_released ex_db = []" "db_processed ex_db = []" "ex_other_order \<notin> r_order_id ` set (db_reservations ex_db)"
  "env_uuid ex_env \<notin> r_id ` set (db_reservations ex_db)" "length ''m'' \<le> max_message_id_length" "in_int64 (3 + 1)"
  by (simp_all add: ex_defs total_credits_def int64_max_def ex_reserve_command_def max_message_id_length_def
      ex_order_def ex_other_order_def)

lemma ex_release_facts:
  "ex_alice \<in> set (db_wallets ex_db)" "w_auth0_subject ex_alice = ''a''"
  "w_available ex_alice = 30" "w_reserved ex_alice = 20" "w_version ex_alice = 3" "w_id ex_alice = r_wallet_id ex_reservation"
  "lc_order_id ex_release_command = ex_order" "lc_errand_version ex_release_command = 2"
  "lc_requester_subject ex_release_command = ''a''" "db_processed ex_db = []"
  "find (\<lambda>r. r_order_id r = ex_order) (db_reservations ex_db) = Some ex_reservation" "r_status ex_reservation = ReservationActive"
  "r_amount ex_reservation = 20" "length ''m'' \<le> max_message_id_length" "in_int64 (30 + 20)" "in_int64 (3 + 1)"
  by (simp_all add: ex_defs ex_release_command_def max_message_id_length_def)

definition ex_undo_command :: release_command where
  "ex_undo_command = \<lparr>lc_order_id = ex_other_order, lc_errand_version = 2, lc_requester_subject = ''a''\<rparr>"

definition ex_undo :: command where "ex_undo = Release ex_undo_command"

lemma ex_undo_facts:
  "lc_order_id ex_undo_command = ex_other_order" "lc_errand_version ex_undo_command = 2"
  "lc_requester_subject ex_undo_command = ''a''"
  by (simp_all add: ex_undo_command_def)

end
