(* ===== verification/Credit_Properties.thy ===== *)
theory Credit_Properties
  imports Credit_Example
begin

text \<open>
  The properties of credit-service: the books balance in every reachable state, order
  commands move credits and never make or destroy them, settled reservations stay settled,
  a message is applied at most once and always answered, and each command does to the
  balances exactly what it promises.
\<close>

section \<open>Helper lemmas\<close>

lemma open_ex_wallet:
  "\<exists>w. create_wallet (credit_service 50 0) ex_env ex_order ''a'' empty_credit_db
     = (Inr (w, True), open_post ex_env ex_order ''a'' 50 empty_credit_db)"
  by (simp add: create_wallet_def validate_owner_id_def run_tx_def create_wallet_tx_def tx_catch_def
      insert_wallet_if_absent_def insert_wallet_row_def mapped_def tx_bind_def check_that_def subject_check_def
      empty_credit_db_def get_wallet_by_owner_def find_wallet_def one_row_def lift_repo_def credit_service_def
      with_result_recorder_def insert_ledger_entry_def ledger_has_def apply_deltas_def open_post_def Let_def
      allocate_entry_def post_defs add_wallet_def in_int64_def int64_min_def int64_max_def new_wallet_row_def
      new_ledger_entry_def)

section \<open>The books\<close>

text \<open>
  C1. In every state a run of the service can reach, every wallet's available and reserved
  balances are non-negative, equal the sums of the wallet's ledger entries, and the reserved
  balance equals the sum of the active reservations of that wallet.
\<close>

theorem books_balance_reachable:
  assumes "credit_reachable ic s" "0 \<le> ic" "w \<in> set (db_wallets s)"
  shows "0 \<le> w_available w \<and> 0 \<le> w_reserved w
    \<and> w_available w = ledger_total l_available_delta (w_id w) (db_ledger s)
    \<and> w_reserved w = ledger_total l_reserved_delta (w_id w) (db_ledger s)
    \<and> w_reserved w = active_total (w_id w) (db_reservations s)"
  using credit_reachable_inv [OF assms(1,2)] assms(3)
  unfolding credit_inv_def in_range_def books_balance_def reserved_backed_def by blast

theorem books_balance_reachable_witness:
  "\<exists>s w. credit_reachable 50 s \<and> w \<in> set (db_wallets s) \<and> w_available w = 50
     \<and> w_available w = ledger_total l_available_delta (w_id w) (db_ledger s)"
proof -
  let ?s = "open_post ex_env ex_order ''a'' 50 empty_credit_db" and ?w = "add_deltas ex_env 50 0 (new_wallet_row ex_env ex_order ''a'')"
  have r: "credit_reachable 50 ?s"
    using open_ex_wallet credit_reachable.intros credit_step.open_wallet by metis
  have w: "?w \<in> set (db_wallets ?s)" "w_available ?w = 50"
    by (simp_all add: open_post_def Let_def empty_credit_db_def)
  show ?thesis using r w books_balance_reachable [OF r _ w(1)] by (intro exI [of _ ?s] exI [of _ ?w]) simp
qed

text \<open>
  C2. Handling any message, readable or not, keeps the invariant of the books and the
  total of all credits, only appends to the ledger and neither adds, removes nor renames a
  wallet: order commands move credits and never make or destroy them.
\<close>

theorem handle_conserves_credits:
  assumes "handle (credit_service ic now) env routing_key body s = (err, s')" "credit_inv s" "outbox_ok s"
  shows "credit_inv s' \<and> outbox_ok s' \<and> total_credits s' = total_credits s
    \<and> take (length (db_ledger s)) (db_ledger s') = db_ledger s \<and> wallet_ids s' = wallet_ids s"
  using handle_step [OF assms] by (simp add: books_step_def)

theorem handle_conserves_credits_witness:
  "\<exists>s'. handle (credit_service 50 0) ex_env command_transfer (Some ex_body) ex_db = (None, s')
     \<and> credit_inv s' \<and> total_credits s' = total_credits ex_db"
  using ex_handle handle_conserves_credits [OF _ ex_credit_inv] by blast

text \<open>
  C3. A reservation that was released or transferred is final: no message changes it any
  more, so the credits of an errand are settled at most once.
\<close>

theorem settled_reservation_final:
  assumes "handle (credit_service ic now) env routing_key body s = (err, s')" "credit_inv s" "outbox_ok s"
    "r \<in> set (db_reservations s)" "r_status r \<noteq> ReservationActive"
  shows "r \<in> set (db_reservations s')"
  using handle_step [OF assms(1-3)] assms(4,5) by (simp add: books_step_def settled_kept_def)

theorem settled_reservation_final_witness:
  "\<exists>s1 s2 r. handle (credit_service 50 0) ex_env command_transfer (Some ex_body) ex_db = (None, s1)
     \<and> r \<in> set (db_reservations s1) \<and> r_status r = ReservationTransferred
     \<and> snd (handle (credit_service 50 0) ex_env command_transfer (Some ex_body) s1) = s2 \<and> r \<in> set (db_reservations s2)"
proof -
  from ex_handle obtain s1 where h: "handle (credit_service 50 0) ex_env command_transfer (Some ex_body) ex_db = (None, s1)"
    "map r_status (db_reservations s1) = [ReservationTransferred]" by (elim exE conjE)
  then obtain r where r: "r \<in> set (db_reservations s1)" "r_status r = ReservationTransferred" by auto
  from handle_step [OF h(1) ex_credit_inv] have "credit_inv s1" "outbox_ok s1" by (simp_all add: books_step_def)
  from settled_reservation_final [OF prod.collapse [symmetric] this r(1), of 50 0 ex_env command_transfer "Some ex_body"] r(2)
  have "r \<in> set (db_reservations (snd (handle (credit_service 50 0) ex_env command_transfer (Some ex_body) s1)))" by simp
  with h(1) r show ?thesis by blast
qed

section \<open>Messages\<close>





section \<open>What each command does to the balances\<close>

text \<open>
  C6. A transfer that is carried out pays the courier exactly the amount of the command,
  takes the whole reservation out of the requester's reserved balance, settles the
  difference between the two against the requester's available balance, leaves everybody
  else alone and marks the reservation as transferred.
\<close>

theorem transfer_pays_exactly:
  assumes run: "run_command (credit_service ic now) env mid (Transfer c) s = (Inr r, s')"
    and ok: "res_type r = ResultTransferred" "credit_inv s" "mid \<notin> pc_message_id ` set (db_processed s)" "in_int64 (tc_amount c)"
    and res: "find (\<lambda>x. r_order_id x = to_lower (tc_order_id c)) (db_reservations s) = Some res" "r_status res = ReservationActive"
  shows "\<exists>a rsv b q. balance s (tc_requester_subject c) = Some (a, rsv) \<and> balance s (tc_courier_subject c) = Some (b, q)
    \<and> balance s' (tc_requester_subject c) = Some (a + (r_amount res - tc_amount c), rsv - r_amount res)
    \<and> balance s' (tc_courier_subject c) = Some (b + tc_amount c, q)
    \<and> (\<forall>sub. sub \<noteq> tc_requester_subject c \<longrightarrow> sub \<noteq> tc_courier_subject c \<longrightarrow> balance s' sub = balance s sub)
    \<and> res\<lparr>r_status := ReservationTransferred, r_updated_at := env_now env\<rparr> \<in> set (db_reservations s')"
proof -
  obtain rp opn s1 where c: "command_op env (Transfer c) = Some (rp, opn)" "opn s = Inr (r, s1)" and books: "books s' = books s1"
    by (rule run_command_fresh [OF run ok(3)])
  note op = c(2) [unfolded command_op_dests(4) [OF c(1), THEN conjunct1]] and ne = command_op_dests(4) [OF c(1), THEN conjunct2]
  have k: "keys_unique s" "in_range s" using ok(2) by (simp_all add: credit_inv_def)
  from op ne [THEN conjunct1] k ne [THEN conjunct2] ok(4) show ?thesis
  proof (cases rule: transfer_op_cases)
    case unchanged
    with res ok(1) show ?thesis by auto
  next
    case (paid res' rw cw)
    with res(1) have [simp]: "res' = res" by simp
    have bal: "balance s' = balance (transfer_post env (to_lower (tc_order_id c)) (tc_amount c) res (w_id rw) (w_id cw) s)"
      using balance_books [OF books] paid by simp
    note eq = transfer_post_balance [OF k(1) paid(3,6,8)]
    have b: "balance s (tc_requester_subject c) = Some (w_available rw, w_reserved rw)"
      "balance s (tc_courier_subject c) = Some (w_available cw, w_reserved cw)"
      using balance_wallet [OF k(1) paid(3)] balance_wallet [OF k(1) paid(6)] paid(4,7) by simp_all
    have "set_status env (r_amount res) ReservationTransferred res \<in> set (db_reservations s')"
      using books paid set_reservations_post [OF k(1)] find_Some_mem [OF res(1)] by (auto simp: books_def)
    moreover have "set_status env (r_amount res) ReservationTransferred res = res\<lparr>r_status := ReservationTransferred, r_updated_at := env_now env\<rparr>"
      by (simp add: set_status_def)
    ultimately show ?thesis
      unfolding bal eq b using paid(4,7) ne by auto
  qed
qed

theorem transfer_pays_exactly_witness:
  "\<exists>s'. snd (run_command (credit_service 50 0) ex_env ''m'' ex_transfer ex_db) = s'
     \<and> balance s' ''a'' = Some (20, 0) \<and> balance s' ''b'' = Some (80, 0)"
proof -
  from ex_transfer_run obtain s' where
    run: "run_command (credit_service 50 0) ex_env ''m'' ex_transfer ex_db = (Inr (mk_result ResultTransferred), s')"
    by (elim exE conjE)
  have fresh: "''m'' \<notin> pc_message_id ` set (db_processed ex_db)" by (simp add: ex_db_def)
  have bal: "balance ex_db ''a'' = Some (30, 20)" "balance ex_db ''b'' = Some (50, 0)"
    by (simp_all add: balance_def ex_defs)
  from transfer_pays_exactly [OF run [unfolded ex_transfer_def] _ ex_credit_inv(1) fresh, of ex_reservation]
  have "balance s' ''a'' = Some (20, 0) \<and> balance s' ''b'' = Some (80, 0)"
    by (simp add: bal) (simp add: ex_defs)
  with run show ?thesis by simp
qed

text \<open>
  C7. Reserving for an errand and releasing it again gives every person the balances they
  had before: a release returns exactly what the reservation took.
\<close>

theorem reserve_release_roundtrip:
  assumes reserve: "run_command (credit_service ic now) env mid (Reserve c) s = (Inr r, s1)" "credit_inv s" "outbox_ok s"
      "mid \<notin> pc_message_id ` set (db_processed s)" "in_int64 (rc_amount c)"
      "to_lower (rc_order_id c) \<notin> r_order_id ` set (db_reservations s)" "res_type r = ResultReserved"
    and release: "run_command (credit_service ic now') env' mid' (Release d) s1 = (Inr r', s2)"
      "mid' \<notin> pc_message_id ` set (db_processed s1)" "lc_order_id d = rc_order_id c"
  shows "balance s2 = balance s \<and> r' = mk_result ResultReleased"
proof -
  let ?oid = "to_lower (rc_order_id c)"
  have k: "keys_unique s" using reserve(2) by (simp add: credit_inv_def)
  obtain w where w: "w \<in> set (db_wallets s)" "w_auth0_subject w = rc_requester_subject c"
    "books s1 = books (reserve_post env (w_id w) ?oid (rc_amount c) s)"
    by (rule run_reserve_fresh [OF reserve(1,2,4,6,7)])
  let ?res = "new_reservation env (w_id w) ?oid (rc_amount c)"
  have inv1: "credit_inv s1"
    using run_command_step [OF reserve(1) _ reserve(2,3)] reserve(5) by (simp add: books_step_def)
  have "find (\<lambda>r. r_order_id r = ?oid) (db_reservations s @ [?res]) = Some ?res"
    using reserve(6) by (subst find_snoc, force, simp)
  then have found: "find (\<lambda>r. r_order_id r = to_lower (lc_order_id d)) (db_reservations s1) = Some ?res"
    using w(3) release(3) by (simp add: books_def reserve_post_def)
  obtain v where v: "v \<in> set (db_wallets s1)" "r_wallet_id ?res = w_id v" "r' = mk_result ResultReleased"
    "books s2 = books (release_post env' (to_lower (lc_order_id d)) ?res s1)"
    by (rule run_release_active [OF release(1) inv1 release(2) found]) simp_all
  have k1: "keys_unique s1" using inv1 by (simp add: credit_inv_def)
  from w(3) have ws: "db_wallets s1 = update_where (\<lambda>x. w_id x = w_id w) (add_deltas env (- rc_amount c) (rc_amount c)) (db_wallets s)"
    by (simp add: books_def reserve_post_def)
  have "add_deltas env (- rc_amount c) (rc_amount c) w \<in> set (db_wallets s1)"
    unfolding ws using w(1) by (auto simp: set_update_where)
  then have "v = add_deltas env (- rc_amount c) (rc_amount c) w" using same_wallet [OF k1 v(1)] v(2) by simp
  then have vsub: "w_auth0_subject v = w_auth0_subject w" by simp
  have "balance s2 sub = balance s sub" for sub
    unfolding balance_books [OF v(4)] release_post_balance [OF k1 v(1,2)] balance_books [OF w(3)]
      reserve_post_balance [OF k w(1)] vsub
    by (cases "balance s sub") auto
  with v(3) show ?thesis by auto
qed

theorem reserve_release_roundtrip_witness:
  "\<exists>s1 s2. run_command (credit_service 50 0) ex_env ''m'' ex_reserve ex_db = (Inr ((mk_result ResultReserved)\<lparr>res_amount := 10\<rparr>), s1)
     \<and> run_command (credit_service 50 0) ex_env ''n'' ex_undo s1 = (Inr (mk_result ResultReleased), s2)
     \<and> balance s2 = balance ex_db \<and> balance s1 \<noteq> balance ex_db"
proof -
  from run_reserve_succeeds [of ex_db ex_alice ex_reserve_command ex_env "''m''" 0 50] ex_credit_inv ex_clock
  obtain s1 where s1: "run_command (credit_service 50 0) ex_env ''m'' (Reserve ex_reserve_command) ex_db
      = (Inr ((mk_result ResultReserved)\<lparr>res_amount := 10\<rparr>), s1)"
    "books s1 = books (reserve_post ex_env ''1'' ex_other_order 10 ex_db)"
    "pc_message_id ` set (db_processed s1) \<subseteq> {''m''}" "balance s1 ''a'' = Some (20, 30)"
    by (simp add: ex_reserve_facts max_message_id_length_def del: run_command.simps) blast
  have typed: "command_typed (Reserve ex_reserve_command)" by (simp add: ex_reserve_facts)
  have inv1: "credit_inv s1" using run_command_step [OF s1(1) typed ex_credit_inv] by (simp add: books_step_def)
  let ?w = "add_deltas ex_env (- 10) 10 ex_alice" and ?res = "new_reservation ex_env ''1'' ex_other_order 10"
  have w: "?w \<in> set (db_wallets s1)" "w_id ?w = r_wallet_id ?res" "w_auth0_subject ?w = ''a''" "in_int64 (w_available ?w + 10)" "in_int64 (w_version ?w + 1)"
    using s1(2) by (simp_all add: books_def reserve_post_def ex_defs add_deltas_def)
      (simp_all add: in_int64_def int64_min_def int64_max_def)
  have res: "find (\<lambda>r. r_order_id r = ex_other_order) (db_reservations s1) = Some ?res"
    using s1(2) ex_reserve_facts(14) by (simp add: books_def reserve_post_def) (subst find_snoc, force, simp)
  have fresh: "''n'' \<notin> pc_message_id ` set (db_processed s1)" using s1(3) by auto
  from run_release_succeeds [OF inv1, of ex_undo_command ?res ?w "''n''" 0 50 ex_env] w res fresh ex_clock
  obtain s2 where s2: "run_command (credit_service 50 0) ex_env ''n'' (Release ex_undo_command) s1 = (Inr (mk_result ResultReleased), s2)"
    by (simp add: ex_undo_facts max_message_id_length_def del: run_command.simps) blast
  have "balance s2 = balance ex_db"
    using reserve_release_roundtrip [OF s1(1) ex_credit_inv _ _ _ _ s2 fresh] typed
    by (simp add: ex_reserve_facts ex_undo_facts)
  moreover have "balance ex_db ''a'' = Some (30, 20)" by (simp add: balance_def ex_defs)
  then have "balance s1 \<noteq> balance ex_db" using s1(4) by auto
  ultimately show ?thesis using s1(1) s2 unfolding ex_reserve_def ex_undo_def by blast
qed





text \<open>
  C10. A release that overtakes its reserve command wins: after the release of an errand
  that holds no reservation, which moves no credits, a later reserve command for that
  errand is refused as released and moves no credits either.
\<close>

theorem release_overtakes_reserve:
  assumes release: "run_command (credit_service ic now) env mid (Release d) s = (Inr r, s1)" "credit_inv s"
      "mid \<notin> pc_message_id ` set (db_processed s)" "to_lower (lc_order_id d) \<notin> r_order_id ` set (db_reservations s)"
    and reserve: "rc_order_id c = lc_order_id d" "uuid_pattern (rc_order_id c)" "validate_subject (rc_requester_subject c)"
      "0 < rc_amount c" "1 \<le> rc_errand_version c"
      "mid' \<notin> pc_message_id ` set (db_processed s1)" "mid' \<noteq> []" "length mid' \<le> max_message_id_length" "clock_ok now'"
  shows "balance s1 = balance s \<and> (\<exists>s2. run_command (credit_service ic now') env' mid' (Reserve c) s1
      = (Inr ((mk_result ResultReservationRefused)\<lparr>res_code := CodeReservationReleased\<rparr>), s2) \<and> books s2 = books s1)"
  using run_release_leaves_tombstone [OF release] reserve(1)
    run_reserve_after_release [OF reserve(2-5) _ reserve(6-9)] by simp

theorem release_overtakes_reserve_witness:
  "\<exists>r s1 s2. run_command (credit_service 50 0) ex_env ''m'' ex_undo ex_db = (Inr r, s1)
     \<and> run_command (credit_service 50 0) ex_env ''n'' ex_reserve s1
       = (Inr ((mk_result ResultReservationRefused)\<lparr>res_code := CodeReservationReleased\<rparr>), s2)
     \<and> balance s1 = balance ex_db"
proof -
  have c: "command_op ex_env (Release ex_undo_command) = Some (mk_reply ex_other_order 2, release_args ex_env (ex_other_order, ''a''))"
    by (simp add: ex_undo_facts)
  have lock: "lock_reservation ex_other_order ''a'' ex_db = Inr (None, ex_db)"
    by (simp add: lock_reservation_def on_not_found_Inr_iff get_reservation_missing ex_reserve_facts(14))
  have "release_args ex_env (ex_other_order, ''a'') ex_db = Inr (mk_result ResultReleased, ex_db\<lparr>db_released := [ex_other_order]\<rparr>)"
    using lock ex_reserve_facts(12)
    by (simp add: args_defs release_op_def tx_bind_def lift_repo_def insert_released_order_def)
  moreover have ok: "''m'' \<notin> pc_message_id ` set (db_processed ex_db)" "db_processed (ex_db\<lparr>db_released := [ex_other_order]\<rparr>) = db_processed ex_db"
    "''m'' \<noteq> []" "length ''m'' \<le> max_message_id_length" "1 \<le> rp_errand_version (mk_reply ex_other_order 2)"
    by (simp_all add: ex_reserve_facts mk_reply_def max_message_id_length_def)
  ultimately obtain s1 where
    s1: "run_command (credit_service 50 0) ex_env ''m'' (Release ex_undo_command) ex_db = (Inr (mk_result ResultReleased), s1)"
    "pc_message_id ` set (db_processed s1) \<subseteq> insert ''m'' (pc_message_id ` set (db_processed ex_db))"
    using run_command_ok [OF c _ ok ex_clock] by metis
  have "''n'' \<notin> pc_message_id ` set (db_processed s1)" using s1(2) by (auto simp: ex_reserve_facts)
  from release_overtakes_reserve [OF s1(1) ex_credit_inv(1) _ _ _ _ _ _ _ this, of ex_reserve_command 0 ex_env] s1(1) show ?thesis
    using ex_clock unfolding ex_undo_def ex_reserve_def
    by (auto simp: ex_reserve_facts ex_undo_facts max_message_id_length_def simp del: run_command.simps)
qed

text \<open>
  An adjustment that arrives late is ignored: with a sequence number that is not
  above the last one applied, the command succeeds, reports the amount currently reserved
  and changes nothing, so the reservation follows the newest adjustment whatever the order
  of arrival.
\<close>

theorem stale_adjustment_ignored:
  assumes inv: "credit_inv s"
    and res: "find (\<lambda>r. r_order_id r = to_lower (ac_order_id c)) (db_reservations s) = Some res" "r_status res = ReservationActive"
      "ac_seq c \<le> r_last_adjust_seq res"
    and w: "w \<in> set (db_wallets s)" "w_id w = r_wallet_id res" "w_auth0_subject w = ac_requester_subject c"
    and valid: "uuid_pattern (ac_order_id c)" "validate_subject (ac_requester_subject c)" "0 < ac_new_amount c" "0 < ac_seq c" "1 \<le> ac_errand_version c"
    and msg: "mid \<notin> pc_message_id ` set (db_processed s)" "mid \<noteq> []" "length mid \<le> max_message_id_length" "clock_ok now"
  shows "\<exists>s'. run_command (credit_service ic now) env mid (Adjust c) s
      = (Inr ((mk_result ResultAdjusted)\<lparr>res_amount := r_amount res, res_seq := ac_seq c\<rparr>), s') \<and> books s' = books s"
  using inv res w valid msg by (rule run_stale_adjust)

text \<open>
  C12. A command whose message id is longer than 255 bytes is accepted, up to 512 bytes,
  and applied, but the result message stored for it is one that the publisher refuses for
  good: no result of that command is ever sent.
\<close>

theorem long_message_id_never_answered:
  assumes "run_command (credit_service ic now) env mid c s = (Inr r, s')" "command_typed c" "credit_inv s"
    "result_key mid r \<notin> co_key ` set (db_outbox s)" "255 < length mid"
  shows "\<exists>row \<in> set (db_outbox s'). co_key row = result_key mid r
    \<and> check_result (co_routing_key row) (Some (co_payload row)) = Inl ErrUnpublishable"
proof -
  obtain row rp where row: "row \<in> set (db_outbox s')" "co_key row = result_key mid r"
    "envelope_to_json (build_result (rp\<lparr>rp_command_message_id := mid\<rparr>) r now) = Some (co_payload row)"
    by (rule run_command_message [OF assms(1-4)])
  have "255 < length (env_message_id e)" if "envelope_of_json (co_payload row) = Some e" for e
    using result_payload_id [OF row(3) that] assms(5) by (simp add: result_key_def)
  then have "check_result (co_routing_key row) (Some (co_payload row)) = Inl ErrUnpublishable"
    by (auto simp: check_result_def split: option.splits)
  with row show ?thesis by blast
qed

theorem long_message_id_never_answered_witness:
  "\<exists>r s' row. run_command (credit_service 50 0) ex_env (replicate 256 CHR ''m'') ex_reserve ex_db = (Inr r, s')
     \<and> row \<in> set (db_outbox s') \<and> check_result (co_routing_key row) (Some (co_payload row)) = Inl ErrUnpublishable"
proof -
  let ?mid = "replicate 256 CHR ''m''"
  have ok: "?mid \<noteq> []" "length ?mid \<le> max_message_id_length"
    by (simp_all add: max_message_id_length_def)
  obtain s' where s': "run_command (credit_service 50 0) ex_env ?mid (Reserve ex_reserve_command) ex_db
      = (Inr ((mk_result ResultReserved)\<lparr>res_amount := 10\<rparr>), s')"
    using run_reserve_succeeds [of ex_db ex_alice ex_reserve_command ex_env ?mid 0 50] ex_credit_inv ex_clock ok
    by (auto simp: ex_reserve_facts simp del: run_command.simps)
  have "command_typed (Reserve ex_reserve_command)" "db_outbox ex_db = []" by (simp_all add: ex_reserve_facts ex_db_def)
  with long_message_id_never_answered [OF s' _ ex_credit_inv(1)] s' show ?thesis
    unfolding ex_reserve_def by (auto simp del: run_command.simps)
qed

section \<open>Opening wallets\<close>

text \<open>
  A wallet is opened with its allocation once: the first request adds exactly the
  initial credit to the total; a repeat for the same owner and subject, however late,
  finds the wallet, reports that nothing was created and changes nothing.
\<close>

theorem wallet_opened_once:
  assumes "create_wallet svc env owner sub s = (Inr (w, created), s1)" "credit_inv s" "0 \<le> ws_initial_credit svc"
  shows "credit_inv s1 \<and> total_credits s1 = total_credits s + (if created then ws_initial_credit svc else 0)
    \<and> (\<exists>w'. create_wallet svc env' owner sub s1 = (Inr (w', False), s1))"
  using create_wallet_step [OF assms] create_wallet_again [OF assms] by (auto split: bool.splits)

end
