(* ===== verification/Errand_Types.thy ===== *)
theory Errand_Types
  imports Go_Json Go_Time
begin

text \<open>
  The data of order-service's errand domain (package \<^verbatim>\<open>errand\<close>, files
  \<^verbatim>\<open>types.go\<close>, \<^verbatim>\<open>outbox.go\<close>, \<^verbatim>\<open>deadlines.go\<close> and the parts of
  \<^verbatim>\<open>ports.go\<close> the domain logic uses): states, events, actors, an errand row, a
  transition with the column changes it makes, and the outbox rows it emits. An empty
  string stands for a NULL text column and \<open>None\<close> for a NULL time, as in the code; messages
  of errors are not modelled, their codes and field names are. Versions are unbounded here.
\<close>

section \<open>Errors\<close>

datatype app_code = InvalidArgument | Unauthenticated | Forbidden | ValidationFailed | ErrandNotFound
  | FenceNotFound | OutboxRowNotFound | ErrandChanged | ErrandUnavailable | InvalidTransition
  | NotEligible | CourierRestricted | InsufficientCredits | EditPending | SupplierUnavailable
  | SupplierDeletionInProgress | DependencyUnavailable | Internal

datatype app_error = AppError (err_code: app_code) (err_fields: "string list")

definition new_error :: "app_code \<Rightarrow> app_error" where
  "new_error c = AppError c []"

definition validation_error :: "string list \<Rightarrow> app_error" where
  "validation_error fields = AppError ValidationFailed fields"

fun http_status :: "app_code \<Rightarrow> nat" where
  "http_status InvalidArgument = 400" | "http_status ValidationFailed = 400"
| "http_status Unauthenticated = 401"
| "http_status Forbidden = 403" | "http_status NotEligible = 403" | "http_status CourierRestricted = 403"
| "http_status ErrandNotFound = 404" | "http_status FenceNotFound = 404" | "http_status OutboxRowNotFound = 404"
| "http_status ErrandChanged = 409" | "http_status ErrandUnavailable = 409" | "http_status InvalidTransition = 409"
| "http_status InsufficientCredits = 409" | "http_status EditPending = 409" | "http_status SupplierDeletionInProgress = 409"
| "http_status SupplierUnavailable = 422"
| "http_status DependencyUnavailable = 503"
| "http_status Internal = 500"

section \<open>States, events and actors\<close>

text \<open>\<open>StatusUnknown\<close> is a status text that is none of the known ones.\<close>

datatype status = StatusNone | StatusPendingReservation | StatusOpen | StatusAssigned | StatusPickedUp
  | StatusDelivered | StatusReviewRequired | StatusRejected | StatusCancelled | StatusExpired
  | StatusCompleted | StatusRefunded | StatusUnknown string

definition statuses :: "status list" where
  "statuses = [StatusPendingReservation, StatusOpen, StatusAssigned, StatusPickedUp, StatusDelivered,
     StatusReviewRequired, StatusRejected, StatusCancelled, StatusExpired, StatusCompleted, StatusRefunded]"

definition terminal :: "status \<Rightarrow> bool" where
  "terminal s \<longleftrightarrow> s \<in> {StatusRejected, StatusCancelled, StatusExpired, StatusCompleted, StatusRefunded}"

definition valid_status :: "status \<Rightarrow> bool" where
  "valid_status s \<longleftrightarrow> s \<in> set statuses"

definition active_status :: "status \<Rightarrow> bool" where
  "active_status s \<longleftrightarrow> s \<noteq> StatusNone \<and> \<not> terminal s \<and> valid_status s"

datatype event = EventSubmit | EventReservationConfirmed | EventReservationRefused | EventReservationFailed
  | EventEdit | EventCancel | EventConfirm | EventDispute | EventEditConfirmed | EventEditRefused
  | EventAccept | EventWithdraw | EventPickUp | EventDeliver | EventReportIssue
  | EventAcceptanceDeadlinePassed | EventPickupDeadlinePassed | EventDeliveryDeadlinePassed
  | EventVerificationLapsed | EventAdminComplete | EventAdminRefund

datatype actor_type = ActorRequester | ActorCourier | ActorAdmin | ActorSystem

record actor =
  a_type :: actor_type
  a_id :: string

definition system_actor :: actor where
  "system_actor = \<lparr>a_type = ActorSystem, a_id = []\<rparr>"

datatype review_reason = ReviewNone | ReviewCourierIssue | ReviewRequesterDispute | ReviewDeliveryOverdue

definition reason_insufficient_credits :: string where "reason_insufficient_credits = ''INSUFFICIENT_CREDITS''"
definition reason_reservation_failed :: string where "reason_reservation_failed = ''RESERVATION_FAILED''"
definition reason_edit_failed :: string where "reason_edit_failed = ''EDIT_FAILED''"

section \<open>Errands\<close>

record details =
  d_supplier_id :: string
  d_supplier_version_id :: string
  d_building_id :: string
  d_building_snapshot :: raw_json
  d_delivery_detail :: string
  d_items :: raw_json
  d_notes :: string
  d_contact_name :: string
  d_contact_mobile :: string
  d_reward :: int
  d_acceptance_deadline :: int

definition without_contact :: "details \<Rightarrow> details" where
  "without_contact d = d\<lparr>d_contact_name := [], d_contact_mobile := []\<rparr>"

record pending_edit =
  pe_details :: details
  pe_key :: string
  pe_at :: int

record errand =
  e_id :: string
  e_status :: status
  e_version :: int
  e_requester_id :: string
  e_courier_id :: string
  e_details :: details
  e_pickup_deadline :: "int option"
  e_delivery_deadline :: "int option"
  e_delivered_at :: "int option"
  e_verification_deadline :: "int option"
  e_review_reason :: review_reason
  e_create_key :: string
  e_pending_edit :: "pending_edit option"
  e_created_at :: int
  e_updated_at :: int

section \<open>Column changes\<close>

datatype 'a update = Keep | SetNull | SetTo 'a

fun update_to :: "'a update \<Rightarrow> 'a option \<Rightarrow> 'a option" where
  "update_to Keep cur = cur"
| "update_to SetNull cur = None"
| "update_to (SetTo v) cur = Some v"

text \<open>For columns whose zero value \<open>z\<close> stands for NULL.\<close>

fun update_value :: "'a \<Rightarrow> 'a update \<Rightarrow> 'a \<Rightarrow> 'a" where
  "update_value z Keep cur = cur"
| "update_value z SetNull cur = z"
| "update_value z (SetTo v) cur = v"

record changes =
  ch_courier_id :: "string update"
  ch_details :: "details option"
  ch_pickup_deadline :: "int update"
  ch_delivery_deadline :: "int update"
  ch_delivered_at :: "int update"
  ch_verification_deadline :: "int update"
  ch_review_reason :: "review_reason update"
  ch_pending_edit :: "pending_edit update"

definition no_changes :: changes where
  "no_changes = \<lparr>ch_courier_id = Keep, ch_details = None, ch_pickup_deadline = Keep, ch_delivery_deadline = Keep,
     ch_delivered_at = Keep, ch_verification_deadline = Keep, ch_review_reason = Keep, ch_pending_edit = Keep\<rparr>"

section \<open>Outbox rows\<close>

definition kind_credit_reserve :: string where "kind_credit_reserve = ''credit.reserve''"
definition kind_credit_adjust :: string where "kind_credit_adjust = ''credit.adjust''"
definition kind_credit_release :: string where "kind_credit_release = ''credit.release''"
definition kind_credit_transfer :: string where "kind_credit_transfer = ''credit.transfer''"

lemmas kind_defs = kind_credit_reserve_def kind_credit_adjust_def kind_credit_release_def kind_credit_transfer_def

datatype event_name = ErrandPlaced | ErrandOpened | ErrandRejected | ErrandEdited | ErrandEditRequested
  | ErrandEditRejected | ErrandAccepted | ErrandCancelled | ErrandWithdrawn | ErrandExpired | ErrandPickedUp
  | ErrandDelivered | ErrandReviewRequired | ErrandCompleted | ErrandRefunded
  | ErrandAcceptRejected | ErrandCancelRejected | ErrandPickupRejected
  | ErrandVerificationReminder | ErrandPickupDeadlineApproaching

fun event_name_text :: "event_name \<Rightarrow> string" where
  "event_name_text ErrandPlaced = ''errand.placed''"
| "event_name_text ErrandOpened = ''errand.opened''"
| "event_name_text ErrandRejected = ''errand.rejected''"
| "event_name_text ErrandEdited = ''errand.edited''"
| "event_name_text ErrandEditRequested = ''errand.edit_requested''"
| "event_name_text ErrandEditRejected = ''errand.edit_rejected''"
| "event_name_text ErrandAccepted = ''errand.accepted''"
| "event_name_text ErrandCancelled = ''errand.cancelled''"
| "event_name_text ErrandWithdrawn = ''errand.withdrawn''"
| "event_name_text ErrandExpired = ''errand.expired''"
| "event_name_text ErrandPickedUp = ''errand.picked_up''"
| "event_name_text ErrandDelivered = ''errand.delivered''"
| "event_name_text ErrandReviewRequired = ''errand.review_required''"
| "event_name_text ErrandCompleted = ''errand.completed''"
| "event_name_text ErrandRefunded = ''errand.refunded''"
| "event_name_text ErrandAcceptRejected = ''errand.accept_rejected''"
| "event_name_text ErrandCancelRejected = ''errand.cancel_rejected''"
| "event_name_text ErrandPickupRejected = ''errand.pickup_rejected''"
| "event_name_text ErrandVerificationReminder = ''errand.verification_reminder''"
| "event_name_text ErrandPickupDeadlineApproaching = ''errand.pickup_deadline_approaching''"

definition transition_event_names :: "event_name list" where
  "transition_event_names = [ErrandPlaced, ErrandOpened, ErrandRejected, ErrandEdited, ErrandEditRequested,
     ErrandEditRejected, ErrandAccepted, ErrandCancelled, ErrandWithdrawn, ErrandExpired, ErrandPickedUp,
     ErrandDelivered, ErrandReviewRequired, ErrandCompleted, ErrandRefunded]"

definition event_kind :: "event_name \<Rightarrow> string" where
  "event_kind n = ''event.'' @ event_name_text n"

definition event_operation :: "event_name \<Rightarrow> string" where
  "event_operation n = drop (length ''errand.'') (event_name_text n)"

definition idempotency_key :: "string \<Rightarrow> string \<Rightarrow> int \<Rightarrow> string" where
  "idempotency_key eid operation version =
     eid @ '':'' @ operation @ (if version > 0 then '':'' @ itoa version else [])"

definition adjust_seq :: "int \<Rightarrow> int" where "adjust_seq version = 2 * version"
definition revert_seq :: "int \<Rightarrow> int" where "revert_seq new_version = 2 * new_version - 1"

record credit_command =
  cc_errand_id :: string
  cc_errand_version :: int
  cc_requester_id :: string
  cc_courier_id :: string
  cc_amount :: int
  cc_new_amount :: int
  cc_seq :: int

definition empty_command :: credit_command where
  "empty_command = \<lparr>cc_errand_id = [], cc_errand_version = 0, cc_requester_id = [], cc_courier_id = [],
     cc_amount = 0, cc_new_amount = 0, cc_seq = 0\<rparr>"

record event_data =
  ed_errand_id :: string
  ed_errand_version :: int
  ed_event :: event
  ed_from :: status
  ed_to :: status
  ed_actor_type :: actor_type
  ed_actor_id :: string
  ed_reason :: string
  ed_review_reason :: review_reason
  ed_requester_id :: string
  ed_courier_id :: string
  ed_reward :: int
  ed_at :: int
  ed_pending_edit :: "details option"
  ed_edit_dropped :: bool

text \<open>Refused requests that are announced; an action that is none of the known ones is \<open>RejectedOther\<close>.\<close>

datatype rejected_action = RejectedAccept | RejectedCancel | RejectedPickup | RejectedOther string

definition rejected_actions :: "rejected_action list" where
  "rejected_actions = [RejectedAccept, RejectedCancel, RejectedPickup]"

definition valid_action :: "rejected_action \<Rightarrow> bool" where
  "valid_action a \<longleftrightarrow> a \<in> set rejected_actions"

fun action_text :: "rejected_action \<Rightarrow> string" where
  "action_text RejectedAccept = ''accept''"
| "action_text RejectedCancel = ''cancel''"
| "action_text RejectedPickup = ''pickup''"
| "action_text (RejectedOther s) = s"

text \<open>The kind of a rejection row: \<^verbatim>\<open>"event." + "errand.<action>_rejected"\<close>.\<close>

definition rejection_kind :: "rejected_action \<Rightarrow> string" where
  "rejection_kind a = ''event.'' @ ''errand.'' @ action_text a @ ''_rejected''"

definition rejection_key :: "string \<Rightarrow> rejected_action \<Rightarrow> string \<Rightarrow> string" where
  "rejection_key eid a request_id = eid @ '':'' @ action_text a @ ''-rejected:'' @ request_id"

record rejection =
  rj_errand_id :: string
  rj_action :: rejected_action
  rj_actor :: actor
  rj_code :: app_code
  rj_request_id :: string
  rj_at :: int

record rejection_data =
  rd_errand_id :: string
  rd_errand_version :: int
  rd_status :: status
  rd_action :: rejected_action
  rd_code :: app_code
  rd_actor_type :: actor_type
  rd_actor_id :: string
  rd_at :: int

record reminder_data =
  rm_errand_id :: string
  rm_errand_version :: int
  rm_status :: status
  rm_requester_id :: string
  rm_courier_id :: string
  rm_deadline :: int
  rm_at :: int

datatype payload = CreditPayload credit_command | EventPayload event_data
  | RejectionPayload rejection_data | ReminderPayload reminder_data

record outbox_row =
  ob_kind :: string
  ob_key :: string
  ob_errand_id :: string
  ob_payload :: payload

section \<open>Transitions\<close>

record transition =
  t_errand_id :: string
  t_from :: status
  t_to :: status
  t_event :: event
  t_actor :: actor
  t_reason :: string
  t_expected_version :: int
  t_expected_pending_key :: string
  t_new_version :: int
  t_changes :: changes
  t_outbox :: "outbox_row list"
  t_at :: int

definition apply_to :: "transition \<Rightarrow> errand \<Rightarrow> errand" where
  "apply_to t e = (let c = t_changes t in
     e\<lparr>e_status := t_to t, e_version := t_new_version t, e_updated_at := t_at t,
       e_created_at := (if t_from t = StatusNone then t_at t else e_created_at e),
       e_details := (case ch_details c of None \<Rightarrow> e_details e | Some d \<Rightarrow> d),
       e_courier_id := update_value [] (ch_courier_id c) (e_courier_id e),
       e_pickup_deadline := update_to (ch_pickup_deadline c) (e_pickup_deadline e),
       e_delivery_deadline := update_to (ch_delivery_deadline c) (e_delivery_deadline e),
       e_delivered_at := update_to (ch_delivered_at c) (e_delivered_at e),
       e_verification_deadline := update_to (ch_verification_deadline c) (e_verification_deadline e),
       e_review_reason := update_value ReviewNone (ch_review_reason c) (e_review_reason e),
       e_pending_edit := update_to (ch_pending_edit c) (e_pending_edit e)\<rparr>)"

section \<open>Deadlines\<close>

record deadline_settings =
  ds_pickup_after :: int
  ds_delivery_after :: int
  ds_verification_after :: int
  ds_verification_reminder_after :: int

definition default_deadline_settings :: deadline_settings where
  "default_deadline_settings = \<lparr>ds_pickup_after = 2 * hour, ds_delivery_after = 2 * hour,
     ds_verification_after = 30 * minute, ds_verification_reminder_after = 5 * minute\<rparr>"

definition not_positive :: "string \<Rightarrow> int \<Rightarrow> string list" where
  "not_positive name d = (if d \<le> 0 then [name] else [])"

definition validate_deadlines :: "deadline_settings \<Rightarrow> app_error option" where
  "validate_deadlines s =
     (let fields = not_positive ''pickupAfter'' (ds_pickup_after s) @ not_positive ''deliveryAfter'' (ds_delivery_after s)
            @ not_positive ''verificationAfter'' (ds_verification_after s)
            @ not_positive ''verificationReminderAfter'' (ds_verification_reminder_after s);
          fields' = (if ds_verification_reminder_after s \<ge> ds_verification_after s \<and> fields = []
            then [''verificationReminderAfter''] else fields)
      in if fields' \<noteq> [] then Some (AppError ValidationFailed fields') else None)"

definition pickup_deadline :: "deadline_settings \<Rightarrow> int \<Rightarrow> int" where
  "pickup_deadline s accepted_at = accepted_at + ds_pickup_after s"

definition delivery_deadline :: "deadline_settings \<Rightarrow> int \<Rightarrow> int" where
  "delivery_deadline s accepted_at = accepted_at + ds_delivery_after s"

definition verification_deadline :: "deadline_settings \<Rightarrow> int \<Rightarrow> int" where
  "verification_deadline s delivered_at = delivered_at + ds_verification_after s"

definition verification_reminder_at :: "deadline_settings \<Rightarrow> int \<Rightarrow> int" where
  "verification_reminder_at s delivered_at = delivered_at + ds_verification_reminder_after s"

definition default_acceptance_window :: int where "default_acceptance_window = hour"
definition min_acceptance_window :: int where "min_acceptance_window = 10 * minute"
definition max_acceptance_window :: int where "max_acceptance_window = 24 * hour"

definition acceptance_deadline_ok :: "int \<Rightarrow> int \<Rightarrow> bool" where
  "acceptance_deadline_ok deadline now \<longleftrightarrow> \<not> \<not> now < deadline \<and> \<not> deadline < now + min_acceptance_window
     \<and> \<not> now + max_acceptance_window < deadline"

definition validate_acceptance_deadline :: "int \<Rightarrow> int \<Rightarrow> app_error option" where
  "validate_acceptance_deadline deadline now =
     (if acceptance_deadline_ok deadline now then None else Some (validation_error [''acceptanceDeadline'']))"

definition acceptance_deadline :: "int option \<Rightarrow> int \<Rightarrow> app_error + int" where
  "acceptance_deadline requested now =
     (case requested of
        None \<Rightarrow> Inr (now + default_acceptance_window)
      | Some d \<Rightarrow> (case validate_acceptance_deadline d now of Some e \<Rightarrow> Inl e | None \<Rightarrow> Inr d))"

definition passed :: "int \<Rightarrow> int \<Rightarrow> bool" where
  "passed deadline now \<longleftrightarrow> \<not> now < deadline"

section \<open>Event input\<close>

record event_input =
  in_edit :: "details option"
  in_reason :: string
  in_previously_withdrew :: bool
  in_restricted :: bool
  in_deadlines :: deadline_settings
  in_edit_key :: string
  in_edit_timed_out :: bool

definition no_input :: event_input where
  "no_input = \<lparr>in_edit = None, in_reason = [], in_previously_withdrew = False, in_restricted = False,
     in_deadlines = \<lparr>ds_pickup_after = 0, ds_delivery_after = 0, ds_verification_after = 0,
       ds_verification_reminder_after = 0\<rparr>, in_edit_key = [], in_edit_timed_out = False\<rparr>"

section \<open>Due kinds\<close>

datatype due_kind = AcceptanceExpiry | PickupDeadline | DeliveryDeadline | VerificationLapse | StuckReservation | StuckEdit

definition at_status :: "errand \<Rightarrow> status \<Rightarrow> int option \<Rightarrow> int option" where
  "at_status e s t = (if e_status e \<noteq> s then None else t)"

fun due_at :: "due_kind \<Rightarrow> errand \<Rightarrow> int option" where
  "due_at AcceptanceExpiry e = at_status e StatusOpen (Some (d_acceptance_deadline (e_details e)))"
| "due_at PickupDeadline e = at_status e StatusAssigned (e_pickup_deadline e)"
| "due_at DeliveryDeadline e = at_status e StatusPickedUp (e_delivery_deadline e)"
| "due_at VerificationLapse e = at_status e StatusDelivered (e_verification_deadline e)"
| "due_at StuckReservation e = at_status e StatusPendingReservation (Some (e_created_at e))"
| "due_at StuckEdit e = map_option pe_at (e_pending_edit e)"

definition due :: "due_kind \<Rightarrow> errand \<Rightarrow> int \<Rightarrow> bool" where
  "due k e now = (case due_at k e of None \<Rightarrow> False | Some t \<Rightarrow> \<not> now < t)"

end
