(* ===== verification/Errand_State.thy ===== *)
theory Errand_State
  imports Errand_Types
begin

text \<open>
  The errand state machine (package \<^verbatim>\<open>errand\<close>, \<^verbatim>\<open>state.go\<close> and
  \<^verbatim>\<open>outbox.go\<close>): the transition table, the checks of \<^verbatim>\<open>Next\<close> in their order,
  the changes each event makes and the outbox rows it emits. \<open>next_transition\<close> is
  \<^verbatim>\<open>Next\<close>.
\<close>

section \<open>The transition table\<close>

datatype relationship = RelRequester | RelAssignedCourier | RelEligibleCourier | RelAdmin | RelSystem

datatype guard = GuardBeforeAcceptanceDeadline | GuardAfterAcceptanceDeadline | GuardAfterPickupDeadline
  | GuardAfterDeliveryDeadline | GuardAfterVerificationDeadline

datatype credit_effect = CreditNone | CreditReserve | CreditRelease | CreditTransfer

record rule =
  rl_from :: status
  rl_event :: event
  rl_to :: status
  rl_actor :: relationship
  rl_guards :: "guard list"
  rl_credit :: credit_effect
  rl_emits :: "event_name list"
  rl_review :: review_reason
  rl_needs_reason :: bool

definition mk_rule :: "status \<Rightarrow> event \<Rightarrow> status \<Rightarrow> relationship \<Rightarrow> guard list \<Rightarrow> credit_effect \<Rightarrow> event_name list \<Rightarrow> rule" where
  "mk_rule from ev to act guards credit emits =
     \<lparr>rl_from = from, rl_event = ev, rl_to = to, rl_actor = act, rl_guards = guards, rl_credit = credit,
      rl_emits = emits, rl_review = ReviewNone, rl_needs_reason = False\<rparr>"

definition transition_table :: "rule list" where
  "transition_table =
    [mk_rule StatusNone EventSubmit StatusPendingReservation RelRequester [] CreditReserve [ErrandPlaced],
     mk_rule StatusPendingReservation EventReservationConfirmed StatusOpen RelSystem [] CreditNone [ErrandOpened],
     mk_rule StatusPendingReservation EventReservationRefused StatusRejected RelSystem [] CreditNone [ErrandRejected],
     mk_rule StatusPendingReservation EventReservationFailed StatusRejected RelSystem [] CreditRelease [ErrandRejected],
     mk_rule StatusOpen EventEdit StatusOpen RelRequester [] CreditNone [ErrandEdited],
     mk_rule StatusOpen EventEditConfirmed StatusOpen RelSystem [] CreditNone [ErrandEdited],
     mk_rule StatusOpen EventEditRefused StatusOpen RelSystem [] CreditNone [ErrandEditRejected],
     mk_rule StatusOpen EventAccept StatusAssigned RelEligibleCourier [GuardBeforeAcceptanceDeadline] CreditNone [ErrandAccepted],
     mk_rule StatusOpen EventCancel StatusCancelled RelRequester [] CreditRelease [ErrandCancelled],
     mk_rule StatusOpen EventAcceptanceDeadlinePassed StatusExpired RelSystem [GuardAfterAcceptanceDeadline] CreditRelease
       [ErrandExpired],
     mk_rule StatusAssigned EventWithdraw StatusOpen RelAssignedCourier [GuardBeforeAcceptanceDeadline] CreditNone [ErrandWithdrawn],
     mk_rule StatusAssigned EventWithdraw StatusExpired RelAssignedCourier [GuardAfterAcceptanceDeadline] CreditRelease
       [ErrandWithdrawn, ErrandExpired],
     mk_rule StatusAssigned EventPickupDeadlinePassed StatusOpen RelSystem
       [GuardAfterPickupDeadline, GuardBeforeAcceptanceDeadline] CreditNone [ErrandWithdrawn],
     mk_rule StatusAssigned EventPickupDeadlinePassed StatusExpired RelSystem
       [GuardAfterPickupDeadline, GuardAfterAcceptanceDeadline] CreditRelease [ErrandWithdrawn, ErrandExpired],
     mk_rule StatusAssigned EventPickUp StatusPickedUp RelAssignedCourier [] CreditNone [ErrandPickedUp],
     mk_rule StatusPickedUp EventDeliver StatusDelivered RelAssignedCourier [] CreditNone [ErrandDelivered],
     (mk_rule StatusPickedUp EventReportIssue StatusReviewRequired RelAssignedCourier [] CreditNone [ErrandReviewRequired])
       \<lparr>rl_review := ReviewCourierIssue, rl_needs_reason := True\<rparr>,
     (mk_rule StatusPickedUp EventDeliveryDeadlinePassed StatusReviewRequired RelSystem [GuardAfterDeliveryDeadline] CreditNone
       [ErrandReviewRequired])\<lparr>rl_review := ReviewDeliveryOverdue\<rparr>,
     mk_rule StatusDelivered EventConfirm StatusCompleted RelRequester [] CreditTransfer [ErrandCompleted],
     mk_rule StatusDelivered EventVerificationLapsed StatusCompleted RelSystem [GuardAfterVerificationDeadline] CreditTransfer
       [ErrandCompleted],
     (mk_rule StatusDelivered EventDispute StatusReviewRequired RelRequester [] CreditNone [ErrandReviewRequired])
       \<lparr>rl_review := ReviewRequesterDispute, rl_needs_reason := True\<rparr>,
     (mk_rule StatusReviewRequired EventAdminComplete StatusCompleted RelAdmin [] CreditTransfer [ErrandCompleted])
       \<lparr>rl_needs_reason := True\<rparr>,
     (mk_rule StatusReviewRequired EventAdminRefund StatusRefunded RelAdmin [] CreditRelease [ErrandRefunded])
       \<lparr>rl_needs_reason := True\<rparr>]"

definition rules_for :: "status \<Rightarrow> event \<Rightarrow> rule list" where
  "rules_for from ev = filter (\<lambda>r. rl_from r = from \<and> rl_event r = ev) transition_table"

section \<open>The checks\<close>

fun check_actor :: "relationship \<Rightarrow> errand \<Rightarrow> actor \<Rightarrow> event_input \<Rightarrow> app_error option" where
  "check_actor RelSystem e a input =
     (if a_type a \<noteq> ActorSystem \<or> a_id a \<noteq> [] then Some (new_error Forbidden) else None)"
| "check_actor RelAdmin e a input =
     (if a_type a \<noteq> ActorAdmin \<or> a_id a = [] then Some (new_error Forbidden) else None)"
| "check_actor RelRequester e a input =
     (if a_type a \<noteq> ActorRequester \<or> a_id a = [] \<or> a_id a \<noteq> e_requester_id e then Some (new_error Forbidden) else None)"
| "check_actor RelAssignedCourier e a input =
     (if a_type a \<noteq> ActorCourier \<or> a_id a = [] \<or> a_id a \<noteq> e_courier_id e then Some (new_error Forbidden) else None)"
| "check_actor RelEligibleCourier e a input =
     (if a_type a \<noteq> ActorCourier \<or> a_id a = [] then Some (new_error Forbidden)
      else if a_id a = e_requester_id e then Some (new_error NotEligible)
      else if in_previously_withdrew input then Some (new_error NotEligible)
      else if in_restricted input then Some (new_error CourierRestricted)
      else None)"

definition passed_opt :: "int option \<Rightarrow> int \<Rightarrow> bool" where
  "passed_opt d now = (case d of None \<Rightarrow> False | Some t \<Rightarrow> passed t now)"

fun guard_holds :: "guard \<Rightarrow> errand \<Rightarrow> int \<Rightarrow> bool" where
  "guard_holds GuardBeforeAcceptanceDeadline e now = (\<not> passed (d_acceptance_deadline (e_details e)) now)"
| "guard_holds GuardAfterAcceptanceDeadline e now = passed (d_acceptance_deadline (e_details e)) now"
| "guard_holds GuardAfterPickupDeadline e now = passed_opt (e_pickup_deadline e) now"
| "guard_holds GuardAfterDeliveryDeadline e now = passed_opt (e_delivery_deadline e) now"
| "guard_holds GuardAfterVerificationDeadline e now = passed_opt (e_verification_deadline e) now"

text \<open>\<open>failed\<close> is the guard that failed last, as the loop of the code keeps it.\<close>

fun choose_rule :: "guard option \<Rightarrow> rule list \<Rightarrow> errand \<Rightarrow> int \<Rightarrow> app_error + rule" where
  "choose_rule failed [] e now =
     Inl (new_error (if failed = Some GuardBeforeAcceptanceDeadline then ErrandUnavailable else InvalidTransition))"
| "choose_rule failed (r # rs) e now =
     (case find (\<lambda>g. \<not> guard_holds g e now) (rl_guards r) of
        None \<Rightarrow> Inr r
      | Some g \<Rightarrow> choose_rule (Some g) rs e now)"

fun lifecycle_rank :: "status \<Rightarrow> int" where
  "lifecycle_rank StatusNone = 0"
| "lifecycle_rank StatusPendingReservation = 1"
| "lifecycle_rank StatusOpen = 2"
| "lifecycle_rank StatusAssigned = 3"
| "lifecycle_rank StatusPickedUp = 4"
| "lifecycle_rank StatusDelivered = 5"
| "lifecycle_rank StatusReviewRequired = 6"
| "lifecycle_rank _ = 7"

definition moved_past :: "status \<Rightarrow> event \<Rightarrow> bool" where
  "moved_past current ev =
     (let latest = foldl (\<lambda>l r. if rl_event r = ev then max l (lifecycle_rank (rl_from r)) else l) (- 1) transition_table
      in latest \<ge> 0 \<and> lifecycle_rank current > latest)"

definition max_contact_name :: nat where "max_contact_name = 100"
definition max_contact_mobile :: nat where "max_contact_mobile = 32"

definition contact_problem :: "string \<Rightarrow> nat \<Rightarrow> bool" where
  "contact_problem s limit \<longleftrightarrow> is_blank s \<or> rune_count s > limit \<or> list_ex is_control (runes s)"

text \<open>\<^verbatim>\<open>json.Unmarshal\<close> into a slice takes arrays and null; null leaves it empty.\<close>

definition items_ok :: "raw_json \<Rightarrow> bool" where
  "items_ok items = (case items of Some (JArr (_ # _)) \<Rightarrow> True | _ \<Rightarrow> False)"

definition validate_details :: "details \<Rightarrow> int \<Rightarrow> bool \<Rightarrow> app_error option" where
  "validate_details d now new_deadline =
     (let fields = (if d_reward d \<le> 0 then [''reward''] else [])
            @ (if \<not> items_ok (d_items d) then [''items''] else [])
            @ (if contact_problem (d_contact_name d) max_contact_name then [''contactName''] else [])
            @ (if contact_problem (d_contact_mobile d) max_contact_mobile then [''contactMobile''] else [])
            @ (if new_deadline
               then (if \<not> acceptance_deadline_ok (d_acceptance_deadline d) now then [''acceptanceDeadline''] else [])
               else if passed (d_acceptance_deadline d) now then [''acceptanceDeadline''] else [])
      in if fields \<noteq> [] then Some (validation_error fields) else None)"

section \<open>The changes an event makes\<close>

definition or_default :: "string \<Rightarrow> string \<Rightarrow> string" where
  "or_default s fallback = (if s = [] then fallback else s)"

definition default_reason :: "string \<Rightarrow> transition \<Rightarrow> transition" where
  "default_reason fallback t = t\<lparr>t_reason := or_default (t_reason t) fallback\<rparr>"

definition fail_or :: "app_error option \<Rightarrow> transition \<Rightarrow> app_error + transition" where
  "fail_or err t = (case err of Some x \<Rightarrow> Inl x | None \<Rightarrow> Inr t)"

fun apply_event :: "event \<Rightarrow> transition \<Rightarrow> errand \<Rightarrow> event_input \<Rightarrow> int \<Rightarrow> app_error + transition" where
  "apply_event EventSubmit t e input now =
     (if e_id e = [] then Inl (new_error InvalidArgument)
      else if e_version e \<noteq> 0 then Inl (new_error InvalidArgument)
      else fail_or (validate_details (e_details e) now True) (t\<lparr>t_expected_version := 0, t_new_version := 1\<rparr>))"
| "apply_event EventReservationRefused t e input now = Inr (default_reason reason_insufficient_credits t)"
| "apply_event EventReservationFailed t e input now = Inr (default_reason reason_reservation_failed t)"
| "apply_event EventEdit t e input now =
     (if e_pending_edit e \<noteq> None then Inl (new_error EditPending)
      else (case in_edit input of
          None \<Rightarrow> Inl (new_error InvalidArgument)
        | Some edit \<Rightarrow>
            let deadline_changed = d_acceptance_deadline edit \<noteq> d_acceptance_deadline (e_details e) in
            fail_or (validate_details edit now deadline_changed)
              (if d_reward edit = d_reward (e_details e) then t\<lparr>t_changes := (t_changes t)\<lparr>ch_details := Some edit\<rparr>\<rparr>
               else t\<lparr>t_new_version := e_version e,
                      t_changes := (t_changes t)\<lparr>ch_pending_edit := SetTo
                        \<lparr>pe_details = edit, pe_key = idempotency_key (e_id e) ''adjust'' (e_version e), pe_at = now\<rparr>\<rparr>\<rparr>)))"
| "apply_event EventEditConfirmed t e input now =
     (case e_pending_edit e of
        None \<Rightarrow> Inl (new_error ErrandChanged)
      | Some p \<Rightarrow> if in_edit_key input \<noteq> pe_key p then Inl (new_error ErrandChanged)
          else Inr (t\<lparr>t_changes := (t_changes t)\<lparr>ch_pending_edit := SetNull, ch_details := Some (pe_details p)\<rparr>\<rparr>))"
| "apply_event EventEditRefused t e input now =
     (case e_pending_edit e of
        None \<Rightarrow> Inl (new_error ErrandChanged)
      | Some p \<Rightarrow> if in_edit_key input \<noteq> pe_key p then Inl (new_error ErrandChanged)
          else Inr (default_reason (if in_edit_timed_out input then reason_edit_failed else reason_insufficient_credits)
                 (t\<lparr>t_changes := (t_changes t)\<lparr>ch_pending_edit := SetNull\<rparr>\<rparr>)))"
| "apply_event EventAccept t e input now =
     fail_or (validate_deadlines (in_deadlines input))
       (t\<lparr>t_changes := (t_changes t)\<lparr>ch_courier_id := SetTo (a_id (t_actor t)),
           ch_pickup_deadline := SetTo (pickup_deadline (in_deadlines input) now),
           ch_delivery_deadline := SetTo (delivery_deadline (in_deadlines input) now)\<rparr>\<rparr>)"
| "apply_event EventWithdraw t e input now =
     Inr (t\<lparr>t_changes := (t_changes t)\<lparr>ch_courier_id := SetNull, ch_pickup_deadline := SetNull, ch_delivery_deadline := SetNull\<rparr>\<rparr>)"
| "apply_event EventPickupDeadlinePassed t e input now =
     Inr (t\<lparr>t_changes := (t_changes t)\<lparr>ch_courier_id := SetNull, ch_pickup_deadline := SetNull, ch_delivery_deadline := SetNull\<rparr>\<rparr>)"
| "apply_event EventDeliver t e input now =
     fail_or (validate_deadlines (in_deadlines input))
       (t\<lparr>t_changes := (t_changes t)\<lparr>ch_delivered_at := SetTo now,
           ch_verification_deadline := SetTo (verification_deadline (in_deadlines input) now)\<rparr>\<rparr>)"
| "apply_event _ t e input now = Inr t"

section \<open>The rows a transition emits\<close>

definition reverts_adjust :: "errand \<Rightarrow> transition \<Rightarrow> event_input \<Rightarrow> bool" where
  "reverts_adjust before t input =
     (e_pending_edit before \<noteq> None \<and>
      (case t_event t of EventAccept \<Rightarrow> True | EventEditRefused \<Rightarrow> in_edit_timed_out input | _ \<Rightarrow> False))"

definition credit_row :: "errand \<Rightarrow> transition \<Rightarrow> string \<Rightarrow> string \<Rightarrow> int \<Rightarrow> credit_command \<Rightarrow> outbox_row" where
  "credit_row before t kind operation version cmd =
     \<lparr>ob_kind = kind, ob_key = idempotency_key (e_id before) operation version, ob_errand_id = e_id before,
      ob_payload = CreditPayload (cmd\<lparr>cc_errand_id := e_id before, cc_errand_version := t_new_version t,
        cc_requester_id := e_requester_id before\<rparr>)\<rparr>"

definition edit_requested :: "transition \<Rightarrow> pending_edit option" where
  "edit_requested t =
     (if t_event t = EventEdit then (case ch_pending_edit (t_changes t) of SetTo p \<Rightarrow> Some p | _ \<Rightarrow> None) else None)"

definition credit_rows :: "rule \<Rightarrow> errand \<Rightarrow> transition \<Rightarrow> event_input \<Rightarrow> outbox_row list" where
  "credit_rows r before t input =
     (let after = apply_to t before in
      (case rl_credit r of
         CreditNone \<Rightarrow> []
       | CreditReserve \<Rightarrow> [credit_row before t kind_credit_reserve ''reserve'' 0 (empty_command\<lparr>cc_amount := d_reward (e_details after)\<rparr>)]
       | CreditRelease \<Rightarrow> [credit_row before t kind_credit_release ''release'' 0 empty_command]
       | CreditTransfer \<Rightarrow> [credit_row before t kind_credit_transfer ''transfer'' 0
           (empty_command\<lparr>cc_courier_id := e_courier_id before, cc_amount := d_reward (e_details after)\<rparr>)])
      @ (case edit_requested t of None \<Rightarrow> []
         | Some p \<Rightarrow> [credit_row before t kind_credit_adjust ''adjust'' (t_expected_version t)
             (empty_command\<lparr>cc_new_amount := d_reward (pe_details p), cc_seq := adjust_seq (t_expected_version t)\<rparr>)])
      @ (if reverts_adjust before t input
         then [credit_row before t kind_credit_adjust ''adjust-revert'' (t_new_version t)
           (empty_command\<lparr>cc_new_amount := d_reward (e_details before), cc_seq := revert_seq (t_new_version t)\<rparr>)]
         else []))"

definition event_row :: "errand \<Rightarrow> transition \<Rightarrow> event_name \<Rightarrow> outbox_row" where
  "event_row before t name =
     (let after = apply_to t before in
      \<lparr>ob_kind = event_kind name, ob_key = idempotency_key (e_id before) (event_operation name) (t_new_version t),
       ob_errand_id = e_id before,
       ob_payload = EventPayload
         \<lparr>ed_errand_id = e_id before, ed_errand_version = t_new_version t, ed_event = t_event t, ed_from = t_from t,
          ed_to = t_to t, ed_actor_type = a_type (t_actor t), ed_actor_id = a_id (t_actor t), ed_reason = t_reason t,
          ed_review_reason = e_review_reason after, ed_requester_id = e_requester_id before,
          ed_courier_id = (if e_courier_id before = [] then e_courier_id after else e_courier_id before),
          ed_reward = d_reward (e_details after), ed_at = t_at t,
          ed_pending_edit = map_option (\<lambda>p. without_contact (pe_details p)) (edit_requested t),
          ed_edit_dropped = (t_event t = EventAccept \<and> e_pending_edit before \<noteq> None)\<rparr>\<rparr>)"

definition outbox_rows :: "rule \<Rightarrow> errand \<Rightarrow> transition \<Rightarrow> event_input \<Rightarrow> outbox_row list" where
  "outbox_rows r before t input =
     credit_rows r before t input
     @ map (event_row before t) (if edit_requested t \<noteq> None then [ErrandEditRequested] else rl_emits r)"

section \<open>Next\<close>

definition start_transition :: "errand \<Rightarrow> event \<Rightarrow> actor \<Rightarrow> event_input \<Rightarrow> int \<Rightarrow> rule \<Rightarrow> transition" where
  "start_transition e ev a input now r =
     \<lparr>t_errand_id = e_id e, t_from = e_status e, t_to = rl_to r, t_event = ev, t_actor = a, t_reason = in_reason input,
      t_expected_version = e_version e,
      t_expected_pending_key = (case e_pending_edit e of None \<Rightarrow> [] | Some p \<Rightarrow> pe_key p),
      t_new_version = e_version e + 1,
      t_changes = (if rl_review r \<noteq> ReviewNone then no_changes\<lparr>ch_review_reason := SetTo (rl_review r)\<rparr> else no_changes),
      t_outbox = [], t_at = now\<rparr>"

definition finish_transition :: "rule \<Rightarrow> errand \<Rightarrow> event_input \<Rightarrow> transition \<Rightarrow> transition" where
  "finish_transition r e input t =
     (let t' = (if e_pending_edit e \<noteq> None \<and> t_to t \<noteq> StatusOpen
                then t\<lparr>t_changes := (t_changes t)\<lparr>ch_pending_edit := SetNull\<rparr>\<rparr> else t)
      in t'\<lparr>t_outbox := outbox_rows r e t' input\<rparr>)"

definition next_transition :: "errand \<Rightarrow> event \<Rightarrow> actor \<Rightarrow> event_input \<Rightarrow> int \<Rightarrow> app_error + transition" where
  "next_transition e ev a input now =
     (if e_status e \<noteq> StatusNone \<and> \<not> valid_status (e_status e) then Inl (new_error InvalidArgument)
      else if terminal (e_status e) then Inl (new_error ErrandUnavailable)
      else let candidates = rules_for (e_status e) ev in
        if candidates = [] then
          Inl (new_error (if moved_past (e_status e) ev then ErrandUnavailable else InvalidTransition))
        else (case check_actor (rl_actor (hd candidates)) e a input of
            Some err \<Rightarrow> Inl err
          | None \<Rightarrow>
              (case choose_rule None candidates e now of
                 Inl err \<Rightarrow> Inl err
               | Inr r \<Rightarrow>
                   if rl_needs_reason r \<and> is_blank (in_reason input) then Inl (validation_error [''reason''])
                   else (case apply_event ev (start_transition e ev a input now r) e input now of
                       Inl err \<Rightarrow> Inl err
                     | Inr t \<Rightarrow> Inr (finish_transition r e input t)))))"

end
