(* ===== verification/Errand_Lifecycle.thy ===== *)
theory Errand_Lifecycle
  imports Errand_State
begin

text \<open>
  What holds of every errand: a transition follows a rule of the table, the invariant of
  an errand row, and the history of an errand as a run of transitions, with the
  sequence numbers and idempotency keys of the rows emitted along it.
\<close>

section \<open>The shape of a transition\<close>

lemma apply_to_fields [simp]:
  "e_id (apply_to t e) = e_id e" "e_requester_id (apply_to t e) = e_requester_id e" "e_create_key (apply_to t e) = e_create_key e"
  "e_status (apply_to t e) = t_to t" "e_version (apply_to t e) = t_new_version t"
  "e_details (apply_to t e) = (case ch_details (t_changes t) of None \<Rightarrow> e_details e | Some d \<Rightarrow> d)"
  "e_courier_id (apply_to t e) = update_value [] (ch_courier_id (t_changes t)) (e_courier_id e)"
  "e_pickup_deadline (apply_to t e) = update_to (ch_pickup_deadline (t_changes t)) (e_pickup_deadline e)"
  "e_delivery_deadline (apply_to t e) = update_to (ch_delivery_deadline (t_changes t)) (e_delivery_deadline e)"
  "e_delivered_at (apply_to t e) = update_to (ch_delivered_at (t_changes t)) (e_delivered_at e)"
  "e_verification_deadline (apply_to t e) = update_to (ch_verification_deadline (t_changes t)) (e_verification_deadline e)"
  "e_review_reason (apply_to t e) = update_value ReviewNone (ch_review_reason (t_changes t)) (e_review_reason e)"
  "e_pending_edit (apply_to t e) = update_to (ch_pending_edit (t_changes t)) (e_pending_edit e)"
  by (simp_all add: apply_to_def Let_def)

lemma choose_rule_Inr:
  "choose_rule failed rs e now = Inr r \<Longrightarrow> r \<in> set rs \<and> (\<forall>g \<in> set (rl_guards r). guard_holds g e now)"
  by (induction rs arbitrary: failed) (auto split: option.splits simp: find_None_iff2)

lemma rules_for_mem: "r \<in> set (rules_for s ev) \<longleftrightarrow> r \<in> set transition_table \<and> rl_from r = s \<and> rl_event r = ev"
  by (auto simp: rules_for_def)

text \<open>All rules of a pair ask for the same relationship.\<close>

lemma rules_for_actor:
  assumes "r \<in> set (rules_for s ev)" "q \<in> set (rules_for s ev)"
  shows "rl_actor r = rl_actor q"
proof -
  have "\<forall>r \<in> set transition_table. \<forall>q \<in> set transition_table. rl_from r = rl_from q \<longrightarrow> rl_event r = rl_event q \<longrightarrow> rl_actor r = rl_actor q"
    by code_simp
  with assms show ?thesis unfolding rules_for_mem by metis
qed

lemma next_transition_Inr:
  assumes "next_transition e ev a input now = Inr t"
  obtains r t0 where "r \<in> set transition_table" "rl_from r = e_status e" "rl_event r = ev"
    "check_actor (rl_actor r) e a input = None" "\<forall>g \<in> set (rl_guards r). guard_holds g e now"
    "rl_needs_reason r \<longrightarrow> \<not> is_blank (in_reason input)"
    "apply_event ev (start_transition e ev a input now r) e input now = Inr t0" "t = finish_transition r e input t0"
    "\<not> terminal (e_status e)" "e_status e = StatusNone \<or> valid_status (e_status e)"
proof -
  let ?c = "rules_for (e_status e) ev"
  from assms obtain r t0 where c: "?c \<noteq> []" "check_actor (rl_actor (hd ?c)) e a input = None"
    "choose_rule None ?c e now = Inr r" "rl_needs_reason r \<longrightarrow> \<not> is_blank (in_reason input)"
    "apply_event ev (start_transition e ev a input now r) e input now = Inr t0" "t = finish_transition r e input t0"
    "\<not> terminal (e_status e)" "e_status e = StatusNone \<or> valid_status (e_status e)"
    by (auto simp: next_transition_def Let_def split: if_splits option.splits sum.splits)
  note ch = choose_rule_Inr [OF c(3)]
  have "rl_actor r = rl_actor (hd ?c)" using rules_for_actor [of r "e_status e" ev "hd ?c"] ch c(1) by simp
  with c(2) have "check_actor (rl_actor r) e a input = None" by simp
  with c(4-) ch show thesis by (intro that [of r t0]) (simp_all add: rules_for_mem)
qed

text \<open>The fields \<open>apply_event\<close> and the final step leave as they were.\<close>

lemma fail_or_Inr [simp]: "fail_or err t = Inr t' \<longleftrightarrow> err = None \<and> t' = t"
  by (auto simp: fail_or_def split: option.splits)

lemma default_reason_fields [simp]:
  "t_errand_id (default_reason x t) = t_errand_id t" "t_from (default_reason x t) = t_from t" "t_to (default_reason x t) = t_to t"
  "t_event (default_reason x t) = t_event t" "t_actor (default_reason x t) = t_actor t"
  "t_expected_version (default_reason x t) = t_expected_version t"
  "t_expected_pending_key (default_reason x t) = t_expected_pending_key t"
  "t_new_version (default_reason x t) = t_new_version t" "t_changes (default_reason x t) = t_changes t"
  "t_outbox (default_reason x t) = t_outbox t" "t_at (default_reason x t) = t_at t"
  by (simp_all add: default_reason_def)

lemma apply_event_frame:
  assumes "apply_event ev t e input now = Inr t'"
  shows "t_errand_id t' = t_errand_id t \<and> t_from t' = t_from t \<and> t_to t' = t_to t \<and> t_event t' = t_event t
    \<and> t_actor t' = t_actor t \<and> t_expected_pending_key t' = t_expected_pending_key t \<and> t_at t' = t_at t"
  using assms by (cases ev) (auto simp: Let_def split: if_splits option.splits)

lemma finish_transition_fields [simp]:
  "t_errand_id (finish_transition r e input t) = t_errand_id t" "t_from (finish_transition r e input t) = t_from t"
  "t_to (finish_transition r e input t) = t_to t" "t_event (finish_transition r e input t) = t_event t"
  "t_actor (finish_transition r e input t) = t_actor t" "t_expected_version (finish_transition r e input t) = t_expected_version t"
  "t_expected_pending_key (finish_transition r e input t) = t_expected_pending_key t"
  "t_new_version (finish_transition r e input t) = t_new_version t" "t_at (finish_transition r e input t) = t_at t"
  "t_reason (finish_transition r e input t) = t_reason t"
  "t_changes (finish_transition r e input t) = (if e_pending_edit e \<noteq> None \<and> t_to t \<noteq> StatusOpen
     then (t_changes t)\<lparr>ch_pending_edit := SetNull\<rparr> else t_changes t)"
  by (simp_all add: finish_transition_def Let_def)

lemma start_transition_fields [simp]:
  "t_errand_id (start_transition e ev a input now r) = e_id e" "t_from (start_transition e ev a input now r) = e_status e"
  "t_to (start_transition e ev a input now r) = rl_to r" "t_event (start_transition e ev a input now r) = ev"
  "t_actor (start_transition e ev a input now r) = a" "t_expected_version (start_transition e ev a input now r) = e_version e"
  "t_new_version (start_transition e ev a input now r) = e_version e + 1" "t_at (start_transition e ev a input now r) = now"
  "t_changes (start_transition e ev a input now r) =
     (if rl_review r \<noteq> ReviewNone then no_changes\<lparr>ch_review_reason := SetTo (rl_review r)\<rparr> else no_changes)"
  by (simp_all add: start_transition_def)

lemma no_changes_fields [simp]:
  "ch_courier_id no_changes = Keep" "ch_details no_changes = None" "ch_pickup_deadline no_changes = Keep"
  "ch_delivery_deadline no_changes = Keep" "ch_delivered_at no_changes = Keep" "ch_verification_deadline no_changes = Keep"
  "ch_review_reason no_changes = Keep" "ch_pending_edit no_changes = Keep"
  by (simp_all add: no_changes_def)

text \<open>The 23 rules, for case distinctions.\<close>

lemma mk_rule_fields [simp]:
  "rl_from (mk_rule f ev to a g c m) = f" "rl_event (mk_rule f ev to a g c m) = ev" "rl_to (mk_rule f ev to a g c m) = to"
  "rl_actor (mk_rule f ev to a g c m) = a" "rl_guards (mk_rule f ev to a g c m) = g" "rl_credit (mk_rule f ev to a g c m) = c"
  "rl_emits (mk_rule f ev to a g c m) = m" "rl_review (mk_rule f ev to a g c m) = ReviewNone"
  "rl_needs_reason (mk_rule f ev to a g c m) = False"
  by (simp_all add: mk_rule_def)

section \<open>The invariant of an errand\<close>

definition assigned_status :: "status \<Rightarrow> bool" where
  "assigned_status s \<longleftrightarrow> s \<in> {StatusAssigned, StatusPickedUp, StatusDelivered, StatusReviewRequired, StatusCompleted, StatusRefunded}"

definition errand_inv :: "errand \<Rightarrow> bool" where
  "errand_inv e \<longleftrightarrow>
     (e_status e = StatusNone \<or> valid_status (e_status e))
     \<and> (if e_status e = StatusNone then True else 1 \<le> e_version e \<and> 0 < d_reward (e_details e) \<and> e_id e \<noteq> [] \<and> e_requester_id e \<noteq> [])
     \<and> (e_status e = StatusPendingReservation \<longrightarrow> e_version e = 1)
     \<and> (\<forall>p. e_pending_edit e = Some p \<longrightarrow> e_status e = StatusOpen
          \<and> pe_key p = idempotency_key (e_id e) ''adjust'' (e_version e)
          \<and> 0 < d_reward (pe_details p) \<and> d_reward (pe_details p) \<noteq> d_reward (e_details e))
     \<and> (e_courier_id e \<noteq> [] \<longleftrightarrow> assigned_status (e_status e))
     \<and> (e_pickup_deadline e \<noteq> None \<longleftrightarrow> assigned_status (e_status e))
     \<and> (e_delivery_deadline e \<noteq> None \<longleftrightarrow> assigned_status (e_status e))
     \<and> (e_status e = StatusDelivered \<longrightarrow> e_delivered_at e \<noteq> None \<and> e_verification_deadline e \<noteq> None)
     \<and> (e_status e \<in> {StatusReviewRequired, StatusRefunded} \<longrightarrow> e_review_reason e \<noteq> ReviewNone)
     \<and> (e_courier_id e \<noteq> [] \<longrightarrow> e_courier_id e \<noteq> e_requester_id e)"

text \<open>An errand as the submission builds it.\<close>

definition new_errand :: "errand \<Rightarrow> bool" where
  "new_errand e \<longleftrightarrow> e_status e = StatusNone \<and> e_courier_id e = [] \<and> e_pickup_deadline e = None
     \<and> e_delivery_deadline e = None \<and> e_delivered_at e = None \<and> e_verification_deadline e = None
     \<and> e_review_reason e = ReviewNone \<and> e_pending_edit e = None"

lemma new_errand_inv: "new_errand e \<Longrightarrow> errand_inv e"
  by (simp add: new_errand_def errand_inv_def assigned_status_def)

lemma errand_inv_started:
  assumes "errand_inv e" "e_status e \<noteq> StatusNone"
  shows "1 \<le> e_version e" "0 < d_reward (e_details e)" "e_requester_id e \<noteq> []" "e_id e \<noteq> []"
  using assms unfolding errand_inv_def by meson+

lemma errand_inv_pending:
  assumes "errand_inv e" "e_pending_edit e = Some p"
  shows "e_status e = StatusOpen" "0 < d_reward (pe_details p)" "pe_key p = idempotency_key (e_id e) ''adjust'' (e_version e)"
  using assms unfolding errand_inv_def by meson+

lemma errand_inv_courier: "errand_inv e \<Longrightarrow> e_courier_id e \<noteq> [] \<longleftrightarrow> assigned_status (e_status e)"
  unfolding errand_inv_def by meson

lemma errand_inv_first: "errand_inv e \<Longrightarrow> e_status e = StatusPendingReservation \<Longrightarrow> e_version e = 1"
  unfolding errand_inv_def by meson

lemma validate_details_None: "validate_details d now b = None \<Longrightarrow> 0 < d_reward d"
  by (auto simp: validate_details_def Let_def split: if_splits)

text \<open>The rules an event has, and with them the effect of a transition by its event.\<close>

lemma event_rules:
  assumes "r \<in> set transition_table" "rl_event r = ev"
  shows "r \<in> set (filter (\<lambda>r. rl_event r = ev) transition_table)"
  using assms by simp

section \<open>The rows and the effect of a transition\<close>

lemma edit_requested_cong [simp]:
  "edit_requested (t\<lparr>t_outbox := x\<rparr>) = edit_requested t" "reverts_adjust e (t\<lparr>t_outbox := x\<rparr>) input = reverts_adjust e t input"
  "apply_to (t\<lparr>t_outbox := x\<rparr>) e = apply_to t e" "credit_row e (t\<lparr>t_outbox := x\<rparr>) = credit_row e t"
  by (simp_all add: edit_requested_def reverts_adjust_def apply_to_def credit_row_def fun_eq_iff)

lemma event_row_cong [simp]: "event_row e (t\<lparr>t_outbox := x\<rparr>) = event_row e t"
  by (simp add: event_row_def fun_eq_iff Let_def)

lemma outbox_rows_cong [simp]: "outbox_rows r e (t\<lparr>t_outbox := x\<rparr>) input = outbox_rows r e t input"
  by (simp add: outbox_rows_def credit_rows_def Let_def split: credit_effect.split option.split)

lemma finish_transition_outbox: "t_outbox (finish_transition r e input t) = outbox_rows r e (finish_transition r e input t) input"
  by (simp add: finish_transition_def Let_def)

text \<open>The columns after a transition, by its event.\<close>

lemma event_effect:
  assumes "apply_event ev (start_transition e ev a input now r) e input now = Inr t"
  shows "update_value [] (ch_courier_id (t_changes t)) (e_courier_id e)
      = (if ev = EventAccept then a_id a else if ev \<in> {EventWithdraw, EventPickupDeadlinePassed} then [] else e_courier_id e)"
    "update_to (ch_pickup_deadline (t_changes t)) (e_pickup_deadline e)
      = (if ev = EventAccept then Some (pickup_deadline (in_deadlines input) now)
         else if ev \<in> {EventWithdraw, EventPickupDeadlinePassed} then None else e_pickup_deadline e)"
    "update_to (ch_delivery_deadline (t_changes t)) (e_delivery_deadline e)
      = (if ev = EventAccept then Some (delivery_deadline (in_deadlines input) now)
         else if ev \<in> {EventWithdraw, EventPickupDeadlinePassed} then None else e_delivery_deadline e)"
    "update_to (ch_delivered_at (t_changes t)) (e_delivered_at e) = (if ev = EventDeliver then Some now else e_delivered_at e)"
    "update_to (ch_verification_deadline (t_changes t)) (e_verification_deadline e)
      = (if ev = EventDeliver then Some (verification_deadline (in_deadlines input) now) else e_verification_deadline e)"
    "update_value ReviewNone (ch_review_reason (t_changes t)) (e_review_reason e)
      = (if rl_review r \<noteq> ReviewNone then rl_review r else e_review_reason e)"
    "t_expected_version t = e_version e"
    "t_new_version t = e_version e + (if edit_requested t = None then 1 else 0)"
  using assms
  by (cases ev; auto simp: edit_requested_def Let_def split: if_splits option.splits)+

lemma event_effect_edit:
  assumes "apply_event ev (start_transition e ev a input now r) e input now = Inr t"
  shows "edit_requested t \<noteq> None \<Longrightarrow> ev = EventEdit \<and> e_pending_edit e = None"
    "update_to (ch_pending_edit (t_changes t)) (e_pending_edit e) = (case edit_requested t of Some p \<Rightarrow> Some p
       | None \<Rightarrow> if ev \<in> {EventEditConfirmed, EventEditRefused} then None else e_pending_edit e)"
    "edit_requested t = Some p \<Longrightarrow> pe_key p = idempotency_key (e_id e) ''adjust'' (e_version e) \<and> 0 < d_reward (pe_details p)
       \<and> d_reward (pe_details p) \<noteq> d_reward (e_details e) \<and> ch_details (t_changes t) = None \<and> pe_at p = now"
    "ev = EventEdit \<Longrightarrow> e_pending_edit e = None"
  using assms
  by (cases ev; auto simp: edit_requested_def Let_def dest: validate_details_None split: if_splits option.splits)+

lemma event_effect_details:
  assumes "apply_event ev (start_transition e ev a input now r) e input now = Inr t"
  shows "ch_details (t_changes t) = Some d \<Longrightarrow> 0 < d_reward d \<or> (\<exists>p. e_pending_edit e = Some p \<and> d = pe_details p)"
    "ch_details (t_changes t) \<noteq> None \<Longrightarrow> ev \<in> {EventEdit, EventEditConfirmed}"
    "ev = EventSubmit \<Longrightarrow> 0 < d_reward (e_details e) \<and> e_id e \<noteq> [] \<and> e_version e = 0"
  using assms
  by (cases ev; auto simp: Let_def dest: validate_details_None split: if_splits option.splits)+

lemma finish_changes [simp]:
  "ch_courier_id (t_changes (finish_transition r e input t)) = ch_courier_id (t_changes t)"
  "ch_details (t_changes (finish_transition r e input t)) = ch_details (t_changes t)"
  "ch_pickup_deadline (t_changes (finish_transition r e input t)) = ch_pickup_deadline (t_changes t)"
  "ch_delivery_deadline (t_changes (finish_transition r e input t)) = ch_delivery_deadline (t_changes t)"
  "ch_delivered_at (t_changes (finish_transition r e input t)) = ch_delivered_at (t_changes t)"
  "ch_verification_deadline (t_changes (finish_transition r e input t)) = ch_verification_deadline (t_changes t)"
  "ch_review_reason (t_changes (finish_transition r e input t)) = ch_review_reason (t_changes t)"
  "ch_pending_edit (t_changes (finish_transition r e input t)) =
     (if e_pending_edit e \<noteq> None \<and> t_to t \<noteq> StatusOpen then SetNull else ch_pending_edit (t_changes t))"
  by simp_all

declare finish_transition_fields(11) [simp del]

text \<open>Facts about the 23 rules of the table.\<close>

definition rule_fits :: "rule \<Rightarrow> bool" where
  "rule_fits r \<longleftrightarrow> valid_status (rl_to r) \<and> \<not> terminal (rl_from r)
     \<and> (assigned_status (rl_to r) \<longleftrightarrow> rl_event r = EventAccept
          \<or> (assigned_status (rl_from r) \<and> rl_event r \<notin> {EventWithdraw, EventPickupDeadlinePassed}))
     \<and> (rl_event r = EventAccept \<longrightarrow> rl_actor r = RelEligibleCourier)
     \<and> (rl_event r \<in> {EventEdit, EventEditConfirmed, EventEditRefused} \<longrightarrow> rl_from r = StatusOpen \<and> rl_to r = StatusOpen)
     \<and> (rl_from r = StatusOpen \<longrightarrow> rl_to r = StatusOpen \<longrightarrow> rl_event r \<in> {EventEdit, EventEditConfirmed, EventEditRefused})
     \<and> (rl_to r = StatusOpen \<longrightarrow> rl_from r = StatusOpen \<or> rl_from r \<in> {StatusPendingReservation, StatusAssigned})
     \<and> (rl_to r = StatusDelivered \<longrightarrow> rl_event r = EventDeliver)
     \<and> (rl_to r = StatusReviewRequired \<longleftrightarrow> rl_review r \<noteq> ReviewNone)
     \<and> (rl_to r = StatusRefunded \<longrightarrow> rl_from r = StatusReviewRequired)
     \<and> (rl_from r = StatusNone \<longleftrightarrow> rl_event r = EventSubmit)
     \<and> rl_to r \<noteq> StatusNone
     \<and> (rl_credit r = CreditReserve \<longleftrightarrow> rl_event r = EventSubmit)
     \<and> (rl_credit r = CreditTransfer \<longleftrightarrow> rl_to r = StatusCompleted)
     \<and> (rl_to r \<in> {StatusCancelled, StatusExpired, StatusRefunded} \<longrightarrow> rl_credit r = CreditRelease)
     \<and> (rl_credit r = CreditRelease \<longrightarrow> terminal (rl_to r))
     \<and> (rl_event r = EventAccept \<longrightarrow> rl_from r = StatusOpen)
     \<and> (rl_event r = EventSubmit \<longleftrightarrow> rl_to r = StatusPendingReservation) \<and> (rl_event r = EventSubmit \<longrightarrow> rl_actor r = RelRequester)
     \<and> distinct (rl_emits r) \<and> set (rl_emits r) \<subseteq> set transition_event_names - {ErrandEditRequested}"

lemma rule_fits: "r \<in> set transition_table \<Longrightarrow> rule_fits r"
proof -
  have "list_all rule_fits transition_table" by code_simp
  then show "r \<in> set transition_table \<Longrightarrow> rule_fits r" by (simp add: list_all_iff)
qed

text \<open>A transition leaves a pending edit exactly when it asked for one.\<close>

lemma pending_after:
  assumes nx: "next_transition e ev a input now = Inr t" and inv: "\<And>p. e_pending_edit e = Some p \<Longrightarrow> e_status e = StatusOpen"
  shows "e_pending_edit (apply_to t e) = edit_requested t"
proof -
  obtain r t0 where r: "r \<in> set transition_table" "rl_from r = e_status e" "rl_event r = ev"
    "apply_event ev (start_transition e ev a input now r) e input now = Inr t0" "t = finish_transition r e input t0"
    by (rule next_transition_Inr [OF nx])
  note edit = event_effect_edit [OF r(4)] and frame = apply_event_frame [OF r(4)]
  have to: "t_to t0 = rl_to r" "t_event t0 = ev" using frame by simp_all
  have fits: "ev \<in> {EventEdit, EventEditConfirmed, EventEditRefused} \<Longrightarrow> rl_to r = StatusOpen"
    "e_status e = StatusOpen \<Longrightarrow> rl_to r = StatusOpen \<Longrightarrow> ev \<in> {EventEdit, EventEditConfirmed, EventEditRefused}"
    using rule_fits [OF r(1)] r(2,3) unfolding rule_fits_def by metis+
  show ?thesis
  proof (cases "e_pending_edit e")
    case None
    have "edit_requested t = edit_requested t0" using None r(5) to by (simp add: edit_requested_def)
    with edit(2) None r(5) show ?thesis by (auto split: option.splits)
  next
    case (Some p)
    with edit(4) have ne: "ev \<noteq> EventEdit" by auto
    then have "edit_requested t = None" using r(5) to by (simp add: edit_requested_def)
    moreover have "edit_requested t0 = None" using ne to by (simp add: edit_requested_def)
    moreover have "rl_to r = StatusOpen \<Longrightarrow> ev \<in> {EventEditConfirmed, EventEditRefused}" using fits(2) inv Some ne by blast
    ultimately show ?thesis using edit(2) Some r(5) to by auto
  qed
qed

lemma pending_after_inv:
  assumes "next_transition e ev a input now = Inr t" "errand_inv e"
  shows "e_pending_edit (apply_to t e) = edit_requested t"
  using pending_after [OF assms(1)] errand_inv_pending(1) [OF assms(2)] by blast

lemma errand_inv_step:
  assumes nx: "next_transition e ev a input now = Inr t" and inv: "errand_inv e"
  shows "errand_inv (apply_to t e)"
proof -
  obtain r t0 where r: "r \<in> set transition_table" "rl_from r = e_status e" "rl_event r = ev"
    "check_actor (rl_actor r) e a input = None"
    "apply_event ev (start_transition e ev a input now r) e input now = Inr t0" "t = finish_transition r e input t0"
    "e_status e = StatusNone \<or> valid_status (e_status e)"
    by (rule next_transition_Inr [OF nx])
  note eff = event_effect [OF r(5)] and edit = event_effect_edit [OF r(5)] and frame = apply_event_frame [OF r(5)]
    and det = event_effect_details [OF r(5)] and fits = rule_fits [OF r(1), unfolded rule_fits_def r(2,3)]
  have to: "t_to t = rl_to r" "t_event t0 = ev" "t_new_version t = t_new_version t0" using frame r(6) by simp_all
  have valid: "valid_status (rl_to r)" "rl_to r \<noteq> StatusNone" using fits by blast+
  have acc: "a_id a \<noteq> []" "a_id a \<noteq> e_requester_id e" if "ev = EventAccept"
  proof -
    have "rl_actor r = RelEligibleCourier" using fits that by blast
    then show "a_id a \<noteq> []" "a_id a \<noteq> e_requester_id e" using r(4) by (auto split: if_splits)
  qed
  have assigned: "assigned_status (rl_to r) \<longleftrightarrow> ev = EventAccept
      \<or> (assigned_status (e_status e) \<and> ev \<notin> {EventWithdraw, EventPickupDeadlinePassed})" using fits by blast
  have pend: "e_pending_edit (apply_to t e) = edit_requested t"
    by (rule pending_after_inv [OF nx inv])
  have start: "ev = EventSubmit \<longleftrightarrow> e_status e = StatusNone" using fits by blast
  have inv1: "e_status e \<noteq> StatusNone \<Longrightarrow> 1 \<le> e_version e \<and> 0 < d_reward (e_details e) \<and> e_id e \<noteq> [] \<and> e_requester_id e \<noteq> []"
    and inv2: "\<And>p. e_pending_edit e = Some p \<Longrightarrow> 0 < d_reward (pe_details p)"
    and inv3: "e_courier_id e \<noteq> [] \<longleftrightarrow> assigned_status (e_status e)" "e_pickup_deadline e \<noteq> None \<longleftrightarrow> assigned_status (e_status e)"
      "e_delivery_deadline e \<noteq> None \<longleftrightarrow> assigned_status (e_status e)"
    and inv4: "e_status e \<in> {StatusReviewRequired, StatusRefunded} \<Longrightarrow> e_review_reason e \<noteq> ReviewNone"
    and inv5: "e_courier_id e \<noteq> [] \<Longrightarrow> e_courier_id e \<noteq> e_requester_id e"
    using inv by (auto simp: errand_inv_def)
  have submit: "t_new_version t = 1 \<and> e_requester_id e \<noteq> []" if "ev = EventSubmit"
  proof -
    have "edit_requested t0 = None" using that edit(1) by (cases "edit_requested t0") auto
    moreover have "rl_actor r = RelRequester" using fits that by blast
    ultimately show ?thesis using that det(3) eff(8) to r(4) by (auto split: if_splits)
  qed
  have version: "1 \<le> t_new_version t" using inv1 submit start eff(8) to by (cases "e_status e = StatusNone") auto
  have pending1: "rl_to r = StatusPendingReservation \<longrightarrow> t_new_version t = 1" using submit fits by blast
  have requester: "e_requester_id e \<noteq> []" using inv1 submit start by (cases "e_status e = StatusNone") simp_all
  have reward: "0 < d_reward (e_details (apply_to t e))"
  proof (cases "ch_details (t_changes t0)")
    case None
    then have "e_details (apply_to t e) = e_details e" using r(6) by simp
    moreover have "0 < d_reward (e_details e)" using inv1 start det(3) by (cases "e_status e = StatusNone") simp_all
    ultimately show ?thesis by simp
  next
    case (Some d)
    then have eq: "e_details (apply_to t e) = d" using r(6) by simp
    from det(1) [OF Some] have "0 < d_reward d" by (elim disjE exE conjE) (use inv2 in simp_all)
    with eq show ?thesis by simp
  qed
  have eid: "e_id e \<noteq> []" using inv1 start det(3) by (cases "e_status e = StatusNone") simp_all
  have edits: "t_to t = StatusOpen \<and> pe_key p = idempotency_key (e_id e) ''adjust'' (t_new_version t)
      \<and> 0 < d_reward (pe_details p) \<and> d_reward (pe_details p) \<noteq> d_reward (e_details (apply_to t e))"
    if p: "edit_requested t = Some p" for p
  proof -
    from p have "ev = EventEdit" using r(6) to by (simp add: edit_requested_def split: if_splits)
    moreover from this have open': "rl_to r = StatusOpen" using fits by blast
    ultimately have er: "edit_requested t0 = Some p" using p r(6) to edit(4) by (simp add: edit_requested_def)
    from edit(3) [OF er] er eff(8) open' to r(6) show ?thesis by simp
  qed
  have courier: "e_courier_id (apply_to t e) \<noteq> [] \<longleftrightarrow> assigned_status (rl_to r)"
    "e_pickup_deadline (apply_to t e) \<noteq> None \<longleftrightarrow> assigned_status (rl_to r)"
    "e_delivery_deadline (apply_to t e) \<noteq> None \<longleftrightarrow> assigned_status (rl_to r)"
    using assigned inv3 eff(1-3) acc(1) r(6) by auto
  have delivered: "rl_to r = StatusDelivered \<longrightarrow> e_delivered_at (apply_to t e) \<noteq> None \<and> e_verification_deadline (apply_to t e) \<noteq> None"
  proof
    assume "rl_to r = StatusDelivered"
    then have "ev = EventDeliver" using fits by blast
    then show "e_delivered_at (apply_to t e) \<noteq> None \<and> e_verification_deadline (apply_to t e) \<noteq> None" using eff(4,5) r(6) by simp
  qed
  have review: "rl_to r \<in> {StatusReviewRequired, StatusRefunded} \<longrightarrow> e_review_reason (apply_to t e) \<noteq> ReviewNone"
  proof
    assume "rl_to r \<in> {StatusReviewRequired, StatusRefunded}"
    then have "rl_review r \<noteq> ReviewNone \<or> e_status e = StatusReviewRequired" using fits by blast
    then show "e_review_reason (apply_to t e) \<noteq> ReviewNone" using inv4 eff(6) r(6) by auto
  qed
  have other: "e_courier_id (apply_to t e) \<noteq> [] \<longrightarrow> e_courier_id (apply_to t e) \<noteq> e_requester_id e"
    using inv5 eff(1) acc(2) r(6) by auto
  show ?thesis
    unfolding errand_inv_def apply_to_fields(1,2,4,5) to(1) pend
  proof (intro conjI allI impI)
    show "rl_to r = StatusNone \<or> valid_status (rl_to r)" using valid(1) ..
    show "if rl_to r = StatusNone then True else 1 \<le> t_new_version t \<and> 0 < d_reward (e_details (apply_to t e)) \<and> e_id e \<noteq> [] \<and> e_requester_id e \<noteq> []"
      using valid(2) version reward eid requester by (simp only: if_False simp_thms)
    fix p assume p: "edit_requested t = Some p"
    show "rl_to r = StatusOpen" "pe_key p = idempotency_key (e_id e) ''adjust'' (t_new_version t)" "0 < d_reward (pe_details p)"
      "d_reward (pe_details p) \<noteq> d_reward (e_details (apply_to t e))"
      using edits [OF p] unfolding to(1) by simp_all
  qed (use pending1 courier delivered review other in \<open>simp_all only: simp_thms\<close>)
qed

text \<open>What \<open>Next\<close> decided, in one obtain rule for the proofs about rows and versions.\<close>

lemma edit_requested_finish:
  assumes "apply_event ev (start_transition e ev a input now r) e input now = Inr t"
  shows "edit_requested (finish_transition r e input t) = edit_requested t"
proof (cases "e_pending_edit e")
  case (Some p)
  with event_effect_edit(4) [OF assms] apply_event_frame [OF assms] have "t_event t \<noteq> EventEdit" by auto
  then show ?thesis by (simp add: edit_requested_def)
qed (simp add: edit_requested_def)

lemma transition_summary:
  assumes nx: "next_transition e ev a input now = Inr t"
  obtains r where "r \<in> set transition_table" "rl_from r = e_status e" "rl_event r = ev" "rl_to r = t_to t"
    "t_outbox t = outbox_rows r e t input" "t_expected_version t = e_version e" "t_event t = ev"
    "t_new_version t = e_version e + (if edit_requested t = None then 1 else 0)"
    "edit_requested t \<noteq> None \<longrightarrow> ev = EventEdit \<and> e_pending_edit e = None"
    "\<not> terminal (e_status e)" "check_actor (rl_actor r) e a input = None" "\<forall>g \<in> set (rl_guards r). guard_holds g e now"
    "rl_needs_reason r \<longrightarrow> \<not> is_blank (in_reason input)" "t_from t = e_status e" "t_at t = now" "t_actor t = a"
    "t_errand_id t = e_id e"
proof -
  obtain r t0 where r: "r \<in> set transition_table" "rl_from r = e_status e" "rl_event r = ev"
    "check_actor (rl_actor r) e a input = None" "\<forall>g \<in> set (rl_guards r). guard_holds g e now"
    "rl_needs_reason r \<longrightarrow> \<not> is_blank (in_reason input)"
    "apply_event ev (start_transition e ev a input now r) e input now = Inr t0" "t = finish_transition r e input t0"
    "\<not> terminal (e_status e)"
    by (rule next_transition_Inr [OF nx])
  note eff = event_effect(7,8) [OF r(7)] and edit = event_effect_edit(1) [OF r(7)] and frame = apply_event_frame [OF r(7)]
    and er = edit_requested_finish [OF r(7)]
  show thesis
  proof (rule that [OF r(1-3)])
    show "t_outbox t = outbox_rows r e t input" using r(8) finish_transition_outbox by simp
    show "t_new_version t = e_version e + (if edit_requested t = None then 1 else 0)" using eff(2) er r(8) by simp
    show "edit_requested t \<noteq> None \<longrightarrow> ev = EventEdit \<and> e_pending_edit e = None" using edit er r(8) by simp
  qed (use frame r eff in simp_all)
qed

section \<open>Histories\<close>

text \<open>
  A history of an errand: the transitions \<open>Next\<close> decided one after the other, each on the
  errand the earlier ones left, from the errand a submission built.
\<close>

inductive errand_run :: "errand \<Rightarrow> transition list \<Rightarrow> errand \<Rightarrow> bool" for e0 where
  submitted: "new_errand e0 \<Longrightarrow> errand_run e0 [] e0"
| happened: "errand_run e0 ts e \<Longrightarrow> next_transition e ev a input now = Inr t \<Longrightarrow> errand_run e0 (ts @ [t]) (apply_to t e)"

inductive_cases errand_runE: "errand_run e0 ts e"

lemma errand_run_inv: "errand_run e0 ts e \<Longrightarrow> errand_inv e"
  by (induction rule: errand_run.induct) (auto intro: new_errand_inv errand_inv_step)

lemma errand_run_same: "errand_run e0 ts e \<Longrightarrow> e_id e = e_id e0 \<and> e_requester_id e = e_requester_id e0"
  by (induction rule: errand_run.induct) auto

end
