(* ===== verification/Errand_History.thy ===== *)
theory Errand_History
  imports Errand_Lifecycle
begin

text \<open>
  What the histories of an errand emit: the idempotency keys of the outbox rows, the sequence
  numbers of the reward adjustments, and the one command that settles the reservation. Each part
  has an invariant relating the rows emitted so far to the errand, kept by every transition.
\<close>

section \<open>Keys\<close>

definition history_rows :: "transition list \<Rightarrow> outbox_row list" where
  "history_rows ts = concat (map t_outbox ts)"

lemma history_rows_simps [simp]: "history_rows [] = []" "history_rows (ts @ [t]) = history_rows ts @ t_outbox t"
  by (simp_all add: history_rows_def)

text \<open>The operation and the version a key is made of.\<close>

type_synonym op = "string \<times> int"

definition op_key :: "string \<Rightarrow> op \<Rightarrow> string" where
  "op_key eid p = idempotency_key eid (fst p) (snd p)"

definition credit_op :: "credit_effect \<Rightarrow> op list" where
  "credit_op c = (case c of CreditNone \<Rightarrow> [] | CreditReserve \<Rightarrow> [(''reserve'', 0)] | CreditRelease \<Rightarrow> [(''release'', 0)]
     | CreditTransfer \<Rightarrow> [(''transfer'', 0)])"

definition event_ops :: "rule \<Rightarrow> errand \<Rightarrow> transition \<Rightarrow> event_input \<Rightarrow> op list" where
  "event_ops r e t input =
     (if edit_requested t \<noteq> None then [(''adjust'', e_version e), (''edit_requested'', e_version e)]
      else (if reverts_adjust e t input then [(''adjust-revert'', e_version e + 1)] else [])
        @ map (\<lambda>n. (event_operation n, e_version e + 1)) (rl_emits r))"

definition transition_ops :: "rule \<Rightarrow> errand \<Rightarrow> transition \<Rightarrow> event_input \<Rightarrow> op list" where
  "transition_ops r e t input = credit_op (rl_credit r) @ event_ops r e t input"

definition no_colon :: "string \<Rightarrow> bool" where
  "no_colon s \<longleftrightarrow> CHR '':'' \<notin> set s"

lemma op_key_inj:
  assumes "op_key eid p = op_key eid q" "no_colon (fst p)" "no_colon (fst q)" "0 \<le> snd p" "0 \<le> snd q"
  shows "p = q"
proof -
  define rest where "rest v = (if v > (0::int) then '':'' @ itoa v else [])" for v
  have eq: "fst p @ rest (snd p) = fst q @ rest (snd q)"
    using assms(1) by (simp add: op_key_def idempotency_key_def rest_def)
  have head: "takeWhile (\<lambda>c. c \<noteq> CHR '':'') (s @ rest v) = s" if "no_colon s" for s v
  proof -
    have "\<forall>c \<in> set s. c \<noteq> CHR '':''" using that by (auto simp: no_colon_def)
    then show ?thesis by (simp add: takeWhile_append2 rest_def)
  qed
  have "fst p = fst q" using head [OF assms(2)] head [OF assms(3)] eq by metis
  moreover from this have "rest (snd p) = rest (snd q)" using eq by simp
  then have "snd p = snd q" using assms(4,5) by (auto simp: rest_def split: if_splits)
  ultimately show ?thesis by (simp add: prod_eq_iff)
qed

lemma event_operation_no_colon: "no_colon (event_operation n)"
  by (cases n) (simp_all add: event_operation_def no_colon_def)

lemma event_operation_inj: "inj event_operation"
proof (rule injI)
  fix m n
  assume "event_operation m = event_operation n"
  moreover have "event_name_text k = ''errand.'' @ event_operation k" for k by (cases k) (simp_all add: event_operation_def)
  ultimately have "event_name_text m = event_name_text n" by metis
  then show "m = n" by (cases m; cases n) simp_all
qed

lemma event_operation_distinct: "event_operation n \<notin> {''adjust'', ''adjust-revert''}"
  "event_operation n = ''edit_requested'' \<longleftrightarrow> n = ErrandEditRequested"
  by (cases n; simp add: event_operation_def)+

definition rule_ops_fit :: "rule \<Rightarrow> bool" where
  "rule_ops_fit r \<longleftrightarrow> (rl_credit r = CreditReserve \<longleftrightarrow> rl_from r = StatusNone)
     \<and> (rl_credit r \<in> {CreditRelease, CreditTransfer} \<longrightarrow> terminal (rl_to r))
     \<and> ErrandEditRequested \<notin> set (rl_emits r) \<and> distinct (rl_emits r)
     \<and> (rl_event r = EventEdit \<longrightarrow> rl_credit r = CreditNone \<and> rl_from r \<noteq> StatusNone) \<and> rl_to r \<noteq> StatusNone"

lemma rule_ops_fit:
  assumes "r \<in> set transition_table"
  shows "rl_credit r = CreditReserve \<longleftrightarrow> rl_from r = StatusNone"
    "rl_credit r \<in> {CreditRelease, CreditTransfer} \<Longrightarrow> terminal (rl_to r)"
    "ErrandEditRequested \<notin> set (rl_emits r)" "distinct (rl_emits r)"
    "rl_event r = EventEdit \<Longrightarrow> rl_credit r = CreditNone" "rl_to r \<noteq> StatusNone"
proof -
  have "list_all rule_ops_fit transition_table" by code_simp
  then have "rule_ops_fit r" using assms by (simp add: list_all_iff)
  then show "rl_credit r = CreditReserve \<longleftrightarrow> rl_from r = StatusNone"
    "rl_credit r \<in> {CreditRelease, CreditTransfer} \<Longrightarrow> terminal (rl_to r)"
    "ErrandEditRequested \<notin> set (rl_emits r)" "distinct (rl_emits r)"
    "rl_event r = EventEdit \<Longrightarrow> rl_credit r = CreditNone" "rl_to r \<noteq> StatusNone"
    unfolding rule_ops_fit_def by simp_all
qed

lemma transition_keys:
  assumes nx: "next_transition e ev a input now = Inr t"
  obtains r where "r \<in> set transition_table" "rl_from r = e_status e" "rl_event r = ev" "rl_to r = t_to t"
    "map ob_key (t_outbox t) = map (op_key (e_id e)) (transition_ops r e t input)"
proof -
  obtain r where r: "r \<in> set transition_table" "rl_from r = e_status e" "rl_event r = ev" "rl_to r = t_to t"
    "t_outbox t = outbox_rows r e t input" "t_expected_version t = e_version e" "t_event t = ev"
    "t_new_version t = e_version e + (if edit_requested t = None then 1 else 0)"
    "edit_requested t \<noteq> None \<longrightarrow> ev = EventEdit \<and> e_pending_edit e = None"
    by (rule transition_summary [OF nx])
  have "edit_requested t \<noteq> None \<Longrightarrow> rl_credit r = CreditNone \<and> \<not> reverts_adjust e t input"
    using rule_ops_fit(5) [OF r(1)] r(3,9) by (simp add: reverts_adjust_def)
  with r(6,8) have "map ob_key (outbox_rows r e t input) = map (op_key (e_id e)) (transition_ops r e t input)"
    by (cases "edit_requested t"; cases "rl_credit r")
      (simp_all add: outbox_rows_def credit_rows_def transition_ops_def event_ops_def credit_op_def credit_row_def event_row_def
         op_key_def Let_def event_operation_def)
  with r(5) that [OF r(1-4)] show thesis by simp
qed

text \<open>
  The operations emitted so far: none twice, none of a version after the errand's own; an edit
  request of the current version only while it is pending; a settlement only when the errand is over.
\<close>

definition op_ok :: "errand \<Rightarrow> op \<Rightarrow> bool" where
  "op_ok e p \<longleftrightarrow> (case p of (x, v) \<Rightarrow> no_colon x \<and> 0 \<le> v \<and> v \<le> e_version e
     \<and> (v = 0 \<longleftrightarrow> x \<in> {''reserve'', ''release'', ''transfer''})
     \<and> (x \<in> {''release'', ''transfer''} \<longrightarrow> terminal (e_status e))
     \<and> (x \<in> {''adjust'', ''edit_requested''} \<longrightarrow> v = e_version e \<longrightarrow> e_pending_edit e \<noteq> None))"

definition ops_inv :: "op list \<Rightarrow> errand \<Rightarrow> bool" where
  "ops_inv K e \<longleftrightarrow> distinct K \<and> (e_status e = StatusNone \<longrightarrow> K = []) \<and> list_all (op_ok e) K"

lemma event_operation_credit: "event_operation n \<notin> {''reserve'', ''release'', ''transfer''}"
  by (cases n; simp add: event_operation_def)

text \<open>Operations that were fine stay so.\<close>

lemma op_ok_step:
  assumes "op_ok e p" "\<not> terminal (e_status e)" "e_pending_edit (apply_to t e) = edit_requested t"
    "t_new_version t = e_version e + (if edit_requested t = None then 1 else 0)"
  shows "op_ok (apply_to t e) p"
proof (cases p)
  case (Pair x v)
  with assms show ?thesis
    by (cases "edit_requested t") (auto simp: op_ok_def simp del: apply_to_fields(13))
qed

lemma credit_op_cases: "p \<in> set (credit_op c) \<Longrightarrow> p = (''reserve'', 0) \<and> c = CreditReserve
    \<or> p = (''release'', 0) \<and> c = CreditRelease \<or> p = (''transfer'', 0) \<and> c = CreditTransfer"
  by (cases c) (simp_all add: credit_op_def)

lemma credit_op_distinct: "distinct (credit_op c)"
  by (cases c) (simp_all add: credit_op_def)

lemma credit_op_fresh:
  assumes "p \<in> set (credit_op (rl_credit r))" "r \<in> set transition_table" "rl_from r = e_status e" "rl_to r = t_to t"
    "ops_inv K e" "\<not> terminal (e_status e)" "1 \<le> t_new_version t"
  shows "op_ok (apply_to t e) p" "p \<notin> set K"
proof -
  note fits = rule_ops_fit [OF assms(2)]
  from credit_op_cases [OF assms(1)] fits(2) assms(4,7) show "op_ok (apply_to t e) p"
    by (auto simp: op_ok_def no_colon_def simp del: apply_to_fields(13))
  show "p \<notin> set K"
  proof
    assume "p \<in> set K"
    with assms(5) have "op_ok e p" "e_status e \<noteq> StatusNone" by (auto simp: ops_inv_def list_all_iff)
    with credit_op_cases [OF assms(1)] fits(1) assms(3,6) show False by (auto simp: op_ok_def)
  qed
qed

lemma op_okD:
  assumes "op_ok e (x, v)"
  shows "no_colon x" "0 \<le> v" "v \<le> e_version e" "x \<in> {''adjust'', ''edit_requested''} \<Longrightarrow> v = e_version e \<Longrightarrow> e_pending_edit e \<noteq> None"
  using assms by (auto simp: op_ok_def)

lemma ops_inv_ok: "ops_inv K e \<Longrightarrow> p \<in> set K \<Longrightarrow> op_ok e p"
  by (simp add: ops_inv_def list_all_iff)

lemma later_op_fresh: "ops_inv K e \<Longrightarrow> (x, e_version e + 1) \<notin> set K"
  using ops_inv_ok op_okD(3) by fastforce

lemma event_ops_distinct:
  assumes "r \<in> set transition_table"
  shows "distinct (event_ops r e t input)"
proof -
  have "distinct (map (\<lambda>n. (event_operation n, e_version e + 1)) (rl_emits r))"
    using rule_ops_fit(4) [OF assms] event_operation_inj by (auto simp: distinct_map inj_on_def)
  moreover have "''adjust-revert'' \<noteq> event_operation n" for n using event_operation_distinct(1) [of n] by auto
  ultimately show ?thesis by (auto simp: event_ops_def)
qed

lemma event_ops_fresh:
  assumes r: "r \<in> set transition_table" and ops: "ops_inv K e" and pos: "1 \<le> t_new_version t"
    and s: "t_new_version t = e_version e + (if edit_requested t = None then 1 else 0)"
      "edit_requested t \<noteq> None \<longrightarrow> e_pending_edit e = None" "e_pending_edit (apply_to t e) = edit_requested t"
    and p: "p \<in> set (event_ops r e t input)"
  shows "op_ok (apply_to t e) p \<and> p \<notin> set K \<and> snd p \<noteq> 0"
proof (cases "edit_requested t")
  case None
  have ok: "op_ok (apply_to t e) (x, e_version e + 1)"
    if "no_colon x" "x \<notin> {''reserve'', ''release'', ''transfer'', ''adjust'', ''edit_requested''}" for x
    using that pos s(1) None by (simp add: op_ok_def)
  have "op_ok (apply_to t e) (''adjust-revert'', e_version e + 1)" by (rule ok) (simp_all add: no_colon_def)
  moreover have "op_ok (apply_to t e) (event_operation n, e_version e + 1)" if "n \<in> set (rl_emits r)" for n
  proof (rule ok [OF event_operation_no_colon])
    have "n \<noteq> ErrandEditRequested" using that rule_ops_fit(3) [OF r] by auto
    then show "event_operation n \<notin> {''reserve'', ''release'', ''transfer'', ''adjust'', ''edit_requested''}"
      using event_operation_distinct [of n] event_operation_credit [of n] by simp
  qed
  moreover have "(\<exists>n \<in> set (rl_emits r). p = (event_operation n, e_version e + 1)) \<or> p = (''adjust-revert'', e_version e + 1)"
    using p None by (auto simp: event_ops_def split: if_splits)
  ultimately show ?thesis using later_op_fresh [OF ops] pos s(1) None by auto
next
  case (Some q)
  have fresh: "(x, e_version e) \<notin> set K" if "x \<in> {''adjust'', ''edit_requested''}" for x
    using ops_inv_ok [OF ops] op_okD(4) that s(2) Some by fastforce
  have "p = (''adjust'', e_version e) \<or> p = (''edit_requested'', e_version e)" using p Some by (auto simp: event_ops_def)
  moreover have "op_ok (apply_to t e) (x, e_version e)" if "x \<in> {''adjust'', ''edit_requested''}" for x
    using that pos s(1,3) Some by (auto simp: op_ok_def no_colon_def simp del: apply_to_fields(13))
  ultimately show ?thesis using fresh pos s(1) Some by (elim disjE) simp_all
qed

lemma ops_inv_step:
  assumes nx: "next_transition e ev a input now = Inr t" and inv: "errand_inv e" and ops: "ops_inv K e"
    and r: "r \<in> set transition_table" "rl_from r = e_status e" "rl_event r = ev" "rl_to r = t_to t"
  shows "ops_inv (K @ transition_ops r e t input) (apply_to t e)"
proof -
  obtain r' where s: "t_new_version t = e_version e + (if edit_requested t = None then 1 else 0)"
    "edit_requested t \<noteq> None \<longrightarrow> ev = EventEdit \<and> e_pending_edit e = None" "\<not> terminal (e_status e)"
    by (rule transition_summary [OF nx])
  have pend: "e_pending_edit (apply_to t e) = edit_requested t" by (rule pending_after_inv [OF nx inv])
  note fits = rule_ops_fit [OF r(1)]
  have pos: "1 \<le> t_new_version t"
    using errand_inv_step [OF nx inv] fits(6) r(4) by (simp add: errand_inv_def split: if_splits)
  define C E where "C = credit_op (rl_credit r)" and "E = event_ops r e t input"
  have credit: "op_ok (apply_to t e) p" "p \<notin> set K" if "p \<in> set C" for p
    using that credit_op_fresh [OF _ r(1,2,4) ops s(3) pos] unfolding C_def by simp_all
  have zero: "snd p = 0" if "p \<in> set C" for p using credit_op_cases [of p "rl_credit r"] that unfolding C_def by auto
  have E: "op_ok (apply_to t e) p \<and> p \<notin> set K \<and> snd p \<noteq> 0" if "p \<in> set E" for p
    using event_ops_fresh [OF r(1) ops pos s(1) _ pend] s(2) that unfolding E_def by blast
  have "op_ok (apply_to t e) p" if "p \<in> set K" for p by (rule op_ok_step [OF ops_inv_ok [OF ops that] s(3) pend s(1)])
  then have "list_all (op_ok (apply_to t e)) (K @ C @ E)" using credit(1) E by (auto simp: list_all_iff)
  moreover have "set C \<inter> set E = {}" "set K \<inter> set (C @ E) = {}" using zero E credit(2) by auto
  then have "distinct (K @ C @ E)"
    using credit_op_distinct event_ops_distinct [OF r(1)] ops unfolding C_def E_def by (simp add: ops_inv_def)
  moreover have "transition_ops r e t input = C @ E" by (simp add: transition_ops_def C_def E_def)
  moreover have "e_status (apply_to t e) \<noteq> StatusNone" using fits(6) r(4) by simp
  ultimately show ?thesis by (simp add: ops_inv_def)
qed

lemma errand_run_ops:
  "errand_run e0 ts e \<Longrightarrow> \<exists>K. map ob_key (history_rows ts) = map (op_key (e_id e0)) K \<and> ops_inv K e"
proof (induction rule: errand_run.induct)
  case submitted
  then show ?case by (intro exI [of _ "[]"]) (simp add: ops_inv_def)
next
  case (happened ts e ev a input now t)
  then obtain K where K: "map ob_key (history_rows ts) = map (op_key (e_id e0)) K" "ops_inv K e" by (elim exE conjE)
  obtain r where r: "r \<in> set transition_table" "rl_from r = e_status e" "rl_event r = ev" "rl_to r = t_to t"
    "map ob_key (t_outbox t) = map (op_key (e_id e)) (transition_ops r e t input)"
    by (rule transition_keys [OF happened.hyps(2)])
  have "ops_inv (K @ transition_ops r e t input) (apply_to t e)"
    by (rule ops_inv_step [OF happened.hyps(2) errand_run_inv [OF happened.hyps(1)] K(2) r(1-4)])
  moreover have "map ob_key (history_rows (ts @ [t])) = map (op_key (e_id e0)) (K @ transition_ops r e t input)"
    using K(1) r(5) errand_run_same [OF happened.hyps(1)] by simp
  ultimately show ?case by blast
qed

lemma distinct_op_keys:
  assumes "ops_inv K e"
  shows "distinct (map (op_key eid) K)"
proof -
  have "no_colon (fst p)" "0 \<le> snd p" if "p \<in> set K" for p
    using op_okD [of e "fst p" "snd p"] ops_inv_ok [OF assms that] by simp_all
  then have "inj_on (op_key eid) (set K)" by (intro inj_onI op_key_inj [of eid]) simp_all
  with assms show ?thesis by (simp add: distinct_map ops_inv_def)
qed

section \<open>Adjustment sequence numbers\<close>

definition row_seqs :: "outbox_row \<Rightarrow> int list" where
  "row_seqs row = (case ob_payload row of CreditPayload c \<Rightarrow> if ob_kind row = kind_credit_adjust then [cc_seq c] else [] | _ \<Rightarrow> [])"

definition adjust_seqs :: "outbox_row list \<Rightarrow> int list" where
  "adjust_seqs rows = concat (map row_seqs rows)"

lemma adjust_seqs_simps [simp]: "adjust_seqs [] = []" "adjust_seqs (xs @ ys) = adjust_seqs xs @ adjust_seqs ys"
  "adjust_seqs (x # xs) = row_seqs x @ adjust_seqs xs"
  by (simp_all add: adjust_seqs_def)

lemma row_seqs_credit [simp]: "row_seqs (credit_row e t kind opn v cmd) = (if kind = kind_credit_adjust then [cc_seq cmd] else [])"
  by (simp add: row_seqs_def credit_row_def)

lemma row_seqs_event [simp]: "row_seqs (event_row e t n) = []"
  by (simp add: row_seqs_def event_row_def Let_def)

lemma adjust_seqs_events [simp]: "adjust_seqs (map (event_row e t) ns) = []"
  by (induction ns) simp_all

lemma outbox_seqs:
  "adjust_seqs (outbox_rows r e t input) =
     (if edit_requested t \<noteq> None then [adjust_seq (t_expected_version t)] else [])
     @ (if reverts_adjust e t input then [revert_seq (t_new_version t)] else [])"
  by (cases "rl_credit r"; cases "edit_requested t")
    (simp_all add: outbox_rows_def credit_rows_def Let_def kind_defs)

text \<open>The bound the sequence numbers sent so far stay under.\<close>

definition seq_bound :: "errand \<Rightarrow> int" where
  "seq_bound e = 2 * e_version e - (if e_pending_edit e = None then 1 else 0)"

lemma seqs_step:
  assumes nx: "next_transition e ev a input now = Inr t" and inv: "errand_inv e"
    and seqs: "sorted_wrt (<) (adjust_seqs rows)" "\<forall>s \<in> set (adjust_seqs rows). s \<le> seq_bound e"
  shows "sorted_wrt (<) (adjust_seqs (rows @ t_outbox t))" "\<forall>s \<in> set (adjust_seqs (rows @ t_outbox t)). s \<le> seq_bound (apply_to t e)"
proof -
  obtain r where s: "t_outbox t = outbox_rows r e t input" "t_expected_version t = e_version e"
    "t_new_version t = e_version e + (if edit_requested t = None then 1 else 0)"
    "edit_requested t \<noteq> None \<longrightarrow> ev = EventEdit \<and> e_pending_edit e = None"
    by (rule transition_summary [OF nx])
  have pend: "e_pending_edit (apply_to t e) = edit_requested t" by (rule pending_after_inv [OF nx inv])
  have new: "adjust_seqs (t_outbox t) = (if edit_requested t \<noteq> None then [2 * e_version e]
      else if reverts_adjust e t input then [2 * e_version e + 1] else [])"
    using s by (auto simp: outbox_seqs adjust_seq_def revert_seq_def reverts_adjust_def)
  have bound: "seq_bound (apply_to t e) = (if edit_requested t \<noteq> None then 2 * e_version e else 2 * e_version e + 1)"
    using pend s(3) by (auto simp: seq_bound_def simp del: apply_to_fields(13))
  have old: "x \<le> (if e_pending_edit e = None then 2 * e_version e - 1 else 2 * e_version e)" if "x \<in> set (adjust_seqs rows)" for x
    using seqs(2) that by (auto simp: seq_bound_def)
  show "sorted_wrt (<) (adjust_seqs (rows @ t_outbox t))" "\<forall>s \<in> set (adjust_seqs (rows @ t_outbox t)). s \<le> seq_bound (apply_to t e)"
    using seqs(1) new bound s(4) old by (fastforce simp: sorted_wrt_append split: if_splits)+
qed

lemma errand_run_seqs: "errand_run e0 ts e \<Longrightarrow>
  sorted_wrt (<) (adjust_seqs (history_rows ts)) \<and> (\<forall>s \<in> set (adjust_seqs (history_rows ts)). s \<le> seq_bound e)"
proof (induction rule: errand_run.induct)
  case (happened ts e ev a input now t)
  note step = seqs_step [OF happened.hyps(2) errand_run_inv [OF happened.hyps(1)]]
  from happened.IH have IH: "sorted_wrt (<) (adjust_seqs (history_rows ts))"
    "\<forall>s \<in> set (adjust_seqs (history_rows ts)). s \<le> seq_bound e" by (rule conjunct1, rule conjunct2)
  show ?case unfolding history_rows_simps by (rule conjI [OF step(1) [OF IH] step(2) [OF IH]])
qed simp

section \<open>Settlement\<close>

text \<open>The commands that end a reservation.\<close>

definition settlements :: "outbox_row list \<Rightarrow> outbox_row list" where
  "settlements rows = filter (\<lambda>row. ob_kind row \<in> {kind_credit_release, kind_credit_transfer}) rows"

lemma settlements_simps [simp]: "settlements [] = []" "settlements (xs @ ys) = settlements xs @ settlements ys"
  "settlements (x # xs) = (if ob_kind x \<in> {kind_credit_release, kind_credit_transfer} then x # settlements xs else settlements xs)"
  by (simp_all add: settlements_def)

lemma event_row_kind [simp]: "ob_kind (event_row e t n) = event_kind n"
  by (simp add: event_row_def Let_def)

lemma credit_row_kind [simp]: "ob_kind (credit_row e t kind opn v cmd) = kind"
  by (simp add: credit_row_def)

lemma event_kind_not_credit: "event_kind n \<noteq> kind_credit_release" "event_kind n \<noteq> kind_credit_transfer"
  "event_kind n \<noteq> kind_credit_adjust" "event_kind n \<noteq> kind_credit_reserve"
  by (simp_all add: event_kind_def kind_defs)

lemma settlements_events [simp]: "settlements (map (event_row e t) ns) = []"
  by (induction ns) (simp_all add: event_kind_not_credit)

lemma outbox_settlements:
  "settlements (outbox_rows r e t input) =
     (case rl_credit r of
        CreditRelease \<Rightarrow> [credit_row e t kind_credit_release ''release'' 0 empty_command]
      | CreditTransfer \<Rightarrow> [credit_row e t kind_credit_transfer ''transfer'' 0
          (empty_command\<lparr>cc_courier_id := e_courier_id e, cc_amount := d_reward (e_details (apply_to t e))\<rparr>)]
      | _ \<Rightarrow> [])"
  by (cases "rl_credit r"; cases "edit_requested t")
    (simp_all add: outbox_rows_def credit_rows_def Let_def kind_defs event_kind_def del: apply_to_fields)

text \<open>The courier of an errand after a transition.\<close>

lemma courier_after:
  assumes nx: "next_transition e ev a input now = Inr t"
  shows "e_courier_id (apply_to t e) =
    (if ev = EventAccept then a_id a else if ev \<in> {EventWithdraw, EventPickupDeadlinePassed} then [] else e_courier_id e)"
proof -
  obtain r t0 where r: "apply_event ev (start_transition e ev a input now r) e input now = Inr t0" "t = finish_transition r e input t0"
    by (rule next_transition_Inr [OF nx])
  show ?thesis using event_effect(1) [OF r(1)] r(2) by simp
qed

definition rule_settles :: "rule \<Rightarrow> bool" where
  "rule_settles r \<longleftrightarrow> (case rl_credit r of
       CreditTransfer \<Rightarrow> rl_to r = StatusCompleted \<and> rl_event r \<notin> {EventAccept, EventWithdraw, EventPickupDeadlinePassed}
     | CreditRelease \<Rightarrow> rl_to r \<in> {StatusCancelled, StatusExpired, StatusRefunded, StatusRejected}
     | _ \<Rightarrow> \<not> terminal (rl_to r) \<or> rl_to r = StatusRejected)"

lemma rule_settles: "r \<in> set transition_table \<Longrightarrow> rule_settles r"
proof -
  have "list_all rule_settles transition_table" by code_simp
  then show "r \<in> set transition_table \<Longrightarrow> rule_settles r" by (simp add: list_all_iff)
qed

text \<open>The settlement an errand's history holds, by its status.\<close>

definition settled_by :: "outbox_row list \<Rightarrow> errand \<Rightarrow> bool" where
  "settled_by rows e \<longleftrightarrow>
     (if e_status e = StatusCompleted then
        (\<exists>row c. rows = [row] \<and> ob_kind row = kind_credit_transfer \<and> ob_payload row = CreditPayload c
           \<and> cc_errand_id c = e_id e \<and> cc_requester_id c = e_requester_id e
           \<and> cc_courier_id c = e_courier_id e \<and> cc_amount c = d_reward (e_details e))
      else if e_status e \<in> {StatusCancelled, StatusExpired, StatusRefunded} then
        (\<exists>row c. rows = [row] \<and> ob_kind row = kind_credit_release \<and> ob_payload row = CreditPayload c
           \<and> cc_errand_id c = e_id e \<and> cc_requester_id c = e_requester_id e)
      else if e_status e = StatusRejected then
        rows = [] \<or> (\<exists>row c. rows = [row] \<and> ob_kind row = kind_credit_release \<and> ob_payload row = CreditPayload c
           \<and> cc_errand_id c = e_id e \<and> cc_requester_id c = e_requester_id e)
      else rows = [])"

lemma settled_step:
  assumes nx: "next_transition e ev a input now = Inr t" and old: "settled_by rows e"
  shows "settled_by (rows @ settlements (t_outbox t)) (apply_to t e)"
proof -
  obtain r where s: "r \<in> set transition_table" "rl_event r = ev" "rl_to r = t_to t" "t_outbox t = outbox_rows r e t input"
    "\<not> terminal (e_status e)"
    by (rule transition_summary [OF nx])
  have none: "rows = []" using old s(5) by (auto simp: settled_by_def terminal_def split: if_splits)
  show ?thesis
    using rule_settles [OF s(1)] courier_after [OF nx] s none
    by (cases "rl_credit r")
      (auto simp: settled_by_def rule_settles_def outbox_settlements credit_row_def terminal_def simp del: apply_to_fields(6-13))
qed

lemma errand_run_settled: "errand_run e0 ts e \<Longrightarrow> settled_by (settlements (history_rows ts)) e"
proof (induction rule: errand_run.induct)
  case submitted
  then show ?case by (simp add: settled_by_def new_errand_def)
next
  case (happened ts e ev a input now t)
  from settled_step [OF happened.hyps(2) happened.IH] show ?case by simp
qed

end
