(* ===== verification/Errand_Example.thy ===== *)
theory Errand_Example
  imports Errand_History
begin

text \<open>
  The life of one errand, for exercising the properties of the state machine: Ada submits it, its
  credits are reserved, she asks for a higher reward, Bob accepts before credit-service answers,
  picks it up and delivers, and Ada confirms.
\<close>

type_synonym errand_action = "event \<times> actor \<times> event_input \<times> int"

fun drive :: "errand \<Rightarrow> errand_action list \<Rightarrow> (transition list \<times> errand) option" where
  "drive e [] = Some ([], e)"
| "drive e ((ev, a, input, now) # xs) =
     (case next_transition e ev a input now of
        Inl _ \<Rightarrow> None
      | Inr t \<Rightarrow> map_option (\<lambda>(ts, e'). (t # ts, e')) (drive (apply_to t e) xs))"

lemma drive_run:
  "errand_run e0 ts e \<Longrightarrow> drive e xs = Some (us, e') \<Longrightarrow> errand_run e0 (ts @ us) e'"
proof (induction e xs arbitrary: ts us rule: drive.induct)
  case (2 e ev a input now xs)
  from 2(3) obtain t vs where t: "next_transition e ev a input now = Inr t" "drive (apply_to t e) xs = Some (vs, e')" "us = t # vs"
    by (auto split: sum.splits)
  from 2(1) [OF t(1) errand_run.happened [OF 2(2) t(1)] t(2)] t(3) show ?case by simp
qed simp

definition ex_details :: details where
  "ex_details = \<lparr>d_supplier_id = ''sup-1'', d_supplier_version_id = ''ver-1'', d_building_id = ''b-1'',
     d_building_snapshot = None, d_delivery_detail = ''level 2'', d_items = Some (JArr [JStr ''tea'']), d_notes = [],
     d_contact_name = ''Ada'', d_contact_mobile = ''91234567'', d_reward = 300, d_acceptance_deadline = hour\<rparr>"

definition ex_submitted :: errand where
  "ex_submitted = \<lparr>e_id = ''er-1'', e_status = StatusNone, e_version = 0, e_requester_id = ''ada'', e_courier_id = [],
     e_details = ex_details, e_pickup_deadline = None, e_delivery_deadline = None, e_delivered_at = None,
     e_verification_deadline = None, e_review_reason = ReviewNone, e_create_key = ''k1'', e_pending_edit = None,
     e_created_at = 0, e_updated_at = 0\<rparr>"

definition ada :: actor where "ada = \<lparr>a_type = ActorRequester, a_id = ''ada''\<rparr>"
definition bob :: actor where "bob = \<lparr>a_type = ActorCourier, a_id = ''bob''\<rparr>"

definition ex_actions :: "errand_action list" where
  "ex_actions =
    [(EventSubmit, ada, no_input, 0),
     (EventReservationConfirmed, system_actor, no_input, second),
     (EventEdit, ada, no_input\<lparr>in_edit := Some (ex_details\<lparr>d_reward := 500\<rparr>)\<rparr>, 2 * second),
     (EventAccept, bob, no_input\<lparr>in_deadlines := default_deadline_settings\<rparr>, 5 * second),
     (EventPickUp, bob, no_input, 6 * second),
     (EventDeliver, bob, no_input\<lparr>in_deadlines := default_deadline_settings\<rparr>, 7 * second),
     (EventConfirm, ada, no_input, 8 * second)]"

lemmas details_eval = validate_details_def items_ok_def contact_problem_def max_contact_name_def max_contact_mobile_def
  is_blank_def trim_space_def runes_def chunks_ascii rune_count_def is_space_def is_control_def acceptance_deadline_ok_def
  duration_defs min_acceptance_window_def max_acceptance_window_def passed_def

lemma ex_details_fields [simp]: "d_acceptance_deadline ex_details = 3600000000000" "d_reward ex_details = 300"
  by (simp_all add: ex_details_def duration_defs)

lemma ex_details_valid [simp]: "validate_details ex_details 0 True = None"
  "validate_details (ex_details\<lparr>d_reward := 500\<rparr>) 2000000000 False = None"
  by (simp_all add: ex_details_def Let_def details_eval)

lemmas next_eval = next_transition_def rules_for_def transition_table_def valid_status_def statuses_def terminal_def
  fail_or_def start_transition_def finish_transition_def apply_to_def no_changes_def edit_requested_def reverts_adjust_def
  default_deadline_settings_def validate_deadlines_def not_positive_def passed_def Let_def

lemmas ex_errand_defs = ex_submitted_def ada_def bob_def no_input_def system_actor_def duration_defs

text \<open>Its history, as far as the properties look at it.\<close>

lemma ex_history:
  obtains ts e where "errand_run ex_submitted ts e" "e_status e = StatusCompleted" "e_courier_id e = ''bob''"
    "d_reward (e_details e) = 300" "adjust_seqs (history_rows ts) = [4, 5]" "length (history_rows ts) = 11"
proof -
  have new: "new_errand ex_submitted" by (simp add: new_errand_def ex_submitted_def)
  have "case drive ex_submitted ex_actions of None \<Rightarrow> False | Some (ts, e) \<Rightarrow>
      e_status e = StatusCompleted \<and> e_courier_id e = ''bob'' \<and> d_reward (e_details e) = 300
      \<and> adjust_seqs (history_rows ts) = [4, 5] \<and> length (history_rows ts) = 11"
    by (simp add: ex_actions_def ex_errand_defs next_eval history_rows_def outbox_seqs adjust_seq_def revert_seq_def
        outbox_rows_def credit_rows_def kind_defs)
  then obtain ts e where d: "drive ex_submitted ex_actions = Some (ts, e)" "e_status e = StatusCompleted" "e_courier_id e = ''bob''"
    "d_reward (e_details e) = 300" "adjust_seqs (history_rows ts) = [4, 5]" "length (history_rows ts) = 11"
    by (auto split: option.splits)
  have "errand_run ex_submitted ts e" using drive_run [OF errand_run.submitted [OF new] d(1)] by simp
  with d(2-) show thesis by (intro that)
qed

end
