(* ===== verification/Errand_Properties.thy ===== *)
theory Errand_Properties
  imports Errand_Example
begin

text \<open>The properties of the errand state machine.\<close>

text \<open>
  C14. Whatever sequence of events an errand accepts from its submission on, it stays consistent: its
  status is a known one, its version and reward are positive, a pending edit exists only while it is
  open and carries the key of its own version, courier and deadlines are set exactly in the states
  after an acceptance, the requester is never the courier, and a reviewed errand has its reason.
\<close>

theorem errand_stays_consistent:
  assumes "errand_run e0 ts e"
  shows "errand_inv e"
  using assms by (rule errand_run_inv)

theorem errand_stays_consistent_witness:
  "\<exists>ts e. errand_run ex_submitted ts e \<and> e_status e = StatusCompleted \<and> errand_inv e"
proof (rule ex_history)
  fix ts e assume "errand_run ex_submitted ts e" "e_status e = StatusCompleted"
  with errand_stays_consistent [of ex_submitted ts e] show ?thesis by blast
qed

text \<open>
  C15. No two outbox rows of an errand's whole history carry the same idempotency key, so no two
  different commands or notifications can be taken for one another.
\<close>

theorem outbox_keys_unique:
  assumes "errand_run e0 ts e"
  shows "distinct (map ob_key (history_rows ts))"
proof -
  obtain K where "map ob_key (history_rows ts) = map (op_key (e_id e0)) K" "ops_inv K e"
    using errand_run_ops [OF assms] by blast
  with distinct_op_keys show ?thesis by metis
qed

theorem outbox_keys_unique_witness:
  "\<exists>ts e. errand_run ex_submitted ts e \<and> length (history_rows ts) = 11 \<and> distinct (map ob_key (history_rows ts))"
proof (rule ex_history)
  fix ts e assume "errand_run ex_submitted ts e" "length (history_rows ts) = 11"
  with outbox_keys_unique [of ex_submitted ts e] show ?thesis by blast
qed

text \<open>
  C16. The reward adjustments an errand sends to credit-service carry strictly increasing sequence
  numbers, reverts included, so that the last one sent is the one credit-service keeps.
\<close>

theorem adjustments_ordered:
  assumes "errand_run e0 ts e"
  shows "sorted_wrt (<) (adjust_seqs (history_rows ts))"
  using errand_run_seqs [OF assms] by (rule conjunct1)

theorem adjustments_ordered_witness:
  "\<exists>ts e. errand_run ex_submitted ts e \<and> adjust_seqs (history_rows ts) = [4, 5] \<and> sorted_wrt (<) (adjust_seqs (history_rows ts))"
proof (rule ex_history)
  fix ts e assume "errand_run ex_submitted ts e" "adjust_seqs (history_rows ts) = [4, 5]"
  with adjustments_ordered [of ex_submitted ts e] show ?thesis by blast
qed

text \<open>
  C17. The reservation of an errand is settled at most once: an errand that is still going has sent
  neither release nor transfer; a completed one has sent exactly one transfer, to its courier and of its
  reward; a cancelled, expired or refunded one exactly one release; a rejected one at most one release.
\<close>

theorem errand_settled_once:
  assumes "errand_run e0 ts e"
  shows "settled_by (settlements (history_rows ts)) e"
  using assms by (rule errand_run_settled)

theorem errand_settled_once_witness:
  "\<exists>ts e row c. errand_run ex_submitted ts e \<and> settlements (history_rows ts) = [row] \<and> ob_payload row = CreditPayload c
     \<and> cc_courier_id c = ''bob'' \<and> cc_amount c = 300"
proof (rule ex_history)
  fix ts e assume h: "errand_run ex_submitted ts e" "e_status e = StatusCompleted" "e_courier_id e = ''bob''" "d_reward (e_details e) = 300"
  from errand_settled_once [OF h(1)] h(2-4) obtain row c where
    "settlements (history_rows ts) = [row]" "ob_payload row = CreditPayload c" "cc_courier_id c = ''bob''" "cc_amount c = 300"
    by (auto simp: settled_by_def)
  with h(1) show ?thesis by blast
qed

text \<open>
  C18. An errand becomes completed, and its courier paid, only when the requester confirms a delivery,
  when the verification window of a delivery has passed, or when an admin decides a review and says why.
\<close>

theorem completion_authorised:
  assumes nx: "next_transition e ev a input now = Inr t" and to: "t_to t = StatusCompleted"
  shows "e_status e = StatusDelivered \<and> ev = EventConfirm \<and> a_type a = ActorRequester \<and> a_id a = e_requester_id e
    \<or> e_status e = StatusDelivered \<and> ev = EventVerificationLapsed \<and> a = system_actor
        \<and> (\<exists>d. e_verification_deadline e = Some d \<and> d \<le> now)
    \<or> e_status e = StatusReviewRequired \<and> ev = EventAdminComplete \<and> a_type a = ActorAdmin \<and> a_id a \<noteq> []
        \<and> \<not> is_blank (in_reason input)"
proof -
  obtain r where r: "r \<in> set transition_table" "rl_from r = e_status e" "rl_event r = ev" "rl_to r = t_to t"
    "check_actor (rl_actor r) e a input = None" "\<forall>g \<in> set (rl_guards r). guard_holds g e now"
    "rl_needs_reason r \<longrightarrow> \<not> is_blank (in_reason input)"
    by (rule transition_summary [OF nx])
  have "r \<in> set (filter (\<lambda>r. rl_to r = StatusCompleted) transition_table)" using r(1,4) to by simp
  then have "rl_from r = StatusDelivered \<and> rl_event r = EventConfirm \<and> rl_actor r = RelRequester
    \<or> rl_from r = StatusDelivered \<and> rl_event r = EventVerificationLapsed \<and> rl_actor r = RelSystem \<and> rl_guards r = [GuardAfterVerificationDeadline]
    \<or> rl_from r = StatusReviewRequired \<and> rl_event r = EventAdminComplete \<and> rl_actor r = RelAdmin \<and> rl_needs_reason r"
    unfolding transition_table_def by auto
  with r(2,3,5,6,7) show ?thesis
    by (elim disjE) (auto simp: system_actor_def passed_opt_def passed_def split: if_splits option.splits)
qed

theorem completion_authorised_witness:
  "\<exists>t. next_transition (ex_submitted\<lparr>e_status := StatusDelivered, e_version := 5, e_courier_id := ''bob''\<rparr>)
       EventConfirm ada no_input (8 * second) = Inr t \<and> a_id ada = ''ada'' \<and> t_to t = StatusCompleted"
proof -
  let ?e = "ex_submitted\<lparr>e_status := StatusDelivered, e_version := 5, e_courier_id := ''bob''\<rparr>"
  obtain t where t: "next_transition ?e EventConfirm ada no_input (8 * second) = Inr t" "t_to t = StatusCompleted"
    by (simp add: ex_errand_defs next_eval)
  from completion_authorised [OF t] t show ?thesis by (auto simp: ada_def)
qed

lemma accept_effects:
  assumes nx: "next_transition e EventAccept a input now = Inr t" and inv: "errand_inv e"
  shows "e_status e = StatusOpen \<and> a_type a = ActorCourier \<and> a_id a \<notin> {[], e_requester_id e}
      \<and> \<not> in_previously_withdrew input \<and> \<not> in_restricted input \<and> now < d_acceptance_deadline (e_details e)"
    "e_courier_id (apply_to t e) = a_id a \<and> e_pending_edit (apply_to t e) = None \<and> e_details (apply_to t e) = e_details e
      \<and> e_pickup_deadline (apply_to t e) = Some (now + ds_pickup_after (in_deadlines input))
      \<and> e_delivery_deadline (apply_to t e) = Some (now + ds_delivery_after (in_deadlines input))"
    "adjust_seqs (t_outbox t) = (if e_pending_edit e = None then [] else [adjust_seq (e_version e) + 1])"
    "\<forall>row c. row \<in> set (t_outbox t) \<longrightarrow> ob_payload row = CreditPayload c \<longrightarrow> cc_new_amount c = d_reward (e_details e)"
proof -
  obtain r t0 where r: "r \<in> set transition_table" "rl_from r = e_status e" "rl_event r = EventAccept"
    "check_actor (rl_actor r) e a input = None" "\<forall>g \<in> set (rl_guards r). guard_holds g e now"
    "apply_event EventAccept (start_transition e EventAccept a input now r) e input now = Inr t0" "t = finish_transition r e input t0"
    by (rule next_transition_Inr [OF nx])
  obtain r' where s: "r' \<in> set transition_table" "rl_event r' = EventAccept" "t_outbox t = outbox_rows r' e t input"
    "t_event t = EventAccept" "t_new_version t = e_version e + (if edit_requested t = None then 1 else 0)"
    by (rule transition_summary [OF nx])
  have "q \<in> set (filter (\<lambda>r. rl_event r = EventAccept) transition_table) \<Longrightarrow> rl_from q = StatusOpen \<and> rl_actor q = RelEligibleCourier
      \<and> rl_guards q = [GuardBeforeAcceptanceDeadline] \<and> rl_credit q = CreditNone" for q
    unfolding transition_table_def by simp
  then have f: "rl_from r = StatusOpen" "rl_actor r = RelEligibleCourier" "rl_guards r = [GuardBeforeAcceptanceDeadline]"
    "rl_credit r' = CreditNone" using r(1,3) s(1,2) by simp_all
  have er: "edit_requested t = None" using s(4) by (simp add: edit_requested_def)
  have det: "e_details (apply_to t e) = e_details e" using r(6,7) by auto
  show "e_status e = StatusOpen \<and> a_type a = ActorCourier \<and> a_id a \<notin> {[], e_requester_id e}
      \<and> \<not> in_previously_withdrew input \<and> \<not> in_restricted input \<and> now < d_acceptance_deadline (e_details e)"
    using r(2,4,5) f(1-3) by (auto simp: passed_def split: if_splits)
  show "e_courier_id (apply_to t e) = a_id a \<and> e_pending_edit (apply_to t e) = None \<and> e_details (apply_to t e) = e_details e
      \<and> e_pickup_deadline (apply_to t e) = Some (now + ds_pickup_after (in_deadlines input))
      \<and> e_delivery_deadline (apply_to t e) = Some (now + ds_delivery_after (in_deadlines input))"
    using pending_after_inv [OF nx inv] er courier_after [OF nx] event_effect(2,3) [OF r(6)] r(7) det
    by (simp add: pickup_deadline_def delivery_deadline_def del: apply_to_fields(6,7,13))
  show "adjust_seqs (t_outbox t) = (if e_pending_edit e = None then [] else [adjust_seq (e_version e) + 1])"
    using s(3-5) er by (simp add: outbox_seqs reverts_adjust_def adjust_seq_def revert_seq_def)
  show "\<forall>row c. row \<in> set (t_outbox t) \<longrightarrow> ob_payload row = CreditPayload c \<longrightarrow> cc_new_amount c = d_reward (e_details e)"
    using s(3,4) er f(4) by (auto simp: outbox_rows_def credit_rows_def credit_row_def event_row_def Let_def split: if_splits)
qed

text \<open>
  C19. An acceptance is taken only from a courier who is not the requester, never withdrew from this
  errand and is not restricted, before the acceptance deadline; it assigns exactly that courier, sets the
  deadlines from the current settings, and drops a pending edit, in which case it sends credit-service an
  adjustment back to the current reward whose sequence number follows the one of the dropped edit.
\<close>

theorem accept_assigns_eligible:
  assumes "next_transition e EventAccept a input now = Inr t" and "errand_inv e"
  shows "(e_status e = StatusOpen \<and> a_type a = ActorCourier \<and> a_id a \<notin> {[], e_requester_id e}
      \<and> \<not> in_previously_withdrew input \<and> \<not> in_restricted input \<and> now < d_acceptance_deadline (e_details e))
    \<and> (e_courier_id (apply_to t e) = a_id a \<and> e_pending_edit (apply_to t e) = None \<and> e_details (apply_to t e) = e_details e
      \<and> e_pickup_deadline (apply_to t e) = Some (now + ds_pickup_after (in_deadlines input))
      \<and> e_delivery_deadline (apply_to t e) = Some (now + ds_delivery_after (in_deadlines input)))
    \<and> adjust_seqs (t_outbox t) = (if e_pending_edit e = None then [] else [adjust_seq (e_version e) + 1])
    \<and> (\<forall>row c. row \<in> set (t_outbox t) \<longrightarrow> ob_payload row = CreditPayload c \<longrightarrow> cc_new_amount c = d_reward (e_details e))"
  using accept_effects [OF assms] by (rule conjI [OF _ conjI [OF _ conjI]])

theorem accept_assigns_eligible_witness:
  "\<exists>t. next_transition (ex_submitted\<lparr>e_status := StatusOpen, e_version := 2\<rparr>) EventAccept bob
       (no_input\<lparr>in_deadlines := default_deadline_settings\<rparr>) (5 * second) = Inr t
     \<and> e_courier_id (apply_to t (ex_submitted\<lparr>e_status := StatusOpen, e_version := 2\<rparr>)) = ''bob''"
proof -
  let ?e = "ex_submitted\<lparr>e_status := StatusOpen, e_version := 2\<rparr>"
  let ?input = "no_input\<lparr>in_deadlines := default_deadline_settings\<rparr>"
  obtain t where t: "next_transition ?e EventAccept bob ?input (5 * second) = Inr t" by (simp add: ex_errand_defs next_eval)
  have inv: "errand_inv ?e" by (simp add: errand_inv_def ex_submitted_def assigned_status_def valid_status_def statuses_def)
  from accept_assigns_eligible [OF t inv] t show ?thesis by (auto simp: bob_def)
qed

end
