(* ===== verification/Order_Db.thy ===== *)
theory Order_Db
  imports Errand_Types
begin

text \<open>
  The database of order-service: the tables of its migration as lists of rows with the constraints an
  \<^verbatim>\<open>INSERT\<close> or \<^verbatim>\<open>UPDATE\<close> checks, the conversion of errands to rows and
  back (\<^verbatim>\<open>errandrepo/rows.go\<close>), and the statements of \<^verbatim>\<open>queries/errands.sql\<close>.
  A transaction runs alone on the database, as its row locks make it appear. Parsing a UUID is pgx's:
  it is the parameter \<open>uuid\<close>, which gives the canonical text of the UUID a string denotes, and
  UUID columns hold that text. Time columns keep the value written to them, JSON columns the value
  encoded into them.
\<close>

section \<open>Rows and tables\<close>

record errand_row =
  er_id :: string
  er_status :: status
  er_version :: int
  er_requester_id :: string
  er_courier_id :: "string option"
  er_supplier_id :: string
  er_supplier_version_id :: string
  er_building_id :: string
  er_building_snapshot :: raw_json
  er_delivery_detail :: string
  er_items :: raw_json
  er_notes :: string
  er_contact_name :: string
  er_contact_mobile :: string
  er_reward :: int
  er_acceptance_deadline :: int
  er_pickup_deadline :: "int option"
  er_delivery_deadline :: "int option"
  er_delivered_at :: "int option"
  er_verification_deadline :: "int option"
  er_review_reason :: "review_reason option"
  er_create_key :: string
  er_pending_edit :: "details option"
  er_pending_edit_key :: "string option"
  er_pending_edit_at :: "int option"
  er_created_at :: int
  er_updated_at :: int

record transition_row =
  tr_errand_id :: string
  tr_from :: "status option"
  tr_to :: status
  tr_event :: event
  tr_actor_type :: actor_type
  tr_actor_id :: "string option"
  tr_courier_id :: "string option"
  tr_reason :: "string option"
  tr_errand_version :: int
  tr_at :: int

datatype outbox_status = Pending | Sent | Confirmed | Failed

record stored_outbox_row =
  so_id :: int
  so_kind :: string
  so_key :: string
  so_errand_id :: string
  so_payload :: payload
  so_status :: outbox_status
  so_attempts :: int
  so_next_attempt_at :: int
  so_lease_owner :: "string option"
  so_lease_expires_at :: "int option"
  so_last_failure_code :: "string option"
  so_created_at :: int
  so_sent_at :: "int option"
  so_confirmed_at :: "int option"

datatype fence_state = FenceOpen | FenceCommitted | FenceReleased

record fence_row =
  fe_operation_id :: string
  fe_supplier_id :: string
  fe_state :: fence_state
  fe_created_at :: int
  fe_updated_at :: int

record review_row =
  rv_errand_id :: string
  rv_reason :: review_reason
  rv_reporter_id :: "string option"
  rv_note :: "string option"
  rv_resolution :: "status option"
  rv_resolver_id :: "string option"
  rv_resolution_reason :: "string option"
  rv_created_at :: int
  rv_resolved_at :: "int option"

record order_db =
  od_errands :: "errand_row list"
  od_transitions :: "transition_row list"
  od_outbox :: "stored_outbox_row list"
  od_outbox_seq :: int
  od_fences :: "fence_row list"
  od_reviews :: "review_row list"

definition empty_order_db :: order_db where
  "empty_order_db = \<lparr>od_errands = [], od_transitions = [], od_outbox = [], od_outbox_seq = 0, od_fences = [], od_reviews = []\<rparr>"

text \<open>An error with a code of its own, or a plain one (a failed statement, a bug).\<close>

datatype store_error = StoreApp app_error | StoreErr

type_synonym 'a otx = "(order_db, store_error, 'a) tx"

section \<open>Errands and their rows\<close>

definition null_text :: "string \<Rightarrow> string option" where
  "null_text value = (if value = [] then None else Some value)"

definition string_of :: "string option \<Rightarrow> string" where
  "string_of value = (case value of None \<Rightarrow> [] | Some s \<Rightarrow> s)"

definition max_int32 :: int where "max_int32 = 2 ^ 31 - 1"

definition i32 :: "int \<Rightarrow> int" where
  "i32 x = (x + 2 ^ 31) mod 2 ^ 32 - 2 ^ 31"

definition parse_uuid :: "(string \<Rightarrow> string option) \<Rightarrow> string \<Rightarrow> store_error + string" where
  "parse_uuid uuid value =
     (case uuid value of None \<Rightarrow> Inl (StoreApp (new_error InvalidArgument)) | Some u \<Rightarrow> Inr u)"

text \<open>Decoding a row. \<^verbatim>\<open>pending_edit\<close> decides whether there is a pending edit.\<close>

definition errand_from_row :: "errand_row \<Rightarrow> errand" where
  "errand_from_row row =
     \<lparr>e_id = er_id row, e_status = er_status row, e_version = er_version row, e_requester_id = er_requester_id row,
      e_courier_id = string_of (er_courier_id row),
      e_details = \<lparr>d_supplier_id = er_supplier_id row, d_supplier_version_id = er_supplier_version_id row,
        d_building_id = er_building_id row, d_building_snapshot = er_building_snapshot row,
        d_delivery_detail = er_delivery_detail row, d_items = er_items row, d_notes = er_notes row,
        d_contact_name = er_contact_name row, d_contact_mobile = er_contact_mobile row, d_reward = er_reward row,
        d_acceptance_deadline = er_acceptance_deadline row\<rparr>,
      e_pickup_deadline = er_pickup_deadline row, e_delivery_deadline = er_delivery_deadline row,
      e_delivered_at = er_delivered_at row, e_verification_deadline = er_verification_deadline row,
      e_review_reason = (case er_review_reason row of None \<Rightarrow> ReviewNone | Some r \<Rightarrow> r),
      e_create_key = er_create_key row,
      e_pending_edit = map_option (\<lambda>d. \<lparr>pe_details = d, pe_key = string_of (er_pending_edit_key row),
        pe_at = (case er_pending_edit_at row of None \<Rightarrow> zero_time | Some t \<Rightarrow> t)\<rparr>) (er_pending_edit row),
      e_created_at = er_created_at row, e_updated_at = er_updated_at row\<rparr>"

text \<open>\<^verbatim>\<open>json.Marshal\<close> of the edit fails when one of its raw fields is no JSON.\<close>

definition encodable :: "details \<Rightarrow> bool" where
  "encodable d \<longleftrightarrow> d_building_snapshot d \<noteq> None \<and> d_items d \<noteq> None"

definition row_of :: "errand \<Rightarrow> string \<Rightarrow> string \<Rightarrow> string \<Rightarrow> string \<Rightarrow> errand_row" where
  "row_of e eid sid vid bid = (let d = e_details e in
     \<lparr>er_id = eid, er_status = e_status e, er_version = i32 (e_version e), er_requester_id = e_requester_id e,
      er_courier_id = null_text (e_courier_id e), er_supplier_id = sid, er_supplier_version_id = vid, er_building_id = bid,
      er_building_snapshot = d_building_snapshot d, er_delivery_detail = d_delivery_detail d, er_items = d_items d,
      er_notes = d_notes d, er_contact_name = d_contact_name d, er_contact_mobile = d_contact_mobile d,
      er_reward = i32 (d_reward d), er_acceptance_deadline = d_acceptance_deadline d,
      er_pickup_deadline = e_pickup_deadline e, er_delivery_deadline = e_delivery_deadline e,
      er_delivered_at = e_delivered_at e, er_verification_deadline = e_verification_deadline e,
      er_review_reason = (if e_review_reason e = ReviewNone then None else Some (e_review_reason e)),
      er_create_key = e_create_key e,
      er_pending_edit = map_option pe_details (e_pending_edit e),
      er_pending_edit_key = map_option pe_key (e_pending_edit e),
      er_pending_edit_at = map_option pe_at (e_pending_edit e),
      er_created_at = e_created_at e, er_updated_at = e_updated_at e\<rparr>)"

definition insert_params :: "(string \<Rightarrow> string option) \<Rightarrow> errand \<Rightarrow> store_error + errand_row" where
  "insert_params uuid e =
     (case parse_uuid uuid (e_id e) of Inl err \<Rightarrow> Inl err | Inr eid \<Rightarrow>
      (case parse_uuid uuid (d_supplier_id (e_details e)) of Inl err \<Rightarrow> Inl err | Inr sid \<Rightarrow>
       (case parse_uuid uuid (d_supplier_version_id (e_details e)) of Inl err \<Rightarrow> Inl err | Inr vid \<Rightarrow>
        (case parse_uuid uuid (d_building_id (e_details e)) of Inl err \<Rightarrow> Inl err | Inr bid \<Rightarrow>
          if d_reward (e_details e) > max_int32 \<or> e_version e > max_int32 then Inl (StoreApp (new_error InvalidArgument))
          else if (case e_pending_edit e of None \<Rightarrow> False | Some p \<Rightarrow> \<not> encodable (pe_details p)) then Inl StoreErr
          else Inr (row_of e eid sid vid bid)))))"

section \<open>Constraints\<close>

definition errand_check :: "errand_row \<Rightarrow> bool" where
  "errand_check row \<longleftrightarrow>
     valid_status (er_status row) \<and> er_version row \<ge> 1 \<and> er_reward row > 0
     \<and> er_building_snapshot row \<noteq> None
     \<and> (case er_items row of Some (JArr xs) \<Rightarrow> xs \<noteq> [] | _ \<Rightarrow> False)
     \<and> list_ex (\<lambda>c. c \<noteq> CHR '' '') (er_contact_name row) \<and> list_ex (\<lambda>c. c \<noteq> CHR '' '') (er_contact_mobile row)
     \<and> (er_status row \<in> {StatusAssigned, StatusPickedUp, StatusDelivered, StatusReviewRequired} \<longrightarrow> er_courier_id row \<noteq> None)
     \<and> (er_pending_edit row = None \<longleftrightarrow> er_pending_edit_key row = None)
     \<and> (er_pending_edit row = None \<longleftrightarrow> er_pending_edit_at row = None)"

definition has_errand :: "order_db \<Rightarrow> string \<Rightarrow> bool" where
  "has_errand db eid \<longleftrightarrow> eid \<in> er_id ` set (od_errands db)"

definition has_prefix :: "string \<Rightarrow> string \<Rightarrow> bool" where
  "has_prefix p s \<longleftrightarrow> take (length p) s = p"

definition kind_known :: "string \<Rightarrow> bool" where
  "kind_known kind \<longleftrightarrow> kind \<in> {kind_credit_reserve, kind_credit_release, kind_credit_transfer, kind_credit_adjust}
     \<or> has_prefix ''event.'' kind"

section \<open>Statements\<close>

definition check_db :: "bool \<Rightarrow> unit otx" where
  "check_db b = (if b then tx_return () else tx_fail StoreErr)"

definition find_errand :: "order_db \<Rightarrow> string \<Rightarrow> errand_row option" where
  "find_errand db eid = find (\<lambda>r. er_id r = eid) (od_errands db)"

definition get_errand :: "string \<Rightarrow> (errand_row option) otx" where
  "get_errand eid = tx_get (\<lambda>db. find_errand db eid)"

definition get_errand_by_create_key :: "string \<Rightarrow> string \<Rightarrow> (errand_row option) otx" where
  "get_errand_by_create_key requester key =
     tx_get (\<lambda>db. find (\<lambda>r. er_requester_id r = requester \<and> er_create_key r = key) (od_errands db))"

definition insert_errand :: "errand_row \<Rightarrow> (errand_row option) otx" where
  "insert_errand row db =
     (if \<not> errand_check row then Inl StoreErr
      else if (er_requester_id row, er_create_key row) \<in> (\<lambda>r. (er_requester_id r, er_create_key r)) ` set (od_errands db)
        then Inr (None, db)
      else if has_errand db (er_id row) then Inl StoreErr
      else Inr (Some row, db\<lparr>od_errands := od_errands db @ [row]\<rparr>))"

text \<open>The columns an update leaves alone.\<close>

definition keep_identity :: "errand_row \<Rightarrow> errand_row \<Rightarrow> errand_row" where
  "keep_identity new old = new\<lparr>er_id := er_id old, er_requester_id := er_requester_id old, er_create_key := er_create_key old,
     er_created_at := er_created_at old\<rparr>"

definition update_errand :: "errand_row \<Rightarrow> transition \<Rightarrow> (errand_row option) otx" where
  "update_errand params t db =
     (case find (\<lambda>r. er_id r = er_id params \<and> er_status r = t_from t \<and> er_version r = i32 (t_expected_version t)
             \<and> er_pending_edit_key r = null_text (t_expected_pending_key t)) (od_errands db) of
        None \<Rightarrow> Inr (None, db)
      | Some old \<Rightarrow>
          let new = keep_identity params old in
          if \<not> errand_check new then Inl StoreErr
          else Inr (Some new, db\<lparr>od_errands := update_where (\<lambda>r. er_id r = er_id old) (\<lambda>_. new) (od_errands db)\<rparr>))"

definition insert_transition :: "transition_row \<Rightarrow> unit otx" where
  "insert_transition row db =
     (if has_errand db (tr_errand_id row) \<and> tr_errand_version row \<ge> 1 \<and> valid_status (tr_to row)
         \<and> (case tr_from row of None \<Rightarrow> True | Some s \<Rightarrow> valid_status s)
      then Inr ((), db\<lparr>od_transitions := od_transitions db @ [row]\<rparr>) else Inl StoreErr)"

definition new_outbox :: "int \<Rightarrow> int \<Rightarrow> outbox_row \<Rightarrow> stored_outbox_row" where
  "new_outbox n now row =
     \<lparr>so_id = n, so_kind = ob_kind row, so_key = ob_key row, so_errand_id = ob_errand_id row, so_payload = ob_payload row,
      so_status = Pending, so_attempts = 0, so_next_attempt_at = now, so_lease_owner = None, so_lease_expires_at = None,
      so_last_failure_code = None, so_created_at = now, so_sent_at = None, so_confirmed_at = None\<rparr>"

definition append_outbox :: "int \<Rightarrow> outbox_row \<Rightarrow> order_db \<Rightarrow> order_db" where
  "append_outbox now row db =
     db\<lparr>od_outbox := od_outbox db @ [new_outbox (od_outbox_seq db + 1) now row], od_outbox_seq := od_outbox_seq db + 1\<rparr>"

definition insert_outbox :: "int \<Rightarrow> outbox_row \<Rightarrow> unit otx" where
  "insert_outbox now row db =
     (if ob_key row \<in> so_key ` set (od_outbox db) \<or> \<not> has_errand db (ob_errand_id row) \<or> \<not> kind_known (ob_kind row)
      then Inl StoreErr else Inr ((), append_outbox now row db))"

text \<open>\<^verbatim>\<open>ON CONFLICT (idempotency_key) DO NOTHING\<close>; the result is the number of rows inserted.\<close>

definition insert_outbox_if_absent :: "int \<Rightarrow> outbox_row \<Rightarrow> nat otx" where
  "insert_outbox_if_absent now row db =
     (if \<not> kind_known (ob_kind row) then Inl StoreErr
      else if ob_key row \<in> so_key ` set (od_outbox db) then Inr (0, db)
      else if \<not> has_errand db (ob_errand_id row) then Inl StoreErr
      else Inr (1, append_outbox now row db))"

definition open_review_of :: "string \<Rightarrow> review_row \<Rightarrow> bool" where
  "open_review_of eid r \<longleftrightarrow> rv_errand_id r = eid \<and> rv_resolution r = None"

definition open_review :: "review_row \<Rightarrow> unit otx" where
  "open_review row db =
     (if \<not> has_errand db (rv_errand_id row) \<or> rv_reason row = ReviewNone
         \<or> list_ex (open_review_of (rv_errand_id row)) (od_reviews db) then Inl StoreErr
      else Inr ((), db\<lparr>od_reviews := od_reviews db @ [row]\<rparr>))"

definition resolve_review :: "string \<Rightarrow> status \<Rightarrow> string option \<Rightarrow> string option \<Rightarrow> int \<Rightarrow> nat otx" where
  "resolve_review eid resolution resolver reason at db =
     (let n = length (filter (open_review_of eid) (od_reviews db)) in
      if n > 0 \<and> (resolution \<notin> {StatusCompleted, StatusRefunded} \<or> resolver = None \<or> reason = None) then Inl StoreErr
      else Inr (n, db\<lparr>od_reviews := update_where (open_review_of eid)
        (\<lambda>r. r\<lparr>rv_resolution := Some resolution, rv_resolver_id := resolver, rv_resolution_reason := reason,
               rv_resolved_at := Some at\<rparr>) (od_reviews db)\<rparr>))"

definition supplier_fenced :: "string \<Rightarrow> bool otx" where
  "supplier_fenced sid = tx_get (\<lambda>db. list_ex (\<lambda>f. fe_supplier_id f = sid \<and> fe_state f \<in> {FenceOpen, FenceCommitted}) (od_fences db))"

end
