(* ===== verification/Errand_Store.thy ===== *)
theory Errand_Store
  imports Order_Db Errand_State
begin

text \<open>
  The errand store (package \<^verbatim>\<open>errandrepo\<close>): \<^verbatim>\<open>Create\<close>, \<^verbatim>\<open>Apply\<close>,
  \<^verbatim>\<open>RecordRejection\<close> and \<^verbatim>\<open>ClaimDue\<close>, each one transaction, and the reads. The
  database clock of a statement is the argument \<open>now\<close>; \<open>held\<close> says which errands other
  transactions have locked, which \<^verbatim>\<open>SKIP LOCKED\<close> leaves out.
\<close>

type_synonym uuid_reader = "string \<Rightarrow> string option"

definition store_app :: "app_code \<Rightarrow> store_error" where
  "store_app c = StoreApp (new_error c)"

definition lift_sum :: "store_error + 'a \<Rightarrow> 'a otx" where
  "lift_sum r = (case r of Inl err \<Rightarrow> tx_fail err | Inr a \<Rightarrow> tx_return a)"

section \<open>The checks of a write\<close>

definition compare_and_swap :: "errand \<Rightarrow> transition \<Rightarrow> store_error option" where
  "compare_and_swap cur t =
     (if e_status cur \<noteq> t_from t then Some (store_app ErrandUnavailable)
      else let cur_key = (case e_pending_edit cur of None \<Rightarrow> [] | Some p \<Rightarrow> pe_key p) in
        if e_version cur \<noteq> t_expected_version t \<or> cur_key \<noteq> t_expected_pending_key t then Some (store_app ErrandChanged)
        else None)"

definition edit_target_supplier :: "errand \<Rightarrow> transition \<Rightarrow> string option" where
  "edit_target_supplier cur t =
     (if t_event t \<noteq> EventEdit then None
      else let to = (case ch_details (t_changes t) of
               Some d \<Rightarrow> d_supplier_id d
             | None \<Rightarrow> (case ch_pending_edit (t_changes t) of SetTo p \<Rightarrow> d_supplier_id (pe_details p) | _ \<Rightarrow> []))
           in if to \<noteq> [] \<and> to \<noteq> d_supplier_id (e_details cur) then Some to else None)"

definition check_fence :: "string \<Rightarrow> unit otx" where
  "check_fence sid =
     tx_bind (supplier_fenced sid) (\<lambda>fenced. if fenced then tx_fail (store_app SupplierDeletionInProgress) else tx_return ())"

section \<open>The rows of a transition\<close>

definition transition_row_of :: "string \<Rightarrow> errand \<Rightarrow> errand \<Rightarrow> transition \<Rightarrow> transition_row" where
  "transition_row_of eid before after t =
     \<lparr>tr_errand_id = eid, tr_from = (if t_from t = StatusNone then None else Some (t_from t)), tr_to = t_to t,
      tr_event = t_event t, tr_actor_type = a_type (t_actor t), tr_actor_id = null_text (a_id (t_actor t)),
      tr_courier_id = null_text (if e_courier_id before \<noteq> [] then e_courier_id before else e_courier_id after),
      tr_reason = null_text (t_reason t), tr_errand_version = i32 (e_version after), tr_at = t_at t\<rparr>"

definition write_review :: "string \<Rightarrow> errand \<Rightarrow> transition \<Rightarrow> unit otx" where
  "write_review eid after t =
     (if t_to t = StatusReviewRequired then
        let reporter = (if a_type (t_actor t) = ActorSystem then [] else a_id (t_actor t));
            note = (if is_blank (t_reason t) then [] else t_reason t)
        in open_review \<lparr>rv_errand_id = eid, rv_reason = e_review_reason after, rv_reporter_id = null_text reporter,
             rv_note = null_text note, rv_resolution = None, rv_resolver_id = None, rv_resolution_reason = None,
             rv_created_at = t_at t, rv_resolved_at = None\<rparr>
      else if t_from t = StatusReviewRequired then
        tx_bind (resolve_review eid (t_to t) (null_text (a_id (t_actor t))) (null_text (t_reason t)) (t_at t))
          (\<lambda>resolved. if resolved = 0 then tx_fail StoreErr else tx_return ())
      else tx_return ())"

fun write_outbox :: "uuid_reader \<Rightarrow> int \<Rightarrow> outbox_row list \<Rightarrow> unit otx" where
  "write_outbox uuid now [] = tx_return ()"
| "write_outbox uuid now (row # rows) =
     tx_bind (lift_sum (parse_uuid uuid (ob_errand_id row))) (\<lambda>eid.
       tx_bind (insert_outbox now (row\<lparr>ob_errand_id := eid\<rparr>)) (\<lambda>_. write_outbox uuid now rows))"

definition write_transition_rows :: "uuid_reader \<Rightarrow> int \<Rightarrow> errand \<Rightarrow> errand \<Rightarrow> transition \<Rightarrow> unit otx" where
  "write_transition_rows uuid now before after t =
     tx_bind (lift_sum (parse_uuid uuid (e_id after))) (\<lambda>eid.
       tx_bind (insert_transition (transition_row_of eid before after t)) (\<lambda>_.
         tx_bind (write_review eid after t) (\<lambda>_. write_outbox uuid now (t_outbox t))))"

definition apply_locked :: "uuid_reader \<Rightarrow> int \<Rightarrow> errand \<Rightarrow> transition \<Rightarrow> errand otx" where
  "apply_locked uuid now cur t =
     (case compare_and_swap cur t of
        Some err \<Rightarrow> tx_fail err
      | None \<Rightarrow>
          tx_bind (case edit_target_supplier cur t of
                     None \<Rightarrow> tx_return ()
                   | Some to \<Rightarrow> tx_bind (lift_sum (parse_uuid uuid to)) check_fence) (\<lambda>_.
          tx_bind (lift_sum (insert_params uuid (apply_to t cur))) (\<lambda>params.
          tx_bind (update_errand params t) (\<lambda>found. case found of
              None \<Rightarrow> tx_fail StoreErr
            | Some row \<Rightarrow>
                let stored = errand_from_row row in
                tx_bind (write_transition_rows uuid now cur stored t) (\<lambda>_. tx_return stored)))))"

section \<open>Create and Apply\<close>

definition create_tx :: "uuid_reader \<Rightarrow> int \<Rightarrow> errand \<Rightarrow> transition \<Rightarrow> errand_row \<Rightarrow> (errand \<times> bool) otx" where
  "create_tx uuid now e t params =
     tx_bind (get_errand_by_create_key (e_requester_id e) (e_create_key e)) (\<lambda>existing. case existing of
         Some row \<Rightarrow> tx_return (errand_from_row row, False)
       | None \<Rightarrow>
           tx_bind (check_fence (er_supplier_id params)) (\<lambda>_.
           tx_bind (insert_errand params) (\<lambda>inserted. case inserted of
               None \<Rightarrow>
                 tx_bind (get_errand_by_create_key (e_requester_id e) (e_create_key e)) (\<lambda>again. case again of
                     None \<Rightarrow> tx_fail StoreErr
                   | Some row \<Rightarrow> tx_return (errand_from_row row, False))
             | Some row \<Rightarrow>
                 let stored = errand_from_row row in
                 tx_bind (write_transition_rows uuid now e stored t) (\<lambda>_. tx_return (stored, True)))))"

definition store_create :: "uuid_reader \<Rightarrow> int \<Rightarrow> errand \<Rightarrow> transition \<Rightarrow> order_db \<Rightarrow> (store_error + errand \<times> bool) \<times> order_db" where
  "store_create uuid now e t db =
     (if e_status e \<noteq> StatusNone \<or> t_event t \<noteq> EventSubmit \<or> t_from t \<noteq> StatusNone \<or> t_errand_id t \<noteq> e_id e
      then (Inl (store_app InvalidArgument), db)
      else if e_create_key e = [] then (Inl (store_app InvalidArgument), db)
      else (case insert_params uuid (apply_to t e) of
          Inl err \<Rightarrow> (Inl err, db)
        | Inr params \<Rightarrow> run_tx (create_tx uuid now e t params) db))"

definition apply_tx :: "uuid_reader \<Rightarrow> int \<Rightarrow> string \<Rightarrow> transition \<Rightarrow> errand otx" where
  "apply_tx uuid now eid t =
     tx_bind (get_errand eid) (\<lambda>found. case found of
         None \<Rightarrow> tx_fail (store_app ErrandNotFound)
       | Some row \<Rightarrow> apply_locked uuid now (errand_from_row row) t)"

definition store_apply :: "uuid_reader \<Rightarrow> int \<Rightarrow> transition \<Rightarrow> order_db \<Rightarrow> (store_error + errand) \<times> order_db" where
  "store_apply uuid now t db =
     (if t_from t = StatusNone then (Inl (store_app InvalidArgument), db)
      else (case uuid (t_errand_id t) of
          None \<Rightarrow> (Inl (store_app ErrandNotFound), db)
        | Some eid \<Rightarrow> run_tx (apply_tx uuid now eid t) db))"

section \<open>Rejections\<close>

definition rejection_row :: "string \<Rightarrow> errand_row \<Rightarrow> rejection \<Rightarrow> outbox_row" where
  "rejection_row eid row r =
     \<lparr>ob_kind = rejection_kind (rj_action r), ob_key = rejection_key (rj_errand_id r) (rj_action r) (rj_request_id r),
      ob_errand_id = eid,
      ob_payload = RejectionPayload \<lparr>rd_errand_id = rj_errand_id r, rd_errand_version = er_version row, rd_status = er_status row,
        rd_action = rj_action r, rd_code = rj_code r, rd_actor_type = a_type (rj_actor r), rd_actor_id = a_id (rj_actor r),
        rd_at = rj_at r\<rparr>\<rparr>"

definition record_rejection :: "uuid_reader \<Rightarrow> int \<Rightarrow> rejection \<Rightarrow> order_db \<Rightarrow> (store_error + unit) \<times> order_db" where
  "record_rejection uuid now r db =
     (if \<not> valid_action (rj_action r) then (Inl (store_app InvalidArgument), db)
      else if rj_request_id r = [] then (Inl (store_app InvalidArgument), db)
      else (case uuid (rj_errand_id r) of
          None \<Rightarrow> (Inl (store_app ErrandNotFound), db)
        | Some eid \<Rightarrow>
            run_tx (tx_bind (get_errand eid) (\<lambda>found. case found of
                None \<Rightarrow> tx_fail (store_app ErrandNotFound)
              | Some row \<Rightarrow> tx_bind (insert_outbox_if_absent now (rejection_row eid row r)) (\<lambda>_. tx_return ()))) db))"

section \<open>ClaimDue\<close>

text \<open>The column each query compares with the time, when the rest of its condition holds.\<close>

fun claim_column :: "due_kind \<Rightarrow> errand_row \<Rightarrow> int option" where
  "claim_column AcceptanceExpiry r = (if er_status r = StatusOpen then Some (er_acceptance_deadline r) else None)"
| "claim_column PickupDeadline r = (if er_status r = StatusAssigned then er_pickup_deadline r else None)"
| "claim_column DeliveryDeadline r = (if er_status r = StatusPickedUp then er_delivery_deadline r else None)"
| "claim_column VerificationLapse r = (if er_status r = StatusDelivered then er_verification_deadline r else None)"
| "claim_column StuckReservation r = (if er_status r = StatusPendingReservation then Some (er_created_at r) else None)"
| "claim_column StuckEdit r = (if er_pending_edit r \<noteq> None then er_pending_edit_at r else None)"

definition claimable :: "due_kind \<Rightarrow> int \<Rightarrow> errand_row \<Rightarrow> bool" where
  "claimable kind now r = (case claim_column kind r of None \<Rightarrow> False | Some t \<Rightarrow> t \<le> now)"

definition claim_query :: "due_kind \<Rightarrow> int \<Rightarrow> nat \<Rightarrow> (string \<Rightarrow> bool) \<Rightarrow> (errand_row list) otx" where
  "claim_query kind now limit held = tx_get (\<lambda>db.
     take limit (sort_key (\<lambda>r. the (claim_column kind r)) (sort_key er_id
       (filter (\<lambda>r. claimable kind now r \<and> \<not> held (er_id r)) (od_errands db)))))"

text \<open>\<open>decide\<close> chooses a transition, skips the errand, or stops the batch.\<close>

type_synonym decide = "errand \<Rightarrow> store_error + transition option"

fun decide_all :: "decide \<Rightarrow> errand list \<Rightarrow> store_error + transition list" where
  "decide_all decide [] = Inr []"
| "decide_all decide (e # es) =
     (case decide e of
        Inl err \<Rightarrow> Inl err
      | Inr chosen \<Rightarrow> (case decide_all decide es of
          Inl err \<Rightarrow> Inl err
        | Inr ts \<Rightarrow> Inr (case chosen of None \<Rightarrow> ts | Some t \<Rightarrow> t # ts)))"

fun apply_decided :: "uuid_reader \<Rightarrow> int \<Rightarrow> (string \<Rightarrow> errand option) \<Rightarrow> transition list \<Rightarrow> unit otx" where
  "apply_decided uuid now locked [] = tx_return ()"
| "apply_decided uuid now locked (t # ts) =
     (case locked (t_errand_id t) of
        None \<Rightarrow> tx_fail StoreErr
      | Some cur \<Rightarrow>
          if t_from t = StatusNone then tx_fail (store_app InvalidArgument)
          else tx_bind (apply_locked uuid now cur t)
                 (\<lambda>stored. apply_decided uuid now (locked(t_errand_id t \<mapsto> stored)) ts))"

definition claim_due_tx :: "uuid_reader \<Rightarrow> int \<Rightarrow> due_kind \<Rightarrow> int \<Rightarrow> nat \<Rightarrow> (string \<Rightarrow> bool) \<Rightarrow> decide \<Rightarrow> nat otx" where
  "claim_due_tx uuid now kind cutoff limit held decide =
     tx_bind (claim_query kind cutoff limit held) (\<lambda>rows.
       let batch = map errand_from_row rows in
       tx_bind (lift_sum (decide_all decide batch)) (\<lambda>decided.
         tx_bind (apply_decided uuid now (map_of (map (\<lambda>e. (e_id e, e)) batch)) decided) (\<lambda>_. tx_return (length decided))))"

definition claim_due :: "uuid_reader \<Rightarrow> int \<Rightarrow> due_kind \<Rightarrow> int \<Rightarrow> int \<Rightarrow> (string \<Rightarrow> bool) \<Rightarrow> decide \<Rightarrow> order_db
    \<Rightarrow> (store_error + nat) \<times> order_db" where
  "claim_due uuid now kind cutoff limit held decide db =
     (if limit < 1 then (Inl (store_app InvalidArgument), db)
      else run_tx (claim_due_tx uuid now kind cutoff (nat (min limit max_int32)) held decide) db)"

section \<open>Reads\<close>

definition store_get :: "uuid_reader \<Rightarrow> string \<Rightarrow> order_db \<Rightarrow> store_error + errand" where
  "store_get uuid eid db =
     (case uuid eid of
        None \<Rightarrow> Inl (store_app ErrandNotFound)
      | Some u \<Rightarrow> (case find_errand db u of
          None \<Rightarrow> Inl (store_app ErrandNotFound)
        | Some row \<Rightarrow> Inr (errand_from_row row)))"

record courier_history =
  withdrew_from_errand :: bool
  withdrawals_since :: nat

definition withdrawal_row :: "string \<Rightarrow> transition_row \<Rightarrow> bool" where
  "withdrawal_row courier r \<longleftrightarrow> tr_courier_id r = Some courier \<and> tr_event r \<in> {EventWithdraw, EventPickupDeadlinePassed}"

definition store_courier_history :: "uuid_reader \<Rightarrow> string \<Rightarrow> string \<Rightarrow> int \<Rightarrow> order_db \<Rightarrow> courier_history" where
  "store_courier_history uuid eid courier since db =
     (let rows = filter (withdrawal_row courier) (od_transitions db) in
      \<lparr>withdrew_from_errand = list_ex (\<lambda>r. Some (tr_errand_id r) = uuid eid) rows,
       withdrawals_since = length (filter (\<lambda>r. since \<le> tr_at r) rows)\<rparr>)"

end
