(* ===== verification/Errand_Rows.thy ===== *)
theory Errand_Rows
  imports Errand_Store Errand_History
begin

text \<open>
  Errands and their rows: what is written is read back, with every UUID in its canonical text. The
  documented behaviour of pgx's UUID parser that the proofs use is \<open>uuid_reader_ok\<close>.
\<close>

definition uuid_reader_ok :: "uuid_reader \<Rightarrow> bool" where
  "uuid_reader_ok uuid \<longleftrightarrow>
     uuid [] = None \<and> (\<forall>s u. uuid s = Some u \<longrightarrow> uuid u = Some u \<and> length u = 36 \<and> no_colon u \<and> length s \<le> 36)"

lemma uuid_reader_okD:
  assumes "uuid_reader_ok uuid" "uuid s = Some u"
  shows "uuid u = Some u" "length u = 36" "no_colon u" "length s \<le> 36"
  using assms by (auto simp: uuid_reader_ok_def)

lemma i32_id: "- (2 ^ 31) \<le> x \<Longrightarrow> x \<le> max_int32 \<Longrightarrow> i32 x = x"
  by (simp add: i32_def max_int32_def)

lemma string_of_null_text [simp]: "string_of (null_text s) = s"
  by (simp add: string_of_def null_text_def)

lemma null_text_eq [simp]: "null_text s = null_text s' \<longleftrightarrow> s = s'"
  by (simp add: null_text_def)

definition canon_details :: "uuid_reader \<Rightarrow> details \<Rightarrow> details" where
  "canon_details uuid d = d\<lparr>d_supplier_id := the (uuid (d_supplier_id d)),
     d_supplier_version_id := the (uuid (d_supplier_version_id d)), d_building_id := the (uuid (d_building_id d))\<rparr>"

definition canon :: "uuid_reader \<Rightarrow> errand \<Rightarrow> errand" where
  "canon uuid e = e\<lparr>e_id := the (uuid (e_id e)), e_details := canon_details uuid (e_details e)\<rparr>"

lemma canon_fields [simp]:
  "e_status (canon uuid e) = e_status e" "e_version (canon uuid e) = e_version e" "e_requester_id (canon uuid e) = e_requester_id e"
  "e_courier_id (canon uuid e) = e_courier_id e" "e_pickup_deadline (canon uuid e) = e_pickup_deadline e"
  "e_delivery_deadline (canon uuid e) = e_delivery_deadline e" "e_delivered_at (canon uuid e) = e_delivered_at e"
  "e_verification_deadline (canon uuid e) = e_verification_deadline e" "e_review_reason (canon uuid e) = e_review_reason e"
  "e_create_key (canon uuid e) = e_create_key e" "e_pending_edit (canon uuid e) = e_pending_edit e"
  "e_created_at (canon uuid e) = e_created_at e" "e_updated_at (canon uuid e) = e_updated_at e"
  "e_id (canon uuid e) = the (uuid (e_id e))" "e_details (canon uuid e) = canon_details uuid (e_details e)"
  by (simp_all add: canon_def)

lemma canon_details_fields [simp]:
  "d_reward (canon_details uuid d) = d_reward d" "d_items (canon_details uuid d) = d_items d"
  "d_contact_name (canon_details uuid d) = d_contact_name d" "d_contact_mobile (canon_details uuid d) = d_contact_mobile d"
  "d_building_snapshot (canon_details uuid d) = d_building_snapshot d"
  "d_acceptance_deadline (canon_details uuid d) = d_acceptance_deadline d"
  by (simp_all add: canon_details_def)

text \<open>The UUIDs of an errand, parseable or already canonical.\<close>

definition details_ids_ok :: "uuid_reader \<Rightarrow> details \<Rightarrow> bool" where
  "details_ids_ok uuid d \<longleftrightarrow> uuid (d_supplier_id d) \<noteq> None \<and> uuid (d_supplier_version_id d) \<noteq> None \<and> uuid (d_building_id d) \<noteq> None"

definition canonical :: "uuid_reader \<Rightarrow> errand \<Rightarrow> bool" where
  "canonical uuid e \<longleftrightarrow> uuid (e_id e) = Some (e_id e) \<and> uuid (d_supplier_id (e_details e)) = Some (d_supplier_id (e_details e))
     \<and> uuid (d_supplier_version_id (e_details e)) = Some (d_supplier_version_id (e_details e))
     \<and> uuid (d_building_id (e_details e)) = Some (d_building_id (e_details e))"

lemma canon_canonical:
  assumes "uuid_reader_ok uuid" "uuid (e_id e) \<noteq> None" "details_ids_ok uuid (e_details e)"
  shows "canonical uuid (canon uuid e)"
  using assms uuid_reader_okD(1) [OF assms(1)]
  by (auto simp: canonical_def canon_def canon_details_def details_ids_ok_def)

lemma canon_id: "canonical uuid e \<Longrightarrow> canon uuid e = e"
  by (simp add: canonical_def canon_def canon_details_def)

lemma parse_uuid_Inr [simp]: "parse_uuid uuid v = Inr u \<longleftrightarrow> uuid v = Some u"
  by (auto simp: parse_uuid_def split: option.splits)

definition row_for :: "uuid_reader \<Rightarrow> errand \<Rightarrow> errand_row" where
  "row_for uuid e = row_of e (the (uuid (e_id e))) (the (uuid (d_supplier_id (e_details e))))
     (the (uuid (d_supplier_version_id (e_details e)))) (the (uuid (d_building_id (e_details e))))"

text \<open>Writing an errand gives the row that reads back as the same errand.\<close>

lemma insert_params_ok:
  assumes "uuid (e_id e) \<noteq> None" "details_ids_ok uuid (e_details e)" "d_reward (e_details e) \<le> max_int32" "e_version e \<le> max_int32"
    "\<And>p. e_pending_edit e = Some p \<Longrightarrow> encodable (pe_details p)"
  shows "insert_params uuid e = Inr (row_for uuid e)"
  using assms by (auto simp: insert_params_def parse_uuid_def details_ids_ok_def row_for_def split: option.splits)

lemma insert_params_InrD:
  assumes "insert_params uuid e = Inr row"
  shows "uuid (e_id e) \<noteq> None" "details_ids_ok uuid (e_details e)" "d_reward (e_details e) \<le> max_int32" "e_version e \<le> max_int32"
    "\<And>p. e_pending_edit e = Some p \<Longrightarrow> encodable (pe_details p)"
    "row = row_for uuid e"
  using assms by (auto simp: insert_params_def parse_uuid_def details_ids_ok_def row_for_def split: option.splits if_splits)

lemma row_for_fields [simp]:
  "er_id (row_for uuid e) = the (uuid (e_id e))" "er_status (row_for uuid e) = e_status e"
  "er_requester_id (row_for uuid e) = e_requester_id e" "er_create_key (row_for uuid e) = e_create_key e"
  "er_created_at (row_for uuid e) = e_created_at e" "er_supplier_id (row_for uuid e) = the (uuid (d_supplier_id (e_details e)))"
  by (simp_all add: row_for_def row_of_def Let_def)

lemma errand_from_row_fields [simp]:
  "e_id (errand_from_row r) = er_id r" "e_status (errand_from_row r) = er_status r" "e_version (errand_from_row r) = er_version r"
  "e_requester_id (errand_from_row r) = er_requester_id r" "e_create_key (errand_from_row r) = er_create_key r"
  "e_created_at (errand_from_row r) = er_created_at r" "d_reward (e_details (errand_from_row r)) = er_reward r"
  by (simp_all add: errand_from_row_def)

lemma errand_from_row_of:
  assumes "- (2 ^ 31) \<le> e_version e" "e_version e \<le> max_int32" "- (2 ^ 31) \<le> d_reward (e_details e)" "d_reward (e_details e) \<le> max_int32"
  shows "errand_from_row (row_for uuid e) = canon uuid e"
proof -
  have "i32 (e_version e) = e_version e" "i32 (d_reward (e_details e)) = d_reward (e_details e)"
    using assms by (simp_all add: i32_id)
  then show ?thesis
    by (auto simp: errand_from_row_def row_for_def row_of_def canon_def canon_details_def Let_def intro!: errand.equality details.equality
        split: option.splits)
      (simp_all add: string_of_def)
qed

section \<open>When a row is due\<close>

text \<open>The columns the claiming queries compare hold what \<^verbatim>\<open>DueAt\<close> computes from the errand.\<close>

lemma claim_column_due_at:
  assumes "errand_check r"
  shows "claim_column kind r = due_at kind (errand_from_row r)"
proof -
  have "er_pending_edit r = None \<longleftrightarrow> er_pending_edit_at r = None" using assms unfolding errand_check_def by (elim conjE)
  then show ?thesis by (cases kind) (auto simp: at_status_def errand_from_row_def split: option.splits)
qed

lemma claimable_due: "errand_check r \<Longrightarrow> claimable kind now r \<longleftrightarrow> due kind (errand_from_row r) now"
  by (auto simp: claimable_def due_def claim_column_due_at split: option.split)

end
