(* ===== verification/Errand_Writes.thy ===== *)
theory Errand_Writes
  imports Errand_Rows
begin

text \<open>
  What the writes of the errand store do to the database: each transaction of the store that
  succeeds leaves the database its post-state describes, and it succeeds exactly when its checks hold.
\<close>

section \<open>Outbox rows\<close>

definition add_outbox :: "uuid_reader \<Rightarrow> int \<Rightarrow> outbox_row list \<Rightarrow> order_db \<Rightarrow> order_db" where
  "add_outbox uuid now rows db =
     foldl (\<lambda>db row. append_outbox now (row\<lparr>ob_errand_id := the (uuid (ob_errand_id row))\<rparr>) db) db rows"

lemma add_outbox_simps [simp]: "add_outbox uuid now [] db = db"
  "add_outbox uuid now (row # rows) db =
     add_outbox uuid now rows (append_outbox now (row\<lparr>ob_errand_id := the (uuid (ob_errand_id row))\<rparr>) db)"
  by (simp_all add: add_outbox_def)

lemma append_outbox_fields [simp]:
  "od_errands (append_outbox now row db) = od_errands db" "od_transitions (append_outbox now row db) = od_transitions db"
  "od_fences (append_outbox now row db) = od_fences db" "od_reviews (append_outbox now row db) = od_reviews db"
  "od_outbox (append_outbox now row db) = od_outbox db @ [new_outbox (od_outbox_seq db + 1) now row]"
  "od_outbox_seq (append_outbox now row db) = od_outbox_seq db + 1"
  by (simp_all add: append_outbox_def)

lemma new_outbox_fields [simp]:
  "so_key (new_outbox n now row) = ob_key row" "so_kind (new_outbox n now row) = ob_kind row" "so_id (new_outbox n now row) = n"
  "so_payload (new_outbox n now row) = ob_payload row" "so_status (new_outbox n now row) = Pending"
  "so_errand_id (new_outbox n now row) = ob_errand_id row"
  by (simp_all add: new_outbox_def)

lemma add_outbox_fields [simp]:
  "od_errands (add_outbox uuid now rows db) = od_errands db" "od_transitions (add_outbox uuid now rows db) = od_transitions db"
  "od_fences (add_outbox uuid now rows db) = od_fences db" "od_reviews (add_outbox uuid now rows db) = od_reviews db"
  by (induction rows arbitrary: db) simp_all

definition row_keys :: "order_db \<Rightarrow> string list" where
  "row_keys db = map so_key (od_outbox db)"

lemma row_keys_append [simp]: "row_keys (append_outbox now row db) = row_keys db @ [ob_key row]"
  by (simp add: row_keys_def)

lemma row_keys_add [simp]: "row_keys (add_outbox uuid now rows db) = row_keys db @ map ob_key rows"
  by (induction rows arbitrary: db) simp_all

lemma has_errand_cong: "od_errands db' = od_errands db \<Longrightarrow> has_errand db' = has_errand db"
  by (simp add: has_errand_def fun_eq_iff)

lemma lift_sum_parse [simp]:
  "uuid v = Some u \<Longrightarrow> lift_sum (parse_uuid uuid v) = tx_return u"
  by (simp add: lift_sum_def parse_uuid_def)

lemma lift_sum_parse_Inr: "lift_sum (parse_uuid uuid v) db = Inr (u, db') \<longleftrightarrow> uuid v = Some u \<and> db' = db"
  by (auto simp: lift_sum_def parse_uuid_def split: option.splits sum.splits)

definition outbox_writable :: "uuid_reader \<Rightarrow> order_db \<Rightarrow> outbox_row list \<Rightarrow> bool" where
  "outbox_writable uuid db rows \<longleftrightarrow> distinct (map ob_key rows) \<and> set (map ob_key rows) \<inter> set (row_keys db) = {}
     \<and> (\<forall>row \<in> set rows. kind_known (ob_kind row) \<and> (\<exists>u. uuid (ob_errand_id row) = Some u \<and> has_errand db u))"

lemma insert_outbox_iff:
  "insert_outbox now row db = Inr ((), db') \<longleftrightarrow>
     ob_key row \<notin> set (row_keys db) \<and> has_errand db (ob_errand_id row) \<and> kind_known (ob_kind row) \<and> db' = append_outbox now row db"
  by (auto simp: insert_outbox_def row_keys_def)

lemma write_outbox_iff:
  "write_outbox uuid now rows db = Inr ((), db') \<longleftrightarrow> outbox_writable uuid db rows \<and> db' = add_outbox uuid now rows db"
proof (induction rows arbitrary: db)
  case Nil
  then show ?case by (auto simp: outbox_writable_def)
next
  case (Cons row rows)
  show ?case
  proof (cases "uuid (ob_errand_id row)")
    case None
    then have "write_outbox uuid now (row # rows) db = Inl (StoreApp (new_error InvalidArgument))"
      by (simp add: tx_bind_def lift_sum_def parse_uuid_def)
    with None show ?thesis by (auto simp: outbox_writable_def)
  next
    case (Some u)
    let ?row = "row\<lparr>ob_errand_id := u\<rparr>"
    have "write_outbox uuid now (row # rows) db = Inr ((), db') \<longleftrightarrow>
      (\<exists>d. insert_outbox now ?row db = Inr ((), d) \<and> write_outbox uuid now rows d = Inr ((), db'))"
      using Some by (auto simp: tx_bind_def split: sum.splits prod.splits)
    also have "\<dots> \<longleftrightarrow> insert_outbox now ?row db = Inr ((), append_outbox now ?row db)
        \<and> outbox_writable uuid (append_outbox now ?row db) rows \<and> db' = add_outbox uuid now rows (append_outbox now ?row db)"
      using Cons.IH insert_outbox_iff by metis
    also have "\<dots> \<longleftrightarrow> outbox_writable uuid db (row # rows) \<and> db' = add_outbox uuid now (row # rows) db"
      using Some by (auto simp: insert_outbox_iff outbox_writable_def has_errand_def)
    finally show ?thesis .
  qed
qed

section \<open>Reviews\<close>

definition add_review :: "string \<Rightarrow> errand \<Rightarrow> transition \<Rightarrow> review_row list \<Rightarrow> review_row list" where
  "add_review eid after t reviews =
     (if t_to t = StatusReviewRequired then
        reviews @ [\<lparr>rv_errand_id = eid, rv_reason = e_review_reason after,
          rv_reporter_id = null_text (if a_type (t_actor t) = ActorSystem then [] else a_id (t_actor t)),
          rv_note = null_text (if is_blank (t_reason t) then [] else t_reason t), rv_resolution = None, rv_resolver_id = None,
          rv_resolution_reason = None, rv_created_at = t_at t, rv_resolved_at = None\<rparr>]
      else if t_from t = StatusReviewRequired then
        update_where (open_review_of eid) (\<lambda>r. r\<lparr>rv_resolution := Some (t_to t), rv_resolver_id := null_text (a_id (t_actor t)),
          rv_resolution_reason := null_text (t_reason t), rv_resolved_at := Some (t_at t)\<rparr>) reviews
      else reviews)"

definition review_writable :: "order_db \<Rightarrow> string \<Rightarrow> errand \<Rightarrow> transition \<Rightarrow> bool" where
  "review_writable db eid after t \<longleftrightarrow>
     (t_to t = StatusReviewRequired \<longrightarrow> has_errand db eid \<and> e_review_reason after \<noteq> ReviewNone
        \<and> \<not> list_ex (open_review_of eid) (od_reviews db))
     \<and> (t_to t \<noteq> StatusReviewRequired \<longrightarrow> t_from t = StatusReviewRequired \<longrightarrow> list_ex (open_review_of eid) (od_reviews db)
        \<and> t_to t \<in> {StatusCompleted, StatusRefunded} \<and> a_id (t_actor t) \<noteq> [] \<and> t_reason t \<noteq> [])"

lemma filter_Nil_iff: "filter p xs = [] \<longleftrightarrow> \<not> list_ex p xs"
  by (induction xs) auto

lemma write_review_iff:
  "write_review eid after t db = Inr ((), db') \<longleftrightarrow>
     review_writable db eid after t \<and> db' = db\<lparr>od_reviews := add_review eid after t (od_reviews db)\<rparr>"
proof -
  consider "t_to t = StatusReviewRequired" | "t_to t \<noteq> StatusReviewRequired" "t_from t = StatusReviewRequired"
    | "t_to t \<noteq> StatusReviewRequired" "t_from t \<noteq> StatusReviewRequired" by blast
  then show ?thesis
  proof cases
    case 1
    then show ?thesis by (auto simp: write_review_def open_review_def review_writable_def add_review_def)
  next
    case 2
    then show ?thesis
      by (auto simp: filter_Nil_iff write_review_def resolve_review_def review_writable_def add_review_def tx_bind_def Let_def null_text_def)
  next
    case 3
    then show ?thesis by (auto simp: write_review_def review_writable_def add_review_def)
  qed
qed


section \<open>Transitions\<close>

text \<open>The database after the rows of a transition were written.\<close>

definition add_rows :: "uuid_reader \<Rightarrow> int \<Rightarrow> errand \<Rightarrow> errand \<Rightarrow> transition \<Rightarrow> order_db \<Rightarrow> order_db" where
  "add_rows uuid now before after t db =
     add_outbox uuid now (t_outbox t)
       (db\<lparr>od_transitions := od_transitions db @ [transition_row_of (e_id after) before after t],
          od_reviews := add_review (e_id after) after t (od_reviews db)\<rparr>)"

lemma add_rows_fields [simp]:
  "od_errands (add_rows uuid now before after t db) = od_errands db"
  "od_fences (add_rows uuid now before after t db) = od_fences db"
  "od_transitions (add_rows uuid now before after t db) = od_transitions db @ [transition_row_of (e_id after) before after t]"
  "od_reviews (add_rows uuid now before after t db) = add_review (e_id after) after t (od_reviews db)"
  "row_keys (add_rows uuid now before after t db) = row_keys db @ map ob_key (t_outbox t)"
  by (simp_all add: add_rows_def row_keys_def [of "order_db.od_reviews_update _ _"]) (simp add: row_keys_def)

definition transition_writable :: "order_db \<Rightarrow> errand \<Rightarrow> transition \<Rightarrow> bool" where
  "transition_writable db after t \<longleftrightarrow> has_errand db (e_id after) \<and> 1 \<le> i32 (e_version after) \<and> valid_status (t_to t)
     \<and> (t_from t = StatusNone \<or> valid_status (t_from t))"

lemma insert_transition_iff:
  "insert_transition (transition_row_of (e_id after) before after t) db = Inr ((), db') \<longleftrightarrow> transition_writable db after t
     \<and> db' = db\<lparr>od_transitions := od_transitions db @ [transition_row_of (e_id after) before after t]\<rparr>"
  by (auto simp: insert_transition_def transition_writable_def transition_row_of_def split: if_splits option.splits)

lemma writable_cong [simp]:
  "outbox_writable uuid (db\<lparr>od_transitions := x\<rparr>) rows = outbox_writable uuid db rows"
  "outbox_writable uuid (db\<lparr>od_reviews := y\<rparr>) rows = outbox_writable uuid db rows"
  "review_writable (db\<lparr>od_transitions := x\<rparr>) eid after t = review_writable db eid after t"
  by (simp_all add: outbox_writable_def review_writable_def has_errand_def row_keys_def)

lemma tx_bind_iff: "tx_bind m f s = Inr r \<longleftrightarrow> (\<exists>a s'. m s = Inr (a, s') \<and> f a s' = Inr r)"
  by (auto simp: tx_bind_def split: sum.splits prod.splits)

lemma write_transition_rows_iff:
  assumes "uuid (e_id after) = Some (e_id after)"
  shows "write_transition_rows uuid now before after t db = Inr ((), db') \<longleftrightarrow>
     transition_writable db after t \<and> review_writable db (e_id after) after t \<and> outbox_writable uuid db (t_outbox t)
     \<and> db' = add_rows uuid now before after t db"
  using assms
  by (auto simp: write_transition_rows_def tx_bind_iff insert_transition_iff write_review_iff write_outbox_iff add_rows_def)

section \<open>Applying a transition\<close>

definition fence_clear :: "uuid_reader \<Rightarrow> order_db \<Rightarrow> errand \<Rightarrow> transition \<Rightarrow> bool" where
  "fence_clear uuid db cur t \<longleftrightarrow>
     (case edit_target_supplier cur t of None \<Rightarrow> True
      | Some to \<Rightarrow> (\<exists>sid. uuid to = Some sid
          \<and> \<not> list_ex (\<lambda>f. fe_supplier_id f = sid \<and> fe_state f \<in> {FenceOpen, FenceCommitted}) (od_fences db)))"

lemma check_fence_iff:
  "check_fence sid db = Inr ((), db') \<longleftrightarrow>
     \<not> list_ex (\<lambda>f. fe_supplier_id f = sid \<and> fe_state f \<in> {FenceOpen, FenceCommitted}) (od_fences db) \<and> db' = db"
  by (auto simp: check_fence_def supplier_fenced_def tx_bind_iff)

text \<open>What can be written of the errand a transition leaves.\<close>

definition storable :: "uuid_reader \<Rightarrow> errand \<Rightarrow> bool" where
  "storable uuid e \<longleftrightarrow> (\<exists>row. insert_params uuid e = Inr row) \<and> errand_check (row_for uuid e)"

definition with_errand :: "uuid_reader \<Rightarrow> errand \<Rightarrow> order_db \<Rightarrow> order_db" where
  "with_errand uuid e db = db\<lparr>od_errands := update_where (\<lambda>r. er_id r = e_id e) (\<lambda>_. row_for uuid e) (od_errands db)\<rparr>"

definition applied :: "uuid_reader \<Rightarrow> int \<Rightarrow> errand \<Rightarrow> transition \<Rightarrow> order_db \<Rightarrow> order_db" where
  "applied uuid now cur t db =
     add_rows uuid now cur (canon uuid (apply_to t cur)) t (with_errand uuid (apply_to t cur) db)"

text \<open>The row of a stored errand, as the store keeps it.\<close>

definition row_clean :: "uuid_reader \<Rightarrow> errand_row \<Rightarrow> bool" where
  "row_clean uuid r \<longleftrightarrow> errand_check r \<and> er_version r \<le> max_int32 \<and> er_reward r \<le> max_int32
     \<and> canonical uuid (errand_from_row r) \<and> er_pending_edit_key r \<noteq> Some []"

lemma pending_key_column:
  assumes "row_clean uuid r"
  shows "er_pending_edit_key r = null_text (case e_pending_edit (errand_from_row r) of None \<Rightarrow> [] | Some p \<Rightarrow> pe_key p)"
  using assms by (cases "er_pending_edit_key r")
    (auto simp: row_clean_def errand_check_def errand_from_row_def null_text_def string_of_def split: option.splits)

lemma find_unique:
  assumes "distinct (map key rows)" "r \<in> set rows" "P r"
  shows "find (\<lambda>r'. key r' = key r \<and> P r') rows = Some r"
  using assms by (induction rows) (auto simp: image_iff)

lemma update_errand_row:
  assumes d: "distinct (map er_id (od_errands db))" and r: "r \<in> set (od_errands db)" "row_clean uuid r"
    and cas: "compare_and_swap (errand_from_row r) t = None" and sub: "t_from t \<noteq> StatusNone"
  shows "update_errand (row_for uuid (apply_to t (errand_from_row r))) t db = Inr (Some row, db') \<longleftrightarrow>
    errand_check (row_for uuid (apply_to t (errand_from_row r))) \<and> row = row_for uuid (apply_to t (errand_from_row r))
    \<and> db' = with_errand uuid (apply_to t (errand_from_row r)) db"
    "update_errand (row_for uuid (apply_to t (errand_from_row r))) t db \<noteq> Inr (None, db')"
proof -
  let ?cur = "errand_from_row r" and ?new = "row_for uuid (apply_to t (errand_from_row r))"
  have id: "er_id ?new = er_id r" using r(2) by (simp add: row_clean_def canonical_def)
  have c: "er_status r = t_from t" "er_version r = t_expected_version t"
    "(case e_pending_edit ?cur of None \<Rightarrow> [] | Some p \<Rightarrow> pe_key p) = t_expected_pending_key t"
    using cas by (auto simp: compare_and_swap_def Let_def split: if_splits)
  have "i32 (t_expected_version t) = er_version r" using r(2) c(2) by (simp add: row_clean_def errand_check_def i32_id)
  moreover have "er_pending_edit_key r = null_text (t_expected_pending_key t)" using pending_key_column [OF r(2)] c(3) by simp
  ultimately have f: "find (\<lambda>r'. er_id r' = er_id ?new \<and> er_status r' = t_from t \<and> er_version r' = i32 (t_expected_version t)
      \<and> er_pending_edit_key r' = null_text (t_expected_pending_key t)) (od_errands db) = Some r"
    using find_unique [OF d r(1), of "\<lambda>r'. er_status r' = t_from t \<and> er_version r' = i32 (t_expected_version t)
      \<and> er_pending_edit_key r' = null_text (t_expected_pending_key t)"] c(1) id by simp
  have "keep_identity ?new r = ?new"
    using id sub by (simp add: keep_identity_def apply_to_def Let_def)
  with f id show "update_errand ?new t db = Inr (Some row, db') \<longleftrightarrow> errand_check ?new \<and> row = ?new \<and> db' = with_errand uuid (apply_to t ?cur) db"
    "update_errand ?new t db \<noteq> Inr (None, db')"
    by (auto simp: update_errand_def with_errand_def Let_def)
qed

lemma storable_row: "storable uuid e \<Longrightarrow> insert_params uuid e = Inr (row_for uuid e)"
  using insert_params_InrD(6) [of uuid e] by (auto simp: storable_def)

lemma storable_from_row:
  assumes "storable uuid e" "0 \<le> e_version e" "0 \<le> d_reward (e_details e)"
  shows "errand_from_row (row_for uuid e) = canon uuid e"
  using assms insert_params_InrD(3,4) [OF storable_row [OF assms(1)]] by (intro errand_from_row_of) simp_all

text \<open>The whole effect of \<^verbatim>\<open>applyLocked\<close> on a stored errand.\<close>

definition applicable :: "uuid_reader \<Rightarrow> order_db \<Rightarrow> errand \<Rightarrow> transition \<Rightarrow> bool" where
  "applicable uuid db cur t \<longleftrightarrow> compare_and_swap cur t = None \<and> fence_clear uuid db cur t \<and> storable uuid (apply_to t cur)
     \<and> (let after = canon uuid (apply_to t cur); db1 = with_errand uuid (apply_to t cur) db
        in transition_writable db1 after t \<and> review_writable db1 (e_id after) after t \<and> outbox_writable uuid db1 (t_outbox t))"

lemma apply_locked_iff:
  assumes d: "distinct (map er_id (od_errands db))" and r: "r \<in> set (od_errands db)" "row_clean uuid r"
    and sub: "t_from t \<noteq> StatusNone" and cur: "cur = errand_from_row r"
    and pos: "0 \<le> t_new_version t" "0 \<le> d_reward (e_details (apply_to t cur))"
  shows "apply_locked uuid now cur t db = Inr (stored, db') \<longleftrightarrow>
    applicable uuid db cur t \<and> stored = canon uuid (apply_to t cur) \<and> db' = applied uuid now cur t db"
proof (cases "compare_and_swap cur t")
  case None
  let ?new = "apply_to t cur"
  have fence: "(case edit_target_supplier cur t of None \<Rightarrow> tx_return ()
      | Some to \<Rightarrow> tx_bind (lift_sum (parse_uuid uuid to)) check_fence) db = Inr ((), d') \<longleftrightarrow> fence_clear uuid db cur t \<and> d' = db" for d'
    by (auto simp: fence_clear_def tx_bind_iff lift_sum_parse_Inr check_fence_iff split: option.splits)
  have params: "lift_sum (insert_params uuid ?new) db = Inr (row, d') \<longleftrightarrow>
      (\<exists>x. insert_params uuid ?new = Inr x) \<and> row = row_for uuid ?new \<and> d' = db" for row d'
    using insert_params_InrD(6) [of uuid ?new] by (auto simp: lift_sum_def split: sum.splits)
  have id: "uuid (e_id (canon uuid ?new)) = Some (e_id (canon uuid ?new))"
    using r(2) cur by (simp add: row_clean_def canonical_def)
  note rows = write_transition_rows_iff [of uuid "canon uuid ?new", OF id]
  note upd = update_errand_row [OF d r None [unfolded cur] sub, folded cur]
  have "apply_locked uuid now cur t db = Inr (stored, db') \<longleftrightarrow>
     fence_clear uuid db cur t \<and> storable uuid ?new \<and> stored = errand_from_row (row_for uuid ?new)
     \<and> write_transition_rows uuid now cur (errand_from_row (row_for uuid ?new)) t (with_errand uuid ?new db) = Inr ((), db')"
    unfolding apply_locked_def None
    by (auto simp: tx_bind_iff fence params upd storable_def Let_def split: option.splits)
  also have "\<dots> \<longleftrightarrow> applicable uuid db cur t \<and> stored = canon uuid ?new \<and> db' = applied uuid now cur t db"
    using storable_from_row [of uuid ?new] pos None
    by (auto simp: applicable_def applied_def rows Let_def simp del: canon_fields)
  finally show ?thesis .
qed (simp add: apply_locked_def applicable_def)

end
