(* ===== verification/Outbox_Repo.thy ===== *)
theory Outbox_Repo
  imports Errand_Writes "HOL-Library.Multiset"
begin

text \<open>
  Package \<^verbatim>\<open>msgrepo\<close> of order-service: the delivery state of the outbox. The statements of
  \<^verbatim>\<open>queries/messaging.sql\<close> act on the rows of the outbox table; a failed one leaves it as it was.
  \<open>now\<close> is the \<^verbatim>\<open>clock_timestamp()\<close> of the statement. Rows come back from an
  \<^verbatim>\<open>UPDATE ... RETURNING\<close> in no particular order: \<open>order\<close>, a parameter, arranges them.
\<close>

record msg_row =
  mr_id :: int
  mr_kind :: string
  mr_key :: string
  mr_errand_id :: string
  mr_lease_owner :: string
  mr_payload :: payload
  mr_attempts :: int
  mr_created_at :: int

record outbox_record =
  oc_id :: int
  oc_kind :: string
  oc_key :: string
  oc_errand_id :: string
  oc_status :: outbox_status
  oc_attempts :: int
  oc_last_failure_code :: string
  oc_created_at :: int
  oc_next_attempt_at :: int
  oc_sent_at :: int
  oc_confirmed_at :: int

record resent =
  re_id :: int
  re_kind :: string
  re_key :: string
  re_errand_id :: string
  re_attempts :: int
  re_sent_at :: int

datatype msg_error = ErrLeaseLost | ErrOutboxNotFound | ErrNotFailed | MsgInvalid | MsgDbError

type_synonym outbox_table = "stored_outbox_row list"

definition max_batch :: int where "max_batch = 500"

text \<open>\<^verbatim>\<open>Duration.Microseconds\<close>, as nanoseconds again.\<close>

definition whole_microseconds :: "int \<Rightarrow> int" where
  "whole_microseconds d = (d div 1000) * 1000"

definition time_or_zero :: "int option \<Rightarrow> int" where
  "time_or_zero t = (case t of None \<Rightarrow> zero_time | Some x \<Rightarrow> x)"

definition msg_row_of :: "stored_outbox_row \<Rightarrow> msg_row" where
  "msg_row_of o' = \<lparr>mr_id = so_id o', mr_kind = so_kind o', mr_key = so_key o', mr_errand_id = so_errand_id o',
     mr_lease_owner = string_of (so_lease_owner o'), mr_payload = so_payload o', mr_attempts = so_attempts o',
     mr_created_at = so_created_at o'\<rparr>"

definition record_of :: "stored_outbox_row \<Rightarrow> outbox_record" where
  "record_of o' = \<lparr>oc_id = so_id o', oc_kind = so_kind o', oc_key = so_key o', oc_errand_id = so_errand_id o',
     oc_status = so_status o', oc_attempts = so_attempts o', oc_last_failure_code = string_of (so_last_failure_code o'),
     oc_created_at = so_created_at o', oc_next_attempt_at = so_next_attempt_at o', oc_sent_at = time_or_zero (so_sent_at o'),
     oc_confirmed_at = time_or_zero (so_confirmed_at o')\<rparr>"

definition resent_of :: "stored_outbox_row \<Rightarrow> resent" where
  "resent_of o' = \<lparr>re_id = so_id o', re_kind = so_kind o', re_key = so_key o', re_errand_id = so_errand_id o',
     re_attempts = so_attempts o', re_sent_at = time_or_zero (so_sent_at o')\<rparr>"

section \<open>Claiming\<close>

definition is_credit :: "string \<Rightarrow> bool" where
  "is_credit kind \<longleftrightarrow> has_prefix ''credit.'' kind"

definition in_family :: "bool \<Rightarrow> string \<Rightarrow> bool" where
  "in_family credit kind \<longleftrightarrow> (credit \<and> is_credit kind) \<or> (\<not> credit \<and> has_prefix ''event.'' kind)"

definition outbox_claimable :: "bool \<Rightarrow> int \<Rightarrow> stored_outbox_row \<Rightarrow> bool" where
  "outbox_claimable credit now o' \<longleftrightarrow> so_status o' = Pending \<and> so_next_attempt_at o' \<le> now
     \<and> (case so_lease_expires_at o' of None \<Rightarrow> True | Some t \<Rightarrow> t \<le> now) \<and> in_family credit (so_kind o')"

definition claimed_ids :: "bool \<Rightarrow> int \<Rightarrow> nat \<Rightarrow> outbox_table \<Rightarrow> int list" where
  "claimed_ids credit now limit rows =
     map so_id (take limit (sort_key so_next_attempt_at (sort_key so_id (filter (outbox_claimable credit now) rows))))"

definition leased_to :: "string \<Rightarrow> int \<Rightarrow> stored_outbox_row \<Rightarrow> stored_outbox_row" where
  "leased_to worker until o' =
     o'\<lparr>so_lease_owner := Some worker, so_lease_expires_at := Some until, so_attempts := so_attempts o' + 1\<rparr>"

text \<open>The number of attempts is a 32-bit column.\<close>

definition claim_outbox :: "(stored_outbox_row list \<Rightarrow> stored_outbox_row list) \<Rightarrow> string \<Rightarrow> bool \<Rightarrow> int \<Rightarrow> int \<Rightarrow> int
    \<Rightarrow> outbox_table \<Rightarrow> (msg_error + msg_row list) \<times> outbox_table" where
  "claim_outbox order worker credit limit lease now rows =
     (if worker = [] \<or> limit < 1 \<or> limit > max_batch \<or> lease < 1000 then (Inl MsgInvalid, rows)
      else let chosen = (\<lambda>o'. so_id o' \<in> set (claimed_ids credit now (nat limit) rows));
               rows' = update_where chosen (leased_to worker (now + whole_microseconds lease)) rows
           in if list_ex (\<lambda>o'. chosen o' \<and> so_attempts o' \<ge> max_int32) rows then (Inl MsgDbError, rows)
              else (Inr (map msg_row_of (order (filter chosen rows'))), rows'))"

section \<open>Writes guarded by the lease\<close>

definition lease_held :: "int \<Rightarrow> msg_row \<Rightarrow> stored_outbox_row \<Rightarrow> bool" where
  "lease_held now row o' \<longleftrightarrow> so_id o' = mr_id row \<and> so_status o' = Pending
     \<and> so_lease_owner o' = Some (mr_lease_owner row) \<and> so_attempts o' = mr_attempts row
     \<and> (case so_lease_expires_at o' of None \<Rightarrow> False | Some t \<Rightarrow> t > now)"

definition leased_write :: "int \<Rightarrow> msg_row \<Rightarrow> (stored_outbox_row \<Rightarrow> stored_outbox_row) \<Rightarrow> outbox_table
    \<Rightarrow> msg_error option \<times> outbox_table" where
  "leased_write now row f rows =
     (if list_ex (lease_held now row) rows then None else Some ErrLeaseLost, update_where (lease_held now row) f rows)"

definition unleased :: "stored_outbox_row \<Rightarrow> stored_outbox_row" where
  "unleased o' = o'\<lparr>so_lease_owner := None, so_lease_expires_at := None\<rparr>"

definition mark_outbox_sent :: "int \<Rightarrow> msg_row \<Rightarrow> outbox_table \<Rightarrow> msg_error option \<times> outbox_table" where
  "mark_outbox_sent now row =
     leased_write now row (\<lambda>o'. (unleased o')\<lparr>so_status := Sent, so_sent_at := Some now, so_last_failure_code := None\<rparr>)"

definition reschedule_outbox :: "int \<Rightarrow> msg_row \<Rightarrow> int \<Rightarrow> string \<Rightarrow> outbox_table \<Rightarrow> msg_error option \<times> outbox_table" where
  "reschedule_outbox now row delay code rows =
     (if delay < 0 \<or> code = [] then (Some MsgInvalid, rows)
      else leased_write now row
        (\<lambda>o'. (unleased o')\<lparr>so_next_attempt_at := now + whole_microseconds delay, so_last_failure_code := Some code\<rparr>) rows)"

definition mark_outbox_failed :: "int \<Rightarrow> msg_row \<Rightarrow> string \<Rightarrow> outbox_table \<Rightarrow> msg_error option \<times> outbox_table" where
  "mark_outbox_failed now row code rows =
     (if code = [] then (Some MsgInvalid, rows)
      else leased_write now row (\<lambda>o'. (unleased o')\<lparr>so_status := Failed, so_last_failure_code := Some code\<rparr>) rows)"

section \<open>Results by key\<close>

definition awaits_result :: "string \<Rightarrow> stored_outbox_row \<Rightarrow> bool" where
  "awaits_result key o' \<longleftrightarrow> so_key o' = key \<and> is_credit (so_kind o') \<and> (so_status o' = Pending \<or> so_status o' = Sent)"

definition confirm_by_key :: "int \<Rightarrow> string \<Rightarrow> outbox_table \<Rightarrow> (msg_error + bool) \<times> outbox_table" where
  "confirm_by_key now key rows =
     (if key = [] then (Inl MsgInvalid, rows)
      else (Inr (list_ex (awaits_result key) rows),
        update_where (awaits_result key)
          (\<lambda>o'. (unleased o')\<lparr>so_status := Confirmed, so_confirmed_at := Some now, so_last_failure_code := None\<rparr>) rows))"

definition mark_failed_by_key :: "string \<Rightarrow> string \<Rightarrow> outbox_table \<Rightarrow> (msg_error + bool) \<times> outbox_table" where
  "mark_failed_by_key key code rows =
     (if key = [] \<or> code = [] then (Inl MsgInvalid, rows)
      else (Inr (list_ex (awaits_result key) rows),
        update_where (awaits_result key) (\<lambda>o'. (unleased o')\<lparr>so_status := Failed, so_last_failure_code := Some code\<rparr>) rows))"

section \<open>The unconfirmed sweep\<close>

text \<open>A row never sent has no sending time: \<^verbatim>\<open>NULL <= t\<close> selects nothing.\<close>

definition unconfirmed :: "int \<Rightarrow> int \<Rightarrow> stored_outbox_row \<Rightarrow> bool" where
  "unconfirmed now timeout o' \<longleftrightarrow> so_status o' = Sent \<and> is_credit (so_kind o')
     \<and> (case so_sent_at o' of None \<Rightarrow> False | Some t \<Rightarrow> t \<le> now - whole_microseconds timeout)"

definition stale_ids :: "int \<Rightarrow> int \<Rightarrow> nat \<Rightarrow> outbox_table \<Rightarrow> int list" where
  "stale_ids now timeout limit rows =
     map so_id (take limit (sort_key (\<lambda>o'. time_or_zero (so_sent_at o')) (filter (unconfirmed now timeout) rows)))"

definition resend_unconfirmed :: "(stored_outbox_row list \<Rightarrow> stored_outbox_row list) \<Rightarrow> int \<Rightarrow> int \<Rightarrow> int \<Rightarrow> outbox_table
    \<Rightarrow> (msg_error + resent list) \<times> outbox_table" where
  "resend_unconfirmed order timeout limit now rows =
     (if timeout < 1000 \<or> limit < 1 \<or> limit > max_batch then (Inl MsgInvalid, rows)
      else let chosen = (\<lambda>o'. so_id o' \<in> set (stale_ids now timeout (nat limit) rows));
               rows' = update_where chosen (\<lambda>o'. (unleased o')\<lparr>so_status := Pending, so_next_attempt_at := now\<rparr>) rows
           in (Inr (map resent_of (order (filter chosen rows'))), rows'))"

section \<open>Reading and replaying\<close>

definition count_due :: "bool \<Rightarrow> int \<Rightarrow> outbox_table \<Rightarrow> int" where
  "count_due credit now rows =
     int (length (filter (\<lambda>o'. so_status o' = Pending \<and> so_next_attempt_at o' \<le> now \<and> in_family credit (so_kind o')) rows))"

definition get_by_key :: "string \<Rightarrow> outbox_table \<Rightarrow> msg_error + outbox_record" where
  "get_by_key key rows =
     (case find (\<lambda>o'. so_key o' = key) rows of None \<Rightarrow> Inl ErrOutboxNotFound | Some o' \<Rightarrow> Inr (record_of o'))"

definition list_failed :: "int \<Rightarrow> int \<Rightarrow> outbox_table \<Rightarrow> msg_error + outbox_record list" where
  "list_failed limit after_id rows =
     (if limit < 1 \<or> limit > max_batch \<or> after_id < 0 then Inl MsgInvalid
      else Inr (map record_of (take (nat limit)
        (sort_key so_id (filter (\<lambda>o'. so_status o' = Failed \<and> so_id o' > after_id) rows)))))"

definition requeue :: "int \<Rightarrow> int \<Rightarrow> outbox_table \<Rightarrow> (msg_error + outbox_record) \<times> outbox_table" where
  "requeue now i rows =
     (let f = (\<lambda>o'. (unleased o')\<lparr>so_status := Pending, so_attempts := 0, so_next_attempt_at := now\<rparr>) in
      case find (\<lambda>o'. so_id o' = i \<and> so_status o' = Failed) rows of
        Some o' \<Rightarrow> (Inr (record_of (f o')), update_where (\<lambda>o'. so_id o' = i \<and> so_status o' = Failed) f rows)
      | None \<Rightarrow> (Inl (if list_ex (\<lambda>o'. so_id o' = i) rows then ErrNotFailed else ErrOutboxNotFound), rows))"

text \<open>The audit trail of administrators, and the replay that writes it in the same transaction.\<close>

record audit_row =
  au_actor_id :: string
  au_action :: string
  au_target_type :: string
  au_target_id :: string
  au_reason :: "string option"
  au_outcome :: string
  au_at :: int

definition audit_outcomes :: "string list" where
  "audit_outcomes = [''SUCCEEDED'', ''REJECTED'', ''FAILED'']"

definition insert_requeue_audit :: "int \<Rightarrow> string \<Rightarrow> int \<Rightarrow> string \<Rightarrow> string \<Rightarrow> audit_row list \<Rightarrow> msg_error option \<times> audit_row list" where
  "insert_requeue_audit now actor i reason outcome audits =
     (if actor = [] \<or> i < 1 then (Some MsgInvalid, audits)
      else if outcome \<notin> set audit_outcomes then (Some MsgInvalid, audits)
      else (None, audits @ [\<lparr>au_actor_id = actor, au_action = ''OUTBOX_REQUEUE'', au_target_type = ''OUTBOX'', au_target_id = itoa i,
        au_reason = (if reason = [] then None else Some reason), au_outcome = outcome, au_at = now\<rparr>]))"

definition requeue_audited :: "int \<Rightarrow> string \<Rightarrow> int \<Rightarrow> string \<Rightarrow> outbox_table \<times> audit_row list
    \<Rightarrow> (msg_error + outbox_record) \<times> outbox_table \<times> audit_row list" where
  "requeue_audited now actor i reason s =
     (case requeue now i (fst s) of (res, rows) \<Rightarrow>
       let outcome = (case res of Inr _ \<Rightarrow> ''SUCCEEDED'' | Inl _ \<Rightarrow> ''REJECTED'') in
       case insert_requeue_audit now actor i reason outcome (snd s) of
         (Some err, _) \<Rightarrow> (Inl err, s)
       | (None, audits) \<Rightarrow> (res, rows, audits))"

section \<open>Pages of failed rows\<close>

text \<open>
  The listing of \<^verbatim>\<open>outboxadmin\<close>: one row more than the page is read, to know whether a next page
  exists. A cursor is the identity of the last row of a page.
\<close>

definition failed_page :: "int \<Rightarrow> int \<Rightarrow> outbox_table \<Rightarrow> msg_error + outbox_record list \<times> int option" where
  "failed_page limit after_id rows =
     (case list_failed (limit + 1) after_id rows of
        Inl err \<Rightarrow> Inl err
      | Inr found \<Rightarrow>
          if int (length found) > limit
          then Inr (take (nat limit) found, Some (oc_id (found ! (nat limit - 1))))
          else Inr (found, None))"

end
