(* ===== verification/Outbox_Ops.thy ===== *)
theory Outbox_Ops
  imports Outbox_Repo
begin

text \<open>
  What sequences of outbox statements do. Workers, result handlers, the sweep and administrators issue
  them in any order; each statement changes the delivery columns of some rows and nothing else, and which
  rows it may touch depends on their status and lease alone.
\<close>

datatype outbox_op =
    OpClaim string bool int int
  | OpSent msg_row
  | OpReschedule msg_row int string
  | OpFail msg_row string
  | OpConfirm string
  | OpFailByKey string string
  | OpResend int int
  | OpRequeue int

fun exec_op :: "int \<Rightarrow> outbox_op \<Rightarrow> outbox_table \<Rightarrow> outbox_table" where
  "exec_op now (OpClaim worker credit limit lease) rows = snd (claim_outbox id worker credit limit lease now rows)"
| "exec_op now (OpSent row) rows = snd (mark_outbox_sent now row rows)"
| "exec_op now (OpReschedule row delay code) rows = snd (reschedule_outbox now row delay code rows)"
| "exec_op now (OpFail row code) rows = snd (mark_outbox_failed now row code rows)"
| "exec_op now (OpConfirm key) rows = snd (confirm_by_key now key rows)"
| "exec_op now (OpFailByKey key code) rows = snd (mark_failed_by_key key code rows)"
| "exec_op now (OpResend timeout limit) rows = snd (resend_unconfirmed id timeout limit now rows)"
| "exec_op now (OpRequeue i) rows = snd (requeue now i rows)"

definition run_ops :: "(int \<times> outbox_op) list \<Rightarrow> outbox_table \<Rightarrow> outbox_table" where
  "run_ops ops rows = fold (\<lambda>(now, op). exec_op now op) ops rows"

text \<open>The rows a statement may write, and what it writes into one.\<close>

fun op_touches :: "int \<Rightarrow> outbox_op \<Rightarrow> stored_outbox_row \<Rightarrow> bool" where
  "op_touches now (OpClaim worker credit limit lease) o' = outbox_claimable credit now o'"
| "op_touches now (OpSent row) o' = lease_held now row o'"
| "op_touches now (OpReschedule row delay code) o' = lease_held now row o'"
| "op_touches now (OpFail row code) o' = lease_held now row o'"
| "op_touches now (OpConfirm key) o' = awaits_result key o'"
| "op_touches now (OpFailByKey key code) o' = awaits_result key o'"
| "op_touches now (OpResend timeout limit) o' = unconfirmed now timeout o'"
| "op_touches now (OpRequeue i) o' = (so_id o' = i \<and> so_status o' = Failed)"

fun op_write :: "int \<Rightarrow> outbox_op \<Rightarrow> stored_outbox_row \<Rightarrow> stored_outbox_row" where
  "op_write now (OpClaim worker credit limit lease) o' = leased_to worker (now + whole_microseconds lease) o'"
| "op_write now (OpSent row) o' = (unleased o')\<lparr>so_status := Sent, so_sent_at := Some now, so_last_failure_code := None\<rparr>"
| "op_write now (OpReschedule row delay code) o' =
     (unleased o')\<lparr>so_next_attempt_at := now + whole_microseconds delay, so_last_failure_code := Some code\<rparr>"
| "op_write now (OpFail row code) o' = (unleased o')\<lparr>so_status := Failed, so_last_failure_code := Some code\<rparr>"
| "op_write now (OpConfirm key) o' = (unleased o')\<lparr>so_status := Confirmed, so_confirmed_at := Some now, so_last_failure_code := None\<rparr>"
| "op_write now (OpFailByKey key code) o' = (unleased o')\<lparr>so_status := Failed, so_last_failure_code := Some code\<rparr>"
| "op_write now (OpResend timeout limit) o' = (unleased o')\<lparr>so_status := Pending, so_next_attempt_at := now\<rparr>"
| "op_write now (OpRequeue i) o' = (unleased o')\<lparr>so_status := Pending, so_attempts := 0, so_next_attempt_at := now\<rparr>"

section \<open>The invariant of the table\<close>

definition row_ok :: "stored_outbox_row \<Rightarrow> bool" where
  "row_ok o' \<longleftrightarrow> 0 \<le> so_attempts o' \<and> (so_status o' = Confirmed \<longrightarrow> is_credit (so_kind o'))
     \<and> (so_status o' \<noteq> Pending \<longrightarrow> so_lease_owner o' = None)
     \<and> (so_lease_owner o' = None \<longleftrightarrow> so_lease_expires_at o' = None)
     \<and> (so_status o' = Sent \<longrightarrow> so_sent_at o' \<noteq> None)"

definition table_ok :: "outbox_table \<Rightarrow> bool" where
  "table_ok rows \<longleftrightarrow> distinct (map so_id rows) \<and> distinct (map so_key rows) \<and> (\<forall>o' \<in> set rows. row_ok o')"

lemma table_okD:
  assumes "table_ok rows" "x \<in> set rows" "y \<in> set rows"
  shows "so_id x = so_id y \<longleftrightarrow> x = y" "so_key x = so_key y \<longleftrightarrow> x = y" "row_ok x"
  using assms distinct_key_eq [of so_id rows x y] distinct_key_eq [of so_key rows x y] unfolding table_ok_def by blast+

text \<open>The message a row carries.\<close>

definition message_of :: "stored_outbox_row \<Rightarrow> int \<times> string \<times> string \<times> string \<times> payload \<times> int" where
  "message_of o' = (so_id o', so_kind o', so_key o', so_errand_id o', so_payload o', so_created_at o')"

lemma unleased_fields [simp]:
  "so_id (unleased o') = so_id o'" "so_kind (unleased o') = so_kind o'" "so_key (unleased o') = so_key o'"
  "so_errand_id (unleased o') = so_errand_id o'" "so_payload (unleased o') = so_payload o'" "so_created_at (unleased o') = so_created_at o'"
  "so_attempts (unleased o') = so_attempts o'" "so_status (unleased o') = so_status o'" "so_sent_at (unleased o') = so_sent_at o'"
  "so_lease_owner (unleased o') = None" "so_lease_expires_at (unleased o') = None" "so_next_attempt_at (unleased o') = so_next_attempt_at o'"
  by (simp_all add: unleased_def)

lemma leased_to_fields [simp]:
  "so_id (leased_to w u o') = so_id o'" "so_kind (leased_to w u o') = so_kind o'" "so_key (leased_to w u o') = so_key o'"
  "so_errand_id (leased_to w u o') = so_errand_id o'" "so_payload (leased_to w u o') = so_payload o'" "so_created_at (leased_to w u o') = so_created_at o'"
  "so_attempts (leased_to w u o') = so_attempts o' + 1" "so_status (leased_to w u o') = so_status o'" "so_sent_at (leased_to w u o') = so_sent_at o'"
  "so_lease_owner (leased_to w u o') = Some w" "so_lease_expires_at (leased_to w u o') = Some u" "so_next_attempt_at (leased_to w u o') = so_next_attempt_at o'"
  by (simp_all add: leased_to_def)

lemma op_write_message [simp]: "message_of (op_write now op o') = message_of o'"
  by (cases op) (simp_all add: message_of_def)

lemma op_write_identity [simp]: "so_id (op_write now op o') = so_id o'" "so_key (op_write now op o') = so_key o'"
  "so_kind (op_write now op o') = so_kind o'"
  by (cases op; simp)+

lemma op_write_ok:
  assumes "row_ok o'" "op_touches now op o'"
  shows "row_ok (op_write now op o')"
  using assms by (cases op) (auto simp: row_ok_def awaits_result_def lease_held_def outbox_claimable_def)

section \<open>A statement is an update of the rows it touches\<close>

lemma claimed_ids_claimable:
  assumes "i \<in> set (claimed_ids credit now limit rows)"
  shows "\<exists>o' \<in> set rows. so_id o' = i \<and> outbox_claimable credit now o'"
proof -
  obtain o' where "o' \<in> set (sort_key so_next_attempt_at (sort_key so_id (filter (outbox_claimable credit now) rows)))" "so_id o' = i"
    using assms unfolding claimed_ids_def by (auto dest: in_set_takeD)
  then show ?thesis by auto
qed

lemma stale_ids_unconfirmed:
  assumes "i \<in> set (stale_ids now timeout limit rows)"
  shows "\<exists>o' \<in> set rows. so_id o' = i \<and> unconfirmed now timeout o'"
proof -
  obtain o' where "o' \<in> set (sort_key (\<lambda>o'. time_or_zero (so_sent_at o')) (filter (unconfirmed now timeout) rows))" "so_id o' = i"
    using assms unfolding stale_ids_def by (auto dest: in_set_takeD)
  then show ?thesis by auto
qed

lemma chosen_claimable:
  assumes "table_ok rows" "o' \<in> set rows" "so_id o' \<in> set (claimed_ids credit now limit rows)"
  shows "outbox_claimable credit now o'"
  using claimed_ids_claimable [OF assms(3)] table_okD(1) [OF assms(1)] assms(2) by metis

lemma chosen_unconfirmed:
  assumes "table_ok rows" "o' \<in> set rows" "so_id o' \<in> set (stale_ids now timeout limit rows)"
  shows "unconfirmed now timeout o'"
  using stale_ids_unconfirmed [OF assms(3)] table_okD(1) [OF assms(1)] assms(2) by metis

lemma update_where_False [simp]: "update_where (\<lambda>_. False) f rows = rows"
  by (simp add: update_where_def)

lemma filter_update_where: "(\<And>x. p (f x) = p x) \<Longrightarrow> filter p (update_where p f rows) = map f (filter p rows)"
  by (induction rows) auto

lemma filter_update_not: "(\<And>x. \<not> q (f x)) \<Longrightarrow> filter q (update_where p f rows) = filter (\<lambda>x. q x \<and> \<not> p x) rows"
  by (induction rows) auto

lemma length_filter_split: "length (filter q xs) = length (filter (\<lambda>x. q x \<and> p x) xs) + length (filter (\<lambda>x. q x \<and> \<not> p x) xs)"
  by (induction xs) auto

lemma exec_op_update:
  assumes "table_ok rows"
  shows "\<exists>p. exec_op now op rows = update_where p (op_write now op) rows \<and> (\<forall>o' \<in> set rows. p o' \<longrightarrow> op_touches now op o')"
    (is "\<exists>p. ?upd p \<and> ?ok p")
proof -
  have pick: ?thesis if "\<And>o'. o' \<in> set rows \<Longrightarrow> p o' \<Longrightarrow> op_touches now op o'" "exec_op now op rows = rows \<or> ?upd p" for p
    using that(2)
  proof
    assume "exec_op now op rows = rows"
    then show ?thesis by (intro exI [of _ "\<lambda>_. False"]) simp
  next
    assume "?upd p"
    with that(1) show ?thesis by (intro exI [of _ p]) simp
  qed
  show ?thesis
  proof (cases op)
    case (OpClaim worker credit limit lease)
    then show ?thesis using chosen_claimable [OF assms]
      by (intro pick [of "\<lambda>o'. so_id o' \<in> set (claimed_ids credit now (nat limit) rows)"])
        (simp_all add: claim_outbox_def Let_def update_where_def)
  next
    case (OpSent row)
    then show ?thesis
      by (intro pick [of "lease_held now row"]) (simp_all add: mark_outbox_sent_def leased_write_def update_where_def)
  next
    case (OpReschedule row delay code)
    then show ?thesis
      by (intro pick [of "lease_held now row"]) (simp_all add: reschedule_outbox_def leased_write_def update_where_def)
  next
    case (OpFail row code)
    then show ?thesis
      by (intro pick [of "lease_held now row"]) (simp_all add: mark_outbox_failed_def leased_write_def update_where_def)
  next
    case (OpConfirm key)
    then show ?thesis by (intro pick [of "awaits_result key"]) (simp_all add: confirm_by_key_def update_where_def)
  next
    case (OpFailByKey key code)
    then show ?thesis by (intro pick [of "awaits_result key"]) (simp_all add: mark_failed_by_key_def update_where_def)
  next
    case (OpResend timeout limit)
    then show ?thesis using chosen_unconfirmed [OF assms]
      by (intro pick [of "\<lambda>o'. so_id o' \<in> set (stale_ids now timeout (nat limit) rows)"])
        (simp_all add: resend_unconfirmed_def Let_def update_where_def)
  next
    case (OpRequeue i)
    then show ?thesis
      by (intro pick [of "\<lambda>o'. so_id o' = i \<and> so_status o' = Failed"])
        (simp_all add: requeue_def Let_def update_where_def split: option.split)
  qed
qed

section \<open>Runs\<close>

text \<open>How one statement may change a row: the message stays, and a confirmed row stays as it is.\<close>

definition row_moves :: "stored_outbox_row \<Rightarrow> stored_outbox_row \<Rightarrow> bool" where
  "row_moves o' n \<longleftrightarrow> message_of n = message_of o' \<and> (so_status o' = Confirmed \<longrightarrow> n = o')
     \<and> (so_status n = Confirmed \<longrightarrow> is_credit (so_kind n))"

lemma op_row_moves:
  assumes "row_ok o'" "op_touches now op o'"
  shows "row_moves o' (op_write now op o')"
proof -
  have "so_status o' \<noteq> Confirmed"
    using assms(2) by (cases op) (auto simp: lease_held_def awaits_result_def outbox_claimable_def unconfirmed_def)
  moreover have "so_status (op_write now op o') = Confirmed \<longrightarrow> is_credit (so_kind (op_write now op o'))"
    using op_write_ok [OF assms] by (simp add: row_ok_def)
  ultimately show ?thesis by (simp add: row_moves_def)
qed

lemma exec_op_step:
  assumes "table_ok rows"
  shows "table_ok (exec_op now op rows) \<and> list_all2 row_moves rows (exec_op now op rows)"
proof -
  obtain p where upd: "exec_op now op rows = update_where p (op_write now op) rows"
    and ok: "\<forall>o' \<in> set rows. p o' \<longrightarrow> op_touches now op o'"
    using exec_op_update [OF assms] by blast
  have rows: "\<forall>o' \<in> set rows. row_ok o'" using assms by (simp add: table_ok_def)
  have "table_ok (exec_op now op rows)"
    using assms ok op_write_ok unfolding upd table_ok_def by (auto simp: map_update_where set_update_where)
  moreover have "list_all2 row_moves rows (exec_op now op rows)"
    using ok rows op_row_moves unfolding upd update_where_def
    by (auto simp: list_all2_conv_all_nth) (auto simp: row_moves_def row_ok_def)
  ultimately show ?thesis ..
qed

lemma row_moves_trans: "row_moves a b \<Longrightarrow> row_moves b c \<Longrightarrow> row_moves a c"
  by (auto simp: row_moves_def)

lemma run_ops_simps [simp]: "run_ops [] rows = rows" "run_ops ((now, op) # ops) rows = run_ops ops (exec_op now op rows)"
  by (simp_all add: run_ops_def)

lemma run_ops_step:
  assumes "table_ok rows"
  shows "table_ok (run_ops ops rows) \<and> list_all2 row_moves rows (run_ops ops rows)"
  using assms
proof (induction ops arbitrary: rows)
  case Nil
  then show ?case by (auto simp: list_all2_conv_all_nth table_ok_def row_moves_def row_ok_def)
next
  case (Cons x ops)
  obtain now op where x: "x = (now, op)" by (cases x)
  note step = exec_op_step [OF Cons.prems, of now op]
  from Cons.IH [of "exec_op now op rows"] step have IH: "table_ok (run_ops ops (exec_op now op rows))"
    "list_all2 row_moves (exec_op now op rows) (run_ops ops (exec_op now op rows))" by simp_all
  have "list_all2 row_moves rows (run_ops ops (exec_op now op rows))"
    by (rule list_all2_trans [OF _ conjunct2 [OF step] IH(2)]) (rule row_moves_trans)
  with IH(1) x show ?case by simp
qed

section \<open>Delivery as a state machine\<close>

text \<open>The phases a row may go through; \<open>credit\<close> says that a result is expected for it.\<close>

inductive phase_step :: "bool \<Rightarrow> outbox_status \<Rightarrow> outbox_status \<Rightarrow> bool" for credit where
  stay: "phase_step credit s s"
| publish: "phase_step credit Pending Sent"
| give_up: "phase_step credit Pending Failed"
| confirm: "credit \<Longrightarrow> s \<in> {Pending, Sent} \<Longrightarrow> phase_step credit s Confirmed"
| refuse: "credit \<Longrightarrow> phase_step credit Sent Failed"
| resend: "credit \<Longrightarrow> phase_step credit Sent Pending"
| replay: "phase_step credit Failed Pending"

inductive_cases phase_step_ConfirmedE: "phase_step credit Confirmed s"

lemma phase_step_confirmed: "(phase_step credit)\<^sup>*\<^sup>* s s' \<Longrightarrow> s = Confirmed \<Longrightarrow> s' = Confirmed"
  by (induction rule: rtranclp_induct) (auto elim: phase_step_ConfirmedE)

lemma phase_step_event: "(phase_step False)\<^sup>*\<^sup>* s s' \<Longrightarrow> s \<noteq> Confirmed \<Longrightarrow> s' \<noteq> Confirmed"
  by (induction rule: rtranclp_induct) (auto elim: phase_step.cases)

lemma op_phase_step:
  assumes "op_touches now op o'"
  shows "phase_step (is_credit (so_kind o')) (so_status o') (so_status (op_write now op o'))"
  using assms
  by (cases op) (auto simp: lease_held_def awaits_result_def outbox_claimable_def unconfirmed_def intro: phase_step.intros)

lemma run_ops_phases:
  assumes "table_ok rows"
  shows "list_all2 (\<lambda>o' n. message_of n = message_of o' \<and> (phase_step (is_credit (so_kind o')))\<^sup>*\<^sup>* (so_status o') (so_status n)) rows (run_ops ops rows)"
  using assms
proof (induction ops arbitrary: rows)
  case Nil
  then show ?case by (simp add: list_all2_conv_all_nth)
next
  case (Cons x ops)
  obtain now op where x: "x = (now, op)" by (cases x)
  obtain p where upd: "exec_op now op rows = update_where p (op_write now op) rows"
    and ok: "\<forall>o' \<in> set rows. p o' \<longrightarrow> op_touches now op o'"
    using exec_op_update [OF Cons.prems] by blast
  have first: "list_all2 (\<lambda>o' n. message_of n = message_of o' \<and> so_kind n = so_kind o'
      \<and> phase_step (is_credit (so_kind o')) (so_status o') (so_status n)) rows (exec_op now op rows)"
    using ok op_phase_step unfolding upd update_where_def by (auto simp: list_all2_conv_all_nth intro: phase_step.stay)
  have next_ok: "table_ok (exec_op now op rows)" using exec_op_step [OF Cons.prems] by blast
  have "list_all2 (\<lambda>o' n. message_of n = message_of o' \<and> (phase_step (is_credit (so_kind o')))\<^sup>*\<^sup>* (so_status o') (so_status n))
      rows (run_ops ops (exec_op now op rows))"
    by (rule list_all2_trans [OF _ first Cons.IH [OF next_ok]]) (auto intro: converse_rtranclp_into_rtranclp)
  with x show ?case by simp
qed

section \<open>Leases\<close>

text \<open>The statements that settle a claimed row: the writes for it and the results for its key.\<close>

fun settles :: "msg_row \<Rightarrow> outbox_op \<Rightarrow> bool" where
  "settles row (OpSent r) = (mr_id r = mr_id row)"
| "settles row (OpReschedule r delay code) = (mr_id r = mr_id row)"
| "settles row (OpFail r code) = (mr_id r = mr_id row)"
| "settles row (OpConfirm key) = (key = mr_key row)"
| "settles row (OpFailByKey key code) = (key = mr_key row)"
| "settles row _ = False"

definition leased_until :: "int \<Rightarrow> msg_row \<Rightarrow> stored_outbox_row \<Rightarrow> bool" where
  "leased_until until row o' \<longleftrightarrow> so_id o' = mr_id row \<and> so_key o' = mr_key row \<and> so_status o' = Pending
     \<and> so_lease_owner o' = Some (mr_lease_owner row) \<and> so_attempts o' = mr_attempts row \<and> so_lease_expires_at o' = Some until"

lemma leased_until_held: "leased_until until row o' \<Longrightarrow> now < until \<Longrightarrow> lease_held now row o'"
  by (simp add: leased_until_def lease_held_def)

lemma leased_until_kept:
  assumes ok: "table_ok rows" and o': "o' \<in> set rows" "leased_until until row o'"
    and "\<not> settles row op" "now < until"
  shows "o' \<in> set (exec_op now op rows)"
proof -
  obtain p where upd: "exec_op now op rows = update_where p (op_write now op) rows"
    and touch: "\<forall>o' \<in> set rows. p o' \<longrightarrow> op_touches now op o'"
    using exec_op_update [OF ok] by blast
  have "\<not> op_touches now op o'"
    using assms by (cases op) (auto simp: leased_until_def lease_held_def awaits_result_def outbox_claimable_def unconfirmed_def)
  with touch o'(1) show ?thesis unfolding upd by (auto simp: set_update_where)
qed

lemma leased_until_run:
  assumes "table_ok rows" "o' \<in> set rows" "leased_until until row o'"
    and "\<forall>(now, op) \<in> set ops. \<not> settles row op \<and> now < until"
  shows "o' \<in> set (run_ops ops rows)"
  using assms(1,2,4)
proof (induction ops arbitrary: rows)
  case (Cons x ops)
  obtain now op where x: "x = (now, op)" by (cases x)
  have "o' \<in> set (exec_op now op rows)"
    by (rule leased_until_kept [OF Cons.prems(1,2) assms(3)]) (use Cons.prems(3) x in auto)
  with Cons.IH [of "exec_op now op rows"] exec_op_step [OF Cons.prems(1)] Cons.prems(3) x show ?case by simp
qed simp

lemma claim_outbox_Inr:
  assumes "claim_outbox order worker credit limit lease now rows = (Inr claimed, rows')" "\<And>xs. mset (order xs) = mset xs"
  shows "rows' = update_where (\<lambda>o'. so_id o' \<in> set (claimed_ids credit now (nat limit) rows)) (leased_to worker (now + whole_microseconds lease)) rows"
    "mset claimed = mset (map msg_row_of (filter (\<lambda>o'. so_id o' \<in> set (claimed_ids credit now (nat limit) rows)) rows'))"
    "rows' = exec_op now (OpClaim worker credit limit lease) rows" "1 \<le> limit" "limit \<le> max_batch" "1000 \<le> lease"
  using assms(1) assms(2) by (auto simp: claim_outbox_def Let_def split: if_splits)

lemma claimed_rows:
  assumes "claim_outbox order worker credit limit lease now rows = (Inr claimed, rows')" "\<And>xs. mset (order xs) = mset xs"
  shows "set claimed = msg_row_of ` {o' \<in> set rows'. so_id o' \<in> set (claimed_ids credit now (nat limit) rows)}"
  using mset_eq_setD [OF claim_outbox_Inr(2) [OF assms]] by simp

lemma claimed_leased:
  assumes ok: "table_ok rows" and cl: "claim_outbox order worker credit limit lease now rows = (Inr claimed, rows')"
    and perm: "\<And>xs. mset (order xs) = mset xs" and row: "row \<in> set claimed"
  shows "\<exists>o' \<in> set rows'. leased_until (now + whole_microseconds lease) row o' \<and> msg_row_of o' = row"
proof -
  note c = claim_outbox_Inr [OF cl perm]
  let ?ids = "set (claimed_ids credit now (nat limit) rows)"
  obtain n where n: "n \<in> set rows'" "so_id n \<in> ?ids" "row = msg_row_of n" using row unfolding claimed_rows [OF cl perm] by auto
  then obtain o' where o': "o' \<in> set rows" "n = leased_to worker (now + whole_microseconds lease) o'"
    unfolding c(1) by (auto simp: set_update_where)
  have "outbox_claimable credit now o'" by (rule chosen_claimable [OF ok o'(1)]) (use n(2) o'(2) in simp)
  then have "leased_until (now + whole_microseconds lease) row n"
    using n(3) o'(2) by (simp add: leased_until_def msg_row_of_def outbox_claimable_def string_of_def)
  with n show ?thesis by auto
qed

end
