(* ===== verification/Resilience.thy ===== *)
theory Resilience
  imports Go_Time
begin

text \<open>
  Package \<^verbatim>\<open>resilience\<close> of order-service: exponential backoff, the circuit breaker and
  \<^verbatim>\<open>Do\<close>. Durations are 64-bit: the doubling of the backoff is written with its wrap-around. The
  generation of a breaker is unbounded here; it would take \<open>2 ^ 64\<close> state changes to repeat.
\<close>

section \<open>Backoff\<close>

record backoff_policy =
  bp_base :: int
  bp_cap :: int

definition default_backoff_policy :: backoff_policy where
  "default_backoff_policy = \<lparr>bp_base = 2 * second, bp_cap = 5 * minute\<rparr>"

definition backoff_valid :: "backoff_policy \<Rightarrow> bool" where
  "backoff_valid p \<longleftrightarrow> \<not> bp_base p \<le> 0 \<and> \<not> bp_cap p < bp_base p"

text \<open>The loop of \<^verbatim>\<open>Ceiling\<close>, with \<open>n\<close> rounds left.\<close>

fun ceiling_loop :: "int \<Rightarrow> nat \<Rightarrow> int \<Rightarrow> int" where
  "ceiling_loop cap 0 d = d"
| "ceiling_loop cap (Suc n) d =
     (if \<not> d < cap then d else if d > cap div 2 then cap else ceiling_loop cap n (i64 (2 * d)))"

definition backoff_ceiling :: "backoff_policy \<Rightarrow> int \<Rightarrow> int" where
  "backoff_ceiling p attempt = min (ceiling_loop (bp_cap p) (nat (attempt - 1)) (bp_base p)) (bp_cap p)"

text \<open>\<open>rnd n\<close> is the random source: a value in \<open>[0, n)\<close>.\<close>

definition backoff :: "backoff_policy \<Rightarrow> (int \<Rightarrow> int) \<Rightarrow> int \<Rightarrow> int" where
  "backoff p rnd attempt =
     (let n = backoff_ceiling p attempt in
      if n \<le> 0 then 0 else rnd (if n < int64_max then n + 1 else n))"

lemma ceiling_loop_exp:
  assumes "0 < d" "d \<le> cap" "in_int64 cap"
  shows "ceiling_loop cap n d = min cap (d * 2 ^ n)"
  using assms
proof (induction n arbitrary: d)
  case (Suc n)
  show ?case
  proof (cases "d < cap")
    case True
    show ?thesis
    proof (cases "d > cap div 2")
      case True
      then have "cap \<le> d * 2" by linarith
      also have "d * 2 \<le> d * 2 ^ Suc n" using Suc.prems(1) by simp
      finally show ?thesis using True \<open>d < cap\<close> by simp
    next
      case False
      then have le: "2 * d \<le> cap" by linarith
      have "in_int64 (2 * d)" using Suc.prems le by (simp add: in_int64_def int64_min_def)
      with Suc.IH [of "2 * d"] Suc.prems le False True show ?thesis by (simp add: i64_id mult.assoc)
    qed
  next
    case False
    with Suc.prems have "d = cap" by simp
    moreover have "cap * 1 \<le> cap * 2 ^ Suc n"
      using Suc.prems by (intro mult_left_mono one_le_power) auto
    ultimately show ?thesis by simp
  qed
qed simp

section \<open>The circuit breaker\<close>

datatype breaker_state = StateClosed | StateOpen | StateHalfOpen

record breaker_config =
  bc_name :: string
  bc_failure_threshold :: int
  bc_cool_down :: int

definition default_breaker_config :: "string \<Rightarrow> breaker_config" where
  "default_breaker_config name = \<lparr>bc_name = name, bc_failure_threshold = 5, bc_cool_down = 30 * second\<rparr>"

definition breaker_config_valid :: "breaker_config \<Rightarrow> bool" where
  "breaker_config_valid c \<longleftrightarrow> bc_name c \<noteq> [] \<and> \<not> bc_failure_threshold c < 1 \<and> \<not> bc_cool_down c \<le> 0"

record breaker =
  b_state :: breaker_state
  b_failures :: int
  b_opened_at :: int
  b_trial :: bool
  b_generation :: int

definition new_breaker :: "breaker_config \<Rightarrow> breaker option" where
  "new_breaker c = (if breaker_config_valid c
     then Some \<lparr>b_state = StateClosed, b_failures = 0, b_opened_at = zero_time, b_trial = False, b_generation = 0\<rparr> else None)"

datatype outcome = OutcomeSuccess | OutcomeFailure | OutcomeIgnored

record ticket =
  tk_generation :: int
  tk_trial :: bool

definition set_state_locked :: "int \<Rightarrow> breaker_state \<Rightarrow> breaker \<Rightarrow> breaker" where
  "set_state_locked now s b =
     b\<lparr>b_state := s, b_failures := 0, b_trial := False, b_generation := b_generation b + 1,
       b_opened_at := (if s = StateOpen then now else b_opened_at b)\<rparr>"

definition cool_down_locked :: "breaker_config \<Rightarrow> int \<Rightarrow> breaker \<Rightarrow> breaker" where
  "cool_down_locked c now b =
     (if b_state b = StateOpen \<and> \<not> now < b_opened_at b + bc_cool_down c then set_state_locked now StateHalfOpen b else b)"

definition breaker_current :: "breaker_config \<Rightarrow> int \<Rightarrow> breaker \<Rightarrow> breaker_state \<times> breaker" where
  "breaker_current c now b = (let b' = cool_down_locked c now b in (b_state b', b'))"

text \<open>\<open>None\<close> is \<^verbatim>\<open>ErrCircuitOpen\<close>.\<close>

definition allow :: "breaker_config \<Rightarrow> int \<Rightarrow> breaker \<Rightarrow> ticket option \<times> breaker" where
  "allow c now b =
     (let b' = cool_down_locked c now b in
      case b_state b' of
        StateOpen \<Rightarrow> (None, b')
      | StateHalfOpen \<Rightarrow> if b_trial b' then (None, b')
          else (Some \<lparr>tk_generation = b_generation b', tk_trial = True\<rparr>, b'\<lparr>b_trial := True\<rparr>)
      | StateClosed \<Rightarrow> (Some \<lparr>tk_generation = b_generation b', tk_trial = False\<rparr>, b'))"

definition record_outcome :: "breaker_config \<Rightarrow> int \<Rightarrow> ticket \<Rightarrow> outcome \<Rightarrow> breaker \<Rightarrow> breaker" where
  "record_outcome c now t out b =
     (if tk_generation t \<noteq> b_generation b then b
      else if tk_trial t then
        (case out of
           OutcomeSuccess \<Rightarrow> set_state_locked now StateClosed b
         | OutcomeFailure \<Rightarrow> set_state_locked now StateOpen b
         | OutcomeIgnored \<Rightarrow> b\<lparr>b_trial := False\<rparr>)
      else
        (case out of
           OutcomeSuccess \<Rightarrow> b\<lparr>b_failures := 0\<rparr>
         | OutcomeFailure \<Rightarrow>
             let b' = b\<lparr>b_failures := b_failures b + 1\<rparr> in
             if b_failures b' \<ge> bc_failure_threshold c then set_state_locked now StateOpen b' else b'
         | OutcomeIgnored \<Rightarrow> b))"

section \<open>Do\<close>

text \<open>How the called function ended, and what the contexts say then.\<close>

record 'err call_end =
  ce_panicked :: bool
  ce_error :: "'err option"
  ce_ctx_done :: bool
  ce_call_ctx_done :: bool

datatype 'err do_error = CircuitOpen | CallFailed 'err | CallTimedOut 'err

definition outcome_of :: "('err \<Rightarrow> bool) \<Rightarrow> 'err call_end \<Rightarrow> outcome" where
  "outcome_of is_failure r =
     (if ce_panicked r then OutcomeFailure
      else (case ce_error r of
          None \<Rightarrow> OutcomeSuccess
        | Some err \<Rightarrow> if ce_ctx_done r then OutcomeIgnored
            else if ce_call_ctx_done r then OutcomeFailure
            else if is_failure err then OutcomeFailure else OutcomeIgnored))"

definition error_of :: "'err call_end \<Rightarrow> 'err do_error option" where
  "error_of r =
     (case ce_error r of
        None \<Rightarrow> None
      | Some err \<Rightarrow> if \<not> ce_ctx_done r \<and> ce_call_ctx_done r then Some (CallTimedOut err) else Some (CallFailed err))"

text \<open>One call: admitted at \<open>t0\<close>, back at \<open>t1\<close>; \<open>fn\<close> is the function and what happens to its contexts.\<close>

definition do_call :: "breaker_config \<Rightarrow> ('err \<Rightarrow> bool) \<Rightarrow> int \<Rightarrow> int \<Rightarrow> 'err call_end \<Rightarrow> breaker \<Rightarrow> 'err do_error option \<times> breaker" where
  "do_call c is_failure t0 t1 fn b =
     (case allow c t0 b of
        (None, b') \<Rightarrow> (Some CircuitOpen, b')
      | (Some t, b') \<Rightarrow> (error_of fn, record_outcome c t1 t (outcome_of is_failure fn) b'))"

section \<open>Concurrent calls\<close>

text \<open>The breaker with the tickets of the calls under way; calls begin and end in any order.\<close>

inductive breaker_run :: "breaker_config \<Rightarrow> breaker \<Rightarrow> ticket list \<Rightarrow> bool" for c where
  fresh: "new_breaker c = Some b \<Longrightarrow> breaker_run c b []"
| begun: "breaker_run c b ts \<Longrightarrow> allow c now b = (Some t, b') \<Longrightarrow> breaker_run c b' (ts @ [t])"
| rejected: "breaker_run c b ts \<Longrightarrow> allow c now b = (None, b') \<Longrightarrow> breaker_run c b' ts"
| asked: "breaker_run c b ts \<Longrightarrow> breaker_current c now b = (s, b') \<Longrightarrow> breaker_run c b' ts"
| ended: "breaker_run c b (xs @ t # ys) \<Longrightarrow> breaker_run c (record_outcome c now t out b) (xs @ ys)"

definition current_tickets :: "breaker \<Rightarrow> ticket list \<Rightarrow> ticket list" where
  "current_tickets b ts = filter (\<lambda>t. tk_generation t = b_generation b) ts"

definition breaker_inv :: "breaker_config \<Rightarrow> breaker \<Rightarrow> ticket list \<Rightarrow> bool" where
  "breaker_inv c b ts \<longleftrightarrow> 1 \<le> bc_failure_threshold c \<and> 0 \<le> b_failures b \<and> b_failures b < bc_failure_threshold c
     \<and> (\<forall>t \<in> set ts. tk_generation t \<le> b_generation b)
     \<and> (case b_state b of
          StateClosed \<Rightarrow> \<not> b_trial b \<and> (\<forall>t \<in> set (current_tickets b ts). \<not> tk_trial t)
        | StateOpen \<Rightarrow> \<not> b_trial b \<and> current_tickets b ts = [] \<and> b_failures b = 0
        | StateHalfOpen \<Rightarrow> b_failures b = 0 \<and> (\<forall>t \<in> set (current_tickets b ts). tk_trial t)
            \<and> length (current_tickets b ts) = (if b_trial b then 1 else 0))"

lemma set_state_inv:
  assumes "1 \<le> bc_failure_threshold c" "\<forall>t \<in> set ts. tk_generation t \<le> b_generation b"
  shows "breaker_inv c (set_state_locked now s b) ts"
proof -
  have "tk_generation u \<noteq> b_generation b + 1" if "u \<in> set ts" for u
    using assms(2) that by fastforce
  then have "filter (\<lambda>u. tk_generation u = b_generation b + 1) ts = []"
    unfolding filter_empty_conv by blast
  moreover have "\<forall>t \<in> set ts. tk_generation t \<le> b_generation b + 1" using assms(2) by fastforce
  ultimately show ?thesis using assms(1)
    by (cases s) (auto simp: breaker_inv_def set_state_locked_def current_tickets_def)
qed

lemma cool_down_inv: "breaker_inv c b ts \<Longrightarrow> breaker_inv c (cool_down_locked c now b) ts"
  by (simp add: cool_down_locked_def set_state_inv breaker_inv_def [of c b])

lemma allow_inv:
  assumes "breaker_inv c b ts" "allow c now b = (x, b')"
  shows "breaker_inv c b' (case x of None \<Rightarrow> ts | Some t \<Rightarrow> ts @ [t])"
  using cool_down_inv [OF assms(1), of now] assms(2)
  by (auto simp: allow_def breaker_inv_def current_tickets_def Let_def split: breaker_state.splits if_splits)

text \<open>A call that ended is gone from the calls under way.\<close>

lemma ended_tickets:
  assumes "breaker_inv c b (xs @ t # ys)" "tk_generation t \<noteq> b_generation b"
  shows "breaker_inv c b (xs @ ys)"
  using assms by (auto simp: breaker_inv_def current_tickets_def split: breaker_state.splits)

lemma ended_old:
  assumes "breaker_inv c b (xs @ t # ys)"
  shows "breaker_inv c (set_state_locked now s b) (xs @ ys)"
  using assms by (intro set_state_inv) (auto simp: breaker_inv_def)

lemma record_inv:
  assumes inv: "breaker_inv c b (xs @ t # ys)"
  shows "breaker_inv c (record_outcome c now t out b) (xs @ ys)"
proof (cases "tk_generation t = b_generation b")
  case False
  with ended_tickets [OF inv] show ?thesis by (simp add: record_outcome_def)
next
  case True
  have open_ok: "breaker_inv c (set_state_locked now StateOpen (b\<lparr>b_failures := x\<rparr>)) (xs @ ys)" for x
    using ended_old [OF inv, of now StateOpen] by (simp add: set_state_locked_def)
  show ?thesis
  proof (cases "tk_trial t")
    case True
    with \<open>tk_generation t = b_generation b\<close> ended_old [OF inv] inv show ?thesis
      by (cases out) (auto simp: record_outcome_def breaker_inv_def current_tickets_def split: breaker_state.splits if_splits)
  next
    case False
    with True open_ok inv show ?thesis
      by (cases out) (auto simp: record_outcome_def breaker_inv_def current_tickets_def Let_def split: breaker_state.splits if_splits)
  qed
qed

lemma breaker_run_inv: "breaker_run c b ts \<Longrightarrow> breaker_inv c b ts"
proof (induction rule: breaker_run.induct)
  case (fresh b)
  then show ?case
    by (auto simp: new_breaker_def breaker_config_valid_def breaker_inv_def current_tickets_def split: if_splits)
next
  case (begun b ts now t b')
  from allow_inv [OF begun.IH begun.hyps(2)] show ?case by simp
next
  case (rejected b ts now b')
  from allow_inv [OF rejected.IH rejected.hyps(2)] show ?case by simp
next
  case (asked b ts now s b')
  with cool_down_inv [of c b ts now] show ?case by (auto simp: breaker_current_def Let_def)
next
  case (ended b xs t ys now out)
  from record_inv [OF ended.IH] show ?case .
qed

end
