(* ===== verification/Outbox_Dispatch.thy ===== *)
theory Outbox_Dispatch
  imports Outbox_Ops Resilience
begin

text \<open>
  Package \<^verbatim>\<open>messaging\<close> of order-service: how an outbox row becomes a message
  (\<^verbatim>\<open>MessageFromOutbox\<close>, \<^verbatim>\<open>encode\<close>), and the dispatcher that claims rows, publishes them
  and records what happened. The broker is a parameter: \<open>re_publish\<close> says what
  \<^verbatim>\<open>Publish\<close> answers. Other workers, results and administrators may write between the
  publication of a row and the write that settles it; a \<open>row_env\<close> says which statements they issue.
\<close>

section \<open>Messages\<close>

record message =
  m_exchange :: string
  m_routing_key :: string
  m_message_id :: string
  m_correlation_id :: string
  m_type :: string
  m_occurred_at :: int
  m_errand_id :: string
  m_errand_version :: int
  m_data :: payload

definition exchange_events :: string where "exchange_events = ''foc.events''"
definition exchange_commands :: string where "exchange_commands = ''foc.commands''"

definition credit_commands :: "string list" where
  "credit_commands = [kind_credit_reserve, kind_credit_adjust, kind_credit_release, kind_credit_transfer]"

definition event_names :: "string list" where
  "event_names = map event_name_text transition_event_names
     @ map (\<lambda>a. ''errand.'' @ action_text a @ ''_rejected'') rejected_actions
     @ map event_name_text [ErrandVerificationReminder, ErrandPickupDeadlineApproaching]"

text \<open>
  Reading stored payloads: the fields \<^verbatim>\<open>errandId\<close>, \<^verbatim>\<open>errandVersion\<close> and
  \<^verbatim>\<open>at\<close>, and a payload read as a credit command. A field the payload lacks reads as its zero value.
\<close>

fun payload_head :: "payload \<Rightarrow> string \<times> int \<times> int" where
  "payload_head (CreditPayload c) = (cc_errand_id c, cc_errand_version c, zero_time)"
| "payload_head (EventPayload d) = (ed_errand_id d, ed_errand_version d, ed_at d)"
| "payload_head (RejectionPayload d) = (rd_errand_id d, rd_errand_version d, rd_at d)"
| "payload_head (ReminderPayload d) = (rm_errand_id d, rm_errand_version d, rm_at d)"

fun payload_command :: "payload \<Rightarrow> credit_command" where
  "payload_command (CreditPayload c) = c"
| "payload_command (EventPayload d) = empty_command\<lparr>cc_errand_id := ed_errand_id d, cc_errand_version := ed_errand_version d,
     cc_requester_id := ed_requester_id d, cc_courier_id := ed_courier_id d\<rparr>"
| "payload_command (RejectionPayload d) = empty_command\<lparr>cc_errand_id := rd_errand_id d, cc_errand_version := rd_errand_version d\<rparr>"
| "payload_command (ReminderPayload d) = empty_command\<lparr>cc_errand_id := rm_errand_id d, cc_errand_version := rm_errand_version d,
     cc_requester_id := rm_requester_id d, cc_courier_id := rm_courier_id d\<rparr>"

definition valid_route :: "message \<Rightarrow> bool" where
  "valid_route m \<longleftrightarrow> m_exchange m = exchange_commands \<and> m_routing_key m \<in> set credit_commands
     \<or> m_exchange m = exchange_events \<and> m_routing_key m \<in> set event_names"

definition valid_command :: "message \<Rightarrow> bool" where
  "valid_command m \<longleftrightarrow> (let c = payload_command (m_data m) in
     cc_errand_id c = m_errand_id m \<and> cc_errand_version c = m_errand_version m \<and> cc_requester_id c \<noteq> []
     \<and> (m_routing_key m = kind_credit_reserve \<or> m_routing_key m = kind_credit_transfer \<longrightarrow>
          cc_amount c > 0 \<and> (m_routing_key m = kind_credit_transfer \<longrightarrow> cc_courier_id c \<noteq> []))
     \<and> (m_routing_key m = kind_credit_adjust \<longrightarrow> cc_new_amount c > 0 \<and> cc_seq c > 0))"

text \<open>Whether \<^verbatim>\<open>encode\<close> accepts the message; its data is always a JSON object here.\<close>

definition encodes :: "message \<Rightarrow> bool" where
  "encodes m \<longleftrightarrow> valid_route m \<and> m_type m = m_routing_key m \<and> m_message_id m \<noteq> [] \<and> length (m_message_id m) \<le> 255
     \<and> length (m_correlation_id m) \<le> 255 \<and> m_errand_id m \<noteq> [] \<and> m_errand_version m \<ge> 1 \<and> m_occurred_at m \<noteq> zero_time
     \<and> (m_exchange m = exchange_commands \<longrightarrow> valid_command m)
     \<and> format_time (m_occurred_at m) \<noteq> None"

definition trim_prefix :: "string \<Rightarrow> string \<Rightarrow> string" where
  "trim_prefix p s = (if has_prefix p s then drop (length p) s else s)"

text \<open>\<open>None\<close> is an error that wraps \<^verbatim>\<open>ErrUnpublishable\<close>.\<close>

definition message_from_outbox :: "msg_row \<Rightarrow> message option" where
  "message_from_outbox row =
     (case payload_head (mr_payload row) of (eid, version, at) \<Rightarrow>
      if eid \<noteq> mr_errand_id row \<or> version < 1 then None
      else let m = (\<lambda>exchange rk occurred. \<lparr>m_exchange = exchange, m_routing_key = rk, m_message_id = mr_key row, m_correlation_id = [],
                 m_type = rk, m_occurred_at = occurred, m_errand_id = mr_errand_id row, m_errand_version = version, m_data = mr_payload row\<rparr>);
               checked = (\<lambda>m. if encodes m then Some m else None)
           in if mr_kind row \<in> set credit_commands then checked (m exchange_commands (mr_kind row) (mr_created_at row))
              else let rk = trim_prefix ''event.'' (mr_kind row) in
                if has_prefix ''event.'' (mr_kind row) \<and> rk \<in> set event_names then
                  (if at = zero_time then None else checked (m exchange_events rk at))
                else None)"

section \<open>Configuration\<close>

record dispatcher_config =
  dc_worker_id :: string
  dc_poll_interval :: int
  dc_batch_size :: int
  dc_lease :: int
  dc_publish_timeout :: int
  dc_max_attempts :: int
  dc_sweep_interval :: int
  dc_sweep_limit :: int
  dc_backoff :: backoff_policy

definition default_dispatcher_config :: dispatcher_config where
  "default_dispatcher_config = \<lparr>dc_worker_id = [], dc_poll_interval = second, dc_batch_size = 10, dc_lease = 2 * minute,
     dc_publish_timeout = 10 * second, dc_max_attempts = 10, dc_sweep_interval = minute, dc_sweep_limit = 100,
     dc_backoff = default_backoff_policy\<rparr>"

definition or_int :: "int \<Rightarrow> int \<Rightarrow> int" where
  "or_int x d = (if x = 0 then d else x)"

text \<open>\<open>worker\<close> is what \<^verbatim>\<open>NewWorkerID\<close> returns; the product of batch size and timeout wraps.\<close>

definition fill_defaults :: "string \<Rightarrow> dispatcher_config \<Rightarrow> dispatcher_config" where
  "fill_defaults worker c0 =
     (let def = default_dispatcher_config in
      \<lparr>dc_worker_id = (if dc_worker_id c0 = [] then worker else dc_worker_id c0),
       dc_poll_interval = or_int (dc_poll_interval c0) (dc_poll_interval def),
       dc_batch_size = or_int (dc_batch_size c0) (dc_batch_size def),
       dc_lease = or_int (dc_lease c0) (dc_lease def),
       dc_publish_timeout = or_int (dc_publish_timeout c0) (dc_publish_timeout def),
       dc_max_attempts = or_int (dc_max_attempts c0) (dc_max_attempts def),
       dc_sweep_interval = or_int (dc_sweep_interval c0) (dc_sweep_interval def),
       dc_sweep_limit = or_int (dc_sweep_limit c0) (dc_sweep_limit def),
       dc_backoff = (if bp_base (dc_backoff c0) = 0 \<and> bp_cap (dc_backoff c0) = 0 then dc_backoff def else dc_backoff c0)\<rparr>)"

definition with_defaults :: "string \<Rightarrow> dispatcher_config \<Rightarrow> dispatcher_config option" where
  "with_defaults worker c0 =
     (let c = fill_defaults worker c0 in
      if dc_poll_interval c < 0 \<or> dc_sweep_interval c < 0 \<or> dc_publish_timeout c < 0 then None
      else if dc_batch_size c < 1 \<or> dc_batch_size c > 500 \<or> dc_sweep_limit c < 1 \<or> dc_sweep_limit c > 500 then None
      else if dc_max_attempts c < 1 then None
      else if dc_lease c \<le> i64 (dc_batch_size c * dc_publish_timeout c) then None
      else if \<not> backoff_valid (dc_backoff c) then None
      else Some c)"

lemma with_defaults_Some:
  assumes "with_defaults worker c0 = Some cfg"
  shows "cfg = fill_defaults worker c0" "0 \<le> dc_publish_timeout cfg" "1 \<le> dc_batch_size cfg" "dc_batch_size cfg \<le> max_batch"
    "1 \<le> dc_sweep_limit cfg" "dc_sweep_limit cfg \<le> max_batch" "1 \<le> dc_max_attempts cfg"
    "i64 (dc_batch_size cfg * dc_publish_timeout cfg) < dc_lease cfg" "backoff_valid (dc_backoff cfg)"
  using assms unfolding with_defaults_def Let_def max_batch_def by (auto split: if_splits)

lemma fill_defaults_fields:
  "worker \<noteq> [] \<Longrightarrow> dc_worker_id (fill_defaults worker c0) \<noteq> []" "dc_publish_timeout (fill_defaults worker c0) \<noteq> 0"
  by (simp_all add: fill_defaults_def Let_def or_int_def default_dispatcher_config_def duration_defs)

section \<open>Handling one row\<close>

record publish_failure =
  pe_unpublishable :: bool
  pe_unroutable :: bool
  pe_unavailable :: bool
  pe_deadline :: bool

definition unpublishable_failure :: publish_failure where
  "unpublishable_failure = \<lparr>pe_unpublishable = True, pe_unroutable = False, pe_unavailable = False, pe_deadline = False\<rparr>"

definition failure_code :: "publish_failure \<Rightarrow> string" where
  "failure_code err =
     (if pe_unpublishable err then ''UNPUBLISHABLE'' else if pe_unroutable err then ''UNROUTABLE''
      else if pe_unavailable err then ''BROKER_UNAVAILABLE'' else if pe_deadline err then ''PUBLISH_TIMEOUT''
      else ''PUBLISH_FAILED'')"

text \<open>
  What happens around one row: the broker's answer, the random source of the backoff, what others write
  before the row is settled, when it is settled, and whether the database takes the write.
\<close>

record row_env =
  re_publish :: "message \<Rightarrow> publish_failure option"
  re_rand :: "int \<Rightarrow> int"
  re_others :: "(int \<times> outbox_op) list"
  re_now :: int
  re_write_fails :: bool

definition settle_write :: "row_env \<Rightarrow> (outbox_table \<Rightarrow> msg_error option \<times> outbox_table) \<Rightarrow> outbox_table \<Rightarrow> msg_error option \<times> outbox_table" where
  "settle_write env write rows =
     (let rows' = run_ops (re_others env) rows in
      if re_write_fails env then (Some MsgDbError, rows')
      else case write rows' of (err, rows'') \<Rightarrow> (if err = Some ErrLeaseLost then None else err, rows''))"

definition fail_row :: "row_env \<Rightarrow> msg_row \<Rightarrow> string \<Rightarrow> outbox_table \<Rightarrow> msg_error option \<times> outbox_table" where
  "fail_row env row code = settle_write env (mark_outbox_failed (re_now env) row code)"

definition publish_row :: "row_env \<Rightarrow> msg_row \<Rightarrow> publish_failure option" where
  "publish_row env row =
     (case message_from_outbox row of None \<Rightarrow> Some unpublishable_failure | Some m \<Rightarrow> re_publish env m)"

definition handle_row :: "dispatcher_config \<Rightarrow> row_env \<Rightarrow> msg_row \<Rightarrow> outbox_table \<Rightarrow> msg_error option \<times> outbox_table" where
  "handle_row cfg env row rows =
     (if mr_attempts row > dc_max_attempts cfg then fail_row env row ''ATTEMPTS_EXHAUSTED'' rows
      else (case publish_row env row of
          None \<Rightarrow> settle_write env (mark_outbox_sent (re_now env) row) rows
        | Some err \<Rightarrow>
            if pe_unpublishable err \<or> mr_attempts row \<ge> dc_max_attempts cfg then fail_row env row (failure_code err) rows
            else settle_write env
              (reschedule_outbox (re_now env) row (backoff (dc_backoff cfg) (re_rand env) (mr_attempts row)) (failure_code err)) rows))"

definition hand_back_row :: "row_env \<Rightarrow> msg_row \<Rightarrow> outbox_table \<Rightarrow> outbox_table" where
  "hand_back_row env row rows = snd (settle_write env (reschedule_outbox (re_now env) row 0 ''WORKER_STOPPED'') rows)"

section \<open>One batch\<close>

datatype dispatch_error = DispatchCancelled | DispatchDb msg_error

text \<open>\<open>be_cancelled n\<close>: the context is done at the \<open>n\<close>th check, the one before the claim being the first.\<close>

record batch_env =
  be_claim_now :: int
  be_claim_fails :: bool
  be_order :: "stored_outbox_row list \<Rightarrow> stored_outbox_row list"
  be_cancelled :: "nat \<Rightarrow> bool"
  be_row :: "nat \<Rightarrow> row_env"

fun hand_back :: "(nat \<Rightarrow> row_env) \<Rightarrow> nat \<Rightarrow> msg_row list \<Rightarrow> outbox_table \<Rightarrow> outbox_table" where
  "hand_back env i [] rows = rows"
| "hand_back env i (row # rest) rows = hand_back env (Suc i) rest (hand_back_row (env i) row rows)"

fun dispatch_rows :: "dispatcher_config \<Rightarrow> batch_env \<Rightarrow> nat \<Rightarrow> msg_row list \<Rightarrow> outbox_table \<Rightarrow> dispatch_error option \<times> outbox_table" where
  "dispatch_rows cfg env i [] rows = (None, rows)"
| "dispatch_rows cfg env i (row # rest) rows =
     (if be_cancelled env (Suc i) then (Some DispatchCancelled, hand_back (be_row env) i (row # rest) rows)
      else (case handle_row cfg (be_row env i) row rows of
          (Some err, rows') \<Rightarrow> (Some (DispatchDb err), rows')
        | (None, rows') \<Rightarrow> dispatch_rows cfg env (Suc i) rest rows'))"

definition dispatch :: "dispatcher_config \<Rightarrow> batch_env \<Rightarrow> bool \<Rightarrow> outbox_table \<Rightarrow> (dispatch_error + bool) \<times> outbox_table" where
  "dispatch cfg env credit rows =
     (if be_cancelled env 0 then (Inl DispatchCancelled, rows)
      else if be_claim_fails env then (Inl (DispatchDb MsgDbError), rows)
      else (case claim_outbox (be_order env) (dc_worker_id cfg) credit (dc_batch_size cfg) (dc_lease cfg) (be_claim_now env) rows of
          (Inl err, rows') \<Rightarrow> (Inl (DispatchDb err), rows')
        | (Inr claimed, rows') \<Rightarrow>
            (case dispatch_rows cfg env 0 claimed rows' of
               (Some err, rows'') \<Rightarrow> (Inl err, rows'')
             | (None, rows'') \<Rightarrow> (Inr (int (length claimed) = dc_batch_size cfg), rows''))))"

section \<open>The sweep\<close>

text \<open>
  One sweep at the time \<open>now\<close>: resending continues while batches are full. The backlog of both families
  is measured at its end. \<open>fuel\<close> bounds the number of batches.
\<close>

fun sweep_rows :: "nat \<Rightarrow> (stored_outbox_row list \<Rightarrow> stored_outbox_row list) \<Rightarrow> int \<Rightarrow> int \<Rightarrow> int \<Rightarrow> outbox_table
    \<Rightarrow> (msg_error option \<times> outbox_table) option" where
  "sweep_rows 0 order timeout limit now rows = None"
| "sweep_rows (Suc fuel) order timeout limit now rows =
     (case resend_unconfirmed order timeout limit now rows of
        (Inl err, rows') \<Rightarrow> Some (Some err, rows')
      | (Inr sent, rows') \<Rightarrow>
          if int (length sent) < limit then Some (None, rows') else sweep_rows fuel order timeout limit now rows')"

definition sweep :: "nat \<Rightarrow> (stored_outbox_row list \<Rightarrow> stored_outbox_row list) \<Rightarrow> dispatcher_config \<Rightarrow> int \<Rightarrow> int \<Rightarrow> outbox_table
    \<Rightarrow> ((msg_error + int \<times> int) \<times> outbox_table) option" where
  "sweep fuel order cfg timeout now rows =
     map_option (\<lambda>(err, rows'). (case err of Some e \<Rightarrow> Inl e | None \<Rightarrow> Inr (count_due True now rows', count_due False now rows'), rows'))
       (sweep_rows fuel order timeout (dc_sweep_limit cfg) now rows)"

end
