(* ===== verification/Errand_Store_Inv.thy ===== *)
theory Errand_Store_Inv
  imports Errand_Writes
begin

text \<open>
  The invariant of the order database that the errand store keeps: every stored errand is consistent,
  its row is the one the store wrote, the outbox holds its reserve command and none of the operations it
  may still emit, and it has an open review exactly while it is under review.
\<close>

section \<open>Keys of errands\<close>

definition known_ops :: "string list" where
  "known_ops = [''reserve'', ''release'', ''transfer'', ''adjust'', ''adjust-revert''] @ map event_operation transition_event_names"

lemma known_ops_no_colon: "x \<in> set known_ops \<Longrightarrow> no_colon x"
  by (auto simp: known_ops_def event_operation_no_colon) (auto simp: no_colon_def)

lemma known_ops_mem: "{''reserve'', ''release'', ''transfer'', ''adjust'', ''adjust-revert''} \<subseteq> set known_ops"
  "n \<in> set transition_event_names \<Longrightarrow> event_operation n \<in> set known_ops"
  by (simp_all add: known_ops_def)

lemma transition_ops_known:
  assumes "r \<in> set transition_table" "p \<in> set (transition_ops r e t input)"
  shows "fst p \<in> set known_ops"
proof -
  have "list_all (\<lambda>r. set (rl_emits r) \<subseteq> set transition_event_names) transition_table" by code_simp
  then have sub: "set (rl_emits r) \<subseteq> set transition_event_names" using assms(1) by (simp add: list_all_iff)
  have "ErrandEditRequested \<in> set transition_event_names" by (simp add: transition_event_names_def)
  from known_ops_mem(2) [OF this] have er: "''edit_requested'' \<in> set known_ops" by (simp add: event_operation_def)
  from assms(2) consider "p \<in> set (credit_op (rl_credit r))" | "p \<in> set (event_ops r e t input)"
    by (auto simp: transition_ops_def)
  then show ?thesis
  proof cases
    case 1
    then show ?thesis using credit_op_cases [of p "rl_credit r"] known_ops_mem(1) by auto
  next
    case 2
    then consider "fst p \<in> {''adjust'', ''adjust-revert''}" | "fst p = ''edit_requested''"
      | n where "n \<in> set (rl_emits r)" "fst p = event_operation n"
      by (auto simp: event_ops_def split: if_splits)
    then show ?thesis
    proof cases
      case 3
      with sub known_ops_mem(2) show ?thesis by auto
    qed (use er known_ops_mem(1) in auto)
  qed
qed

lemma takeWhile_colon: "no_colon s \<Longrightarrow> takeWhile (\<lambda>c. c \<noteq> CHR '':'') (s @ CHR '':'' # xs) = s"
  "no_colon s \<Longrightarrow> takeWhile (\<lambda>c. c \<noteq> CHR '':'') s = s"
  by (induction s) (auto simp: no_colon_def)

lemma takeWhile_has_colon:
  "\<not> no_colon s \<Longrightarrow> takeWhile (\<lambda>c. c \<noteq> CHR '':'') (s @ xs) = takeWhile (\<lambda>c. c \<noteq> CHR '':'') s
     \<and> length (takeWhile (\<lambda>c. c \<noteq> CHR '':'') s) < length s"
  by (induction s) (auto simp: no_colon_def)

lemma op_key_prefix: "no_colon eid \<Longrightarrow> takeWhile (\<lambda>c. c \<noteq> CHR '':'') (op_key eid p) = eid"
  by (simp add: op_key_def idempotency_key_def takeWhile_colon)

lemma op_key_other: "no_colon eid \<Longrightarrow> no_colon eid' \<Longrightarrow> op_key eid p = op_key eid' q \<Longrightarrow> eid = eid'"
  using op_key_prefix by metis

text \<open>The key of a rejection is none of an errand's own keys.\<close>

lemma rejection_key_apart:
  assumes "no_colon eid" "length eid = 36" "length raw \<le> 36" "valid_action a" "fst p \<in> set known_ops"
  shows "rejection_key raw a req \<noteq> op_key eid p"
proof
  assume eq: "rejection_key raw a req = op_key eid p"
  let ?w = "takeWhile (\<lambda>c. c \<noteq> CHR '':'')"
  have pre: "?w (rejection_key raw a req) = eid" using eq op_key_prefix [OF assms(1)] by simp
  have raw: "no_colon raw"
  proof (rule ccontr)
    assume "\<not> no_colon raw"
    from takeWhile_has_colon [OF this] pre have "length eid < length raw" by (simp add: rejection_key_def)
    with assms(2,3) show False by simp
  qed
  then have "?w (rejection_key raw a req) = raw" by (simp add: rejection_key_def takeWhile_colon)
  with pre have "raw = eid" by simp
  with eq have "action_text a @ ''-rejected:'' @ req = fst p @ (if snd p > 0 then '':'' @ itoa (snd p) else [])"
    by (simp add: rejection_key_def op_key_def idempotency_key_def)
  then have eq': "?w (action_text a @ ''-rejected'' @ CHR '':'' # req) = ?w (fst p @ (if snd p > 0 then CHR '':'' # itoa (snd p) else []))" by simp
  have "?w (fst p @ (if snd p > 0 then CHR '':'' # itoa (snd p) else [])) = fst p"
    using takeWhile_colon [OF known_ops_no_colon [OF assms(5)]] by simp
  moreover have "no_colon (action_text a @ ''-rejected'')"
    using assms(4) by (auto simp: valid_action_def rejected_actions_def no_colon_def)
  from takeWhile_colon(1) [OF this] have "?w (action_text a @ ''-rejected'' @ CHR '':'' # req) = action_text a @ ''-rejected''" by simp
  ultimately have "action_text a @ ''-rejected'' = fst p" using eq' by simp
  moreover have "action_text a @ ''-rejected'' \<notin> set known_ops"
    using assms(4) by (auto simp: valid_action_def rejected_actions_def known_ops_def transition_event_names_def event_operation_def)
  ultimately show False using assms(5) by simp
qed

section \<open>The invariant\<close>

definition details_check :: "details \<Rightarrow> bool" where
  "details_check d \<longleftrightarrow> (case d_items d of Some (JArr xs) \<Rightarrow> xs \<noteq> [] | _ \<Rightarrow> False)
     \<and> list_ex (\<lambda>c. c \<noteq> CHR '' '') (d_contact_name d) \<and> list_ex (\<lambda>c. c \<noteq> CHR '' '') (d_contact_mobile d)"

definition tracked :: "order_db \<Rightarrow> errand \<Rightarrow> bool" where
  "tracked db e \<longleftrightarrow> op_key (e_id e) (''reserve'', 0) \<in> set (row_keys db)
     \<and> (\<exists>K. ops_inv K e \<and> (\<forall>p. fst p \<in> set known_ops \<longrightarrow> 0 \<le> snd p \<longrightarrow> op_key (e_id e) p \<in> set (row_keys db) \<longrightarrow> p \<in> set K))"

definition stored_ok :: "uuid_reader \<Rightarrow> order_db \<Rightarrow> errand_row \<Rightarrow> bool" where
  "stored_ok uuid db r \<longleftrightarrow> row_clean uuid r \<and> errand_inv (errand_from_row r)
     \<and> (\<forall>p. e_pending_edit (errand_from_row r) = Some p \<longrightarrow> details_check (pe_details p))
     \<and> tracked db (errand_from_row r)
     \<and> (list_ex (open_review_of (er_id r)) (od_reviews db) \<longleftrightarrow> er_status r = StatusReviewRequired)"

text \<open>Keys and reviews of an errand exist only when the errand does.\<close>

definition owned :: "order_db \<Rightarrow> bool" where
  "owned db \<longleftrightarrow> (\<forall>eid p. no_colon eid \<longrightarrow> length eid = 36 \<longrightarrow> fst p \<in> set known_ops \<longrightarrow> op_key eid p \<in> set (row_keys db) \<longrightarrow> has_errand db eid)
     \<and> (\<forall>rv \<in> set (od_reviews db). has_errand db (rv_errand_id rv))"

definition store_inv :: "uuid_reader \<Rightarrow> order_db \<Rightarrow> bool" where
  "store_inv uuid db \<longleftrightarrow> distinct (map er_id (od_errands db))
     \<and> distinct (map (\<lambda>r. (er_requester_id r, er_create_key r)) (od_errands db))
     \<and> distinct (row_keys db) \<and> owned db \<and> (\<forall>r \<in> set (od_errands db). stored_ok uuid db r)"

lemma store_inv_empty: "store_inv uuid empty_order_db"
  by (simp add: store_inv_def owned_def empty_order_db_def row_keys_def)

lemma errand_inv_canon:
  "uuid (e_id e) = Some (e_id e) \<Longrightarrow> errand_inv (canon uuid e) \<longleftrightarrow> errand_inv e"
  by (simp add: errand_inv_def)

lemma ops_inv_canon [simp]: "ops_inv K (canon uuid e) \<longleftrightarrow> ops_inv K e"
proof -
  have "op_ok (canon uuid e) = op_ok e" by (simp add: op_ok_def fun_eq_iff)
  then show ?thesis by (simp add: ops_inv_def)
qed

text \<open>A valid edit passes the constraints of the table.\<close>

lemma all_spaces_blank: "list_all (\<lambda>c. c = CHR '' '') s \<Longrightarrow> is_blank s"
proof (induction s)
  case (Cons c s)
  then have "c = CHR '' ''" "is_blank s" by simp_all
  then show ?case by (simp add: is_blank_iff runes_def chunks_ascii is_space_def)
qed simp

lemma not_blank_char: "\<not> is_blank s \<Longrightarrow> list_ex (\<lambda>c. c \<noteq> CHR '' '') s"
  using all_spaces_blank [of s] by (auto simp: list_all_iff list_ex_iff)

lemma validate_details_check: "validate_details d now b = None \<Longrightarrow> details_check d"
  by (auto simp: validate_details_def Let_def items_ok_def contact_problem_def details_check_def not_blank_char
      split: if_splits option.splits json.splits list.splits)

lemma edit_requested_check:
  assumes "next_transition e ev a input now = Inr t" "edit_requested t = Some p"
  shows "details_check (pe_details p)"
proof -
  obtain r t0 where r: "apply_event ev (start_transition e ev a input now r) e input now = Inr t0" "t = finish_transition r e input t0"
    by (rule next_transition_Inr [OF assms(1)])
  from assms(2) have p: "edit_requested t0 = Some p" using edit_requested_finish [OF r(1)] r(2) by simp
  with event_effect_edit(1) [OF r(1)] have "ev = EventEdit" by simp
  with r(1) p show ?thesis
    by (auto simp: edit_requested_def Let_def dest: validate_details_check split: if_splits option.splits)
qed

section \<open>Applying a decision keeps it\<close>

lemma store_inv_rowD:
  assumes "store_inv uuid db" "r \<in> set (od_errands db)"
  shows "distinct (map er_id (od_errands db))" "row_clean uuid r" "errand_inv (errand_from_row r)" "tracked db (errand_from_row r)"
    "list_ex (open_review_of (er_id r)) (od_reviews db) \<longleftrightarrow> er_status r = StatusReviewRequired" "distinct (row_keys db)"
    "\<And>p. e_pending_edit (errand_from_row r) = Some p \<Longrightarrow> details_check (pe_details p)" "uuid (er_id r) = Some (er_id r)"
    "stored_ok uuid db r"
  using assms by (auto simp: store_inv_def stored_ok_def row_clean_def canonical_def)

lemma valid_not_none: "valid_status s \<Longrightarrow> s \<noteq> StatusNone"
  by (auto simp: valid_status_def statuses_def)

lemma row_clean_status: "row_clean uuid r \<Longrightarrow> er_status r \<noteq> StatusNone"
  using valid_not_none by (auto simp: row_clean_def errand_check_def)

lemma next_nonneg:
  assumes "next_transition e ev a input now = Inr t" "errand_inv e"
  shows "1 \<le> t_new_version t" "0 < d_reward (e_details (apply_to t e))"
proof -
  obtain r where r: "r \<in> set transition_table" "rl_to r = t_to t" by (rule transition_summary [OF assms(1)])
  have "t_to t \<noteq> StatusNone" using rule_ops_fit(6) [OF r(1)] r(2) by simp
  then show "1 \<le> t_new_version t" "0 < d_reward (e_details (apply_to t e))"
    using errand_inv_started [OF errand_inv_step [OF assms]] by (simp_all del: apply_to_fields(6))
qed

text \<open>The rows of a transition carry keys of its own errand.\<close>

lemma transition_row_keys:
  assumes "next_transition e ev a input now = Inr t" "k \<in> set (map ob_key (t_outbox t))"
  obtains p where "k = op_key (e_id e) p"
proof -
  obtain r where "map ob_key (t_outbox t) = map (op_key (e_id e)) (transition_ops r e t input)"
    by (rule transition_keys [OF assms(1)])
  with assms(2) that show thesis by auto
qed

lemma tracked_other:
  assumes nx: "next_transition e ev a input now = Inr t" and tr: "tracked db e'" and "no_colon (e_id e)" "no_colon (e_id e')" "e_id e \<noteq> e_id e'"
    and keys: "row_keys db' = row_keys db @ map ob_key (t_outbox t)"
  shows "tracked db' e'"
proof -
  have "op_key (e_id e') p \<notin> set (map ob_key (t_outbox t))" for p
    using transition_row_keys [OF nx] op_key_other [OF assms(3,4)] assms(5) by metis
  with tr keys show ?thesis by (auto simp: tracked_def)
qed

lemma tracked_self:
  assumes nx: "next_transition e ev a input now = Inr t" and inv: "errand_inv e" and tr: "tracked db e" and id: "no_colon (e_id e)"
    and keys: "row_keys db' = row_keys db @ map ob_key (t_outbox t)"
  shows "tracked db' (apply_to t e)"
proof -
  obtain r where r: "r \<in> set transition_table" "rl_from r = e_status e" "rl_event r = ev" "rl_to r = t_to t"
    "map ob_key (t_outbox t) = map (op_key (e_id e)) (transition_ops r e t input)"
    by (rule transition_keys [OF nx])
  from tr obtain K where K: "ops_inv K e"
    "\<And>p. fst p \<in> set known_ops \<Longrightarrow> 0 \<le> snd p \<Longrightarrow> op_key (e_id e) p \<in> set (row_keys db) \<Longrightarrow> p \<in> set K"
    unfolding tracked_def by blast
  have inv': "ops_inv (K @ transition_ops r e t input) (apply_to t e)" by (rule ops_inv_step [OF nx inv K(1) r(1-4)])
  have "p \<in> set (K @ transition_ops r e t input)"
    if p: "fst p \<in> set known_ops" "0 \<le> snd p" "op_key (e_id e) p \<in> set (row_keys db')" for p
  proof (cases "op_key (e_id e) p \<in> set (row_keys db)")
    case False
    with p(3) keys r(5) obtain q where q: "q \<in> set (transition_ops r e t input)" "op_key (e_id e) p = op_key (e_id e) q" by auto
    have "0 \<le> snd q" using ops_inv_ok [OF inv', of q] q(1) op_okD(2) [of _ "fst q" "snd q"] by simp
    with op_key_inj [OF q(2)] p(1,2) known_ops_no_colon transition_ops_known [OF r(1) q(1)] q(1) show ?thesis by simp
  qed (use K(2) p in simp)
  moreover have "op_key (e_id e) (''reserve'', 0) \<in> set (row_keys db')" using tr keys by (simp add: tracked_def)
  ultimately show ?thesis using inv' by (auto simp: tracked_def)
qed

text \<open>Reviews before and after.\<close>

lemma open_review_other:
  "eid \<noteq> eid' \<Longrightarrow> list_ex (open_review_of eid') (add_review eid after t reviews) = list_ex (open_review_of eid') reviews"
  by (induction reviews) (auto simp: add_review_def open_review_of_def)

lemma open_review_self:
  assumes "list_ex (open_review_of eid) reviews \<longleftrightarrow> t_from t = StatusReviewRequired"
  shows "list_ex (open_review_of eid) (add_review eid after t reviews) \<longleftrightarrow> t_to t = StatusReviewRequired"
proof -
  have "\<not> list_ex (open_review_of eid) (update_where (open_review_of eid) (\<lambda>r. r\<lparr>rv_resolution := Some s, rv_resolver_id := x,
      rv_resolution_reason := y, rv_resolved_at := z\<rparr>) rs)" for s x y z rs
    by (induction rs) (auto simp: open_review_of_def)
  then show ?thesis using assms by (auto simp: add_review_def open_review_of_def)
qed

lemma add_review_errands:
  "rv \<in> set (add_review eid after t reviews) \<Longrightarrow> rv_errand_id rv = eid \<or> rv_errand_id rv \<in> rv_errand_id ` set reviews"
  by (auto simp: add_review_def update_where_def split: if_splits)

lemma owned_step:
  assumes "owned db" "\<And>x. has_errand db x \<Longrightarrow> has_errand db' x" "has_errand db' (e_id e)" "no_colon (e_id e)"
    and nx: "next_transition e ev a input now = Inr t" and keys: "row_keys db' = row_keys db @ map ob_key (t_outbox t)"
    and revs: "od_reviews db' = add_review (e_id e) after t (od_reviews db)"
  shows "owned db'"
proof -
  have "has_errand db' x" if x: "no_colon x" "length x = 36" "fst p \<in> set known_ops" "op_key x p \<in> set (row_keys db')" for x p
  proof (cases "op_key x p \<in> set (row_keys db)")
    case True
    with x assms(1,2) show ?thesis unfolding owned_def by blast
  next
    case False
    then have "op_key x p \<in> set (map ob_key (t_outbox t))" using x(4) keys by simp
    then obtain q where "op_key x p = op_key (e_id e) q" by (rule transition_row_keys [OF nx])
    from op_key_other [OF x(1) assms(4) this] assms(3) show ?thesis by simp
  qed
  moreover have "has_errand db' (rv_errand_id rv)" if "rv \<in> set (od_reviews db')" for rv
    using add_review_errands [OF that [unfolded revs]] assms(1-3) by (auto simp: owned_def)
  ultimately show ?thesis unfolding owned_def by blast
qed

lemma applied_fields [simp]:
  "od_errands (applied uuid now cur t db) = update_where (\<lambda>r. er_id r = e_id cur) (\<lambda>_. row_for uuid (apply_to t cur)) (od_errands db)"
  "od_fences (applied uuid now cur t db) = od_fences db"
  "od_transitions (applied uuid now cur t db) =
     od_transitions db @ [transition_row_of (the (uuid (e_id cur))) cur (canon uuid (apply_to t cur)) t]"
  "od_reviews (applied uuid now cur t db) = add_review (the (uuid (e_id cur))) (canon uuid (apply_to t cur)) t (od_reviews db)"
  "row_keys (applied uuid now cur t db) = row_keys db @ map ob_key (t_outbox t)"
  by (simp_all add: applied_def with_errand_def row_keys_def [of "order_db.od_errands_update _ _"]) (simp add: row_keys_def)

lemma row_clean_for:
  assumes "uuid_reader_ok uuid" "storable uuid e" "errand_inv e" "e_status e \<noteq> StatusNone"
  shows "row_clean uuid (row_for uuid e)"
proof -
  note ins = insert_params_InrD [OF storable_row [OF assms(2)]]
  have pos: "0 \<le> e_version e" "0 \<le> d_reward (e_details e)" using assms(3,4) by (simp_all add: errand_inv_def)
  have eq: "errand_from_row (row_for uuid e) = canon uuid e" by (rule storable_from_row [OF assms(2) pos])
  have "er_version (row_for uuid e) = e_version e" "er_reward (row_for uuid e) = d_reward (e_details e)"
    using arg_cong [OF eq, of e_version] arg_cong [OF eq, of "d_reward \<circ> e_details"] by simp_all
  moreover have "er_pending_edit_key (row_for uuid e) \<noteq> Some []"
    using assms(3) by (auto simp: row_for_def row_of_def Let_def errand_inv_def idempotency_key_def)
  ultimately show ?thesis
    using assms(1,2) ins(1-4) eq canon_canonical [OF assms(1) ins(1,2)] by (simp add: row_clean_def storable_def)
qed

lemma store_inv_applied:
  assumes ok: "uuid_reader_ok uuid" and inv: "store_inv uuid db" and r: "r \<in> set (od_errands db)" and cur: "cur = errand_from_row r"
    and nx: "next_transition cur ev a input at = Inr t" and app: "applicable uuid db cur t"
  shows "store_inv uuid (applied uuid now cur t db)"
proof -
  let ?new = "row_for uuid (apply_to t cur)" and ?db = "applied uuid now cur t db"
  note row = store_inv_rowD [OF inv r]
  have id: "uuid (e_id cur) = Some (e_id cur)" "e_id cur = er_id r" using row(8) cur by simp_all
  have nocol: "no_colon (er_id q)" if "q \<in> set (od_errands db)" for q
    using uuid_reader_okD(3) [OF ok store_inv_rowD(8) [OF inv that]] .
  have einv: "errand_inv (apply_to t cur)" using errand_inv_step [OF nx] row(3) cur by simp
  have from_ne: "t_from t = er_status r" by (rule transition_summary [OF nx]) (use cur in simp)
  have to_ne: "t_to t \<noteq> StatusNone" by (rule transition_summary [OF nx]) (metis rule_ops_fit(6))
  have sto: "storable uuid (apply_to t cur)" using app by (simp add: applicable_def)
  have read: "errand_from_row ?new = canon uuid (apply_to t cur)"
    using storable_from_row [OF sto] next_nonneg [OF nx] row(3) cur by simp
  have keys: "row_keys ?db = row_keys db @ map ob_key (t_outbox t)" by simp
  have rows: "od_errands ?db = update_where (\<lambda>q. er_id q = er_id r) (\<lambda>_. ?new) (od_errands db)" using id by simp
  have mine: "stored_ok uuid ?db ?new"
  proof -
    have "tracked ?db (canon uuid (apply_to t cur))"
      using tracked_self [OF nx _ _ _ keys] row(3,4) nocol [OF r] id cur by (simp add: tracked_def)
    moreover have "list_ex (open_review_of (er_id ?new)) (od_reviews ?db) \<longleftrightarrow> er_status ?new = StatusReviewRequired"
      using open_review_self [of "er_id r" "od_reviews db" t] row(5) from_ne id by simp
    moreover have "details_check (pe_details p)" if "e_pending_edit (canon uuid (apply_to t cur)) = Some p" for p
      using that pending_after_inv [OF nx] row(3) cur edit_requested_check [OF nx, of p]
      by (simp del: apply_to_fields(13))
    ultimately show ?thesis
      unfolding stored_ok_def read using row_clean_for [OF ok sto einv] to_ne errand_inv_canon [of uuid "apply_to t cur"] einv id
      by (simp del: apply_to_fields(6-13))
  qed
  have others: "stored_ok uuid ?db q" if q: "q \<in> set (od_errands db)" "er_id q \<noteq> er_id r" for q
  proof -
    have "tracked ?db (errand_from_row q)"
      using tracked_other [OF nx store_inv_rowD(4) [OF inv q(1)] _ _ _ keys] nocol [OF r] nocol [OF q(1)] q(2) id by simp
    then show ?thesis
      using store_inv_rowD(9) [OF inv q(1)] open_review_other [of "er_id r" "er_id q"] q(2) id by (simp add: stored_ok_def)
  qed
  have same: "q = r" if "q \<in> set (od_errands db)" "er_id q = er_id r" for q using distinct_key_eq [OF row(1) that(1) r that(2)] .
  have "map er_id (od_errands ?db) = map er_id (od_errands db)"
    "map (\<lambda>r. (er_requester_id r, er_create_key r)) (od_errands ?db) = map (\<lambda>r. (er_requester_id r, er_create_key r)) (od_errands db)"
    using rows id cur by (auto simp: update_where_def dest!: same)
  moreover have "row_keys (with_errand uuid (apply_to t cur) db) = row_keys db" by (simp add: row_keys_def with_errand_def)
  then have "distinct (row_keys ?db)"
    using app row(6) unfolding keys by (auto simp: applicable_def outbox_writable_def Let_def)
  moreover have "\<forall>q \<in> set (od_errands ?db). stored_ok uuid ?db q"
    unfolding rows using mine others by (auto simp: set_update_where)
  moreover have "has_errand ?db x \<longleftrightarrow> has_errand db x" for x
    using \<open>map er_id (od_errands ?db) = map er_id (od_errands db)\<close> unfolding has_errand_def by (metis set_map)
  then have "owned ?db"
    using owned_step [OF _ _ _ _ nx keys, of "canon uuid (apply_to t cur)"] inv nocol [OF r] r id
    by (auto simp: store_inv_def has_errand_def)
  ultimately show ?thesis using inv by (simp add: store_inv_def)
qed

end
