(* ===== verification/Errand_Trace.thy ===== *)
theory Errand_Trace
  imports Errand_Store_Inv
begin

text \<open>
  Runs of the errand store. Requests, message handlers and jobs read an errand, decide with
  \<^verbatim>\<open>Next\<close> and write later, when others may have written in between; a run is the list of the
  databases such interleaved transactions leave behind, and a write may use any errand that was read
  from an earlier one.
\<close>

section \<open>Progress of an errand\<close>

text \<open>Every decision moves an errand to a later version, or adds the pending edit of its version.\<close>

definition progress :: "errand \<Rightarrow> int" where
  "progress e = 2 * e_version e + (if e_pending_edit e = None then 0 else 1)"

lemma progress_step:
  assumes "next_transition e ev a input at = Inr t" "errand_inv e"
  shows "progress e < progress (apply_to t e)"
proof -
  obtain r where s: "t_new_version t = e_version e + (if edit_requested t = None then 1 else 0)"
    "edit_requested t \<noteq> None \<longrightarrow> ev = EventEdit \<and> e_pending_edit e = None"
    by (rule transition_summary [OF assms(1)])
  have "e_pending_edit (apply_to t e) = edit_requested t"
    by (rule pending_after_inv [OF assms])
  with s show ?thesis by (auto simp: progress_def simp del: apply_to_fields(13))
qed

definition advances :: "order_db \<Rightarrow> order_db \<Rightarrow> bool" where
  "advances db db' \<longleftrightarrow> (\<forall>r \<in> set (od_errands db). \<exists>r' \<in> set (od_errands db'). er_id r' = er_id r
     \<and> (r' = r \<or> progress (errand_from_row r) < progress (errand_from_row r')))"

lemma advances_refl [simp]: "advances db db"
  by (auto simp: advances_def)

lemma advances_trans: "advances a b \<Longrightarrow> advances b c \<Longrightarrow> advances a c"
  unfolding advances_def by (metis order_less_trans)

lemma advances_same: "od_errands db' = od_errands db \<Longrightarrow> advances db db'"
  by (auto simp: advances_def)

lemma advances_applied:
  assumes ok: "uuid_reader_ok uuid" and inv: "store_inv uuid db" and r: "r \<in> set (od_errands db)" and cur: "cur = errand_from_row r"
    and nx: "next_transition cur ev a input at = Inr t" and app: "applicable uuid db cur t"
  shows "advances db (applied uuid now cur t db)"
proof -
  note row = store_inv_rowD [OF inv r]
  let ?new = "row_for uuid (apply_to t cur)"
  have sto: "storable uuid (apply_to t cur)" using app by (simp add: applicable_def)
  have "errand_from_row ?new = canon uuid (apply_to t cur)"
    using storable_from_row [OF sto] next_nonneg [OF nx] row(3) cur by simp
  then have "progress (errand_from_row r) < progress (errand_from_row ?new)"
    using progress_step [OF nx] row(3) cur by (simp add: progress_def)
  moreover have "er_id ?new = er_id r" using row(8) cur by simp
  moreover have "set (od_errands (applied uuid now cur t db)) = insert ?new (set (od_errands db) - {r})"
    using set_update_key [OF row(1) r, of "\<lambda>_. ?new"] cur by simp
  ultimately show ?thesis unfolding advances_def by (metis Diff_iff insertCI singletonD)
qed

section \<open>The writes on a database that satisfies the invariant\<close>

lemma find_errand_Some: "find_errand db eid = Some r \<Longrightarrow> r \<in> set (od_errands db) \<and> er_id r = eid"
  unfolding find_errand_def by (drule find_Some_mem) simp

lemma find_errand_iff:
  "distinct (map er_id (od_errands db)) \<Longrightarrow> find_errand db eid = Some r \<longleftrightarrow> r \<in> set (od_errands db) \<and> er_id r = eid"
  using find_errand_Some [of db eid r] find_key_unique [of er_id "od_errands db" r] unfolding find_errand_def by blast

lemma store_get_Inr: "store_get uuid eid db = Inr e \<longleftrightarrow> (\<exists>u r. uuid eid = Some u \<and> find_errand db u = Some r \<and> e = errand_from_row r)"
  by (auto simp: store_get_def split: option.splits)

text \<open>A decision that passes the compare-and-swap was made on the errand that is stored.\<close>

lemma swap_same:
  assumes inv: "store_inv uuid db" and adv: "advances old db" and oinv: "store_inv uuid old" and r: "r \<in> set (od_errands old)" and nx: "next_transition (errand_from_row r) ev a input at = Inr t"
    and r': "r' \<in> set (od_errands db)" "er_id r' = er_id r" and cas: "compare_and_swap (errand_from_row r') t = None"
  shows "r' = r"
proof (rule ccontr)
  assume "r' \<noteq> r"
  obtain q where q: "q \<in> set (od_errands db)" "er_id q = er_id r" "q = r \<or> progress (errand_from_row r) < progress (errand_from_row q)"
    using adv r unfolding advances_def by blast
  have "q = r'" using distinct_key_eq [OF store_inv_rowD(1) [OF inv q(1)] q(1) r'(1)] q(2) r'(2) by simp
  with q(3) \<open>r' \<noteq> r\<close> have less: "progress (errand_from_row r) < progress (errand_from_row r')" by simp
  obtain x t0 where x: "apply_event ev (start_transition (errand_from_row r) ev a input at x) (errand_from_row r) input at = Inr t0"
    "t = finish_transition x (errand_from_row r) input t0" by (rule next_transition_Inr [OF nx])
  have key: "t_expected_pending_key t = (case e_pending_edit (errand_from_row r) of None \<Rightarrow> [] | Some p \<Rightarrow> pe_key p)"
    using apply_event_frame [OF x(1)] x(2) by (simp add: start_transition_def)
  have ver: "t_expected_version t = e_version (errand_from_row r)" by (rule transition_summary [OF nx])
  have "e_version (errand_from_row r') = e_version (errand_from_row r)"
    "(case e_pending_edit (errand_from_row r') of None \<Rightarrow> [] | Some p \<Rightarrow> pe_key p)
       = (case e_pending_edit (errand_from_row r) of None \<Rightarrow> [] | Some p \<Rightarrow> pe_key p)"
    using cas key ver by (auto simp: compare_and_swap_def Let_def split: if_splits)
  moreover have "pe_key p \<noteq> []" if "e_pending_edit (errand_from_row s) = Some p" "errand_inv (errand_from_row s)" for s p
    using that by (auto simp: errand_inv_def idempotency_key_def)
  ultimately show False
    using less store_inv_rowD(3) [OF inv r'(1)] store_inv_rowD(3) [OF oinv r] by (auto simp: progress_def split: option.splits if_splits)
qed

lemma store_apply_cases:
  assumes ok: "uuid_reader_ok uuid" and inv: "store_inv uuid db" and adv: "advances old db" and oinv: "store_inv uuid old"
    and rd: "store_get uuid eid old = Inr e" and nx: "next_transition e ev a input at = Inr t"
    and ap: "store_apply uuid now t db = (res, db')"
  obtains err where "res = Inl err" "db' = db"
  | r where "r \<in> set (od_errands db)" "e = errand_from_row r" "applicable uuid db e t" "res = Inr (canon uuid (apply_to t e))"
      "db' = applied uuid now e t db"
proof -
  obtain u r where r: "uuid eid = Some u" "find_errand old u = Some r" "e = errand_from_row r" using rd by (auto simp: store_get_Inr)
  have ro: "r \<in> set (od_errands old)" "er_id r = u" using find_errand_Some [OF r(2)] by simp_all
  have id: "uuid (er_id r) = Some (er_id r)" by (rule store_inv_rowD(8) [OF oinv ro(1)])
  have tid: "t_errand_id t = er_id r" and tf: "t_from t = er_status r" by (rule transition_summary [OF nx], use r(3) in simp)+
  have sub: "t_from t \<noteq> StatusNone" using tf row_clean_status [OF store_inv_rowD(2) [OF oinv ro(1)]] by simp
  have run: "run_tx (apply_tx uuid now (er_id r) t) db = (res, db')"
    using ap sub tid id by (simp add: store_apply_def)
  show thesis
  proof (cases res)
    case (Inl err)
    with run run_tx_InlD that(1) show thesis by metis
  next
    case (Inr stored)
    with run have "apply_tx uuid now (er_id r) t db = Inr (stored, db')" using run_tx_InrD by metis
    then obtain q where q: "find_errand db (er_id r) = Some q" "apply_locked uuid now (errand_from_row q) t db = Inr (stored, db')"
      by (auto simp: apply_tx_def get_errand_def tx_bind_iff split: option.splits)
    note qm = find_errand_Some [OF q(1)]
    have "compare_and_swap (errand_from_row q) t = None" using q(2) by (auto simp: apply_locked_def split: option.splits)
    from swap_same [OF inv adv oinv ro(1) nx [unfolded r(3)] _ _ this] qm have qr: "q = r" by simp
    have "applicable uuid db e t \<and> stored = canon uuid (apply_to t e) \<and> db' = applied uuid now e t db"
      using apply_locked_iff [OF store_inv_rowD(1) [OF inv] _ store_inv_rowD(2) [OF inv] sub r(3)] q(2) qm qr r(3)
        next_nonneg [OF nx] store_inv_rowD(3) [OF oinv ro(1)] by simp
    with Inr qm qr r(3) that(2) show thesis by simp
  qed
qed

section \<open>Creating\<close>

definition created :: "uuid_reader \<Rightarrow> int \<Rightarrow> errand \<Rightarrow> transition \<Rightarrow> order_db \<Rightarrow> order_db" where
  "created uuid now e t db =
     add_rows uuid now e (canon uuid (apply_to t e)) t (db\<lparr>od_errands := od_errands db @ [row_for uuid (apply_to t e)]\<rparr>)"

lemma created_fields [simp]:
  "od_errands (created uuid now e t db) = od_errands db @ [row_for uuid (apply_to t e)]"
  "od_fences (created uuid now e t db) = od_fences db"
  "od_reviews (created uuid now e t db) = add_review (the (uuid (e_id e))) (canon uuid (apply_to t e)) t (od_reviews db)"
  "row_keys (created uuid now e t db) = row_keys db @ map ob_key (t_outbox t)"
  by (simp_all add: created_def row_keys_def [of "order_db.od_errands_update _ _"]) (simp add: row_keys_def)

text \<open>What holds when a creation went through.\<close>

definition creatable :: "uuid_reader \<Rightarrow> order_db \<Rightarrow> errand \<Rightarrow> transition \<Rightarrow> bool" where
  "creatable uuid db e t \<longleftrightarrow> storable uuid (apply_to t e)
     \<and> (e_requester_id e, e_create_key e) \<notin> (\<lambda>r. (er_requester_id r, er_create_key r)) ` set (od_errands db)
     \<and> \<not> has_errand db (e_id e)
     \<and> (let after = canon uuid (apply_to t e); db1 = db\<lparr>od_errands := od_errands db @ [row_for uuid (apply_to t e)]\<rparr>
        in transition_writable db1 after t \<and> review_writable db1 (e_id after) after t \<and> outbox_writable uuid db1 (t_outbox t))"

lemma submit_new:
  assumes "new_errand e" "next_transition e EventSubmit a input at = Inr t"
  shows "t_from t = StatusNone" "t_to t = StatusPendingReservation" "e_pending_edit (apply_to t e) = None"
    "errand_inv (apply_to t e)" "0 \<le> t_new_version t" "0 \<le> d_reward (e_details (apply_to t e))" "t_errand_id t = e_id e"
    "t_event t = EventSubmit" "op_key (e_id e) (''reserve'', 0) \<in> set (map ob_key (t_outbox t))"
proof -
  obtain r where r: "r \<in> set transition_table" "rl_from r = e_status e" "rl_event r = EventSubmit" "rl_to r = t_to t"
    "map ob_key (t_outbox t) = map (op_key (e_id e)) (transition_ops r e t input)"
    by (rule transition_keys [OF assms(2)])
  have "r \<in> set (filter (\<lambda>r. rl_event r = EventSubmit) transition_table)" using r(1,3) by simp
  then have rule: "rl_to r = StatusPendingReservation" "rl_credit r = CreditReserve" unfolding transition_table_def by simp_all
  note inv = new_errand_inv [OF assms(1)] and nn = next_nonneg [OF assms(2) new_errand_inv [OF assms(1)]]
  show "t_from t = StatusNone" "t_errand_id t = e_id e" "t_event t = EventSubmit"
    by (rule transition_summary [OF assms(2)], use assms(1) in \<open>simp add: new_errand_def\<close>)+
  show "t_to t = StatusPendingReservation" using rule r(4) by simp
  show "errand_inv (apply_to t e)" by (rule errand_inv_step [OF assms(2) inv])
  show "0 \<le> t_new_version t" "0 \<le> d_reward (e_details (apply_to t e))" using nn by simp_all
  have "edit_requested t = None" by (rule transition_summary [OF assms(2)]) auto
  then show "e_pending_edit (apply_to t e) = None" using pending_after_inv [OF assms(2) inv] by simp
  show "op_key (e_id e) (''reserve'', 0) \<in> set (map ob_key (t_outbox t))"
    unfolding r(5) by (simp add: transition_ops_def credit_op_def rule(2))
qed

lemma store_create_cases:
  assumes ok: "uuid_reader_ok uuid" and inv: "store_inv uuid db" and new: "new_errand e" "uuid (e_id e) = Some (e_id e)"
    and nx: "next_transition e EventSubmit a input at = Inr t" and cr: "store_create uuid now e t db = (res, db')"
  obtains err where "res = Inl err" "db' = db"
  | r where "r \<in> set (od_errands db)" "er_requester_id r = e_requester_id e" "er_create_key r = e_create_key e"
      "res = Inr (errand_from_row r, False)" "db' = db"
  | "creatable uuid db e t" "res = Inr (canon uuid (apply_to t e), True)" "db' = created uuid now e t db"
      "\<not> list_ex (\<lambda>f. fe_supplier_id f = er_supplier_id (row_for uuid (apply_to t e)) \<and> fe_state f \<in> {FenceOpen, FenceCommitted}) (od_fences db)"
proof (cases res)
  case (Inl err)
  have "db' = db"
    using cr Inl run_tx_InlD by (auto simp: store_create_def split: if_splits sum.splits dest!: run_tx_InlD)
  with Inl that(1) show thesis by simp
next
  case (Inr v)
  note sub = submit_new [OF new(1) nx]
  let ?new = "row_for uuid (apply_to t e)"
  obtain params where p: "insert_params uuid (apply_to t e) = Inr params" "create_tx uuid now e t params db = Inr (v, db')"
    using cr Inr by (auto simp: store_create_def split: if_splits sum.splits dest!: run_tx_InrD)
  have params: "params = ?new" using insert_params_InrD(6) [OF p(1)] .
  let ?P = "\<lambda>r. er_requester_id r = e_requester_id e \<and> er_create_key r = e_create_key e"
  show thesis
  proof (cases "find ?P (od_errands db)")
    case (Some r)
    then have "v = (errand_from_row r, False)" "db' = db"
      using p(2) by (auto simp: create_tx_def get_errand_by_create_key_def tx_bind_iff)
    with find_Some_mem [OF Some] Inr show thesis by (intro that(2) [of r]) simp_all
  next
    case None
    then have nk: "(e_requester_id e, e_create_key e) \<notin> (\<lambda>r. (er_requester_id r, er_create_key r)) ` set (od_errands db)"
      by (auto simp: find_None_iff2)
    have key: "(er_requester_id ?new, er_create_key ?new) = (e_requester_id e, e_create_key e)" by simp
    have fence: "check_fence (er_supplier_id ?new) db = Inr ((), db)"
      using p(2) None unfolding params create_tx_def get_errand_by_create_key_def by (auto simp: tx_bind_iff check_fence_iff)
    then have "\<exists>ins d. insert_errand ?new db = Inr (ins, d) \<and> (case ins of None \<Rightarrow> False
        | Some row \<Rightarrow> \<exists>d'. write_transition_rows uuid now e (errand_from_row row) t d = Inr ((), d') \<and> v = (errand_from_row row, True) \<and> db' = d')"
      using p(2) None nk unfolding params create_tx_def get_errand_by_create_key_def
      by (auto simp: tx_bind_iff check_fence_iff insert_errand_def Let_def image_iff split: option.splits if_splits)
    then have ins: "errand_check ?new" "\<not> has_errand db (er_id ?new)" "v = (errand_from_row ?new, True)"
      "write_transition_rows uuid now e (errand_from_row ?new) t (db\<lparr>od_errands := od_errands db @ [?new]\<rparr>) = Inr ((), db')"
      using nk by (auto simp: insert_errand_def image_iff split: if_splits option.splits)
    have sto: "storable uuid (apply_to t e)" using ins(1) p(1) by (auto simp: storable_def)
    have eq: "errand_from_row ?new = canon uuid (apply_to t e)" using storable_from_row [OF sto] sub(5,6) by simp
    have "creatable uuid db e t" "db' = created uuid now e t db"
      using ins(2,4) sto nk new(2) write_transition_rows_iff [of uuid "canon uuid (apply_to t e)"] unfolding eq
      by (simp_all add: creatable_def created_def Let_def)
    with that(3) [OF _ _ _ conjunct1 [OF fence [unfolded check_fence_iff]]] ins(3) Inr eq show thesis by simp
  qed
qed

lemma store_inv_created:
  assumes ok: "uuid_reader_ok uuid" and inv: "store_inv uuid db" and new: "new_errand e" "uuid (e_id e) = Some (e_id e)"
    and nx: "next_transition e EventSubmit a input at = Inr t" and cr: "creatable uuid db e t"
  shows "store_inv uuid (created uuid now e t db)"
proof -
  note sub = submit_new [OF new(1) nx]
  let ?new = "row_for uuid (apply_to t e)" and ?db = "created uuid now e t db"
  have sto: "storable uuid (apply_to t e)" using cr by (simp add: creatable_def)
  have read: "errand_from_row ?new = canon uuid (apply_to t e)" using storable_from_row [OF sto] sub(5,6) by simp
  have keys: "row_keys ?db = row_keys db @ map ob_key (t_outbox t)" by simp
  have nocol: "no_colon (e_id e)" by (rule uuid_reader_okD(3) [OF ok new(2)])
  have absent: "\<not> has_errand db (e_id e)" using cr by (simp add: creatable_def)
  have none: "op_key (e_id e) p \<notin> set (row_keys db)" if "fst p \<in> set known_ops" for p
    using inv absent that nocol uuid_reader_okD(2) [OF ok new(2)] unfolding store_inv_def owned_def by blast
  have "ops_inv [] e" using new(1) by (simp add: ops_inv_def)
  have trk: "tracked ?db (apply_to t e)"
  proof -
    obtain r where r: "r \<in> set transition_table" "rl_from r = e_status e" "rl_event r = EventSubmit" "rl_to r = t_to t"
      "map ob_key (t_outbox t) = map (op_key (e_id e)) (transition_ops r e t input)"
      by (rule transition_keys [OF nx])
    have ops: "ops_inv (transition_ops r e t input) (apply_to t e)"
      using ops_inv_step [OF nx new_errand_inv [OF new(1)] \<open>ops_inv [] e\<close> r(1-4)] by simp
    have "p \<in> set (transition_ops r e t input)"
      if p: "fst p \<in> set known_ops" "0 \<le> snd p" "op_key (e_id e) p \<in> set (row_keys ?db)" for p
    proof -
      from p(3) none [OF p(1)] r(5) obtain q where q: "q \<in> set (transition_ops r e t input)" "op_key (e_id e) p = op_key (e_id e) q"
        unfolding keys by auto
      have "0 \<le> snd q" using ops_inv_ok [OF ops q(1)] op_okD(2) [of _ "fst q" "snd q"] by simp
      with op_key_inj [OF q(2)] p(1,2) known_ops_no_colon transition_ops_known [OF r(1) q(1)] q(1) show ?thesis by simp
    qed
    then show ?thesis unfolding tracked_def using ops sub(9) by auto
  qed
  have no_review: "\<not> list_ex (open_review_of (e_id e)) (od_reviews db)"
    using inv absent by (auto simp: store_inv_def owned_def list_ex_iff open_review_of_def)
  have mine: "stored_ok uuid ?db ?new"
    unfolding stored_ok_def read
    using row_clean_for [OF ok sto sub(4)] sub(1-4) errand_inv_canon [of uuid "apply_to t e"] trk no_review new(2)
    by (simp add: tracked_def add_review_def del: apply_to_fields(13))
  have others: "stored_ok uuid ?db q" if q: "q \<in> set (od_errands db)" for q
  proof -
    have ne: "e_id e \<noteq> er_id q" using absent q by (auto simp: has_errand_def)
    have "tracked ?db (errand_from_row q)"
      using tracked_other [OF nx store_inv_rowD(4) [OF inv q] nocol _ _ keys] ne uuid_reader_okD(3) [OF ok store_inv_rowD(8) [OF inv q]]
      by simp
    then show ?thesis
      using store_inv_rowD(9) [OF inv q] open_review_other [OF ne] new(2) by (simp add: stored_ok_def)
  qed
  have "owned ?db"
    using owned_step [OF _ _ _ nocol nx keys, of "canon uuid (apply_to t e)"] inv new(2) by (auto simp: store_inv_def has_errand_def)
  moreover have "row_keys (db\<lparr>od_errands := od_errands db @ [?new]\<rparr>) = row_keys db" by (simp add: row_keys_def)
  then have "distinct (row_keys ?db)"
    using cr inv unfolding keys by (auto simp: creatable_def outbox_writable_def Let_def store_inv_def)
  ultimately show ?thesis
    using inv mine others cr absent new(2) by (auto simp: store_inv_def creatable_def has_errand_def)
qed

section \<open>Rejections\<close>

text \<open>A change that touches no errand and adds no key of one keeps the invariant.\<close>

lemma store_inv_other_rows:
  assumes inv: "store_inv uuid db" and same: "od_errands db' = od_errands db" "od_reviews db' = od_reviews db"
    and keys: "distinct (row_keys db')" "set (row_keys db) \<subseteq> set (row_keys db')"
    and apart: "\<And>k eid p. k \<in> set (row_keys db') \<Longrightarrow> k \<notin> set (row_keys db) \<Longrightarrow> no_colon eid \<Longrightarrow> length eid = 36 \<Longrightarrow>
      fst p \<in> set known_ops \<Longrightarrow> k \<noteq> op_key eid p"
    and ok: "uuid_reader_ok uuid"
  shows "store_inv uuid db'"
proof -
  have old: "op_key eid p \<in> set (row_keys db)"
    if "op_key eid p \<in> set (row_keys db')" "no_colon eid" "length eid = 36" "fst p \<in> set known_ops" for eid p
    using apart [OF that(1) _ that(2-4)] by blast
  have own: "owned db'"
    unfolding owned_def
  proof (intro conjI allI impI)
    fix eid p
    assume p: "no_colon eid" "length eid = 36" "fst p \<in> set known_ops" "op_key eid p \<in> set (row_keys db')"
    have "has_errand db eid" using inv old [OF p(4,1,2,3)] p(1-3) unfolding store_inv_def owned_def by blast
    then show "has_errand db' eid" using same(1) by (simp add: has_errand_def)
  qed (use inv same in \<open>simp add: store_inv_def owned_def has_errand_def\<close>)
  have "stored_ok uuid db' r" if r: "r \<in> set (od_errands db)" for r
  proof -
    note id = uuid_reader_okD [OF ok store_inv_rowD(8) [OF inv r]]
    have "p \<in> set K" if "\<forall>p. fst p \<in> set known_ops \<longrightarrow> 0 \<le> snd p \<longrightarrow> op_key (er_id r) p \<in> set (row_keys db) \<longrightarrow> p \<in> set K"
      "fst p \<in> set known_ops" "0 \<le> snd p" "op_key (er_id r) p \<in> set (row_keys db')" for K p
      using old [OF that(4) id(3,2) that(2)] that(1-3) by blast
    then have "tracked db' (errand_from_row r)"
      using store_inv_rowD(4) [OF inv r] keys(2) unfolding tracked_def errand_from_row_fields(1) by blast
    then show ?thesis using store_inv_rowD(9) [OF inv r] same by (simp add: stored_ok_def)
  qed
  with inv own same keys(1) show ?thesis by (simp add: store_inv_def)
qed

lemma record_rejection_cases:
  assumes ok: "uuid_reader_ok uuid" and inv: "store_inv uuid db" and rej: "record_rejection uuid now r db = (res, db')"
  shows "od_errands db' = od_errands db \<and> store_inv uuid db'"
proof -
  consider "db' = db" | eid row where "uuid (rj_errand_id r) = Some eid" "valid_action (rj_action r)"
    "db' = append_outbox now (rejection_row eid row r) db" "ob_key (rejection_row eid row r) \<notin> set (row_keys db)"
    using rej run_tx_cases [of "tx_bind (get_errand _) _" db]
    by (auto simp: record_rejection_def get_errand_def run_tx_def tx_bind_def insert_outbox_if_absent_def row_keys_def
        split: if_splits option.splits sum.splits prod.splits)
  then show ?thesis
  proof cases
    case 2
    note id = uuid_reader_okD [OF ok 2(1)]
    have keys: "row_keys db' = row_keys db @ [rejection_key (rj_errand_id r) (rj_action r) (rj_request_id r)]"
      using 2(3) by (simp add: rejection_row_def)
    have "store_inv uuid db'"
    proof (rule store_inv_other_rows [OF inv])
      show "distinct (row_keys db')" using keys inv 2(4) by (simp add: store_inv_def rejection_row_def)
      show "k \<noteq> op_key eid' p" if "k \<in> set (row_keys db')" "k \<notin> set (row_keys db)" "no_colon eid'" "length eid' = 36"
        "fst p \<in> set known_ops" for k eid' p
        using that keys rejection_key_apart [OF that(3,4) id(4) 2(2) that(5)] by auto
    qed (use 2(3) keys ok in auto)
    then show ?thesis using 2(3) by simp
  qed (use inv in simp)
qed

section \<open>Batches\<close>

text \<open>Jobs that decide with \<^verbatim>\<open>Next\<close>.\<close>

definition decides_by_next :: "decide \<Rightarrow> bool" where
  "decides_by_next decide \<longleftrightarrow> (\<forall>e t. decide e = Inr (Some t) \<longrightarrow> (\<exists>ev a input at. next_transition e ev a input at = Inr t))"

lemma decide_all_Inr:
  "decide_all decide es = Inr ts \<Longrightarrow> \<exists>ds. length ds = length es \<and> (\<forall>i < length es. decide (es ! i) = Inr (ds ! i)) \<and> ts = map the (filter (\<lambda>d. d \<noteq> None) ds)"
proof (induction es arbitrary: ts)
  case (Cons e es)
  then obtain c us where c: "decide e = Inr c" "decide_all decide es = Inr us" "ts = (case c of None \<Rightarrow> us | Some t \<Rightarrow> t # us)"
    by (auto split: sum.splits)
  from Cons.IH [OF c(2)] obtain ds where ds: "length ds = length es" "\<forall>i < length es. decide (es ! i) = Inr (ds ! i)"
    "us = map the (filter (\<lambda>d. d \<noteq> None) ds)" by blast
  show ?case
    by (rule exI [of _ "c # ds"]) (use c ds in \<open>auto simp: nth_Cons split: nat.splits option.splits\<close>)
qed simp

text \<open>What a batch still has to apply: decisions on distinct stored errands, as they are locked.\<close>

definition batch_ready :: "order_db \<Rightarrow> (string \<Rightarrow> errand option) \<Rightarrow> transition list \<Rightarrow> bool" where
  "batch_ready db locked ts \<longleftrightarrow> distinct (map t_errand_id ts)
     \<and> (\<forall>t \<in> set ts. \<exists>r ev a input at. r \<in> set (od_errands db) \<and> locked (t_errand_id t) = Some (errand_from_row r)
          \<and> next_transition (errand_from_row r) ev a input at = Inr t)"

lemma next_errand_id: "next_transition e ev a input at = Inr t \<Longrightarrow> t_errand_id t = e_id e"
  by (erule transition_summary)

text \<open>What every applied decision keeps, a batch of them keeps.\<close>

lemma apply_decided_keeps:
  assumes ok: "uuid_reader_ok uuid"
    and keeps: "\<And>db r ev a input at t. store_inv uuid db \<Longrightarrow> r \<in> set (od_errands db) \<Longrightarrow> next_transition (errand_from_row r) ev a input at = Inr t \<Longrightarrow>
      applicable uuid db (errand_from_row r) t \<Longrightarrow> P db \<Longrightarrow> P (applied uuid now (errand_from_row r) t db)"
  shows "store_inv uuid db \<Longrightarrow> batch_ready db locked ts \<Longrightarrow> apply_decided uuid now locked ts db = Inr ((), db') \<Longrightarrow> P db \<Longrightarrow>
    store_inv uuid db' \<and> P db'"
proof (induction ts arbitrary: db locked)
  case (Cons t ts)
  from Cons.prems(2) obtain r ev a input at where r: "r \<in> set (od_errands db)" "locked (t_errand_id t) = Some (errand_from_row r)"
    "next_transition (errand_from_row r) ev a input at = Inr t" by (auto simp: batch_ready_def)
  let ?cur = "errand_from_row r"
  have sub: "t_from t \<noteq> StatusNone"
    by (rule transition_summary [OF r(3)]) (use row_clean_status [OF store_inv_rowD(2) [OF Cons.prems(1) r(1)]] in simp)
  from Cons.prems(3) r(2) sub obtain stored d where st: "apply_locked uuid now ?cur t db = Inr (stored, d)"
    "apply_decided uuid now (locked(t_errand_id t \<mapsto> stored)) ts d = Inr ((), db')"
    by (auto simp: tx_bind_iff)
  have ap: "applicable uuid db ?cur t" "d = applied uuid now ?cur t db"
    using apply_locked_iff [OF store_inv_rowD(1) [OF Cons.prems(1) r(1)] r(1) store_inv_rowD(2) [OF Cons.prems(1) r(1)] sub refl] st(1)
      next_nonneg [OF r(3) store_inv_rowD(3) [OF Cons.prems(1) r(1)]] by auto
  have inv: "store_inv uuid d" using store_inv_applied [OF ok Cons.prems(1) r(1) refl r(3) ap(1)] ap(2) by simp
  have P: "P d" using keeps [OF Cons.prems(1) r(1,3) ap(1) Cons.prems(4)] ap(2) by simp
  have "batch_ready d (locked(t_errand_id t \<mapsto> stored)) ts"
  proof -
    have "q \<in> set (od_errands d)" if "q \<in> set (od_errands db)" "er_id q \<noteq> er_id r" for q
      using that ap(2) by (simp add: set_update_where)
    moreover have "t_errand_id t = er_id r" using next_errand_id [OF r(3)] by simp
    ultimately show ?thesis
      using Cons.prems(2) next_errand_id unfolding batch_ready_def
      by (auto 0 4 simp: image_iff) (metis errand_from_row_fields(1))
  qed
  from Cons.IH [OF inv this st(2) P] show ?case .
qed simp

lemma batch_ready_decided:
  assumes inv: "store_inv uuid db" and dec: "decides_by_next decide" and rows: "distinct (map er_id rows)" "set rows \<subseteq> set (od_errands db)"
    and all: "decide_all decide (map errand_from_row rows) = Inr ts"
  shows "batch_ready db (map_of (map (\<lambda>e. (e_id e, e)) (map errand_from_row rows))) ts"
  using rows all
proof (induction rows arbitrary: ts)
  case Nil
  then show ?case by (simp add: batch_ready_def)
next
  case (Cons r rows)
  let ?m = "\<lambda>rows. map_of (map (\<lambda>e. (e_id e, e)) (map errand_from_row rows))"
  from Cons.prems(3) obtain c us where c: "decide (errand_from_row r) = Inr c" "decide_all decide (map errand_from_row rows) = Inr us"
    "ts = (case c of None \<Rightarrow> us | Some t \<Rightarrow> t # us)" by (auto split: sum.splits)
  have IH: "batch_ready db (?m rows) us" using Cons.IH [OF _ _ c(2)] Cons.prems(1,2) by simp
  have ids: "t_errand_id t \<in> er_id ` set rows" if "t \<in> set us" for t
  proof -
    from IH that have "?m rows (t_errand_id t) \<noteq> None" unfolding batch_ready_def by auto
    then show ?thesis by (auto simp: map_of_eq_None_iff)
  qed
  have keep: "?m (r # rows) k = ?m rows k" if "k \<in> er_id ` set rows" for k
    using that Cons.prems(1) by (cases "k = er_id r") simp_all
  have tail: "batch_ready db (?m (r # rows)) us" using IH keep ids unfolding batch_ready_def by simp
  show ?case
  proof (cases c)
    case (Some t)
    then obtain ev a input at where nx: "next_transition (errand_from_row r) ev a input at = Inr t"
      using dec c(1) unfolding decides_by_next_def by blast
    have tid: "t_errand_id t = er_id r" using next_errand_id [OF nx] by simp
    have "\<exists>r' ev a input at. r' \<in> set (od_errands db) \<and> ?m (r # rows) (t_errand_id t) = Some (errand_from_row r')
        \<and> next_transition (errand_from_row r') ev a input at = Inr t"
      using nx Cons.prems(2) tid by (intro exI [of _ r] exI [of _ ev] exI [of _ a] exI [of _ input] exI [of _ at]) simp
    moreover have "t_errand_id t \<notin> t_errand_id ` set us"
    proof
      assume "t_errand_id t \<in> t_errand_id ` set us"
      then obtain u where "u \<in> set us" "t_errand_id u = er_id r" using tid by auto
      with ids [of u] Cons.prems(1) show False by simp
    qed
    ultimately show ?thesis using tail c(3) Some unfolding batch_ready_def by simp
  next
    case None
    with c(3) have "ts = us" by simp
    with tail show ?thesis by (simp only:)
  qed
qed

lemma lift_sum_Inr: "lift_sum x db = Inr (a, db') \<longleftrightarrow> x = Inr a \<and> db' = db"
  by (auto simp: lift_sum_def split: sum.splits)

lemma claim_query_rows:
  assumes "claim_query kind cutoff limit held db = Inr (rows, db')" "distinct (map er_id (od_errands db))"
  shows "db' = db \<and> distinct (map er_id rows) \<and> set rows \<subseteq> set (od_errands db) \<and> (\<forall>r \<in> set rows. claimable kind cutoff r)"
proof -
  define xs where "xs = sort_key (\<lambda>r. the (claim_column kind r)) (sort_key er_id
    (filter (\<lambda>r. claimable kind cutoff r \<and> \<not> held (er_id r)) (od_errands db)))"
  have xs: "set xs = {r \<in> set (od_errands db). claimable kind cutoff r \<and> \<not> held (er_id r)}" by (simp add: xs_def)
  have "inj_on er_id (set (od_errands db))" "distinct xs"
    using assms(2) by (auto simp: distinct_map xs_def)
  then have "distinct (map er_id xs)" using xs by (auto simp: distinct_map inj_on_def)
  then have "distinct (map er_id (take limit xs))" by (simp add: take_map [symmetric])
  moreover have "rows = take limit xs" "db' = db" using assms(1) by (auto simp: claim_query_def xs_def)
  moreover have "set (take limit xs) \<subseteq> set xs" by (rule set_take_subset)
  ultimately show ?thesis using xs by auto
qed

lemma claim_due_keeps:
  assumes ok: "uuid_reader_ok uuid" and inv: "store_inv uuid db" and dec: "decides_by_next decide"
    and cl: "claim_due uuid now kind cutoff limit held decide db = (res, db')"
    and keeps: "\<And>db r ev a input at t. store_inv uuid db \<Longrightarrow> r \<in> set (od_errands db) \<Longrightarrow> next_transition (errand_from_row r) ev a input at = Inr t \<Longrightarrow>
      applicable uuid db (errand_from_row r) t \<Longrightarrow> P db \<Longrightarrow> P (applied uuid now (errand_from_row r) t db)"
    and P: "P db"
  shows "store_inv uuid db' \<and> P db'"
proof (cases res)
  case (Inl err)
  then have "db' = db" using cl by (auto simp: claim_due_def split: if_splits dest!: run_tx_InlD)
  with inv P show ?thesis by simp
next
  case (Inr n)
  then obtain rows ts d where b: "claim_query kind cutoff (nat (min limit max_int32)) held db = Inr (rows, d)"
    "decide_all decide (map errand_from_row rows) = Inr ts"
    "apply_decided uuid now (map_of (map (\<lambda>e. (e_id e, e)) (map errand_from_row rows))) ts d = Inr ((), db')"
    using cl by (auto simp: claim_due_def claim_due_tx_def tx_bind_iff Let_def lift_sum_Inr split: if_splits dest!: run_tx_InrD)
  have "distinct (map er_id (od_errands db))" using inv by (simp add: store_inv_def)
  from claim_query_rows [OF b(1) this] have q: "d = db" "distinct (map er_id rows)" "set rows \<subseteq> set (od_errands db)" by simp_all
  from apply_decided_keeps [where P = P, OF ok keeps inv batch_ready_decided [OF inv dec q(2,3) b(2)]] b(3) q(1) P show ?thesis by simp
qed

lemma claim_due_step:
  assumes ok: "uuid_reader_ok uuid" and inv: "store_inv uuid db" and dec: "decides_by_next decide"
    and cl: "claim_due uuid now kind cutoff limit held decide db = (res, db')"
  shows "store_inv uuid db' \<and> advances db db'"
  by (rule claim_due_keeps [where P = "advances db", OF ok inv dec cl _ advances_refl])
    (rule advances_trans, assumption, rule advances_applied [OF ok _ _ refl])

section \<open>Runs\<close>

text \<open>
  A run, latest database first. An application may decide on an errand read from any earlier database;
  \<open>other\<close> is a write of another package: a fence, or the delivery state of outbox rows.
\<close>

inductive order_trace :: "uuid_reader \<Rightarrow> order_db list \<Rightarrow> bool" for uuid where
  start: "order_trace uuid [empty_order_db]"
| create: "order_trace uuid (db # dbs) \<Longrightarrow> new_errand e \<Longrightarrow> uuid (e_id e) = Some (e_id e) \<Longrightarrow>
    next_transition e EventSubmit a input at = Inr t \<Longrightarrow> store_create uuid now e t db = (res, db') \<Longrightarrow> order_trace uuid (db' # db # dbs)"
| written: "order_trace uuid (db # dbs) \<Longrightarrow> old \<in> set (db # dbs) \<Longrightarrow> store_get uuid eid old = Inr e \<Longrightarrow>
    next_transition e ev a input at = Inr t \<Longrightarrow> store_apply uuid now t db = (res', db') \<Longrightarrow> order_trace uuid (db' # db # dbs)"
| reject: "order_trace uuid (db # dbs) \<Longrightarrow> record_rejection uuid now r db = (res'', db') \<Longrightarrow> order_trace uuid (db' # db # dbs)"
| claim: "order_trace uuid (db # dbs) \<Longrightarrow> decides_by_next decide \<Longrightarrow>
    claim_due uuid now kind cutoff limit held decide db = (n, db') \<Longrightarrow> order_trace uuid (db' # db # dbs)"
| other: "order_trace uuid (db # dbs) \<Longrightarrow> od_errands db' = od_errands db \<Longrightarrow> od_reviews db' = od_reviews db \<Longrightarrow>
    row_keys db' = row_keys db \<Longrightarrow> order_trace uuid (db' # db # dbs)"

lemma order_trace_inv:
  assumes "uuid_reader_ok uuid" "order_trace uuid dbs"
  shows "\<forall>old \<in> set dbs. store_inv uuid old \<and> advances old (hd dbs)"
  using assms(2)
proof (induction rule: order_trace.induct)
  case start
  then show ?case by (simp add: store_inv_empty)
next
  case (create db dbs e a input at t now res db')
  then have inv: "store_inv uuid db" by simp
  have "store_inv uuid db' \<and> advances db db'"
    by (rule store_create_cases [OF assms(1) inv create.hyps(2-5)])
      (use inv store_inv_created [OF assms(1) inv create.hyps(2-4)] in \<open>auto simp: advances_def\<close>)
  with create.IH show ?case by (auto intro: advances_trans)
next
  case (written db dbs old eid e ev a input at t now res db')
  then have inv: "store_inv uuid db" "store_inv uuid old" "advances old db" by auto
  have "store_inv uuid db' \<and> advances db db'"
    by (rule store_apply_cases [OF assms(1) inv(1,3,2) written.hyps(3-5)])
      (use inv store_inv_applied [OF assms(1) inv(1)] advances_applied [OF assms(1) inv(1)] written.hyps(4) in auto)
  with written.IH show ?case by (auto intro: advances_trans)
next
  case (reject db dbs now r res db')
  then have inv: "store_inv uuid db" by simp
  from record_rejection_cases [OF assms(1) inv reject.hyps(2)] have "store_inv uuid db' \<and> advances db db'"
    by (simp add: advances_same)
  with reject.IH show ?case by (auto intro: advances_trans)
next
  case (claim db dbs decide now kind cutoff limit held n db')
  then have inv: "store_inv uuid db" by simp
  from claim_due_step [OF assms(1) inv claim.hyps(2,3)] claim.IH show ?case by (auto intro: advances_trans)
next
  case (other db dbs db')
  then have inv: "store_inv uuid db" by simp
  have "store_inv uuid db'"
    by (rule store_inv_other_rows [OF inv other.hyps(2,3)]) (use other.hyps(4) inv assms(1) in \<open>auto simp: store_inv_def\<close>)
  with other.IH advances_same [OF other.hyps(2)] show ?case by (auto intro: advances_trans)
qed

end
