(* ===== verification/Errand_Progress.thy ===== *)
theory Errand_Progress
  imports Errand_Trace
begin

text \<open>
  The store never refuses a decision for a reason of its own: on a database that satisfies the invariant,
  a transition \<^verbatim>\<open>Next\<close> decided on a stored errand passes the compare-and-swap, every constraint
  of the tables and the uniqueness of outbox keys, as long as its values fit their columns and its
  supplier is not fenced.
\<close>

section \<open>Values that fit the columns\<close>

definition fits_columns :: "uuid_reader \<Rightarrow> errand \<Rightarrow> bool" where
  "fits_columns uuid e \<longleftrightarrow> uuid (e_id e) = Some (e_id e) \<and> details_ids_ok uuid (e_details e) \<and> d_reward (e_details e) \<le> max_int32 \<and> e_version e \<le> max_int32
     \<and> d_building_snapshot (e_details e) \<noteq> None \<and> (\<forall>p. e_pending_edit e = Some p \<longrightarrow> encodable (pe_details p))"

lemma details_check_after:
  assumes nx: "next_transition e ev a input now = Inr t" and "details_check (e_details e)"
    "\<And>p. e_pending_edit e = Some p \<Longrightarrow> details_check (pe_details p)"
  shows "details_check (e_details (apply_to t e))"
proof -
  obtain r t0 where r: "apply_event ev (start_transition e ev a input now r) e input now = Inr t0" "t = finish_transition r e input t0"
    by (rule next_transition_Inr [OF nx])
  have "ch_details (t_changes t0) = Some d \<Longrightarrow> details_check d \<or> (\<exists>p. e_pending_edit e = Some p \<and> d = pe_details p)" for d
    using r(1) by (cases ev) (auto simp: Let_def dest: validate_details_check split: if_splits option.splits)
  with assms(2,3) r(2) show ?thesis by (fastforce split: option.splits)
qed

lemma storable_after:
  assumes fit: "fits_columns uuid e" and inv: "errand_inv e" "e_status e \<noteq> StatusNone" and det: "details_check (e_details e)"
  shows "storable uuid e"
proof -
  have ins: "insert_params uuid e = Inr (row_for uuid e)"
    by (rule insert_params_ok) (use fit in \<open>auto simp: fits_columns_def\<close>)
  have ver: "1 \<le> e_version e" "0 < d_reward (e_details e)" "valid_status (e_status e)"
    using inv by (auto simp: errand_inv_def)
  have i32: "i32 (e_version e) = e_version e" "i32 (d_reward (e_details e)) = d_reward (e_details e)"
    using ver fit by (simp_all add: fits_columns_def i32_id)
  have courier: "e_status e \<in> {StatusAssigned, StatusPickedUp, StatusDelivered, StatusReviewRequired} \<longrightarrow> e_courier_id e \<noteq> []"
    using inv by (auto simp: errand_inv_def assigned_status_def)
  have "errand_check (row_for uuid e)"
    using i32 ver courier det fit
    by (auto simp: errand_check_def row_for_def row_of_def Let_def details_check_def fits_columns_def null_text_def)
  with ins show ?thesis by (auto simp: storable_def)
qed

section \<open>The compare-and-swap\<close>

lemma next_expected:
  assumes nx: "next_transition e ev a input now = Inr t"
  shows "t_expected_pending_key t = (case e_pending_edit e of None \<Rightarrow> [] | Some p \<Rightarrow> pe_key p)"
    "compare_and_swap e t = None"
proof -
  obtain x t0 where x: "apply_event ev (start_transition e ev a input now x) e input now = Inr t0"
    "t = finish_transition x e input t0" by (rule next_transition_Inr [OF nx])
  show key: "t_expected_pending_key t = (case e_pending_edit e of None \<Rightarrow> [] | Some p \<Rightarrow> pe_key p)"
    using apply_event_frame [OF x(1)] x(2) by (simp add: start_transition_def)
  have "t_expected_version t = e_version e" "t_from t = e_status e" by (rule transition_summary [OF nx]; simp)+
  with key show "compare_and_swap e t = None" by (simp add: compare_and_swap_def Let_def)
qed

section \<open>Rows of the review and the outbox\<close>

lemma review_rules:
  assumes "r \<in> set transition_table"
  shows "rl_from r = StatusReviewRequired \<Longrightarrow> rl_to r \<in> {StatusCompleted, StatusRefunded} \<and> rl_actor r = RelAdmin \<and> rl_needs_reason r
      \<and> rl_event r \<in> {EventAdminComplete, EventAdminRefund}"
    "valid_status (rl_to r)"
proof -
  have "list_all (\<lambda>r. (rl_from r = StatusReviewRequired \<longrightarrow> rl_to r \<in> {StatusCompleted, StatusRefunded} \<and> rl_actor r = RelAdmin
      \<and> rl_needs_reason r \<and> rl_event r \<in> {EventAdminComplete, EventAdminRefund}) \<and> valid_status (rl_to r)) transition_table" by code_simp
  with assms show "rl_from r = StatusReviewRequired \<Longrightarrow> rl_to r \<in> {StatusCompleted, StatusRefunded} \<and> rl_actor r = RelAdmin \<and> rl_needs_reason r
      \<and> rl_event r \<in> {EventAdminComplete, EventAdminRefund}" "valid_status (rl_to r)"
    by (auto simp: list_all_iff)
qed

lemma admin_reason:
  assumes nx: "next_transition e ev a input now = Inr t" and ev: "ev \<in> {EventAdminComplete, EventAdminRefund}"
  shows "t_reason t = in_reason input"
proof -
  obtain x t0 where x: "apply_event ev (start_transition e ev a input now x) e input now = Inr t0"
    "t = finish_transition x e input t0" by (rule next_transition_Inr [OF nx])
  with ev show ?thesis by (auto simp: start_transition_def)
qed

lemma review_writable_next:
  assumes nx: "next_transition e ev a input now = Inr t" and inv: "errand_inv e" and has: "has_errand db (e_id e)"
    and open_iff: "list_ex (open_review_of (e_id e)) (od_reviews db) \<longleftrightarrow> e_status e = StatusReviewRequired"
    and after: "e_review_reason after = e_review_reason (apply_to t e)"
  shows "review_writable db (e_id e) after t"
proof -
  obtain r where r: "r \<in> set transition_table" "rl_from r = e_status e" "rl_event r = ev" "rl_to r = t_to t"
    "check_actor (rl_actor r) e a input = None" "rl_needs_reason r \<longrightarrow> \<not> is_blank (in_reason input)" "t_from t = e_status e" "t_actor t = a"
    by (rule transition_summary [OF nx])
  note rules = review_rules [OF r(1)]
  have "e_review_reason (apply_to t e) \<noteq> ReviewNone" if "t_to t = StatusReviewRequired"
    using errand_inv_step [OF nx inv] that by (simp add: errand_inv_def del: apply_to_fields(12))
  moreover have "e_status e \<noteq> StatusReviewRequired" if "t_to t = StatusReviewRequired" using rules(1) r(2,4) that by auto
  moreover have "t_to t \<in> {StatusCompleted, StatusRefunded} \<and> a_id (t_actor t) \<noteq> [] \<and> t_reason t \<noteq> []"
    if "t_from t = StatusReviewRequired"
  proof -
    have rr: "rl_to r \<in> {StatusCompleted, StatusRefunded}" "rl_actor r = RelAdmin" "rl_needs_reason r"
      "rl_event r \<in> {EventAdminComplete, EventAdminRefund}" using rules(1) r(2,7) that by auto
    have "t_reason t = in_reason input" using admin_reason [OF nx] rr(4) r(3) by simp
    moreover have "\<not> is_blank (in_reason input)" using r(6) rr(3) by simp
    ultimately have "t_reason t \<noteq> []" by auto
    with rr r(4,5,8) show ?thesis by (auto split: if_splits)
  qed
  ultimately show ?thesis using has open_iff after r(7) by (auto simp: review_writable_def)
qed

lemma kind_known_credit [simp]: "kind_known kind_credit_reserve" "kind_known kind_credit_release" "kind_known kind_credit_transfer"
  "kind_known kind_credit_adjust" "kind_known (event_kind n)"
  by (simp_all add: kind_known_def) (simp add: has_prefix_def event_kind_def)

lemma row_errand [simp]: "ob_errand_id (credit_row e t kind opn v cmd) = e_id e" "ob_errand_id (event_row e t n) = e_id e"
  by (simp_all add: credit_row_def event_row_def Let_def)

lemma kinds_known:
  assumes "row \<in> set (outbox_rows r e t input)"
  shows "kind_known (ob_kind row) \<and> ob_errand_id row = e_id e"
  using assms
  by (cases "rl_credit r"; cases "edit_requested t") (auto simp: outbox_rows_def credit_rows_def Let_def split: if_splits)

lemma outbox_writable_next:
  assumes nx: "next_transition e ev a input now = Inr t" and inv: "errand_inv e" and trk: "tracked db e"
    and id: "uuid (e_id e) = Some (e_id e)" "no_colon (e_id e)" "has_errand db (e_id e)"
  shows "outbox_writable uuid db (t_outbox t)"
proof -
  obtain r where r: "r \<in> set transition_table" "rl_from r = e_status e" "rl_event r = ev" "rl_to r = t_to t"
    "map ob_key (t_outbox t) = map (op_key (e_id e)) (transition_ops r e t input)"
    by (rule transition_keys [OF nx])
  obtain r' where out: "t_outbox t = outbox_rows r' e t input" by (rule transition_summary [OF nx])
  from trk obtain K where K: "ops_inv K e"
    "\<And>p. fst p \<in> set known_ops \<Longrightarrow> 0 \<le> snd p \<Longrightarrow> op_key (e_id e) p \<in> set (row_keys db) \<Longrightarrow> p \<in> set K"
    unfolding tracked_def by blast
  have ops: "ops_inv (K @ transition_ops r e t input) (apply_to t e)" by (rule ops_inv_step [OF nx inv K(1) r(1-4)])
  then have new: "ops_inv (transition_ops r e t input) (apply_to t e)" "set K \<inter> set (transition_ops r e t input) = {}"
    using rule_ops_fit(6) [OF r(1)] r(4) by (simp_all add: ops_inv_def)
  have "op_key (e_id e) p \<notin> set (row_keys db)" if p: "p \<in> set (transition_ops r e t input)" for p
  proof
    assume k: "op_key (e_id e) p \<in> set (row_keys db)"
    have "0 \<le> snd p" using ops_inv_ok [OF new(1) p] op_okD(2) [of _ "fst p" "snd p"] by simp
    from K(2) [OF transition_ops_known [OF r(1) p] this k] new(2) p show False by blast
  qed
  then have "set (map ob_key (t_outbox t)) \<inter> set (row_keys db) = {}" unfolding r(5) by auto
  moreover have "distinct (map ob_key (t_outbox t))" using distinct_op_keys [OF new(1)] r(5) by simp
  moreover have "kind_known (ob_kind row) \<and> (\<exists>u. uuid (ob_errand_id row) = Some u \<and> has_errand db u)" if "row \<in> set (t_outbox t)" for row
    using kinds_known [OF that [unfolded out]] id by simp
  ultimately show ?thesis unfolding outbox_writable_def by blast
qed

section \<open>Every decision can be stored\<close>

lemma errand_check_details: "errand_check r \<Longrightarrow> details_check (e_details (errand_from_row r))"
  by (simp add: errand_check_def details_check_def errand_from_row_def)

lemma next_applicable:
  assumes ok: "uuid_reader_ok uuid" and inv: "store_inv uuid db" and r: "r \<in> set (od_errands db)" and cur: "cur = errand_from_row r"
    and nx: "next_transition cur ev a input at = Inr t" and fit: "fits_columns uuid (apply_to t cur)" and fence: "fence_clear uuid db cur t"
  shows "applicable uuid db cur t"
proof -
  note row = store_inv_rowD [OF inv r]
  let ?after = "canon uuid (apply_to t cur)" and ?db = "with_errand uuid (apply_to t cur) db"
  have einv: "errand_inv cur" using row(3) cur by simp
  have id: "uuid (e_id cur) = Some (e_id cur)" "e_id ?after = e_id cur" "e_id cur = er_id r" using row(8) cur by simp_all
  obtain q where q: "q \<in> set transition_table" "rl_to q = t_to t" "t_from t = e_status cur" by (rule transition_summary [OF nx])
  have to: "t_to t \<noteq> StatusNone" "valid_status (t_to t)" using rule_ops_fit(6) [OF q(1)] review_rules(2) [OF q(1)] q(2) by simp_all
  have "valid_status (t_from t)" using row(2) q(3) cur by (simp add: row_clean_def errand_check_def)
  have sto: "storable uuid (apply_to t cur)"
    using storable_after [OF fit errand_inv_step [OF nx einv]] to(1) details_check_after [OF nx] row(2,7) cur
    by (simp add: row_clean_def errand_check_details del: apply_to_fields(6))
  have "map er_id (od_errands ?db) = map er_id (od_errands db)" using id by (simp add: with_errand_def update_where_def)
  then have "er_id ` set (od_errands ?db) = er_id ` set (od_errands db)" by (metis set_map)
  then have same: "has_errand ?db x \<longleftrightarrow> has_errand db x" "row_keys ?db = row_keys db" "od_reviews ?db = od_reviews db" for x
    by (simp_all add: with_errand_def has_errand_def row_keys_def)
  have has: "has_errand ?db (e_id cur)" using r id unfolding same by (simp add: has_errand_def)
  have "1 \<le> t_new_version t" "t_new_version t \<le> max_int32" using next_nonneg(1) [OF nx einv] fit by (simp_all add: fits_columns_def)
  then have "1 \<le> i32 (e_version ?after)" by (simp add: i32_id)
  with to(2) \<open>valid_status (t_from t)\<close> has id have tw: "transition_writable ?db ?after t" by (simp add: transition_writable_def)
  have rw: "review_writable ?db (e_id ?after) ?after t"
    unfolding id(2) by (rule review_writable_next [OF nx einv has]) (use row(5) id cur same in simp_all)
  have "tracked ?db cur" using row(4) cur unfolding tracked_def same by simp
  then have ow: "outbox_writable uuid ?db (t_outbox t)"
    using outbox_writable_next [OF nx einv, of ?db uuid] id(1) has uuid_reader_okD(3) [OF ok id(1)] by blast
  show ?thesis unfolding applicable_def Let_def using next_expected(2) [OF nx] fence sto tw rw ow by blast
qed

lemma store_apply_applicable:
  assumes inv: "store_inv uuid db" and r: "r \<in> set (od_errands db)" and nx: "next_transition (errand_from_row r) ev a input at = Inr t"
    and app: "applicable uuid db (errand_from_row r) t"
  shows "store_apply uuid now t db = (Inr (canon uuid (apply_to t (errand_from_row r))), applied uuid now (errand_from_row r) t db)"
proof -
  note row = store_inv_rowD [OF inv r]
  have tid: "t_errand_id t = er_id r" using next_errand_id [OF nx] by simp
  have sub: "t_from t \<noteq> StatusNone"
    by (rule transition_summary [OF nx]) (use row_clean_status [OF row(2)] in simp)
  have "find_errand db (er_id r) = Some r" using find_errand_iff [OF row(1)] r by simp
  moreover have "apply_locked uuid now (errand_from_row r) t db = Inr (canon uuid (apply_to t (errand_from_row r)), applied uuid now (errand_from_row r) t db)"
    using apply_locked_iff [OF row(1) r row(2) sub refl] next_nonneg [OF nx row(3)] app by simp
  ultimately have "apply_tx uuid now (er_id r) t db = Inr (canon uuid (apply_to t (errand_from_row r)), applied uuid now (errand_from_row r) t db)"
    by (simp add: apply_tx_def get_errand_def tx_bind_def)
  with sub tid row(8) show ?thesis by (simp add: store_apply_def run_tx_def)
qed

section \<open>Every submission can be stored\<close>

lemma submit_details_check:
  assumes "next_transition e EventSubmit a input now = Inr t"
  shows "details_check (e_details (apply_to t e))"
proof -
  obtain r t0 where r: "apply_event EventSubmit (start_transition e EventSubmit a input now r) e input now = Inr t0" "t = finish_transition r e input t0"
    by (rule next_transition_Inr [OF assms])
  then show ?thesis by (auto dest: validate_details_check split: if_splits)
qed

lemma next_creatable:
  assumes ok: "uuid_reader_ok uuid" and inv: "store_inv uuid db" and new: "new_errand e" and id: "uuid (e_id e) = Some (e_id e)"
    and nx: "next_transition e EventSubmit a input at = Inr t" and fit: "fits_columns uuid (apply_to t e)"
    and fresh: "\<not> has_errand db (e_id e)" "(e_requester_id e, e_create_key e) \<notin> (\<lambda>r. (er_requester_id r, er_create_key r)) ` set (od_errands db)"
  shows "creatable uuid db e t"
proof -
  note sub = submit_new [OF new nx]
  let ?after = "canon uuid (apply_to t e)" and ?db = "db\<lparr>od_errands := od_errands db @ [row_for uuid (apply_to t e)]\<rparr>"
  have sto: "storable uuid (apply_to t e)"
    using storable_after [OF fit sub(4)] sub(2) submit_details_check [OF nx] by simp
  have "op_key (e_id e) p \<notin> set (row_keys db)" if "fst p \<in> set known_ops" for p
    using inv fresh(1) that uuid_reader_okD(2,3) [OF ok id] unfolding store_inv_def owned_def by blast
  moreover obtain r where r: "r \<in> set transition_table" "rl_from r = e_status e" "rl_event r = EventSubmit" "rl_to r = t_to t"
    "map ob_key (t_outbox t) = map (op_key (e_id e)) (transition_ops r e t input)"
    by (rule transition_keys [OF nx])
  ultimately have free: "set (map ob_key (t_outbox t)) \<inter> set (row_keys db) = {}"
    using transition_ops_known [OF r(1)] unfolding r(5) by auto
  have "ops_inv [] e" using new by (simp add: ops_inv_def)
  from ops_inv_step [OF nx new_errand_inv [OF new] this r(1-4)] have "distinct (map ob_key (t_outbox t))"
    unfolding r(5) by (simp add: distinct_op_keys)
  moreover obtain r' where out: "t_outbox t = outbox_rows r' e t input" by (rule transition_summary [OF nx])
  have "kind_known (ob_kind row) \<and> ob_errand_id row = e_id e" if "row \<in> set (t_outbox t)" for row
    using kinds_known [OF that [unfolded out]] .
  ultimately have ow: "outbox_writable uuid ?db (t_outbox t)"
    using free id by (auto simp: outbox_writable_def row_keys_def has_errand_def)
  have "t_new_version t \<le> max_int32" using fit by (simp add: fits_columns_def)
  then have "1 \<le> i32 (e_version ?after)"
    using next_nonneg(1) [OF nx new_errand_inv [OF new]] by (simp add: i32_id)
  then have "transition_writable ?db ?after t" using sub(1,2) id by (simp add: transition_writable_def has_errand_def valid_status_def statuses_def)
  moreover have "review_writable ?db (e_id ?after) ?after t" using sub(1,2) by (simp add: review_writable_def)
  ultimately show ?thesis unfolding creatable_def Let_def using sto fresh ow by blast
qed

lemma store_create_creatable:
  assumes new: "new_errand e" and id: "uuid (e_id e) = Some (e_id e)" and key: "e_create_key e \<noteq> []"
    and nx: "next_transition e EventSubmit a input at = Inr t" and cr: "creatable uuid db e t"
    and fence: "\<not> list_ex (\<lambda>f. uuid (d_supplier_id (e_details (apply_to t e))) = Some (fe_supplier_id f) \<and> fe_state f \<in> {FenceOpen, FenceCommitted}) (od_fences db)"
  shows "store_create uuid now e t db = (Inr (canon uuid (apply_to t e), True), created uuid now e t db)"
proof -
  note sub = submit_new [OF new nx]
  let ?new = "row_for uuid (apply_to t e)" and ?db = "db\<lparr>od_errands := od_errands db @ [row_for uuid (apply_to t e)]\<rparr>"
  have sto: "storable uuid (apply_to t e)" using cr by (simp add: creatable_def)
  note ins = insert_params_InrD [OF storable_row [OF sto]]
  have read: "errand_from_row ?new = canon uuid (apply_to t e)" using storable_from_row [OF sto] sub(5,6) by simp
  have none: "find (\<lambda>r. er_requester_id r = e_requester_id e \<and> er_create_key r = e_create_key e) (od_errands db) = None"
    using cr by (auto simp: creatable_def find_None_iff2 image_iff)
  have "check_fence (er_supplier_id ?new) db = Inr ((), db)"
    using fence ins(2) by (auto simp: check_fence_iff details_ids_ok_def list_ex_iff)
  moreover have "insert_errand ?new db = Inr (Some ?new, ?db)"
    using cr id sto by (simp add: insert_errand_def creatable_def storable_def)
  moreover have "write_transition_rows uuid now e (canon uuid (apply_to t e)) t ?db = Inr ((), created uuid now e t db)"
    using write_transition_rows_iff [of uuid "canon uuid (apply_to t e)"] cr id by (simp add: creatable_def created_def Let_def)
  ultimately have "create_tx uuid now e t ?new db = Inr ((canon uuid (apply_to t e), True), created uuid now e t db)"
    using none read by (simp add: create_tx_def get_errand_by_create_key_def tx_bind_def Let_def)
  with sub(1,7,8) new key storable_row [OF sto] show ?thesis by (simp add: store_create_def run_tx_def new_errand_def)
qed

end
