(* ===== verification/Outbox_Delivery.thy ===== *)
theory Outbox_Delivery
  imports Outbox_Dispatch Errand_Progress
begin

text \<open>
  What the dispatcher achieves: every row a transition writes is a message the publisher accepts, a
  claimed row is settled the way the broker answered, a batch that meets no failure is sent whole, and the
  sweep ends with nothing overdue.
\<close>

section \<open>Rows of transitions are publishable\<close>

lemma length_itoa: "0 \<le> v \<Longrightarrow> v \<le> max_int32 \<Longrightarrow> length (itoa v) \<le> 10"
  using length_show_nat [of "nat v" 10] by (simp add: itoa_def max_int32_def)

lemma length_idempotency_key:
  assumes "length eid = 36" "length operation \<le> 30" "v \<le> max_int32"
  shows "length (idempotency_key eid operation v) \<le> 200" "idempotency_key eid operation v \<noteq> []"
  using assms length_itoa [of v] by (auto simp: idempotency_key_def)

text \<open>The rows of one transition, each with its operation and what its payload says.\<close>

definition credit_content :: "errand \<Rightarrow> outbox_row \<Rightarrow> bool" where
  "credit_content e row \<longleftrightarrow> (\<exists>c. ob_payload row = CreditPayload c \<and> cc_errand_id c = e_id e \<and> cc_requester_id c = e_requester_id e
     \<and> ob_kind row \<in> set credit_commands
     \<and> (ob_kind row \<in> {kind_credit_reserve, kind_credit_transfer} \<longrightarrow> 0 < cc_amount c)
     \<and> (ob_kind row = kind_credit_transfer \<longrightarrow> cc_courier_id c \<noteq> [])
     \<and> (ob_kind row = kind_credit_adjust \<longrightarrow> 0 < cc_new_amount c \<and> 0 < cc_seq c))"

lemma credit_kinds_distinct [simp]:
  "kind_credit_reserve \<noteq> kind_credit_release" "kind_credit_reserve \<noteq> kind_credit_transfer" "kind_credit_reserve \<noteq> kind_credit_adjust"
  "kind_credit_release \<noteq> kind_credit_reserve" "kind_credit_release \<noteq> kind_credit_transfer" "kind_credit_release \<noteq> kind_credit_adjust"
  "kind_credit_transfer \<noteq> kind_credit_reserve" "kind_credit_transfer \<noteq> kind_credit_release" "kind_credit_transfer \<noteq> kind_credit_adjust"
  "kind_credit_adjust \<noteq> kind_credit_reserve" "kind_credit_adjust \<noteq> kind_credit_release" "kind_credit_adjust \<noteq> kind_credit_transfer"
  by (simp_all add: kind_credit_reserve_def kind_credit_release_def kind_credit_transfer_def kind_credit_adjust_def)

definition rule_publishes :: "rule \<Rightarrow> bool" where
  "rule_publishes r \<longleftrightarrow> rl_to r \<noteq> StatusNone \<and> (rl_credit r = CreditTransfer \<longrightarrow> assigned_status (rl_from r))
     \<and> list_all (\<lambda>n. n \<in> set transition_event_names) (rl_emits r)"

lemma rule_publishes:
  assumes "r \<in> set transition_table"
  shows "rl_to r \<noteq> StatusNone" "rl_credit r = CreditTransfer \<Longrightarrow> assigned_status (rl_from r)"
    "n \<in> set (rl_emits r) \<Longrightarrow> n \<in> set transition_event_names"
proof -
  have "list_all rule_publishes transition_table" by code_simp
  then have "rule_publishes r" using assms by (simp only: list_all_iff)
  then show "rl_to r \<noteq> StatusNone" "rl_credit r = CreditTransfer \<Longrightarrow> assigned_status (rl_from r)"
    "n \<in> set (rl_emits r) \<Longrightarrow> n \<in> set transition_event_names" by (simp_all add: rule_publishes_def list_all_iff)
qed

lemma credit_rows_content:
  assumes nx: "next_transition e ev a input now = Inr t" and inv: "errand_inv e" and r: "r \<in> set transition_table" "rl_from r = e_status e"
    and row: "row \<in> set (credit_rows r e t input)"
  shows "credit_content e row"
proof -
  have ver: "t_expected_version t = e_version e" "t_new_version t = e_version e + (if edit_requested t = None then 1 else 0)"
    by (rule transition_summary [OF nx], assumption)+
  have after: "errand_inv (apply_to t e)" by (rule errand_inv_step [OF nx inv])
  obtain q where q: "q \<in> set transition_table" "rl_to q = t_to t" by (rule transition_summary [OF nx])
  have to: "e_status (apply_to t e) \<noteq> StatusNone" using rule_publishes(1) [OF q(1)] q(2) by simp
  have reward: "0 < d_reward (e_details (apply_to t e))" "1 \<le> t_new_version t" using errand_inv_started [OF after to] by simp_all
  have pend: "e_pending_edit (apply_to t e) = edit_requested t" by (rule pending_after_inv [OF nx inv])
  have edit: "0 < d_reward (pe_details p) \<and> 0 < adjust_seq (t_expected_version t)" if "edit_requested t = Some p" for p
    using errand_inv_pending(2) [OF after] pend that reward(2) ver by (simp add: adjust_seq_def del: apply_to_fields)
  have revert': "0 < d_reward (e_details e)" if "reverts_adjust e t input"
    using that errand_inv_pending(1) [OF inv] errand_inv_started(2) [OF inv] by (auto simp: reverts_adjust_def)
  have courier: "e_courier_id e \<noteq> []" if "rl_credit r = CreditTransfer"
    using rule_publishes(2) [OF r(1) that] r(2) errand_inv_courier [OF inv] by simp
  have seq: "0 < revert_seq (t_new_version t)" using reward(2) by (simp add: revert_seq_def)
  note content = credit_content_def credit_row_def credit_commands_def
  from row consider
      (effect) "row \<in> set (case rl_credit r of
         CreditNone \<Rightarrow> []
       | CreditReserve \<Rightarrow> [credit_row e t kind_credit_reserve ''reserve'' 0 (empty_command\<lparr>cc_amount := d_reward (e_details (apply_to t e))\<rparr>)]
       | CreditRelease \<Rightarrow> [credit_row e t kind_credit_release ''release'' 0 empty_command]
       | CreditTransfer \<Rightarrow> [credit_row e t kind_credit_transfer ''transfer'' 0
           (empty_command\<lparr>cc_courier_id := e_courier_id e, cc_amount := d_reward (e_details (apply_to t e))\<rparr>)])"
    | (adjust) "row \<in> set (case edit_requested t of None \<Rightarrow> []
         | Some p \<Rightarrow> [credit_row e t kind_credit_adjust ''adjust'' (t_expected_version t)
             (empty_command\<lparr>cc_new_amount := d_reward (pe_details p), cc_seq := adjust_seq (t_expected_version t)\<rparr>)])"
    | (revert) "reverts_adjust e t input" "row = credit_row e t kind_credit_adjust ''adjust-revert'' (t_new_version t)
           (empty_command\<lparr>cc_new_amount := d_reward (e_details e), cc_seq := revert_seq (t_new_version t)\<rparr>)"
    unfolding credit_rows_def Let_def set_append Un_iff by (cases "reverts_adjust e t input") auto
  then show ?thesis
  proof cases
    case effect
    with reward(1) courier show ?thesis by (cases "rl_credit r") (simp_all add: content del: apply_to_fields(6))
  next
    case adjust
    with edit show ?thesis by (cases "edit_requested t") (simp_all add: content)
  next
    case revert
    with seq revert' show ?thesis by (simp add: content)
  qed
qed

lemma operations_short:
  assumes "x \<in> set known_ops"
  shows "length x \<le> 30"
proof -
  have "list_all (\<lambda>x. length x \<le> 30) known_ops" by code_simp
  with assms show ?thesis by (simp add: list_all_iff)
qed

lemma transition_row_key:
  assumes nx: "next_transition e ev a input now = Inr t" and inv: "errand_inv e" and row: "row \<in> set (t_outbox t)"
  shows "\<exists>opn v. ob_key row = idempotency_key (e_id e) opn v \<and> length opn \<le> 30 \<and> v \<le> t_new_version t"
proof -
  obtain r where r: "r \<in> set transition_table" "map ob_key (t_outbox t) = map (op_key (e_id e)) (transition_ops r e t input)"
    by (rule transition_keys [OF nx])
  have ver: "t_new_version t = e_version e + (if edit_requested t = None then 1 else 0)" by (rule transition_summary [OF nx])
  have "ob_key row \<in> set (map (op_key (e_id e)) (transition_ops r e t input))" using row unfolding r(2) [symmetric] by simp
  then obtain p where p: "p \<in> set (transition_ops r e t input)" "ob_key row = op_key (e_id e) p" by auto
  have nonneg: "0 \<le> t_new_version t" using next_nonneg [OF nx] inv by simp
  have "snd p \<le> t_new_version t"
    using p(1) ver nonneg by (cases "rl_credit r") (auto simp: transition_ops_def event_ops_def credit_op_def split: if_splits)
  moreover have "length (fst p) \<le> 30" by (rule operations_short [OF transition_ops_known [OF r(1) p(1)]])
  ultimately show ?thesis using p(2) unfolding op_key_def by blast
qed

lemma event_names_mem: "n \<in> set transition_event_names \<Longrightarrow> event_name_text n \<in> set event_names"
  by (simp add: event_names_def)

lemma event_not_credit: "event_kind n \<notin> set credit_commands"
  by (simp add: event_kind_def credit_commands_def kind_credit_reserve_def kind_credit_release_def kind_credit_transfer_def kind_credit_adjust_def)

lemma trim_event_kind: "has_prefix ''event.'' (event_kind n)" "trim_prefix ''event.'' (event_kind n) = event_name_text n"
  by (simp_all add: trim_prefix_def has_prefix_def event_kind_def)

lemma transition_row_publishable:
  assumes nx: "next_transition e ev a input now = Inr t" and inv: "errand_inv e" and row: "row \<in> set (t_outbox t)"
    and eid: "length (e_id e) = 36" and fits: "t_new_version t \<le> max_int32"
    and now: "now \<noteq> zero_time" "format_time now \<noteq> None" and written: "at \<noteq> zero_time" "format_time at \<noteq> None"
  shows "message_from_outbox (msg_row_of (new_outbox n at row)) \<noteq> None
    \<and> ob_errand_id row = e_id e \<and> fst (snd (payload_head (ob_payload row))) = t_new_version t"
proof -
  obtain r where r: "r \<in> set transition_table" "rl_from r = e_status e" "rl_to r = t_to t" "t_outbox t = outbox_rows r e t input"
    "t_at t = now" by (rule transition_summary [OF nx])
  have to: "e_status (apply_to t e) \<noteq> StatusNone" using rule_publishes(1) [OF r(1)] r(3) by simp
  note after = errand_inv_started [OF errand_inv_step [OF nx inv] to]
  obtain opn v where k: "ob_key row = idempotency_key (e_id e) opn v" "length opn \<le> 30" "v \<le> t_new_version t"
    using transition_row_key [OF nx inv row] by blast
  have key: "length (ob_key row) \<le> 255" "ob_key row \<noteq> []"
    using length_idempotency_key [OF eid k(2), of v] k fits by auto
  have ids: "e_id e \<noteq> []" "1 \<le> t_new_version t" "e_requester_id e \<noteq> []" using after by simp_all
  have emits: "set (rl_emits r) \<subseteq> set transition_event_names" using rule_publishes(3) [OF r(1)] by (intro subsetI)
  have "ErrandEditRequested \<in> set transition_event_names" by (simp add: transition_event_names_def)
  with emits row consider (credit) "row \<in> set (credit_rows r e t input)"
    | (event) name where "name \<in> set transition_event_names" "row = event_row e t name"
    unfolding r(4) outbox_rows_def by (auto split: if_splits)
  then show ?thesis
  proof cases
    case credit
    then obtain c where c: "ob_payload row = CreditPayload c" "cc_errand_id c = e_id e" "cc_requester_id c = e_requester_id e"
      "ob_kind row \<in> set credit_commands" "ob_kind row \<in> {kind_credit_reserve, kind_credit_transfer} \<longrightarrow> 0 < cc_amount c"
      "ob_kind row = kind_credit_transfer \<longrightarrow> cc_courier_id c \<noteq> []" "ob_kind row = kind_credit_adjust \<longrightarrow> 0 < cc_new_amount c \<and> 0 < cc_seq c"
      using credit_rows_content [OF nx inv r(1,2) credit] unfolding credit_content_def by blast
    have version: "cc_errand_version c = t_new_version t" "ob_errand_id row = e_id e"
      using credit c(1) by (cases "rl_credit r"; cases "edit_requested t"; auto simp: credit_rows_def credit_row_def Let_def split: if_splits)+
    show ?thesis
      using c version ids key written
      by (auto simp: message_from_outbox_def msg_row_of_def new_outbox_def encodes_def valid_route_def valid_command_def Let_def)
  next
    case event
    then have row': "ob_kind row = event_kind name" "payload_head (ob_payload row) = (e_id e, t_new_version t, now)" "ob_errand_id row = e_id e"
      using r(5) by (simp_all add: event_row_def Let_def)
    show ?thesis
      using row' ids key now event_names_mem [OF event(1)] event_not_credit [of name] trim_event_kind [of name]
      by (simp add: message_from_outbox_def msg_row_of_def new_outbox_def encodes_def valid_route_def Let_def exchange_events_def exchange_commands_def)
  qed
qed

lemma message_from_outbox_Some:
  assumes "message_from_outbox row = Some m"
  shows "encodes m" "m_message_id m = mr_key row" "m_errand_id m = mr_errand_id row" "m_data m = mr_payload row"
    "m_errand_version m = fst (snd (payload_head (mr_payload row)))"
  using assms by (auto simp: message_from_outbox_def Let_def split: prod.splits if_splits)

section \<open>Settling a claimed row\<close>

lemma backoff_bounds:
  assumes "backoff_valid p" "in_int64 (bp_cap p)" "\<And>n. 0 < n \<Longrightarrow> 0 \<le> rnd n \<and> rnd n < n"
  shows "backoff_ceiling p attempt = min (bp_cap p) (bp_base p * 2 ^ nat (attempt - 1))"
    "0 \<le> backoff p rnd attempt" "backoff p rnd attempt \<le> backoff_ceiling p attempt"
proof -
  have base: "0 < bp_base p" "bp_base p \<le> bp_cap p" using assms(1) by (auto simp: backoff_valid_def)
  show c: "backoff_ceiling p attempt = min (bp_cap p) (bp_base p * 2 ^ nat (attempt - 1))"
    using ceiling_loop_exp [OF base assms(2)] by (simp add: backoff_ceiling_def)
  show "0 \<le> backoff p rnd attempt" "backoff p rnd attempt \<le> backoff_ceiling p attempt"
    using assms(3) [of "backoff_ceiling p attempt"] assms(3) [of "backoff_ceiling p attempt + 1"] base c
    by (auto simp: backoff_def Let_def)
qed

text \<open>The write that settles a row goes through while its lease is held.\<close>

lemma lease_held_unique:
  assumes "table_ok rows" "o' \<in> set rows" "lease_held now row o'" "x \<in> set rows" "lease_held now row x"
  shows "x = o'"
  using table_okD(1) [OF assms(1,4,2)] assms(3,5) by (simp add: lease_held_def)

lemma leased_write_held:
  assumes "o' \<in> set rows" "lease_held now row o'"
  shows "leased_write now row f rows = (None, update_where (lease_held now row) f rows)" "f o' \<in> set (update_where (lease_held now row) f rows)"
  using assms by (auto simp: leased_write_def list_ex_iff set_update_where)

lemma settle_write_held:
  assumes ok: "table_ok rows" and o': "o' \<in> set rows" "leased_until until row o'"
    and quiet: "\<forall>(now, op) \<in> set (re_others env). \<not> settles row op \<and> now < until"
    and env: "re_now env < until" "\<not> re_write_fails env" and wr: "\<And>rows. write rows = leased_write (re_now env) row f rows"
  shows "settle_write env write rows = (None, update_where (lease_held (re_now env) row) f (run_ops (re_others env) rows))"
    "f o' \<in> set (snd (settle_write env write rows))"
proof -
  have "o' \<in> set (run_ops (re_others env) rows)" by (rule leased_until_run [OF ok o' quiet])
  moreover have "lease_held (re_now env) row o'" by (rule leased_until_held [OF o'(2) env(1)])
  ultimately show "settle_write env write rows = (None, update_where (lease_held (re_now env) row) f (run_ops (re_others env) rows))"
    "f o' \<in> set (snd (settle_write env write rows))"
    using leased_write_held [of o' "run_ops (re_others env) rows" "re_now env" row f] env(2) wr by (simp_all add: settle_write_def)
qed

text \<open>How a row stands after it was handled under its lease.\<close>

definition settled_row :: "dispatcher_config \<Rightarrow> row_env \<Rightarrow> msg_row \<Rightarrow> stored_outbox_row \<Rightarrow> stored_outbox_row" where
  "settled_row cfg env row o' =
     (let failed = (\<lambda>code. (unleased o')\<lparr>so_status := Failed, so_last_failure_code := Some code\<rparr>) in
      if mr_attempts row > dc_max_attempts cfg then failed ''ATTEMPTS_EXHAUSTED''
      else (case publish_row env row of
          None \<Rightarrow> (unleased o')\<lparr>so_status := Sent, so_sent_at := Some (re_now env), so_last_failure_code := None\<rparr>
        | Some err \<Rightarrow>
            if pe_unpublishable err \<or> mr_attempts row \<ge> dc_max_attempts cfg then failed (failure_code err)
            else (unleased o')\<lparr>so_next_attempt_at := re_now env + whole_microseconds (backoff (dc_backoff cfg) (re_rand env) (mr_attempts row)),
                   so_last_failure_code := Some (failure_code err)\<rparr>))"

lemma failure_code_nonempty [simp]: "failure_code err \<noteq> []"
  by (simp add: failure_code_def)

lemma handle_row_held:
  assumes ok: "table_ok rows" and o': "o' \<in> set rows" "leased_until until row o'"
    and quiet: "\<forall>(now, op) \<in> set (re_others env). \<not> settles row op \<and> now < until"
    and env: "re_now env < until" "\<not> re_write_fails env" and delay: "0 \<le> backoff (dc_backoff cfg) (re_rand env) (mr_attempts row)"
  shows "handle_row cfg env row rows = (None, update_where (lease_held (re_now env) row) (settled_row cfg env row) (run_ops (re_others env) rows))"
    "settled_row cfg env row o' \<in> set (snd (handle_row cfg env row rows))"
proof -
  note settle = settle_write_held [OF ok o' quiet env]
  have eq: "handle_row cfg env row rows = settle_write env (\<lambda>rows. leased_write (re_now env) row (settled_row cfg env row) rows) rows"
  proof (cases "mr_attempts row > dc_max_attempts cfg")
    case True
    then show ?thesis
      by (simp add: handle_row_def fail_row_def settled_row_def [abs_def] mark_outbox_failed_def settle_write_def Let_def)
  next
    case False
    show ?thesis
    proof (cases "publish_row env row")
      case None
      with False show ?thesis by (simp add: handle_row_def settled_row_def [abs_def] mark_outbox_sent_def settle_write_def Let_def)
    next
      case (Some err)
      with False delay show ?thesis
        by (simp add: handle_row_def fail_row_def settled_row_def [abs_def] mark_outbox_failed_def reschedule_outbox_def settle_write_def Let_def)
    qed
  qed
  show "handle_row cfg env row rows = (None, update_where (lease_held (re_now env) row) (settled_row cfg env row) (run_ops (re_others env) rows))"
    "settled_row cfg env row o' \<in> set (snd (handle_row cfg env row rows))"
    unfolding eq by (rule settle; simp)+
qed

section \<open>A batch without failures\<close>

text \<open>The broker takes every message of the batch and every row is settled before \<open>until\<close>.\<close>

definition smooth :: "dispatcher_config \<Rightarrow> batch_env \<Rightarrow> int \<Rightarrow> nat \<Rightarrow> msg_row list \<Rightarrow> bool" where
  "smooth cfg env until i rs \<longleftrightarrow> (\<forall>j < length rs. \<not> be_cancelled env (Suc (i + j)) \<and> mr_attempts (rs ! j) \<le> dc_max_attempts cfg
     \<and> publish_row (be_row env (i + j)) (rs ! j) = None
     \<and> re_others (be_row env (i + j)) = [] \<and> re_now (be_row env (i + j)) < until \<and> \<not> re_write_fails (be_row env (i + j)))"

lemma smooth_Cons:
  "smooth cfg env until i (r # rs) \<longleftrightarrow> smooth cfg env until (Suc i) rs \<and> \<not> be_cancelled env (Suc i) \<and> mr_attempts r \<le> dc_max_attempts cfg
     \<and> publish_row (be_row env i) r = None \<and> re_others (be_row env i) = [] \<and> re_now (be_row env i) < until \<and> \<not> re_write_fails (be_row env i)"
  by (auto simp: smooth_def all_conj_distrib less_Suc_eq_0_disj)

lemma handle_row_sent:
  assumes "table_ok rows" "o' \<in> set rows" "leased_until until r o'" "mr_attempts r \<le> dc_max_attempts cfg" "publish_row env r = None"
    "re_others env = []" "re_now env < until" "\<not> re_write_fails env"
  shows "handle_row cfg env r rows = (None, exec_op (re_now env) (OpSent r) rows)"
    "\<exists>n \<in> set (exec_op (re_now env) (OpSent r) rows). so_id n = mr_id r \<and> so_status n = Sent"
proof -
  have held: "lease_held (re_now env) r o'" by (rule leased_until_held [OF assms(3,7)])
  show "handle_row cfg env r rows = (None, exec_op (re_now env) (OpSent r) rows)"
    using assms(4-6,8) leased_write_held(1) [OF assms(2) held] by (simp add: handle_row_def settle_write_def mark_outbox_sent_def)
  show "\<exists>n \<in> set (exec_op (re_now env) (OpSent r) rows). so_id n = mr_id r \<and> so_status n = Sent"
  proof (rule bexI)
    show "(unleased o')\<lparr>so_status := Sent, so_sent_at := Some (re_now env), so_last_failure_code := None\<rparr>
        \<in> set (exec_op (re_now env) (OpSent r) rows)"
      using leased_write_held(2) [OF assms(2) held] by (simp add: mark_outbox_sent_def leased_write_def)
  qed (use held in \<open>simp add: lease_held_def\<close>)
qed

lemma dispatch_rows_sent:
  assumes "table_ok rows" "distinct (map mr_id rs)" "\<forall>r \<in> set rs. \<exists>o' \<in> set rows. leased_until until r o'" "smooth cfg env until i rs"
  shows "\<exists>rows'. dispatch_rows cfg env i rs rows = (None, rows') \<and> table_ok rows' \<and> map message_of rows' = map message_of rows
    \<and> (\<forall>o' \<in> set rows. so_id o' \<notin> mr_id ` set rs \<longrightarrow> o' \<in> set rows')
    \<and> (\<forall>r \<in> set rs. \<exists>n \<in> set rows'. so_id n = mr_id r \<and> so_status n = Sent)"
  using assms
proof (induction rs arbitrary: i rows)
  case (Cons r rs)
  from Cons.prems(3) obtain o' where o': "o' \<in> set rows" "leased_until until r o'" by auto
  from Cons.prems(4) have sm: "smooth cfg env until (Suc i) rs" "\<not> be_cancelled env (Suc i)" "mr_attempts r \<le> dc_max_attempts cfg"
    "publish_row (be_row env i) r = None" "re_others (be_row env i) = []" "re_now (be_row env i) < until" "\<not> re_write_fails (be_row env i)"
    by (simp_all add: smooth_Cons)
  let ?now = "re_now (be_row env i)" and ?rows = "exec_op (re_now (be_row env i)) (OpSent r) rows"
  note sent = handle_row_sent [OF Cons.prems(1) o' sm(3-7)]
  have step: "table_ok ?rows" "list_all2 row_moves rows ?rows" using exec_op_step [OF Cons.prems(1)] by blast+
  have same: "map message_of ?rows = map message_of rows"
    using step(2) by (auto simp: list_all2_conv_all_nth row_moves_def intro!: nth_equalityI)
  have "\<forall>q \<in> set rs. \<exists>x \<in> set ?rows. leased_until until q x"
  proof
    fix q assume q: "q \<in> set rs"
    then obtain x where x: "x \<in> set rows" "leased_until until q x" using Cons.prems(3) by auto
    have "\<not> settles q (OpSent r)" using q Cons.prems(2) by (auto simp: image_iff)
    from leased_until_kept [OF Cons.prems(1) x this sm(6)] x(2) show "\<exists>x \<in> set ?rows. leased_until until q x" by blast
  qed
  from Cons.IH [OF step(1) _ this sm(1)] Cons.prems(2) obtain rows' where
    IH: "dispatch_rows cfg env (Suc i) rs ?rows = (None, rows')" "table_ok rows'" "map message_of rows' = map message_of ?rows"
      "\<forall>x \<in> set ?rows. so_id x \<notin> mr_id ` set rs \<longrightarrow> x \<in> set rows'"
      "\<forall>q \<in> set rs. \<exists>n \<in> set rows'. so_id n = mr_id q \<and> so_status n = Sent" by auto
  have keep: "x \<in> set ?rows" if "x \<in> set rows" "so_id x \<noteq> mr_id r" for x
    using that by (auto simp: mark_outbox_sent_def leased_write_def set_update_where lease_held_def)
  have "\<exists>n \<in> set rows'. so_id n = mr_id r \<and> so_status n = Sent" using sent(2) IH(4) Cons.prems(2) by auto
  moreover have "\<forall>x \<in> set rows. so_id x \<notin> mr_id ` set (r # rs) \<longrightarrow> x \<in> set rows'" using keep IH(4) by auto
  ultimately show ?case using sent(1) sm(2) IH(1,2,3,5) same by (intro exI [of _ rows']) simp
qed simp

lemma claimed_ids_distinct: "table_ok rows \<Longrightarrow> distinct (claimed_ids credit now limit rows)"
proof -
  assume "table_ok rows"
  then have "distinct (map so_id rows)" by (simp add: table_ok_def)
  then have "distinct (map so_id (sort_key so_next_attempt_at (sort_key so_id (filter (outbox_claimable credit now) rows))))"
    by (simp add: distinct_map inj_on_def)
  then show ?thesis unfolding claimed_ids_def by (metis distinct_take take_map)
qed

lemma claimed_count:
  assumes "table_ok rows"
  shows "length (filter (\<lambda>o'. so_id o' \<in> set (claimed_ids credit now limit rows)) rows) = min limit (length (filter (outbox_claimable credit now) rows))"
proof -
  let ?ids = "claimed_ids credit now limit rows"
  have d: "distinct (map so_id rows)" using assms by (simp add: table_ok_def)
  then have "distinct (map so_id (filter (\<lambda>o'. so_id o' \<in> set ?ids) rows))" by (rule distinct_map_filter)
  then have "length (filter (\<lambda>o'. so_id o' \<in> set ?ids) rows) = card (set (map so_id (filter (\<lambda>o'. so_id o' \<in> set ?ids) rows)))"
    by (metis distinct_card length_map)
  also have "set (map so_id (filter (\<lambda>o'. so_id o' \<in> set ?ids) rows)) = set ?ids"
    using claimed_ids_claimable [of _ credit now limit rows] by auto
  also have "card (set ?ids) = length ?ids" using claimed_ids_distinct [OF assms] by (rule distinct_card)
  finally show ?thesis by (simp add: claimed_ids_def min.commute)
qed

text \<open>A configuration that passed \<^verbatim>\<open>withDefaults\<close> leases a batch for longer than its publications may take.\<close>

lemma with_defaults_lease:
  assumes "with_defaults worker c0 = Some cfg" "worker \<noteq> []" "in_int64 (dc_batch_size cfg * dc_publish_timeout cfg)" "1000 dvd dc_publish_timeout cfg"
  shows "dc_worker_id cfg \<noteq> []" "1 \<le> dc_batch_size cfg" "dc_batch_size cfg \<le> max_batch" "1 \<le> dc_max_attempts cfg" "1000 \<le> dc_lease cfg"
    "dc_batch_size cfg * dc_publish_timeout cfg \<le> whole_microseconds (dc_lease cfg)" "0 < dc_publish_timeout cfg"
proof -
  have c: "dc_worker_id cfg \<noteq> []" "1 \<le> dc_batch_size cfg" "dc_batch_size cfg \<le> max_batch" "1 \<le> dc_max_attempts cfg"
    "0 \<le> dc_publish_timeout cfg" "dc_publish_timeout cfg \<noteq> 0" "i64 (dc_batch_size cfg * dc_publish_timeout cfg) < dc_lease cfg"
    using with_defaults_Some [OF assms(1)] fill_defaults_fields assms(2) by simp_all
  have less: "dc_batch_size cfg * dc_publish_timeout cfg < dc_lease cfg" using c(7) i64_id [OF assms(3)] by simp
  show "dc_worker_id cfg \<noteq> []" "1 \<le> dc_batch_size cfg" "dc_batch_size cfg \<le> max_batch" "1 \<le> dc_max_attempts cfg" "0 < dc_publish_timeout cfg"
    using c by auto
  obtain k where k: "dc_publish_timeout cfg = 1000 * k" using assms(4) by blast
  have "1 * dc_publish_timeout cfg \<le> dc_batch_size cfg * dc_publish_timeout cfg" using c(2,5) by (intro mult_right_mono) auto
  moreover have "1000 \<le> dc_publish_timeout cfg" using c(5,6) k by simp
  ultimately show "1000 \<le> dc_lease cfg" using less by linarith
  have "1000 * (dc_batch_size cfg * k) < dc_lease cfg" using less k by (simp add: mult.left_commute)
  then have "dc_batch_size cfg * k \<le> dc_lease cfg div 1000" by linarith
  then show "dc_batch_size cfg * dc_publish_timeout cfg \<le> whole_microseconds (dc_lease cfg)"
    using k by (simp add: whole_microseconds_def mult.left_commute mult.commute)
qed

lemma message_of_lease [simp]:
  "message_from_outbox (msg_row_of (leased_to w u o')) = message_from_outbox (msg_row_of o')"
  by (cases "payload_head (so_payload o')") (simp add: message_from_outbox_def msg_row_of_def Let_def)

lemma claim_ok:
  assumes "worker \<noteq> []" "1 \<le> limit" "limit \<le> max_batch" "1000 \<le> lease" "table_ok rows"
    "\<forall>o' \<in> set rows. outbox_claimable credit now o' \<longrightarrow> so_attempts o' < max_int32"
  shows "\<exists>claimed rows'. claim_outbox order worker credit limit lease now rows = (Inr claimed, rows')"
proof -
  have "\<not> list_ex (\<lambda>o'. so_id o' \<in> set (claimed_ids credit now (nat limit) rows) \<and> max_int32 \<le> so_attempts o') rows"
    using assms(6) chosen_claimable [OF assms(5)] by (fastforce simp: list_ex_iff)
  then show ?thesis using assms(1-4) by (auto simp: claim_outbox_def Let_def)
qed

lemma dispatch_smooth:
  assumes ok: "table_ok rows" and perm: "\<And>xs. mset (be_order env xs) = mset xs"
    and cfg: "dc_worker_id cfg \<noteq> []" "1 \<le> dc_batch_size cfg" "dc_batch_size cfg \<le> max_batch" "1000 \<le> dc_lease cfg"
    and ready: "\<forall>o' \<in> set rows. outbox_claimable credit (be_claim_now env) o' \<longrightarrow>
        message_from_outbox (msg_row_of o') \<noteq> None \<and> so_attempts o' < dc_max_attempts cfg \<and> so_attempts o' < max_int32"
    and env: "\<And>i. \<not> be_cancelled env i" "\<not> be_claim_fails env"
    and rows_env: "\<And>i. i < nat (dc_batch_size cfg) \<Longrightarrow> re_publish (be_row env i) = (\<lambda>_. None) \<and> re_others (be_row env i) = []
        \<and> \<not> re_write_fails (be_row env i) \<and> re_now (be_row env i) < be_claim_now env + whole_microseconds (dc_lease cfg)"
  shows "\<exists>rows'. dispatch cfg env credit rows
        = (Inr (dc_batch_size cfg \<le> int (length (filter (outbox_claimable credit (be_claim_now env)) rows))), rows')
      \<and> map message_of rows' = map message_of rows
      \<and> (\<forall>o' \<in> set rows. if so_id o' \<in> set (claimed_ids credit (be_claim_now env) (nat (dc_batch_size cfg)) rows)
           then \<exists>n \<in> set rows'. so_id n = so_id o' \<and> so_status n = Sent else o' \<in> set rows')"
proof -
  let ?now = "be_claim_now env" and ?until = "be_claim_now env + whole_microseconds (dc_lease cfg)" and ?n = "nat (dc_batch_size cfg)"
  let ?ids = "claimed_ids credit ?now ?n rows"
  obtain claimed rows1 where cl: "claim_outbox (be_order env) (dc_worker_id cfg) credit (dc_batch_size cfg) (dc_lease cfg) ?now rows = (Inr claimed, rows1)"
    using claim_ok [OF cfg ok] ready by blast
  note c = claim_outbox_Inr [OF cl perm]
  let ?chosen = "\<lambda>o'. so_id o' \<in> set ?ids"
  have rows1: "table_ok rows1" "list_all2 row_moves rows rows1" unfolding c(3) using exec_op_step [OF ok] by blast+
  have filt: "filter ?chosen rows1 = map (leased_to (dc_worker_id cfg) ?until) (filter ?chosen rows)"
    unfolding c(1) by (rule filter_update_where) simp
  have claimed: "set claimed = (\<lambda>o'. msg_row_of (leased_to (dc_worker_id cfg) ?until o')) ` {o' \<in> set rows. ?chosen o'}"
    using mset_eq_setD [OF c(2)] filt by auto
  have len: "length claimed = min ?n (length (filter (outbox_claimable credit ?now) rows))"
    using mset_eq_length [OF c(2)] filt claimed_count [OF ok] by simp
  have "mset (map mr_id claimed) = mset (map so_id (filter ?chosen rows1))"
    using c(2) by (metis (no_types, lifting) comp_apply map_eq_conv list.map_comp mset_map msg_row.select_convs(1) msg_row_of_def)
  then have dist: "distinct (map mr_id claimed)"
    using rows1(1) by (metis distinct_map_filter mset_eq_imp_distinct_iff table_ok_def)
  have leased: "\<forall>r \<in> set claimed. \<exists>o' \<in> set rows1. leased_until ?until r o'"
    using claimed_leased [OF ok cl perm] by blast
  have "smooth cfg env ?until 0 claimed"
    unfolding smooth_def
  proof (intro allI impI)
    fix j assume j: "j < length claimed"
    then obtain o' where o': "o' \<in> set rows" "?chosen o'" "claimed ! j = msg_row_of (leased_to (dc_worker_id cfg) ?until o')"
      using nth_mem [OF j] claimed by auto
    have "outbox_claimable credit ?now o'" by (rule chosen_claimable [OF ok o'(1,2)])
    then have r: "message_from_outbox (msg_row_of o') \<noteq> None" "so_attempts o' < dc_max_attempts cfg" using ready o'(1) by blast+
    have "j < ?n" using j len by simp
    note e = rows_env [OF this]
    have "publish_row (be_row env j) (claimed ! j) = None" using r(1) o'(3) e by (auto simp: publish_row_def)
    moreover have "mr_attempts (claimed ! j) \<le> dc_max_attempts cfg" using r(2) o'(3) by (simp add: msg_row_of_def)
    ultimately show "\<not> be_cancelled env (Suc (0 + j)) \<and> mr_attempts (claimed ! j) \<le> dc_max_attempts cfg
        \<and> publish_row (be_row env (0 + j)) (claimed ! j) = None \<and> re_others (be_row env (0 + j)) = []
        \<and> re_now (be_row env (0 + j)) < ?until \<and> \<not> re_write_fails (be_row env (0 + j))"
      using e env(1) by simp
  qed
  from dispatch_rows_sent [OF rows1(1) dist leased this] obtain rows' where
    d: "dispatch_rows cfg env 0 claimed rows1 = (None, rows')" "map message_of rows' = map message_of rows1"
      "\<forall>o' \<in> set rows1. so_id o' \<notin> mr_id ` set claimed \<longrightarrow> o' \<in> set rows'"
      "\<forall>r \<in> set claimed. \<exists>n \<in> set rows'. so_id n = mr_id r \<and> so_status n = Sent" by blast
  have full: "(int (length claimed) = dc_batch_size cfg) = (dc_batch_size cfg \<le> int (length (filter (outbox_claimable credit ?now) rows)))"
    using len cfg(2) by linarith
  have same: "map message_of rows1 = map message_of rows"
    using rows1(2) by (auto simp: list_all2_conv_all_nth row_moves_def intro!: nth_equalityI)
  have each: "if ?chosen o' then \<exists>n \<in> set rows'. so_id n = so_id o' \<and> so_status n = Sent else o' \<in> set rows'" if o': "o' \<in> set rows" for o'
  proof (cases "?chosen o'")
    case True
    then have "msg_row_of (leased_to (dc_worker_id cfg) ?until o') \<in> set claimed" using o' claimed by auto
    with d(4) have "\<exists>n \<in> set rows'. so_id n = mr_id (msg_row_of (leased_to (dc_worker_id cfg) ?until o')) \<and> so_status n = Sent" by blast
    with True show ?thesis by (simp add: msg_row_of_def)
  next
    case False
    then have "o' \<in> set rows1" "so_id o' \<notin> mr_id ` set claimed"
      using o' claimed unfolding c(1) by (auto simp: set_update_where msg_row_of_def)
    with d(3) False show ?thesis by simp
  qed
  show ?thesis using env cl d(1,2) full same each by (intro exI [of _ rows']) (simp add: dispatch_def)
qed

section \<open>The sweep ends\<close>

definition overdue :: "int \<Rightarrow> int \<Rightarrow> outbox_table \<Rightarrow> nat" where
  "overdue now timeout rows = length (filter (unconfirmed now timeout) rows)"

lemma resend_step:
  assumes ok: "table_ok rows" and perm: "\<And>xs. mset (order xs) = mset xs" and rs: "resend_unconfirmed order timeout limit now rows = (Inr sent, rows')"
  shows "length sent = min (nat limit) (overdue now timeout rows)" "overdue now timeout rows' = overdue now timeout rows - length sent"
    "table_ok rows'" "1 \<le> limit"
proof -
  let ?ids = "stale_ids now timeout (nat limit) rows"
  let ?chosen = "\<lambda>o'. so_id o' \<in> set ?ids"
  have r: "1 \<le> limit" "rows' = update_where ?chosen (\<lambda>o'. (unleased o')\<lparr>so_status := Pending, so_next_attempt_at := now\<rparr>) rows"
    "sent = map resent_of (order (filter ?chosen rows'))" "rows' = exec_op now (OpResend timeout limit) rows"
    using rs by (auto simp: resend_unconfirmed_def Let_def split: if_splits)
  show "1 \<le> limit" by (fact r(1))
  show "table_ok rows'" unfolding r(4) using exec_op_step [OF ok] by blast
  have d: "distinct (map so_id rows)" using ok by (simp add: table_ok_def)
  have dids: "distinct ?ids"
  proof -
    have "distinct (map so_id (sort_key (\<lambda>o'. time_or_zero (so_sent_at o')) (filter (unconfirmed now timeout) rows)))"
      using d by (simp add: distinct_map inj_on_def)
    then show ?thesis unfolding stale_ids_def by (metis distinct_take take_map)
  qed
  have dm: "distinct (map so_id (filter ?chosen rows))" using d by (rule distinct_map_filter)
  have "length (filter ?chosen rows) = card (set (map so_id (filter ?chosen rows)))" using dm by (metis distinct_card length_map)
  also have "set (map so_id (filter ?chosen rows)) = set ?ids" using stale_ids_unconfirmed [of _ now timeout "nat limit" rows] by auto
  also have "card (set ?ids) = length ?ids" using dids by (rule distinct_card)
  finally have count: "length (filter ?chosen rows) = min (nat limit) (overdue now timeout rows)"
    by (simp add: stale_ids_def overdue_def min.commute)
  have "length (filter ?chosen rows') = length (filter ?chosen rows)" unfolding r(2) by (subst filter_update_where) simp_all
  then show len: "length sent = min (nat limit) (overdue now timeout rows)"
    using count mset_eq_length [OF perm, of "filter ?chosen rows'"] r(3) by simp
  let ?kept = "filter (\<lambda>o'. unconfirmed now timeout o' \<and> \<not> ?chosen o') rows"
  have "overdue now timeout rows' = length ?kept"
    unfolding r(2) overdue_def by (subst filter_update_not) (simp_all add: unconfirmed_def)
  moreover have "filter (\<lambda>o'. unconfirmed now timeout o' \<and> ?chosen o') rows = filter ?chosen rows"
    using chosen_unconfirmed [OF ok] by (intro filter_cong) auto
  then have "overdue now timeout rows = length sent + length ?kept"
    using length_filter_split [of "unconfirmed now timeout" rows ?chosen] count len by (simp add: overdue_def)
  ultimately show "overdue now timeout rows' = overdue now timeout rows - length sent" by simp
qed

lemma sweep_rows_ends:
  assumes "table_ok rows" "\<And>xs. mset (order xs) = mset xs" "1000 \<le> timeout" "1 \<le> limit" "limit \<le> max_batch" "overdue now timeout rows < fuel"
  shows "\<exists>rows'. sweep_rows fuel order timeout limit now rows = Some (None, rows') \<and> overdue now timeout rows' = 0 \<and> table_ok rows'"
  using assms(1,6)
proof (induction fuel arbitrary: rows)
  case (Suc fuel)
  obtain sent rows1 where rs: "resend_unconfirmed order timeout limit now rows = (Inr sent, rows1)"
    using assms(3-5) by (auto simp: resend_unconfirmed_def Let_def)
  note step = resend_step [OF Suc.prems(1) assms(2) rs]
  show ?case
  proof (cases "int (length sent) < limit")
    case True
    then have "overdue now timeout rows1 = 0" using step(1,2) by auto
    with True rs step(3) show ?thesis by simp
  next
    case False
    then have "overdue now timeout rows1 < fuel" using step(1,2) assms(4) Suc.prems(2) by linarith
    from Suc.IH [OF step(3) this] False rs show ?thesis by simp
  qed
qed simp

end
