(* ===== verification/Errand_Contract.thy ===== *)
theory Errand_Contract
  imports Errand_Progress
begin

text \<open>
  The contract of the \<^verbatim>\<open>Store\<close> port its clients rely on (\<^verbatim>\<open>ports.go\<close>): a write that is
  refused changes nothing, a decision is only applied to the errand it was made on, and an applied one
  moves the errand forward. From it follows what optimistic concurrency promises: of the decisions made
  on one reading of an errand at most one is applied.
\<close>

locale versioned_store =
  fixes get :: "'db \<Rightarrow> string \<Rightarrow> errand option"
    and put :: "transition \<Rightarrow> 'db \<Rightarrow> (store_error + errand) \<times> 'db"
    and invar :: "'db \<Rightarrow> bool"
    and later :: "'db \<Rightarrow> 'db \<Rightarrow> bool"
  assumes refused: "put t db = (Inl err, db') \<Longrightarrow> db' = db"
    and applied_on: "invar old \<Longrightarrow> invar db \<Longrightarrow> later old db \<Longrightarrow> get old eid = Some e \<Longrightarrow> next_transition e ev a input at = Inr t \<Longrightarrow>
      put t db = (Inr s, db') \<Longrightarrow> get db eid = Some e \<and> get db' eid = Some s \<and> progress e < progress s \<and> invar db' \<and> later db db'"
    and later_progress: "invar x \<Longrightarrow> invar y \<Longrightarrow> later x y \<Longrightarrow> get x eid = Some e \<Longrightarrow> \<exists>e'. get y eid = Some e' \<and> progress e \<le> progress e'"
    and later_trans: "later x y \<Longrightarrow> later y z \<Longrightarrow> later x z"
begin

text \<open>Once a decision on a reading was applied, every other decision on that reading is refused.\<close>

lemma one_decision_wins:
  assumes inv: "invar old" "invar db" "invar db2" and ord: "later old db" "later db1 db2"
    and rd: "get old eid = Some e" and n1: "next_transition e ev1 a1 input1 at1 = Inr t1" and n2: "next_transition e ev2 a2 input2 at2 = Inr t2"
    and first: "put t1 db = (Inr s1, db1)"
  shows "\<exists>err. put t2 db2 = (Inl err, db2)"
proof -
  from applied_on [OF inv(1,2) ord(1) rd n1 first]
  have f: "get db1 eid = Some s1" "progress e < progress s1" "invar db1" "later db db1" by simp_all
  from later_progress [OF f(3) inv(3) ord(2) f(1)] obtain e' where e': "get db2 eid = Some e'" "progress s1 \<le> progress e'" by blast
  obtain res db3 where second: "put t2 db2 = (res, db3)" by fastforce
  show ?thesis
  proof (cases res)
    case (Inl err)
    with refused second show ?thesis by metis
  next
    case (Inr s2)
    have "later old db2" using later_trans [OF later_trans [OF ord(1) f(4)] ord(2)] .
    from applied_on [OF inv(1,3) this rd n2] second Inr have "get db2 eid = Some e" by simp
    with e' f(2) show ?thesis by simp
  qed
qed

end

text \<open>The errand store is such a store, on the databases of its runs.\<close>

definition stored :: "uuid_reader \<Rightarrow> order_db \<Rightarrow> string \<Rightarrow> errand option" where
  "stored uuid db eid = (case store_get uuid eid db of Inl _ \<Rightarrow> None | Inr e \<Rightarrow> Some e)"

definition store_ready :: "uuid_reader \<Rightarrow> order_db \<Rightarrow> bool" where
  "store_ready uuid db \<longleftrightarrow> uuid_reader_ok uuid \<and> store_inv uuid db"

lemma stored_Some: "stored uuid db eid = Some e \<longleftrightarrow> store_get uuid eid db = Inr e"
  by (auto simp: stored_def split: sum.splits)

lemma store_apply_refused: "store_apply uuid now t db = (Inl err, db') \<Longrightarrow> db' = db"
  by (auto simp: store_apply_def split: if_splits option.splits dest!: run_tx_InlD)

lemma stored_applied:
  assumes ok: "uuid_reader_ok uuid" and inv: "store_inv uuid db" and r: "r \<in> set (od_errands db)" and nx: "next_transition (errand_from_row r) ev a input at = Inr t"
    and app: "applicable uuid db (errand_from_row r) t" and u: "uuid eid = Some (er_id r)"
  shows "stored uuid (applied uuid now (errand_from_row r) t db) eid = Some (canon uuid (apply_to t (errand_from_row r)))"
proof -
  note row = store_inv_rowD [OF inv r]
  let ?new = "row_for uuid (apply_to t (errand_from_row r))" and ?db = "applied uuid now (errand_from_row r) t db"
  have sto: "storable uuid (apply_to t (errand_from_row r))" using app by (simp add: applicable_def)
  have read: "errand_from_row ?new = canon uuid (apply_to t (errand_from_row r))"
    using storable_from_row [OF sto] next_nonneg [OF nx] row(3) by simp
  have "?new \<in> set (od_errands ?db)" "er_id ?new = er_id r" using r row(8) by (auto simp: set_update_where)
  moreover have "distinct (map er_id (od_errands ?db))"
    using store_inv_applied [OF ok inv r refl nx app] by (simp add: store_inv_def)
  ultimately have "find_errand ?db (er_id r) = Some ?new" by (simp add: find_errand_iff)
  with u read show ?thesis by (simp add: stored_def store_get_def)
qed

lemma stored_later:
  assumes "store_inv uuid a" "store_inv uuid b" "advances a b" "stored uuid a eid = Some e"
  shows "\<exists>e'. stored uuid b eid = Some e' \<and> progress e \<le> progress e'"
proof -
  from assms(4) obtain u r where r: "uuid eid = Some u" "find_errand a u = Some r" "e = errand_from_row r"
    by (auto simp: stored_Some store_get_Inr)
  note m = find_errand_Some [OF r(2)]
  obtain q where q: "q \<in> set (od_errands b)" "er_id q = u" "q = r \<or> progress (errand_from_row r) < progress (errand_from_row q)"
    using assms(3) m unfolding advances_def by blast
  have "find_errand b u = Some q" using find_errand_iff [OF store_inv_rowD(1) [OF assms(2) q(1)]] q by simp
  with r q(3) show ?thesis by (auto simp: stored_def store_get_def)
qed

interpretation errand_store: versioned_store "stored uuid" "store_apply uuid now" "store_ready uuid" advances for uuid now
proof (unfold_locales, goal_cases)
  case (1 t db err db')
  then show ?case by (rule store_apply_refused)
next
  case (2 old db eid e ev a input at t s db')
  then have ok: "uuid_reader_ok uuid" "store_inv uuid old" "store_inv uuid db" and rd: "store_get uuid eid old = Inr e"
    by (simp_all add: store_ready_def stored_Some)
  from store_apply_cases [OF ok(1,3) 2(3) ok(2) rd 2(5,6)] obtain r where r: "r \<in> set (od_errands db)" "e = errand_from_row r"
    "applicable uuid db e t" "s = canon uuid (apply_to t e)" "db' = applied uuid now e t db" by auto
  obtain u q where u: "uuid eid = Some u" "find_errand old u = Some q" "e = errand_from_row q" using rd by (auto simp: store_get_Inr)
  have id: "uuid eid = Some (er_id r)" using u find_errand_Some [OF u(2)] r(2) by (metis errand_from_row_fields(1))
  have "find_errand db (er_id r) = Some r" using find_errand_iff [OF store_inv_rowD(1) [OF ok(3) r(1)]] r(1) by simp
  with id r(2) have "stored uuid db eid = Some e" by (simp add: stored_def store_get_def)
  moreover have "stored uuid db' eid = Some s" using stored_applied [OF ok(1,3) r(1)] 2(5) r id by simp
  moreover have "progress e < progress s"
    using progress_step [OF 2(5)] store_inv_rowD(3) [OF ok(3) r(1)] r(2,4) by (simp add: progress_def)
  ultimately show ?case
    using store_inv_applied [OF ok(1,3) r(1,2) 2(5) r(3)] advances_applied [OF ok(1,3) r(1,2) 2(5) r(3)] r(5) ok(1)
    by (simp add: store_ready_def)
next
  case (3 a b eid e)
  then show ?case by (intro stored_later [of uuid a b]) (simp_all add: store_ready_def)
next
  case (4 a b c)
  then show ?case by (rule advances_trans)
qed

end
