(* ===== verification/Store_Properties.thy ===== *)
theory Store_Properties
  imports Errand_Contract Errand_Example
begin

text \<open>The properties of the errand store, and the database they are exercised on.\<close>

section \<open>An example\<close>

text \<open>A reader of UUIDs: 36 characters without a colon.\<close>

definition ex_reader :: uuid_reader where
  "ex_reader s = (if length s = 36 \<and> no_colon s then Some s else None)"

lemma ex_reader_ok: "uuid_reader_ok ex_reader"
  by (auto simp: uuid_reader_ok_def ex_reader_def split: if_splits)

definition ex_uuid :: "char \<Rightarrow> string" where
  "ex_uuid c = replicate 36 c"

lemma ex_uuid_reads [simp]: "c \<noteq> CHR '':'' \<Longrightarrow> ex_reader (ex_uuid c) = Some (ex_uuid c)"
  by (simp add: ex_reader_def ex_uuid_def no_colon_def)

lemma ex_uuid_not_Nil [simp]: "ex_uuid c \<noteq> []"
  by (simp add: ex_uuid_def)

definition ex_order_details :: details where
  "ex_order_details = ex_details\<lparr>d_supplier_id := ex_uuid CHR ''s'', d_supplier_version_id := ex_uuid CHR ''v'',
     d_building_id := ex_uuid CHR ''b'', d_building_snapshot := Some (JStr ''COM1'')\<rparr>"

definition ex_new :: errand where
  "ex_new = ex_submitted\<lparr>e_id := ex_uuid CHR ''e'', e_details := ex_order_details\<rparr>"

lemma ex_new_fields [simp]: "e_id ex_new = ex_uuid CHR ''e''" "e_status ex_new = StatusNone" "e_version ex_new = 0"
  "e_requester_id ex_new = ''ada''" "e_details ex_new = ex_order_details" "e_pending_edit ex_new = None"
  "e_create_key ex_new = ''k1''" "e_courier_id ex_new = []" "e_review_reason ex_new = ReviewNone" "new_errand ex_new"
  by (simp_all add: ex_new_def ex_submitted_def new_errand_def)

lemma ex_order_details_valid [simp]: "validate_details ex_order_details 0 True = None" "d_reward ex_order_details = 300"
  "details_ids_ok ex_reader ex_order_details" "d_building_snapshot ex_order_details = Some (JStr ''COM1'')"
  by (simp_all add: ex_order_details_def ex_details_def Let_def details_eval details_ids_ok_def)

lemma ex_submission:
  obtains t where "next_transition ex_new EventSubmit ada no_input 0 = Inr t" "t_new_version t = 1" "ch_details (t_changes t) = None"
    "t_from t = StatusNone" "ch_pending_edit (t_changes t) = Keep"
  by (simp add: next_transition_def rules_for_def transition_table_def terminal_def Let_def ada_def)
    (simp add: fail_or_def finish_transition_def start_transition_def no_changes_def Let_def)

text \<open>The database after Ada's submission, and the confirmation of her reservation.\<close>

lemma ex_created:
  obtains t where "next_transition ex_new EventSubmit ada no_input 0 = Inr t" "store_inv ex_reader (created ex_reader 0 ex_new t empty_order_db)"
    "store_create ex_reader 0 ex_new t empty_order_db = (Inr (apply_to t ex_new, True), created ex_reader 0 ex_new t empty_order_db)"
    "row_for ex_reader (apply_to t ex_new) \<in> set (od_errands (created ex_reader 0 ex_new t empty_order_db))"
    "errand_from_row (row_for ex_reader (apply_to t ex_new)) = apply_to t ex_new" "t_new_version t = 1" "ch_details (t_changes t) = None"
    "ch_pending_edit (t_changes t) = Keep"
proof -
  obtain t where t: "next_transition ex_new EventSubmit ada no_input 0 = Inr t" "t_new_version t = 1" "ch_details (t_changes t) = None"
    "t_from t = StatusNone" "ch_pending_edit (t_changes t) = Keep" by (rule ex_submission)
  let ?e = "apply_to t ex_new"
  have id: "ex_reader (e_id ex_new) = Some (e_id ex_new)" by simp
  have fit: "fits_columns ex_reader ?e" using t by (simp add: fits_columns_def max_int32_def)
  have cr: "creatable ex_reader empty_order_db ex_new t"
    by (rule next_creatable [OF ex_reader_ok store_inv_empty ex_new_fields(10) id t(1) fit]) (simp_all add: has_errand_def empty_order_db_def)
  have "canonical ex_reader ?e" using t(3) by (simp add: canonical_def ex_order_details_def)
  then have canon: "canon ex_reader ?e = ?e" by (rule canon_id)
  have sto: "storable ex_reader ?e" using cr by (simp add: creatable_def)
  have read: "errand_from_row (row_for ex_reader ?e) = ?e" using storable_from_row [OF sto] t canon by simp
  have "store_create ex_reader 0 ex_new t empty_order_db = (Inr (canon ex_reader ?e, True), created ex_reader 0 ex_new t empty_order_db)"
    by (rule store_create_creatable [OF ex_new_fields(10) id _ t(1) cr]) (simp_all add: empty_order_db_def)
  with that [OF t(1) store_inv_created [OF ex_reader_ok store_inv_empty ex_new_fields(10) id t(1) cr]] canon read t show thesis by simp
qed

lemma confirm_possible:
  assumes "e_status e = StatusPendingReservation"
  obtains t where "next_transition e EventReservationConfirmed system_actor no_input now = Inr t" "t_to t = StatusOpen"
    "t_new_version t = e_version e + 1" "ch_details (t_changes t) = None" "t_event t = EventReservationConfirmed"
    "e_pending_edit e = None \<longrightarrow> e_pending_edit (apply_to t e) = None"
  using assms
  by (simp add: next_transition_def rules_for_def transition_table_def terminal_def valid_status_def statuses_def Let_def system_actor_def
      start_transition_def finish_transition_def no_changes_def)

text \<open>The confirmation of the example, ready to be applied.\<close>

lemma ex_confirmed:
  obtains db r t where "store_inv ex_reader db" "r \<in> set (od_errands db)" "er_id r = ex_uuid CHR ''e''"
    "next_transition (errand_from_row r) EventReservationConfirmed system_actor no_input second = Inr t"
    "fits_columns ex_reader (apply_to t (errand_from_row r))" "fence_clear ex_reader db (errand_from_row r) t"
    "canon ex_reader (apply_to t (errand_from_row r)) = apply_to t (errand_from_row r)" "t_to t = StatusOpen"
    "store_get ex_reader (ex_uuid CHR ''e'') db = Inr (errand_from_row r)"
proof -
  obtain t0 where t0: "next_transition ex_new EventSubmit ada no_input 0 = Inr t0" "store_inv ex_reader (created ex_reader 0 ex_new t0 empty_order_db)"
    "row_for ex_reader (apply_to t0 ex_new) \<in> set (od_errands (created ex_reader 0 ex_new t0 empty_order_db))"
    "errand_from_row (row_for ex_reader (apply_to t0 ex_new)) = apply_to t0 ex_new" "t_new_version t0 = 1" "ch_details (t_changes t0) = None"
    "ch_pending_edit (t_changes t0) = Keep"
    by (rule ex_created)
  let ?e = "apply_to t0 ex_new"
  have "e_status ?e = StatusPendingReservation" using submit_new(2) [OF ex_new_fields(10) t0(1)] by simp
  then obtain t where t: "next_transition ?e EventReservationConfirmed system_actor no_input second = Inr t" "t_to t = StatusOpen"
    "t_new_version t = e_version ?e + 1" "ch_details (t_changes t) = None" "t_event t = EventReservationConfirmed"
    "e_pending_edit ?e = None \<longrightarrow> e_pending_edit (apply_to t ?e) = None"
    by (rule confirm_possible)
  have pend: "e_pending_edit (apply_to t ?e) = None" using t(6) t0(7) by simp
  have fit: "fits_columns ex_reader (apply_to t ?e)"
    using t t0 pend by (simp add: fits_columns_def max_int32_def del: apply_to_fields(13))
  have fence: "fence_clear ex_reader (created ex_reader 0 ex_new t0 empty_order_db) ?e t"
    using t(5) by (simp add: fence_clear_def edit_target_supplier_def)
  have canon: "canon ex_reader (apply_to t ?e) = apply_to t ?e"
    by (rule canon_id) (use t(4) t0(6) in \<open>simp add: canonical_def ex_order_details_def\<close>)
  have get: "store_get ex_reader (ex_uuid CHR ''e'') (created ex_reader 0 ex_new t0 empty_order_db) = Inr ?e"
    using t0(4) by (simp add: store_get_def find_errand_def empty_order_db_def)
  show thesis
    by (rule that [OF t0(2,3), of t]) (use t t0(4) fit fence canon get in simp_all)
qed

section \<open>Properties\<close>

text \<open>
  C20. In every run of the store, whatever the requests, messages and jobs do and however they
  interleave, the database is consistent: errand ids and create keys are unique, outbox keys never repeat,
  every stored errand satisfies its invariant and the constraints of its table, its reserve command is in
  the outbox, and it has an open review exactly while it is under review.
\<close>

theorem store_consistent_reachable:
  assumes "uuid_reader_ok uuid" and "order_trace uuid dbs"
  shows "store_inv uuid (hd dbs)"
proof -
  have "hd dbs \<in> set dbs" using assms(2) by (cases rule: order_trace.cases) simp_all
  with order_trace_inv [OF assms] show ?thesis by blast
qed

theorem store_consistent_reachable_witness:
  "\<exists>db. order_trace ex_reader [db, empty_order_db] \<and> od_errands db \<noteq> [] \<and> store_inv ex_reader db"
proof (rule ex_created)
  fix t assume t: "next_transition ex_new EventSubmit ada no_input 0 = Inr t"
    "store_create ex_reader 0 ex_new t empty_order_db = (Inr (apply_to t ex_new, True), created ex_reader 0 ex_new t empty_order_db)"
  have "order_trace ex_reader [created ex_reader 0 ex_new t empty_order_db, empty_order_db]"
    by (rule order_trace.create [OF order_trace.start ex_new_fields(10) _ t]) simp
  with store_consistent_reachable [OF ex_reader_ok this] show ?thesis by (intro exI) auto
qed



text \<open>
  C22. Of the decisions made on one reading of an errand at most one is applied: once one was, every other
  is refused at any later time and changes nothing. Two couriers cannot both accept the same errand.
\<close>

theorem one_decision_wins_store:
  assumes "uuid_reader_ok uuid" and "store_inv uuid old" "store_inv uuid db" "store_inv uuid db2"
    and "advances old db" and "store_get uuid eid old = Inr e"
    and "next_transition e ev1 a1 input1 at1 = Inr t1" and "next_transition e ev2 a2 input2 at2 = Inr t2"
    and "store_apply uuid now t1 db = (Inr s1, db1)" and "advances db1 db2"
  shows "\<exists>err. store_apply uuid now t2 db2 = (Inl err, db2)"
  by (rule errand_store.one_decision_wins [of uuid old db db2 _ eid e ev1 a1 input1 at1 t1 ev2 a2 input2 at2 t2 now s1])
    (use assms in \<open>simp_all add: store_ready_def stored_Some\<close>)

theorem one_decision_wins_store_witness:
  "\<exists>db t db1. (\<exists>s. store_apply ex_reader 0 t db = (Inr s, db1)) \<and> (\<exists>err. store_apply ex_reader 0 t db1 = (Inl err, db1))"
proof (rule ex_confirmed)
  fix db r t
  assume c: "store_inv ex_reader db" "r \<in> set (od_errands db)"
    "next_transition (errand_from_row r) EventReservationConfirmed system_actor no_input second = Inr t"
    "fits_columns ex_reader (apply_to t (errand_from_row r))" "fence_clear ex_reader db (errand_from_row r) t"
    "store_get ex_reader (ex_uuid CHR ''e'') db = Inr (errand_from_row r)"
  let ?db1 = "applied ex_reader 0 (errand_from_row r) t db"
  have app: "applicable ex_reader db (errand_from_row r) t" by (rule next_applicable [OF ex_reader_ok c(1,2) refl c(3-5)])
  have first: "store_apply ex_reader 0 t db = (Inr (canon ex_reader (apply_to t (errand_from_row r))), ?db1)"
    by (rule store_apply_applicable [OF c(1,2,3) app])
  have inv1: "store_inv ex_reader ?db1" by (rule store_inv_applied [OF ex_reader_ok c(1,2) refl c(3) app])
  from one_decision_wins_store [OF ex_reader_ok c(1,1) inv1 advances_refl c(6,3,3) first advances_refl] first show ?thesis by blast
qed



text \<open>
  C24. Submitting again with the same idempotency key changes nothing and returns the errand of the first
  submission, whatever else the new request contains and even if its supplier was fenced meanwhile.
\<close>

theorem submission_replayed:
  assumes inv: "store_inv uuid db" and r: "r \<in> set (od_errands db)" "er_requester_id r = e_requester_id e" "er_create_key r = e_create_key e"
    and new: "new_errand e" "e_create_key e \<noteq> []" and nx: "next_transition e EventSubmit a input at = Inr t"
    and ins: "insert_params uuid (apply_to t e) = Inr params"
  shows "store_create uuid now e t db = (Inr (errand_from_row r, False), db)"
proof -
  note sub = submit_new [OF new(1) nx]
  have "distinct (map (\<lambda>r. (er_requester_id r, er_create_key r)) (od_errands db))" using inv by (simp add: store_inv_def)
  from find_key_unique [OF this r(1)] r(2,3)
  have "find (\<lambda>q. er_requester_id q = e_requester_id e \<and> er_create_key q = e_create_key e) (od_errands db) = Some r" by simp
  then have "create_tx uuid now e t params db = Inr ((errand_from_row r, False), db)"
    by (simp add: create_tx_def get_errand_by_create_key_def tx_bind_def)
  with sub(1,7,8) new ins show ?thesis by (simp add: store_create_def run_tx_def new_errand_def)
qed

theorem submission_replayed_witness:
  "\<exists>db e t. od_errands db \<noteq> [] \<and> store_create ex_reader 0 ex_new t db = (Inr (e, False), db)"
proof (rule ex_created)
  fix t assume t: "next_transition ex_new EventSubmit ada no_input 0 = Inr t" "store_inv ex_reader (created ex_reader 0 ex_new t empty_order_db)"
    "store_create ex_reader 0 ex_new t empty_order_db = (Inr (apply_to t ex_new, True), created ex_reader 0 ex_new t empty_order_db)"
    "row_for ex_reader (apply_to t ex_new) \<in> set (od_errands (created ex_reader 0 ex_new t empty_order_db))"
  obtain params where p: "insert_params ex_reader (apply_to t ex_new) = Inr params"
    using t(3) by (auto simp: store_create_def split: if_splits sum.splits)
  from submission_replayed [OF t(2,4) _ _ ex_new_fields(10) _ t(1) p, of 0]
  have "store_create ex_reader 0 ex_new t (created ex_reader 0 ex_new t empty_order_db)
      = (Inr (errand_from_row (row_for ex_reader (apply_to t ex_new)), False), created ex_reader 0 ex_new t empty_order_db)" by simp
  then show ?thesis by (intro exI conjI) auto
qed

text \<open>
  C25. The query of a job selects the errands \<^verbatim>\<open>DueKind.Due\<close> calls due, for each of the six kinds: only
  errands that are due and that nobody else holds, as many of them as the limit allows, those that have
  been due longest, in the order they became due; and it changes nothing.
\<close>

theorem claim_selects_due:
  assumes "store_inv uuid db" and "claim_query kind now limit held db = Inr (rows, db')"
    and "D = {r \<in> set (od_errands db). due kind (errand_from_row r) now \<and> \<not> held (er_id r)}"
  shows "set rows \<subseteq> D \<and> distinct rows \<and> length rows = min limit (card D)
    \<and> (\<forall>r \<in> set rows. \<forall>q \<in> D - set rows. the (due_at kind (errand_from_row r)) \<le> the (due_at kind (errand_from_row q)))
    \<and> sorted (map (\<lambda>r. the (due_at kind (errand_from_row r))) rows) \<and> db' = db"
proof -
  let ?P = "\<lambda>r. claimable kind now r \<and> \<not> held (er_id r)" and ?k = "\<lambda>r. the (claim_column kind r)"
  let ?xs = "sort_key ?k (sort_key er_id (filter ?P (od_errands db)))"
  have rows: "rows = take limit ?xs" "db' = db" using assms(2) by (auto simp: claim_query_def tx_get_def)
  have check: "errand_check r" if "r \<in> set (od_errands db)" for r
    using store_inv_rowD(2) [OF assms(1) that] by (simp add: row_clean_def)
  have xs: "set ?xs = D" "distinct ?xs"
    using assms(1,3) check by (auto simp: claimable_due store_inv_def distinct_map)
  have len: "length ?xs = card D" using xs by (metis distinct_card)
  have sub: "set rows \<subseteq> D" using rows(1) xs(1) by (metis set_take_subset)
  have dist: "distinct rows" using xs(2) by (simp add: rows(1) distinct_take)
  have cnt: "length rows = min limit (card D)" using len by (simp add: rows(1) min.commute)
  have key: "?k r = the (due_at kind (errand_from_row r))" if "r \<in> D" for r
    using that check assms(3) by (simp add: claim_column_due_at)
  have sorted: "sorted (map ?k ?xs)" by simp
  then have parts: "sorted (map ?k (take limit ?xs) @ map ?k (drop limit ?xs))" by (simp flip: map_append)
  then have "sorted (map ?k rows)" unfolding sorted_append rows(1) by blast
  moreover have "map ?k rows = map (\<lambda>r. the (due_at kind (errand_from_row r))) rows" using sub key by auto
  moreover have "?k r \<le> ?k q" if "r \<in> set rows" "q \<in> D - set rows" for r q
  proof -
    have "set ?xs = set (take limit ?xs) \<union> set (drop limit ?xs)" unfolding set_append [symmetric] append_take_drop_id ..
    with that(2) xs(1) rows(1) have "q \<in> set (drop limit ?xs)" by blast
    with parts that(1) rows(1) show ?thesis unfolding sorted_append by auto
  qed
  ultimately show ?thesis using sub dist cnt key rows(2) by auto
qed

theorem claim_selects_due_witness:
  "\<exists>db rows. store_inv ex_reader db \<and> claim_query StuckReservation 5 10 (\<lambda>_. False) db = Inr (rows, db)
     \<and> length rows = 1 \<and> due StuckReservation (errand_from_row (hd rows)) 5"
proof (rule ex_created)
  fix t
  assume t: "next_transition ex_new EventSubmit ada no_input 0 = Inr t" "store_inv ex_reader (created ex_reader 0 ex_new t empty_order_db)"
    "errand_from_row (row_for ex_reader (apply_to t ex_new)) = apply_to t ex_new"
  let ?db = "created ex_reader 0 ex_new t empty_order_db" and ?r = "row_for ex_reader (apply_to t ex_new)"
  let ?D = "{r \<in> set (od_errands ?db). due StuckReservation (errand_from_row r) 5 \<and> \<not> False}"
  obtain rows where q: "claim_query StuckReservation 5 10 (\<lambda>_. False) ?db = Inr (rows, ?db)" by (simp add: claim_query_def tx_get_def)
  have "t_from t = StatusNone" "t_to t = StatusPendingReservation" using submit_new(1,2) [OF ex_new_fields(10) t(1)] by simp_all
  moreover have "t_at t = 0" by (rule transition_summary [OF t(1)])
  ultimately have "due StuckReservation (errand_from_row ?r) 5" by (simp add: t(3) due_def at_status_def apply_to_def Let_def)
  then have D: "?D = {?r}" by (auto simp: empty_order_db_def)
  have len: "length rows = 1" and "set rows \<subseteq> ?D"
    using claim_selects_due [OF t(2) q refl] unfolding D by simp_all
  then have "hd rows \<in> ?D" by (metis hd_in_set length_0_conv subsetD zero_neq_one)
  with t(2) q len show ?thesis by blast
qed



end
