(* ===== verification/Delivery_Properties.thy ===== *)
theory Delivery_Properties
  imports Outbox_Delivery Store_Properties
begin

text \<open>The properties of the backoff, the circuit breaker, the outbox and its dispatcher.\<close>

section \<open>An example\<close>

text \<open>An outbox with the reservation of Ada's errand and the event that announces it.\<close>

definition ex_reserve_row :: outbox_row where
  "ex_reserve_row = \<lparr>ob_kind = kind_credit_reserve, ob_key = ''e:reserve'', ob_errand_id = ''e'',
     ob_payload = CreditPayload (empty_command\<lparr>cc_errand_id := ''e'', cc_errand_version := 1, cc_requester_id := ''ada'', cc_amount := 300\<rparr>)\<rparr>"

definition ex_table :: outbox_table where
  "ex_table = [new_outbox 1 0 ex_reserve_row]"

lemma ex_table_ok: "table_ok ex_table"
  by (simp add: ex_table_def table_ok_def row_ok_def new_outbox_def)

definition ex_worker_config :: dispatcher_config where
  "ex_worker_config = default_dispatcher_config\<lparr>dc_worker_id := ''w''\<rparr>"

lemma ex_worker_config: "with_defaults ''w'' default_dispatcher_config = Some ex_worker_config"
  by code_simp

definition ex_row_env :: row_env where
  "ex_row_env = \<lparr>re_publish = (\<lambda>_. None), re_rand = (\<lambda>n. n - 1), re_others = [], re_now = 1, re_write_fails = False\<rparr>"

definition ex_batch_env :: batch_env where
  "ex_batch_env = \<lparr>be_claim_now = 0, be_claim_fails = False, be_order = id, be_cancelled = (\<lambda>_. False), be_row = (\<lambda>_. ex_row_env)\<rparr>"

definition ex_claimed :: msg_row where
  "ex_claimed = msg_row_of (leased_to ''w'' minute (new_outbox 1 0 ex_reserve_row))"

lemma ex_claim:
  "claim_outbox id ''w'' True 10 minute 0 ex_table = (Inr [ex_claimed], [leased_to ''w'' minute (new_outbox 1 0 ex_reserve_row)])"
  by code_simp

lemma ex_publishable: "message_from_outbox (msg_row_of (new_outbox 1 0 ex_reserve_row)) \<noteq> None"
  by code_simp

section \<open>Backoff and breaker\<close>

text \<open>
  C27 (equivalence). For a policy that passed its validation the ceiling of attempt \<open>n\<close> is
  \<open>min Cap (Base * 2 ^ (n - 1))\<close>, computed without overflow whatever the attempt, and the jittered delay
  lies between zero and that ceiling.
\<close>

theorem backoff_capped:
  assumes "backoff_valid p" "in_int64 (bp_cap p)" "\<forall>n. 0 < n \<longrightarrow> 0 \<le> rnd n \<and> rnd n < n"
  shows "backoff_ceiling p attempt = min (bp_cap p) (bp_base p * 2 ^ nat (attempt - 1))
    \<and> 0 \<le> backoff p rnd attempt \<and> backoff p rnd attempt \<le> backoff_ceiling p attempt"
  using backoff_bounds [OF assms(1,2), of rnd attempt] assms(3) by blast

theorem backoff_capped_witness:
  "backoff_ceiling default_backoff_policy 100 = 5 * minute \<and> backoff default_backoff_policy (\<lambda>n. n - 1) 3 \<le> 8 * second"
proof -
  have ok: "backoff_valid default_backoff_policy" "in_int64 (bp_cap default_backoff_policy)"
    by (simp_all add: backoff_valid_def default_backoff_policy_def duration_defs in_int64_def int64_min_def int64_max_def)
  have r: "\<forall>n::int. 0 < n \<longrightarrow> 0 \<le> n - 1 \<and> n - 1 < n" by simp
  show ?thesis
    using backoff_capped [OF ok r, of 100] backoff_capped [OF ok r, of 3]
    by (simp add: default_backoff_policy_def duration_defs)
qed

text \<open>
  C28 (safety). Whatever calls begin and end in whatever order: an open breaker rejects every call until
  its cool-down has passed without running it; then it admits one trial and no second call while the trial
  runs, and the trial's success closes the breaker, its failure opens it again.
\<close>

theorem breaker_guards_calls:
  assumes "breaker_run c b ts"
  shows "(b_state b = StateHalfOpen \<longrightarrow> length (filter (\<lambda>t. tk_trial t \<and> tk_generation t = b_generation b) ts) \<le> 1)
    \<and> (b_state b = StateOpen \<longrightarrow> now < b_opened_at b + bc_cool_down c \<longrightarrow> do_call c is_failure now t1 fn b = (Some CircuitOpen, b))
    \<and> (b_state b = StateOpen \<longrightarrow> b_opened_at b + bc_cool_down c \<le> now \<longrightarrow>
        (\<exists>t b'. allow c now b = (Some t, b') \<and> allow c later b' = (None, b')
           \<and> b_state (record_outcome c t1 t OutcomeSuccess b') = StateClosed
           \<and> b_state (record_outcome c t1 t OutcomeFailure b') = StateOpen))
    \<and> (b_state b = StateClosed \<longrightarrow> 0 \<le> b_failures b \<and> b_failures b < bc_failure_threshold c)"
proof (intro conjI impI)
  note inv = breaker_run_inv [OF assms]
  assume "b_state b = StateHalfOpen"
  then have "length (current_tickets b ts) \<le> 1" using inv by (simp add: breaker_inv_def split: if_splits)
  moreover have "length (filter (\<lambda>t. tk_trial t \<and> tk_generation t = b_generation b) ts) \<le> length (current_tickets b ts)"
    unfolding current_tickets_def by (induction ts) auto
  ultimately show "length (filter (\<lambda>t. tk_trial t \<and> tk_generation t = b_generation b) ts) \<le> 1" by simp
next
  assume "b_state b = StateOpen" "now < b_opened_at b + bc_cool_down c"
  then show "do_call c is_failure now t1 fn b = (Some CircuitOpen, b)"
    by (simp add: do_call_def allow_def cool_down_locked_def Let_def)
next
  assume "b_state b = StateOpen" "b_opened_at b + bc_cool_down c \<le> now"
  then show "\<exists>t b'. allow c now b = (Some t, b') \<and> allow c later b' = (None, b')
      \<and> b_state (record_outcome c t1 t OutcomeSuccess b') = StateClosed \<and> b_state (record_outcome c t1 t OutcomeFailure b') = StateOpen"
    by (simp add: allow_def cool_down_locked_def set_state_locked_def record_outcome_def Let_def)
qed (use breaker_run_inv [OF assms] in \<open>simp_all add: breaker_inv_def\<close>)

definition ex_breaker_config :: breaker_config where
  "ex_breaker_config = \<lparr>bc_name = ''supplier'', bc_failure_threshold = 1, bc_cool_down = 30 * second\<rparr>"

definition ex_open_breaker :: breaker where
  "ex_open_breaker = \<lparr>b_state = StateOpen, b_failures = 0, b_opened_at = 5, b_trial = False, b_generation = 1\<rparr>"

theorem breaker_guards_calls_witness:
  "breaker_run ex_breaker_config ex_open_breaker []
   \<and> do_call ex_breaker_config (\<lambda>_. True) 6 7 \<lparr>ce_panicked = False, ce_error = None, ce_ctx_done = False, ce_call_ctx_done = False\<rparr> ex_open_breaker
       = (Some CircuitOpen :: string do_error option, ex_open_breaker)
   \<and> (\<exists>t b'. allow ex_breaker_config (5 + 30 * second) ex_open_breaker = (Some t, b'))"
proof -
  let ?b = "\<lparr>b_state = StateClosed, b_failures = 0, b_opened_at = zero_time, b_trial = False, b_generation = 0\<rparr>"
  let ?t = "\<lparr>tk_generation = 0, tk_trial = False\<rparr>"
  have "breaker_run ex_breaker_config ?b []"
    by (rule breaker_run.fresh) (simp add: new_breaker_def breaker_config_valid_def ex_breaker_config_def duration_defs)
  then have "breaker_run ex_breaker_config ?b ([] @ [?t])"
    by (rule breaker_run.begun [where now = 0]) (simp add: allow_def cool_down_locked_def)
  then have "breaker_run ex_breaker_config (record_outcome ex_breaker_config 5 ?t OutcomeFailure ?b) ([] @ [])"
    by (intro breaker_run.ended) simp
  then have run: "breaker_run ex_breaker_config ex_open_breaker []"
    by (simp add: record_outcome_def set_state_locked_def ex_breaker_config_def ex_open_breaker_def)
  have "b_state ex_open_breaker = StateOpen" "b_opened_at ex_open_breaker + bc_cool_down ex_breaker_config = 5 + 30 * second" "6 < 5 + 30 * second"
    by (simp_all add: ex_open_breaker_def ex_breaker_config_def duration_defs)
  then have "do_call ex_breaker_config (\<lambda>_. True) 6 7 \<lparr>ce_panicked = False, ce_error = None, ce_ctx_done = False, ce_call_ctx_done = False\<rparr> ex_open_breaker
       = (Some CircuitOpen :: string do_error option, ex_open_breaker)"
    and "\<exists>t b'. allow ex_breaker_config (5 + 30 * second) ex_open_breaker = (Some t, b')"
    using breaker_guards_calls [OF run, of 6 "\<lambda>_::string. True" 7] breaker_guards_calls [OF run, of "5 + 30 * second" "\<lambda>_::string. True"]
    by (simp, simp, blast)
  with run show ?thesis by blast
qed

section \<open>Messages\<close>

text \<open>
  C29 (functional). Every outbox row a decision of \<^verbatim>\<open>Next\<close> produces is publishable: the
  dispatcher builds from it a message the publisher's validation accepts, with the row's key as its
  message id.
\<close>

theorem transition_rows_publishable:
  assumes "next_transition e ev a input now = Inr t" "errand_inv e" "row \<in> set (t_outbox t)" "length (e_id e) = 36"
    "t_new_version t \<le> max_int32" "now \<noteq> zero_time" "format_time now \<noteq> None" "at \<noteq> zero_time" "format_time at \<noteq> None"
  shows "\<exists>m. message_from_outbox (msg_row_of (new_outbox n at row)) = Some m \<and> encodes m \<and> m_message_id m = ob_key row
    \<and> m_errand_id m = e_id e \<and> m_errand_version m = t_new_version t"
proof -
  note p = transition_row_publishable [OF assms, of n]
  then obtain m where m: "message_from_outbox (msg_row_of (new_outbox n at row)) = Some m" by auto
  from message_from_outbox_Some [OF m] p m show ?thesis by (simp add: msg_row_of_def new_outbox_def)
qed

lemma ex_times: "format_time 0 \<noteq> None" "format_time 1 \<noteq> None"
  by code_simp+

theorem transition_rows_publishable_witness:
  "\<exists>t. next_transition ex_new EventSubmit ada no_input 0 = Inr t \<and> t_outbox t \<noteq> []
     \<and> (\<forall>row \<in> set (t_outbox t). \<exists>m. message_from_outbox (msg_row_of (new_outbox 1 1 row)) = Some m \<and> m_message_id m = ob_key row)"
proof -
  obtain t where t: "next_transition ex_new EventSubmit ada no_input 0 = Inr t" "t_new_version t = 1" by (rule ex_submission)
  have inv: "errand_inv ex_new" by (rule new_errand_inv) simp
  have id: "length (e_id ex_new) = 36" by (simp add: ex_uuid_def)
  have "(0::int) \<noteq> zero_time" "format_time 0 \<noteq> None" "(1::int) \<noteq> zero_time" "format_time 1 \<noteq> None" "t_new_version t \<le> max_int32"
    using t(2) ex_times by (simp_all add: max_int32_def zero_time_def duration_defs)
  with transition_rows_publishable [OF t(1) inv _ id] have "\<forall>row \<in> set (t_outbox t).
      \<exists>m. message_from_outbox (msg_row_of (new_outbox 1 1 row)) = Some m \<and> m_message_id m = ob_key row" by blast
  moreover have "t_outbox t \<noteq> []" using submit_new(9) [OF _ t(1)] by auto
  ultimately show ?thesis using t(1) by blast
qed

section \<open>The outbox\<close>



text \<open>
  C31 (safety). A claim is exclusive while its lease lasts: whatever others do in the meantime, as long as
  the row itself is not settled, no second claim returns it and the claimant's own write is accepted.
\<close>

theorem lease_exclusive:
  assumes "table_ok rows" "claim_outbox order worker credit limit lease now rows = (Inr claimed, rows1)" "\<forall>xs. mset (order xs) = mset xs"
    "row \<in> set claimed" "\<forall>(now', op) \<in> set ops. \<not> settles row op \<and> now' < now + whole_microseconds lease"
    "later < now + whole_microseconds lease" "\<forall>xs. mset (order' xs) = mset xs"
    "claim_outbox order' worker' credit' limit' lease' later (run_ops ops rows1) = (Inr claimed', rows2)"
  shows "mr_id row \<notin> mr_id ` set claimed' \<and> fst (mark_outbox_sent later row (run_ops ops rows1)) = None"
proof -
  obtain o' where o': "o' \<in> set rows1" "leased_until (now + whole_microseconds lease) row o'"
    using claimed_leased [OF assms(1,2) _ assms(4)] assms(3) by blast
  have ok1: "table_ok rows1" unfolding claim_outbox_Inr(3) [OF assms(2) assms(3) [rule_format]] using exec_op_step [OF assms(1)] by blast
  have kept: "o' \<in> set (run_ops ops rows1)" by (rule leased_until_run [OF ok1 o' assms(5)])
  have ok2: "table_ok (run_ops ops rows1)" using run_ops_step [OF ok1] by blast
  have held: "lease_held later row o'" by (rule leased_until_held [OF o'(2) assms(6)])
  have "mr_id row \<notin> mr_id ` set claimed'"
  proof
    assume "mr_id row \<in> mr_id ` set claimed'"
    then obtain q where q: "q \<in> set claimed'" "mr_id q = mr_id row" by auto
    then have "so_id o' \<in> set (claimed_ids credit' later (nat limit') (run_ops ops rows1))"
      using o'(2) unfolding claimed_rows [OF assms(8) assms(7) [rule_format]] by (auto simp: leased_until_def msg_row_of_def)
    from chosen_claimable [OF ok2 kept this] held show False by (auto simp: outbox_claimable_def lease_held_def split: option.splits)
  qed
  moreover have "fst (mark_outbox_sent later row (run_ops ops rows1)) = None"
    using leased_write_held(1) [OF kept held] by (simp add: mark_outbox_sent_def)
  ultimately show ?thesis ..
qed

theorem lease_exclusive_witness:
  "mr_id ex_claimed \<notin> mr_id ` set (projr (fst (claim_outbox id ''v'' True 10 minute 1 (snd (claim_outbox id ''w'' True 10 minute 0 ex_table)))))
   \<and> fst (mark_outbox_sent 1 ex_claimed (snd (claim_outbox id ''w'' True 10 minute 0 ex_table))) = None"
proof -
  let ?rows = "[leased_to ''w'' minute (new_outbox 1 0 ex_reserve_row)]"
  have second: "claim_outbox id ''v'' True 10 minute 1 (run_ops [] ?rows) = (Inr [], ?rows)" by code_simp
  have time: "(1::int) < 0 + whole_microseconds minute" by code_simp
  from lease_exclusive [OF ex_table_ok ex_claim _ _ _ time _ second] second show ?thesis by (simp add: ex_claim)
qed

text \<open>
  C32 (functional). A row handled under its lease ends as the broker answered: sent when it was published;
  failed when it cannot be published or has used up its attempts; otherwise pending again, due after a
  delay within the backoff of its attempt. The lease is given up and the message is untouched.
\<close>

theorem row_settled_by_answer:
  assumes "table_ok rows" "o' \<in> set rows" "leased_until until row o'"
    "\<forall>(now, op) \<in> set (re_others env). \<not> settles row op \<and> now < until" "re_now env < until" "\<not> re_write_fails env"
    "backoff_valid (dc_backoff cfg)" "in_int64 (bp_cap (dc_backoff cfg))" "\<forall>n. 0 < n \<longrightarrow> 0 \<le> re_rand env n \<and> re_rand env n < n"
  shows "\<exists>rows' n. handle_row cfg env row rows = (None, rows') \<and> n \<in> set rows' \<and> message_of n = message_of o' \<and> so_lease_owner n = None
    \<and> so_status n = (if mr_attempts row \<le> dc_max_attempts cfg \<and> publish_row env row = None then Sent
         else if mr_attempts row \<ge> dc_max_attempts cfg \<or> pe_unpublishable (the (publish_row env row)) then Failed else Pending)
    \<and> (so_status n = Pending \<longrightarrow> so_next_attempt_at n - re_now env
         \<in> {0 .. min (bp_cap (dc_backoff cfg)) (bp_base (dc_backoff cfg) * 2 ^ nat (mr_attempts row - 1))})"
proof -
  let ?delay = "backoff (dc_backoff cfg) (re_rand env) (mr_attempts row)"
  note b = backoff_bounds [OF assms(7,8), of "re_rand env" "mr_attempts row"]
  have delay: "0 \<le> ?delay" "?delay \<le> backoff_ceiling (dc_backoff cfg) (mr_attempts row)" using b(2,3) assms(9) by blast+
  have us: "0 \<le> whole_microseconds ?delay" "whole_microseconds ?delay \<le> ?delay" using delay(1) by (simp_all add: whole_microseconds_def)
  note h = handle_row_held [OF assms(1-6) delay(1)]
  let ?n = "settled_row cfg env row o'"
  have pend: "so_status o' = Pending" using assms(3) by (simp add: leased_until_def)
  have "message_of ?n = message_of o'" "so_lease_owner ?n = None"
    by (auto simp: settled_row_def message_of_def Let_def split: option.splits)
  moreover have "so_status ?n = (if mr_attempts row \<le> dc_max_attempts cfg \<and> publish_row env row = None then Sent
         else if mr_attempts row \<ge> dc_max_attempts cfg \<or> pe_unpublishable (the (publish_row env row)) then Failed else Pending)"
    using pend by (auto simp: settled_row_def Let_def split: option.splits)
  moreover have "so_next_attempt_at ?n - re_now env \<in> {0 .. backoff_ceiling (dc_backoff cfg) (mr_attempts row)}" if "so_status ?n = Pending"
    using that us delay(2) by (auto simp: settled_row_def Let_def split: option.splits if_splits)
  ultimately show ?thesis using h b(1) assms(9) by auto
qed

theorem row_settled_by_answer_witness:
  "\<exists>rows' n. handle_row ex_worker_config ex_row_env ex_claimed [leased_to ''w'' minute (new_outbox 1 0 ex_reserve_row)] = (None, rows')
     \<and> n \<in> set rows' \<and> so_status n = Sent"
proof -
  let ?o = "leased_to ''w'' minute (new_outbox 1 0 ex_reserve_row)"
  have ok: "table_ok [?o]" by (simp add: table_ok_def row_ok_def new_outbox_def)
  have leased: "leased_until minute ex_claimed ?o" by (simp add: leased_until_def ex_claimed_def msg_row_of_def new_outbox_def string_of_def)
  have valid: "backoff_valid (dc_backoff ex_worker_config)" "in_int64 (bp_cap (dc_backoff ex_worker_config))" by code_simp+
  have time: "re_now ex_row_env < minute" by code_simp
  have pub: "mr_attempts ex_claimed \<le> dc_max_attempts ex_worker_config" "publish_row ex_row_env ex_claimed = None" by code_simp+
  have "\<exists>rows' n. handle_row ex_worker_config ex_row_env ex_claimed [?o] = (None, rows') \<and> n \<in> set rows' \<and> message_of n = message_of ?o
      \<and> so_lease_owner n = None
      \<and> so_status n = (if mr_attempts ex_claimed \<le> dc_max_attempts ex_worker_config \<and> publish_row ex_row_env ex_claimed = None then Sent
         else if mr_attempts ex_claimed \<ge> dc_max_attempts ex_worker_config \<or> pe_unpublishable (the (publish_row ex_row_env ex_claimed)) then Failed else Pending)
      \<and> (so_status n = Pending \<longrightarrow> so_next_attempt_at n - re_now ex_row_env
         \<in> {0 .. min (bp_cap (dc_backoff ex_worker_config)) (bp_base (dc_backoff ex_worker_config) * 2 ^ nat (mr_attempts ex_claimed - 1))})"
    by (rule row_settled_by_answer [OF ok _ leased _ time _ valid]) (simp_all add: ex_row_env_def)
  with pub show ?thesis by auto
qed

text \<open>
  C33 (liveness). With a configuration that passed \<^verbatim>\<open>withDefaults\<close>, a broker that takes every
  message and publications that keep to their timeout, one round of the dispatcher sends every row it
  claimed, those due longest first, leaves the others alone and reports whether more are waiting.
\<close>

theorem batch_delivered:
  assumes "with_defaults worker c0 = Some cfg" "worker \<noteq> []" "in_int64 (dc_batch_size cfg * dc_publish_timeout cfg)" "1000 dvd dc_publish_timeout cfg"
    "table_ok rows" "\<forall>xs. mset (be_order env xs) = mset xs" "\<forall>i. \<not> be_cancelled env i" "\<not> be_claim_fails env"
    "\<forall>o' \<in> set rows. outbox_claimable credit (be_claim_now env) o' \<longrightarrow>
        message_from_outbox (msg_row_of o') \<noteq> None \<and> so_attempts o' < dc_max_attempts cfg \<and> so_attempts o' < max_int32"
    "\<forall>i < nat (dc_batch_size cfg). re_publish (be_row env i) = (\<lambda>_. None) \<and> re_others (be_row env i) = [] \<and> \<not> re_write_fails (be_row env i)
        \<and> re_now (be_row env i) < be_claim_now env + (int i + 1) * dc_publish_timeout cfg"
  shows "\<exists>rows'. dispatch cfg env credit rows
        = (Inr (dc_batch_size cfg \<le> int (length (filter (outbox_claimable credit (be_claim_now env)) rows))), rows')
      \<and> map message_of rows' = map message_of rows
      \<and> (\<forall>o' \<in> set rows. if so_id o' \<in> set (claimed_ids credit (be_claim_now env) (nat (dc_batch_size cfg)) rows)
           then \<exists>n \<in> set rows'. so_id n = so_id o' \<and> so_status n = Sent else o' \<in> set rows')"
proof -
  note c = with_defaults_lease [OF assms(1-4)]
  have in_time: "re_now (be_row env i) < be_claim_now env + whole_microseconds (dc_lease cfg)" if "i < nat (dc_batch_size cfg)" for i
  proof -
    have "(int i + 1) * dc_publish_timeout cfg \<le> dc_batch_size cfg * dc_publish_timeout cfg"
      using that c(7) by (intro mult_right_mono) auto
    with assms(10) that c(6) show ?thesis by fastforce
  qed
  show ?thesis
    by (rule dispatch_smooth [OF assms(5) _ c(1-3,5)]) (use assms(6-10) in_time in auto)
qed

theorem batch_delivered_witness:
  "\<exists>rows'. dispatch ex_worker_config ex_batch_env True ex_table = (Inr False, rows') \<and> map so_status rows' = [Sent]"
proof -
  have c: "in_int64 (dc_batch_size ex_worker_config * dc_publish_timeout ex_worker_config)" "1000 dvd dc_publish_timeout ex_worker_config" by code_simp+
  have ready: "\<forall>o' \<in> set ex_table. outbox_claimable True (be_claim_now ex_batch_env) o' \<longrightarrow>
      message_from_outbox (msg_row_of o') \<noteq> None \<and> so_attempts o' < dc_max_attempts ex_worker_config \<and> so_attempts o' < max_int32"
    using ex_publishable by (simp add: ex_table_def new_outbox_def ex_worker_config_def default_dispatcher_config_def max_int32_def)
  have time: "1 < (int i + 1) * dc_publish_timeout ex_worker_config" for i
  proof -
    have "dc_publish_timeout ex_worker_config = 10 * second" by (simp add: ex_worker_config_def default_dispatcher_config_def)
    moreover have "1 * (10 * second) \<le> (int i + 1) * (10 * second)" by (intro mult_right_mono) (simp_all add: second_def)
    ultimately show ?thesis by (simp add: second_def)
  qed
  have few: "\<not> dc_batch_size ex_worker_config \<le> int (length (filter (outbox_claimable True (be_claim_now ex_batch_env)) ex_table))" by code_simp
  have chosen: "so_id (new_outbox 1 0 ex_reserve_row) \<in> set (claimed_ids True (be_claim_now ex_batch_env) (nat (dc_batch_size ex_worker_config)) ex_table)"
    by code_simp
  obtain rows' where d: "dispatch ex_worker_config ex_batch_env True ex_table
        = (Inr (dc_batch_size ex_worker_config \<le> int (length (filter (outbox_claimable True (be_claim_now ex_batch_env)) ex_table))), rows')"
      "map message_of rows' = map message_of ex_table"
      "\<forall>o' \<in> set ex_table. if so_id o' \<in> set (claimed_ids True (be_claim_now ex_batch_env) (nat (dc_batch_size ex_worker_config)) ex_table)
           then \<exists>n \<in> set rows'. so_id n = so_id o' \<and> so_status n = Sent else o' \<in> set rows'"
    using batch_delivered [OF ex_worker_config _ c ex_table_ok _ _ _ ready] time by (auto simp: ex_batch_env_def ex_row_env_def)
  have "\<exists>n \<in> set rows'. so_status n = Sent" using d(3) chosen by (auto simp: ex_table_def)
  moreover have "length rows' = 1" using arg_cong [OF d(2), of length] by (simp add: ex_table_def)
  ultimately have "map so_status rows' = [Sent]" by (cases rows') auto
  with d(1) few show ?thesis by simp
qed

text \<open>
  C34 (termination). The sweep ends: with as much fuel as there are overdue rows it returns, and then no
  credit command is overdue for its result and the backlogs it reports are those of the table it left.
\<close>

theorem sweep_ends:
  assumes "table_ok rows" "\<forall>xs. mset (order xs) = mset xs" "with_defaults worker c0 = Some cfg" "1000 \<le> timeout"
    "fuel > length (filter (unconfirmed now timeout) rows)"
  shows "\<exists>rows'. sweep fuel order cfg timeout now rows = Some (Inr (count_due True now rows', count_due False now rows'), rows')
    \<and> filter (unconfirmed now timeout) rows' = []"
proof -
  obtain rows' where "sweep_rows fuel order timeout (dc_sweep_limit cfg) now rows = Some (None, rows')" "overdue now timeout rows' = 0"
    using sweep_rows_ends [OF assms(1) _ assms(4) with_defaults_Some(5,6) [OF assms(3)], of order now fuel] assms(2,5)
    by (auto simp: overdue_def)
  then show ?thesis by (simp add: sweep_def overdue_def)
qed

theorem sweep_ends_witness:
  "\<exists>rows'. sweep 2 id ex_worker_config minute (2 * minute) [(new_outbox 1 0 ex_reserve_row)\<lparr>so_status := Sent, so_sent_at := Some 0\<rparr>]
     = Some (Inr (count_due True (2 * minute) rows', count_due False (2 * minute) rows'), rows') \<and> filter (unconfirmed (2 * minute) minute) rows' = []"
  by (rule sweep_ends [OF _ _ ex_worker_config])
    (simp_all add: table_ok_def row_ok_def new_outbox_def duration_defs)

end
