(* ===== verification/Credit_Results.thy ===== *)
theory Credit_Results
  imports Credit_Message Errand_Store Outbox_Repo
begin

text \<open>
  Package \<^verbatim>\<open>creditmsg\<close> of order-service: decoding a credit result, applying it to its errand and
  settling the command it answers. The errand and the outbox row are written by two transactions, and
  others may write between any two of the handler's statements: a \<open>result_env\<close> says what they do there,
  what the clocks read, and which statements the database refuses. The envelope is the struct both services
  declare; its decoding is that of \<open>Credit_Message\<close>.
\<close>

section \<open>Decoding\<close>

definition result_reserved :: string where "result_reserved = ''credit.reserved''"
definition result_reservation_refused :: string where "result_reservation_refused = ''credit.reservation_refused''"
definition result_adjusted :: string where "result_adjusted = ''credit.adjusted''"
definition result_adjust_refused :: string where "result_adjust_refused = ''credit.adjust_refused''"
definition result_released :: string where "result_released = ''credit.released''"
definition result_transferred :: string where "result_transferred = ''credit.transferred''"
definition result_operation_failed :: string where "result_operation_failed = ''credit.operation_failed''"

lemmas result_defs = result_reserved_def result_reservation_refused_def result_adjusted_def result_adjust_refused_def
  result_released_def result_transferred_def result_operation_failed_def

definition credit_results :: "string list" where
  "credit_results = [result_reserved, result_reservation_refused, result_adjusted, result_adjust_refused, result_released,
     result_transferred, result_operation_failed]"

record result_msg =
  rs_routing_key :: string
  rs_env :: envelope
  rs_amount :: int
  rs_seq :: int
  rs_code :: string

definition result_data :: "json option \<Rightarrow> (int \<times> int \<times> string) option" where
  "result_data d =
     (case d of None \<Rightarrow> Some (0, 0, []) | Some JNull \<Rightarrow> Some (0, 0, [])
      | Some j \<Rightarrow>
          (case struct_fields j of
             None \<Rightarrow> None
           | Some fs \<Rightarrow>
               (case (int_field ''amount'' fs, int_field ''seq'' fs, string_field ''code'' fs) of
                  (Some a, Some s, Some c) \<Rightarrow> Some (a, s, c) | _ \<Rightarrow> None)))"

definition answers_command :: "string \<Rightarrow> string \<Rightarrow> string \<Rightarrow> bool" where
  "answers_command rk eid key \<longleftrightarrow>
     (if rk = result_reserved \<or> rk = result_reservation_refused then key = idempotency_key eid ''reserve'' 0
      else if rk = result_adjusted \<or> rk = result_adjust_refused then
        has_prefix (eid @ '':adjust:'') key \<or> has_prefix (eid @ '':adjust-revert:'') key
      else if rk = result_released then key = idempotency_key eid ''release'' 0
      else if rk = result_transferred then key = idempotency_key eid ''transfer'' 0
      else True)"

definition needs_code :: "string \<Rightarrow> bool" where
  "needs_code rk \<longleftrightarrow> rk = result_reservation_refused \<or> rk = result_adjust_refused \<or> rk = result_operation_failed"

text \<open>\<open>None\<close> is an error: the message is dead-lettered.\<close>

definition decode_result :: "string \<Rightarrow> raw_json \<Rightarrow> result_msg option" where
  "decode_result rk body =
     (if rk \<notin> set credit_results then None
      else (case Option.bind body envelope_of_json of
          None \<Rightarrow> None
        | Some e \<Rightarrow>
            if env_type e \<noteq> rk then None
            else if env_errand_id e = [] \<or> env_correlation_id e = [] then None
            else if \<not> has_prefix (env_errand_id e @ '':'') (env_correlation_id e) then None
            else (case result_data (env_data e) of
                None \<Rightarrow> None
              | Some (amount, seq, code) \<Rightarrow>
                  if \<not> answers_command rk (env_errand_id e) (env_correlation_id e) then None
                  else if needs_code rk \<and> code = [] then None
                  else Some \<lparr>rs_routing_key = rk, rs_env = e, rs_amount = amount, rs_seq = seq, rs_code = code\<rparr>)))"

section \<open>Applying\<close>

datatype result_disposition = ResultAck | ResultRequeue | ResultReject
datatype result_outcome = OutcomeApplied | OutcomeResolved
datatype result_error = ErrPoison | ErrTransient

fun code_of :: "store_error \<Rightarrow> app_code option" where
  "code_of (StoreApp e) = Some (err_code e)"
| "code_of StoreErr = None"

definition resolved :: "store_error \<Rightarrow> bool" where
  "resolved err \<longleftrightarrow> code_of err = Some ErrandUnavailable \<or> code_of err = Some ErrandChanged"

definition max_conflicts :: nat where "max_conflicts = 3"

text \<open>
  The surroundings of one delivery, by the number of conflicts so far: what others commit before the read
  and before the write, the readings of the clocks, and whether a statement fails.
\<close>

record result_env =
  rv_before_read :: "nat \<Rightarrow> order_db \<Rightarrow> order_db"
  rv_before_write :: "nat \<Rightarrow> order_db \<Rightarrow> order_db"
  rv_before_settle :: "order_db \<Rightarrow> order_db"
  rv_now :: "nat \<Rightarrow> int"
  rv_db_now :: "nat \<Rightarrow> int"
  rv_settle_now :: int
  rv_read_fails :: "nat \<Rightarrow> bool"
  rv_write_fails :: "nat \<Rightarrow> bool"
  rv_settle_fails :: bool

definition not_applied :: "store_error \<Rightarrow> result_error + result_outcome" where
  "not_applied err =
     (if resolved err then Inr OutcomeResolved else if code_of err \<noteq> None then Inl ErrPoison else Inl ErrTransient)"

definition still_pending :: "string \<Rightarrow> errand \<Rightarrow> bool" where
  "still_pending key e \<longleftrightarrow> (case e_pending_edit e of None \<Rightarrow> False | Some p \<Rightarrow> pe_key p = key)"

text \<open>The write: \<open>None\<close> is a success.\<close>

definition try_apply :: "uuid_reader \<Rightarrow> result_env \<Rightarrow> nat \<Rightarrow> transition \<Rightarrow> order_db \<Rightarrow> store_error option \<times> order_db" where
  "try_apply uuid env conflict t db =
     (if rv_write_fails env conflict then (Some StoreErr, db)
      else (case store_apply uuid (rv_db_now env conflict) t db of (Inl err, db') \<Rightarrow> (Some err, db') | (Inr _, db') \<Rightarrow> (None, db')))"

function apply_result_event :: "uuid_reader \<Rightarrow> result_env \<Rightarrow> string \<Rightarrow> event \<Rightarrow> event_input \<Rightarrow> nat \<Rightarrow> order_db
    \<Rightarrow> (result_error + result_outcome) \<times> order_db" where
  "apply_result_event uuid env eid ev input conflict db =
     (let db1 = rv_before_read env conflict db in
      if rv_read_fails env conflict then (Inl ErrTransient, db1)
      else (case store_get uuid eid db1 of
          Inl err \<Rightarrow> (Inl (if code_of err = Some ErrandNotFound then ErrPoison else ErrTransient), db1)
        | Inr e \<Rightarrow>
            if in_edit_key input \<noteq> [] \<and> \<not> still_pending (in_edit_key input) e then (Inr OutcomeResolved, db1)
            else (case next_transition e ev system_actor input (rv_now env conflict) of
                Inl err \<Rightarrow> (not_applied (StoreApp err), db1)
              | Inr t \<Rightarrow>
                  (case try_apply uuid env conflict t (rv_before_write env conflict db1) of
                     (None, db2) \<Rightarrow> (Inr OutcomeApplied, db2)
                   | (Some err, db2) \<Rightarrow>
                       if resolved err \<and> conflict + 1 < max_conflicts
                       then apply_result_event uuid env eid ev input (conflict + 1) db2
                       else (not_applied err, db2)))))"
  by pat_completeness auto
termination
  by (relation "measure (\<lambda>(uuid, env, eid, ev, input, conflict, db). max_conflicts - conflict)") (auto intro: diff_less_mono2)

declare apply_result_event.simps [simp del]

definition settle_command :: "result_env \<Rightarrow> (int \<Rightarrow> outbox_table \<Rightarrow> (msg_error + bool) \<times> outbox_table) \<Rightarrow> order_db
    \<Rightarrow> (result_error + bool) \<times> order_db" where
  "settle_command env settle db =
     (let db1 = rv_before_settle env db in
      if rv_settle_fails env then (Inl ErrTransient, db1)
      else (case settle (rv_settle_now env) (od_outbox db1) of
          (Inl _, rows) \<Rightarrow> (Inl ErrTransient, db1)
        | (Inr changed, rows) \<Rightarrow> (Inr changed, db1\<lparr>od_outbox := rows\<rparr>)))"

definition result_transition :: "uuid_reader \<Rightarrow> result_env \<Rightarrow> result_msg \<Rightarrow> event \<Rightarrow> event_input \<Rightarrow> order_db
    \<Rightarrow> (result_error + result_outcome) \<times> order_db" where
  "result_transition uuid env r ev input db =
     (case apply_result_event uuid env (env_errand_id (rs_env r)) ev input 0 db of
        (Inl err, db') \<Rightarrow> (Inl err, db')
      | (Inr out, db') \<Rightarrow>
          (case settle_command env (\<lambda>now. confirm_by_key now (env_correlation_id (rs_env r))) db' of
             (Inl err, db'') \<Rightarrow> (Inl err, db'')
           | (Inr _, db'') \<Rightarrow> (Inr out, db'')))"

definition settled_outcome :: "(result_error + bool) \<times> order_db \<Rightarrow> (result_error + result_outcome) \<times> order_db" where
  "settled_outcome x =
     (case x of (Inl err, db) \<Rightarrow> (Inl err, db) | (Inr changed, db) \<Rightarrow> (Inr (if changed then OutcomeApplied else OutcomeResolved), db))"

definition apply_result :: "uuid_reader \<Rightarrow> result_env \<Rightarrow> result_msg \<Rightarrow> order_db \<Rightarrow> (result_error + result_outcome) \<times> order_db" where
  "apply_result uuid env r db =
     (let key = env_correlation_id (rs_env r); rk = rs_routing_key r in
      if rk = result_reserved then result_transition uuid env r EventReservationConfirmed no_input db
      else if rk = result_reservation_refused then
        result_transition uuid env r EventReservationRefused (no_input\<lparr>in_reason := rs_code r\<rparr>) db
      else if rk = result_adjusted then result_transition uuid env r EventEditConfirmed (no_input\<lparr>in_edit_key := key\<rparr>) db
      else if rk = result_adjust_refused then
        result_transition uuid env r EventEditRefused (no_input\<lparr>in_edit_key := key, in_reason := rs_code r\<rparr>) db
      else if rk = result_released \<or> rk = result_transferred then
        settled_outcome (settle_command env (\<lambda>now. confirm_by_key now key) db)
      else settled_outcome (settle_command env (\<lambda>now. mark_failed_by_key key (rs_code r)) db))"

definition handle_result :: "uuid_reader \<Rightarrow> result_env \<Rightarrow> string \<Rightarrow> raw_json \<Rightarrow> order_db \<Rightarrow> result_disposition \<times> order_db" where
  "handle_result uuid env rk body db =
     (case decode_result rk body of
        None \<Rightarrow> (ResultReject, db)
      | Some r \<Rightarrow>
          (case apply_result uuid env r db of
             (Inl ErrPoison, db') \<Rightarrow> (ResultReject, db')
           | (Inl ErrTransient, db') \<Rightarrow> (ResultRequeue, db')
           | (Inr _, db') \<Rightarrow> (ResultAck, db')))"

end
