(* ===== verification/Result_Handling.thy ===== *)
theory Result_Handling
  imports Credit_Results Errand_Contract Outbox_Ops
begin

text \<open>
  Lemmas about the handler of credit results. What others may do between its statements is a rely
  condition: they commit consistent databases in which errands only move forward and no outbox key
  disappears, as every transaction of the store does.
\<close>

section \<open>What others may commit\<close>

definition follows :: "uuid_reader \<Rightarrow> order_db \<Rightarrow> order_db \<Rightarrow> bool" where
  "follows uuid db db' \<longleftrightarrow> store_inv uuid db' \<and> advances db db' \<and> set (row_keys db) \<subseteq> set (row_keys db')"

definition commits :: "uuid_reader \<Rightarrow> (order_db \<Rightarrow> order_db) \<Rightarrow> bool" where
  "commits uuid f \<longleftrightarrow> (\<forall>db. store_inv uuid db \<longrightarrow> follows uuid db (f db))"

definition surroundings :: "uuid_reader \<Rightarrow> result_env \<Rightarrow> bool" where
  "surroundings uuid env \<longleftrightarrow> (\<forall>n. commits uuid (rv_before_read env n)) \<and> (\<forall>n. commits uuid (rv_before_write env n))
     \<and> commits uuid (rv_before_settle env)"

lemma follows_refl: "store_inv uuid db \<Longrightarrow> follows uuid db db"
  by (simp add: follows_def)

lemma follows_trans: "follows uuid a b \<Longrightarrow> follows uuid b c \<Longrightarrow> follows uuid a c"
  by (auto simp: follows_def intro: advances_trans)

lemma commitsD: "commits uuid f \<Longrightarrow> store_inv uuid db \<Longrightarrow> follows uuid db (f db)"
  by (simp add: commits_def)

lemma commits_id: "commits uuid (\<lambda>db. db)"
  by (simp add: commits_def follows_refl)

text \<open>A transition applied by another request is one of them.\<close>

lemma follows_store_apply:
  assumes ok: "uuid_reader_ok uuid" and inv: "store_inv uuid db" and rd: "store_get uuid eid old = Inr e"
    and old: "store_inv uuid old" "advances old db"
    and nx: "next_transition e ev a input at = Inr t" and ap: "store_apply uuid now t db = (res, db')"
  shows "follows uuid db db'"
  by (rule store_apply_cases [OF ok inv old(2,1) rd nx ap])
    (use inv in \<open>auto simp: follows_def intro: store_inv_applied [OF ok _ _ refl] advances_applied [OF ok _ _ refl] nx\<close>,
     use nx in \<open>auto intro: store_inv_applied [OF ok inv _ refl] advances_applied [OF ok inv _ refl]\<close>)

section \<open>The errand a result is for\<close>

text \<open>An errand waits for the outcome that \<open>ev\<close> reports; \<open>key\<close> names the edit.\<close>

fun waits :: "event \<Rightarrow> string \<Rightarrow> errand \<Rightarrow> bool" where
  "waits EventReservationConfirmed key e \<longleftrightarrow> e_status e = StatusPendingReservation"
| "waits EventReservationRefused key e \<longleftrightarrow> e_status e = StatusPendingReservation"
| "waits EventEditConfirmed key e \<longleftrightarrow> still_pending key e"
| "waits EventEditRefused key e \<longleftrightarrow> still_pending key e"
| "waits _ key e \<longleftrightarrow> False"

definition result_event :: "event \<Rightarrow> bool" where
  "result_event ev \<longleftrightarrow> ev \<in> {EventReservationConfirmed, EventReservationRefused, EventEditConfirmed, EventEditRefused}"

lemma result_event_cases:
  assumes "result_event ev"
  obtains "waits ev key = (\<lambda>e. e_status e = StatusPendingReservation)" "ev = EventReservationConfirmed \<or> ev = EventReservationRefused"
  | "waits ev key = still_pending key" "ev = EventEditConfirmed \<or> ev = EventEditRefused"
  using assms by (auto simp: result_event_def fun_eq_iff)

lemma still_pending_Some: "still_pending key e \<longleftrightarrow> (\<exists>p. e_pending_edit e = Some p \<and> pe_key p = key)"
  by (auto simp: still_pending_def split: option.splits)

lemma no_pending_reservation:
  assumes "errand_inv e" "e_status e = StatusPendingReservation"
  shows "progress e = 2"
proof -
  have "e_pending_edit e = None" using errand_inv_pending(1) [OF assms(1)] assms(2) by (cases "e_pending_edit e") auto
  with errand_inv_first [OF assms] show ?thesis by (simp add: progress_def)
qed

lemma still_pending_version:
  assumes "errand_inv e" "still_pending key e"
  shows "key = op_key (e_id e) (''adjust'', e_version e)" "progress e = 2 * e_version e + 1" "1 \<le> e_version e"
proof -
  from assms(2) obtain p where p: "e_pending_edit e = Some p" "pe_key p = key" by (auto simp: still_pending_Some)
  note pend = errand_inv_pending [OF assms(1) p(1)]
  show "key = op_key (e_id e) (''adjust'', e_version e)" using pend(3) p(2) by (simp add: op_key_def)
  show "progress e = 2 * e_version e + 1" using p(1) by (simp add: progress_def)
  show "1 \<le> e_version e" using errand_inv_started(1) [OF assms(1)] pend(1) by simp
qed

text \<open>An errand waits for an outcome at one point of its life only.\<close>

lemma waits_once:
  assumes ev: "result_event ev" and e: "errand_inv e" "waits ev key e" and e': "errand_inv e'" "waits ev key e'" "e_id e' = e_id e"
  shows "progress e' = progress e"
  using ev
proof (cases rule: result_event_cases [of ev key])
  case 1
  with e e' no_pending_reservation show ?thesis by simp
next
  case 2
  with e e' have w: "still_pending key e" "still_pending key e'" by simp_all
  note v = still_pending_version [OF e(1) w(1)] and v' = still_pending_version [OF e'(1) w(2)]
  have "op_key (e_id e) (''adjust'', e_version e') = op_key (e_id e) (''adjust'', e_version e)" using v(1) v'(1) e'(3) by metis
  from op_key_inj [OF this] v(3) v'(3) have "e_version e' = e_version e" by (simp add: no_colon_def)
  with v(2) v'(2) show ?thesis by simp
qed

text \<open>The errand that one database and a later one store under an id.\<close>

lemma stored_row:
  assumes inv: "store_inv uuid db" and get: "store_get uuid eid db = Inr e"
  obtains r where "r \<in> set (od_errands db)" "uuid eid = Some (er_id r)" "e = errand_from_row r" "errand_inv e"
    "e_id e = er_id r" "find_errand db (er_id r) = Some r" "e_status e \<noteq> StatusNone" "tracked db e"
proof -
  obtain u r where r: "uuid eid = Some u" "find_errand db u = Some r" "e = errand_from_row r"
    using get by (auto simp: store_get_Inr)
  note m = find_errand_Some [OF r(2)]
  note row = store_inv_rowD [OF inv conjunct1 [OF m]]
  show thesis
    by (rule that [of r]) (use r m row(3,4) row_clean_status [OF row(2)] in auto)
qed

lemma stored_rowD:
  assumes "store_inv uuid db" "store_get uuid eid db = Inr e"
  shows "errand_inv e" "uuid eid = Some (e_id e)"
  by (rule stored_row [OF assms], simp)+

lemma stored_moves:
  assumes "store_inv uuid b" "advances a b" "store_get uuid eid a = Inr e" "store_get uuid eid b = Inr e'"
  shows "e' = e \<or> progress e < progress e'"
proof -
  obtain u r where r: "uuid eid = Some u" "find_errand a u = Some r" "e = errand_from_row r" using assms(3) by (auto simp: store_get_Inr)
  note m = find_errand_Some [OF r(2)]
  obtain q where q: "q \<in> set (od_errands b)" "er_id q = u" "q = r \<or> progress (errand_from_row r) < progress (errand_from_row q)"
    using assms(2) m unfolding advances_def by blast
  have "find_errand b u = Some q" using find_errand_iff [OF store_inv_rowD(1) [OF assms(1) q(1)]] q by simp
  with r q(3) assms(4) show ?thesis by (auto simp: store_get_def)
qed

text \<open>The errand moves past the outcome and never comes back to it.\<close>

lemma not_waiting_kept:
  assumes ev: "result_event ev" and fol: "follows uuid db db'" and inv: "store_inv uuid db" and key: "key \<in> set (row_keys db)"
    and get: "store_get uuid eid db = Inr e" and get': "store_get uuid eid db' = Inr e'" and not: "\<not> waits ev key e"
  shows "\<not> waits ev key e'"
proof
  assume w: "waits ev key e'"
  have inv': "store_inv uuid db'" "advances db db'" using fol by (simp_all add: follows_def)
  obtain r where r: "r \<in> set (od_errands db)" "uuid eid = Some (er_id r)" "e = errand_from_row r" "errand_inv e"
    "e_id e = er_id r" "find_errand db (er_id r) = Some r" "e_status e \<noteq> StatusNone" "tracked db e"
    by (rule stored_row [OF inv get])
  obtain r' where r': "r' \<in> set (od_errands db')" "uuid eid = Some (er_id r')" "e' = errand_from_row r'" "errand_inv e'"
    "e_id e' = er_id r'" "find_errand db' (er_id r') = Some r'" "e_status e' \<noteq> StatusNone" "tracked db' e'"
    by (rule stored_row [OF inv'(1) get'])
  have id: "e_id e' = e_id e" using r(2,5) r'(2,5) by simp
  have "e' \<noteq> e" using w not by auto
  with stored_moves [OF inv' get get'] have le: "progress e < progress e'" by simp
  have ver: "1 \<le> e_version e" using errand_inv_started(1) [OF r(4,7)] .
  show False using ev
  proof (cases rule: result_event_cases [of ev key])
    case 1
    with w no_pending_reservation [OF r'(4)] le ver show False by (simp add: progress_def split: if_splits)
  next
    case 2
    with w have p: "still_pending key e'" by simp
    note v = still_pending_version [OF r'(4) p]
    obtain K where K: "ops_inv K e" "\<And>p. fst p \<in> set known_ops \<Longrightarrow> 0 \<le> snd p \<Longrightarrow> op_key (e_id e) p \<in> set (row_keys db) \<Longrightarrow> p \<in> set K"
      using r(8) unfolding tracked_def by blast
    have "op_key (e_id e) (''adjust'', e_version e') \<in> set (row_keys db)" using key v(1) id by simp
    with K(2) [of "(''adjust'', e_version e')"] v(3) known_ops_mem(1) have "(''adjust'', e_version e') \<in> set K" by simp
    then have ok: "op_ok e (''adjust'', e_version e')" using K(1) by (auto simp: ops_inv_def list_all_iff)
    with le v(2) have "e_version e' = e_version e" by (auto simp: op_ok_def progress_def split: if_splits)
    with ok obtain q where q: "e_pending_edit e = Some q" by (auto simp: op_ok_def)
    with errand_inv_pending(3) [OF r(4) q] v(1) id \<open>e_version e' = e_version e\<close> have "still_pending key e"
      by (simp add: still_pending_Some op_key_def)
    with 2 not show False by simp
  qed
qed

section \<open>Errors that say the errand moved on\<close>

text \<open>Nothing but the compare-and-swap of a write answers so.\<close>

definition never_resolved :: "'a otx \<Rightarrow> bool" where
  "never_resolved m \<longleftrightarrow> (\<forall>db err. m db = Inl err \<longrightarrow> \<not> resolved err)"

lemma resolved_simps [simp]: "\<not> resolved StoreErr" "resolved (store_app c) \<longleftrightarrow> c \<in> {ErrandUnavailable, ErrandChanged}"
  "resolved (StoreApp e) \<longleftrightarrow> err_code e \<in> {ErrandUnavailable, ErrandChanged}"
  by (simp_all add: resolved_def store_app_def new_error_def)

lemma never_resolved_bind: "never_resolved m \<Longrightarrow> (\<And>a. never_resolved (f a)) \<Longrightarrow> never_resolved (tx_bind m f)"
  by (auto simp: never_resolved_def tx_bind_def split: sum.splits)

lemma never_resolved_basic: "never_resolved (tx_return a)" "never_resolved (tx_fail err) \<longleftrightarrow> \<not> resolved err"
  "never_resolved (tx_get g)" "never_resolved (lift_sum x) \<longleftrightarrow> (\<forall>err. x = Inl err \<longrightarrow> \<not> resolved err)"
  by (auto simp: never_resolved_def tx_return_def tx_fail_def tx_get_def lift_sum_def split: sum.splits)

lemma parse_uuid_never: "parse_uuid uuid v = Inl err \<Longrightarrow> \<not> resolved err"
  by (auto simp: parse_uuid_def new_error_def split: option.splits)

lemma insert_params_never: "insert_params uuid e = Inl err \<Longrightarrow> \<not> resolved err"
  by (auto simp: insert_params_def new_error_def dest: parse_uuid_never split: sum.splits if_splits)

lemma write_outbox_never: "never_resolved (write_outbox uuid now rows)"
proof (induction rows)
  case (Cons row rows)
  have "never_resolved (insert_outbox now x)" for x by (auto simp: never_resolved_def insert_outbox_def split: if_splits)
  with Cons show ?case by (auto intro!: never_resolved_bind simp: never_resolved_basic dest: parse_uuid_never)
qed (simp add: never_resolved_def tx_return_def)

lemma write_rows_never: "never_resolved (write_transition_rows uuid now before after t)"
proof -
  have "never_resolved (insert_transition x)" "never_resolved (open_review y)" "never_resolved (resolve_review a b c d e)" for x y a b c d e
    by (auto simp: never_resolved_def insert_transition_def open_review_def resolve_review_def Let_def split: if_splits)
  then have "never_resolved (insert_transition x)" "never_resolved (write_review eid after t)" for x eid
    by (auto simp: write_review_def Let_def never_resolved_basic intro!: never_resolved_bind)
  then show ?thesis
    unfolding write_transition_rows_def
    by (auto intro!: never_resolved_bind write_outbox_never simp: never_resolved_basic dest: parse_uuid_never)
qed

lemma apply_locked_never:
  assumes "compare_and_swap cur t = None"
  shows "never_resolved (apply_locked uuid now cur t)"
proof -
  have "never_resolved (check_fence s)" for s
    by (auto simp: check_fence_def supplier_fenced_def never_resolved_basic intro!: never_resolved_bind)
  then have "never_resolved (case edit_target_supplier cur t of None \<Rightarrow> tx_return () | Some to \<Rightarrow> tx_bind (lift_sum (parse_uuid uuid to)) check_fence)"
    by (auto simp: never_resolved_basic dest: parse_uuid_never intro!: never_resolved_bind split: option.splits)
  moreover have "never_resolved (update_errand params t)" for params
    by (auto simp: never_resolved_def update_errand_def Let_def split: if_splits option.splits)
  ultimately show ?thesis
    using assms unfolding apply_locked_def
    by (auto intro!: never_resolved_bind write_rows_never simp: never_resolved_basic Let_def dest: insert_params_never split: option.splits)
qed

section \<open>Applying one result\<close>

definition answers :: "event \<Rightarrow> event_input \<Rightarrow> string \<Rightarrow> bool" where
  "answers ev input key \<longleftrightarrow> result_event ev \<and>
     (if ev = EventEditConfirmed \<or> ev = EventEditRefused then in_edit_key input = key else in_edit_key input = [])"

lemma answersD:
  assumes "answers ev input key"
  shows "result_event ev" "waits ev (in_edit_key input) = waits ev key"
    "in_edit_key input \<noteq> [] \<Longrightarrow> waits ev key = still_pending (in_edit_key input)"
  using assms by (auto simp: answers_def result_event_def fun_eq_iff split: if_splits)

lemmas result_next_eval = next_transition_def rules_for_def transition_table_def terminal_def valid_status_def statuses_def Let_def
  system_actor_def

text \<open>The system may report an outcome exactly while the errand waits for it.\<close>

lemma waiting_accepts:
  assumes "result_event ev" "errand_inv e" "waits ev (in_edit_key input) e"
  shows "\<exists>t. next_transition e ev system_actor input now = Inr t"
  using assms(1)
proof (cases rule: result_event_cases [of ev "in_edit_key input"])
  case 1
  with assms(3) have "e_status e = StatusPendingReservation" by simp
  with 1(2) show ?thesis by (auto simp: result_next_eval)
next
  case 2
  with assms(3) obtain p where p: "e_pending_edit e = Some p" "pe_key p = in_edit_key input" by (auto simp: still_pending_Some)
  from errand_inv_pending(1) [OF assms(2) p(1)] 2(2) p show ?thesis by (auto simp: result_next_eval)
qed

lemma accepted_waits:
  assumes "next_transition e ev a input now = Inr t" "result_event ev"
  shows "waits ev (in_edit_key input) e"
proof -
  obtain r t0 where r: "r \<in> set transition_table" "rl_from r = e_status e" "rl_event r = ev"
    "apply_event ev (start_transition e ev a input now r) e input now = Inr t0"
    by (rule next_transition_Inr [OF assms(1)])
  have "list_all (\<lambda>r. rl_event r \<in> {EventReservationConfirmed, EventReservationRefused} \<longrightarrow> rl_from r = StatusPendingReservation) transition_table"
    by code_simp
  with r(1-3) have "ev \<in> {EventReservationConfirmed, EventReservationRefused} \<Longrightarrow> e_status e = StatusPendingReservation"
    by (auto simp: list_all_iff)
  with assms(2) r(4) show ?thesis by (auto simp: result_event_def still_pending_def split: option.splits if_splits)
qed

lemma applied_not_waiting:
  assumes nx: "next_transition e ev a input now = Inr t" and inv: "errand_inv e" and ev: "result_event ev"
  shows "\<not> waits ev key (canon uuid (apply_to t e))"
proof -
  obtain r where r: "r \<in> set transition_table" "rl_event r = ev" "rl_to r = t_to t"
    "edit_requested t \<noteq> None \<longrightarrow> ev = EventEdit \<and> e_pending_edit e = None" by (rule transition_summary [OF nx])
  have "list_all (\<lambda>r. rl_event r \<in> {EventReservationConfirmed, EventReservationRefused} \<longrightarrow> rl_to r \<noteq> StatusPendingReservation) transition_table"
    by code_simp
  with r(1-3) have to: "ev \<in> {EventReservationConfirmed, EventReservationRefused} \<Longrightarrow> t_to t \<noteq> StatusPendingReservation"
    by (auto simp: list_all_iff)
  have "e_pending_edit (apply_to t e) = None"
    using pending_after_inv [OF nx inv] r(4) ev by (auto simp: result_event_def)
  with to ev show ?thesis by (auto simp: result_event_def still_pending_def simp del: apply_to_fields(13))
qed

text \<open>A write refused because the errand moved on was decided on an errand that is no longer stored.\<close>

lemma lost_swap:
  assumes inv: "store_inv uuid db" "store_inv uuid old" "advances old db" and get: "store_get uuid eid old = Inr e"
    and nx: "next_transition e ev a input at = Inr t" and ap: "store_apply uuid now t db = (Inl err, db')" and res: "resolved err"
  obtains e' where "store_get uuid eid db = Inr e'" "progress e < progress e'"
proof -
  obtain r where r: "r \<in> set (od_errands old)" "uuid eid = Some (er_id r)" "e = errand_from_row r" "errand_inv e"
    "e_id e = er_id r" "find_errand old (er_id r) = Some r" "e_status e \<noteq> StatusNone" "tracked old e"
    by (rule stored_row [OF inv(2) get])
  have tid: "t_errand_id t = er_id r" and tf: "t_from t = e_status e" by (rule transition_summary [OF nx], use r(5) in simp)+
  have "run_tx (apply_tx uuid now (er_id r) t) db = (Inl err, db')"
    using ap tid tf r(7) store_inv_rowD(8) [OF inv(2) r(1)] by (simp add: store_apply_def)
  then have "apply_tx uuid now (er_id r) t db = Inl err" by (auto simp: run_tx_def split: sum.splits)
  then obtain q where q: "find_errand db (er_id r) = Some q" "apply_locked uuid now (errand_from_row q) t db = Inl err"
    using res by (auto simp: apply_tx_def get_errand_def tx_bind_def tx_fail_def split: option.splits)
  have "compare_and_swap (errand_from_row q) t \<noteq> None"
    using apply_locked_never q(2) res unfolding never_resolved_def by blast
  with next_expected(2) [OF nx] have "errand_from_row q \<noteq> e" by auto
  moreover have "store_get uuid eid db = Inr (errand_from_row q)" using q(1) r(2) by (simp add: store_get_def)
  ultimately show thesis using stored_moves [OF inv(1,3) get] that by blast
qed

lemma try_apply_cases:
  assumes "try_apply uuid env conflict t db = (err, db')"
  obtains "err = Some StoreErr" "db' = db"
  | res where "store_apply uuid (rv_db_now env conflict) t db = (res, db')" "err = (case res of Inl x \<Rightarrow> Some x | Inr _ \<Rightarrow> None)"
  using assms by (auto simp: try_apply_def split: if_splits sum.splits prod.splits)

lemma not_applied_Inr: "not_applied err = Inr out \<longleftrightarrow> resolved err \<and> out = OutcomeResolved"
  by (auto simp: not_applied_def)

text \<open>One write: the errand is then past the outcome, or it is to be tried again, or the result stays unhandled.\<close>

lemma try_apply_step:
  assumes ok: "uuid_reader_ok uuid" and ev: "result_event ev" and inv: "store_inv uuid db1" and fol: "follows uuid db1 db"
    and get: "store_get uuid eid db1 = Inr e" and nx: "next_transition e ev a input at = Inr t" and key: "waits ev (in_edit_key input) = waits ev key"
    and tr: "try_apply uuid env conflict t db = (err, db')"
  shows "follows uuid db db' \<and> (err = None \<or> (\<exists>x. err = Some x \<and> resolved x) \<longrightarrow> (\<exists>e'. store_get uuid eid db' = Inr e' \<and> \<not> waits ev key e'))"
  using tr
proof (cases rule: try_apply_cases)
  case 1
  then show ?thesis using fol by (auto simp: follows_def)
next
  case (2 res)
  have inv': "store_inv uuid db" "advances db1 db" using fol by (simp_all add: follows_def)
  have f: "follows uuid db db'" by (rule follows_store_apply [OF ok inv'(1) get inv inv'(2) nx 2(1)])
  have einv: "errand_inv e" by (rule stored_rowD(1) [OF inv get])
  show ?thesis
  proof (cases res)
    case (Inr s)
    from errand_store.applied_on [of uuid db1 db eid e ev a input at t _ s db'] inv inv' ok get nx 2(1) Inr
    have "store_get uuid eid db' = Inr s" by (simp add: store_ready_def stored_Some)
    moreover have "s = canon uuid (apply_to t e)"
      by (rule store_apply_cases [OF ok inv'(1,2) inv get nx 2(1)]) (use Inr in simp_all)
    ultimately show ?thesis using f applied_not_waiting [OF nx einv ev] by simp
  next
    case (Inl x)
    have "\<exists>e'. store_get uuid eid db' = Inr e' \<and> \<not> waits ev key e'" if moved: "resolved x"
    proof -
      obtain e' where e': "store_get uuid eid db = Inr e'" "progress e < progress e'"
        by (rule lost_swap [OF inv'(1) inv inv'(2) get nx 2(1) [unfolded Inl] moved])
      have same: "errand_inv e'" "e_id e' = e_id e"
        using stored_rowD [OF inv get] stored_rowD [OF inv'(1) e'(1)] by simp_all
      have "waits ev key e" using accepted_waits [OF nx ev] key by simp
      with waits_once [OF ev einv _ same(1) _ same(2), of key] e'(2) have "\<not> waits ev key e'" by auto
      moreover have "db' = db" using 2(1) Inl store_apply_refused by blast
      ultimately show ?thesis using e'(1) by blast
    qed
    with f 2(2) Inl show ?thesis by simp
  qed
qed

lemma apply_result_event_resolves:
  "uuid_reader_ok uuid \<Longrightarrow> surroundings uuid env \<Longrightarrow> answers ev input key \<Longrightarrow> store_inv uuid db \<Longrightarrow>
    apply_result_event uuid env eid ev input conflict db = (res, db') \<Longrightarrow>
    follows uuid db db' \<and> (\<forall>out. res = Inr out \<longrightarrow> (\<exists>e. store_get uuid eid db' = Inr e \<and> \<not> waits ev key e))"
proof (induction uuid env eid ev input conflict db arbitrary: res db' rule: apply_result_event.induct)
  case (1 uuid env eid ev input conflict db)
  note ans = answersD [OF 1(4)]
  let ?db1 = "rv_before_read env conflict db"
  have f1: "follows uuid db ?db1" using 1(3,5) by (simp add: surroundings_def commitsD)
  then have i1: "store_inv uuid ?db1" by (simp add: follows_def)
  let ?db2 = "rv_before_write env conflict ?db1"
  have f2: "follows uuid ?db1 ?db2" using 1(3) i1 by (simp add: surroundings_def commitsD)
  show ?case
  proof (cases "rv_read_fails env conflict \<or> (\<exists>err. store_get uuid eid ?db1 = Inl err)")
    case True
    then show ?thesis using 1(6) f1 by (auto simp: apply_result_event.simps [of uuid env eid ev input conflict db] Let_def split: if_splits)
  next
    case False
    then obtain e where e: "store_get uuid eid ?db1 = Inr e" by (metis old.sum.exhaust)
    have einv: "errand_inv e" by (rule stored_rowD(1) [OF i1 e])
    show ?thesis
    proof (cases "in_edit_key input \<noteq> [] \<and> \<not> still_pending (in_edit_key input) e")
      case True
      then show ?thesis using 1(6) f1 e False ans(3) by (auto simp: apply_result_event.simps [of uuid env eid ev input conflict db] Let_def)
    next
      case pend: False
      show ?thesis
      proof (cases "next_transition e ev system_actor input (rv_now env conflict)")
        case (Inl err)
        then have "\<not> waits ev key e" using waiting_accepts [OF ans(1) einv, of input "rv_now env conflict"] ans(2) by auto
        then show ?thesis using 1(6) f1 e False pend Inl by (auto simp: apply_result_event.simps [of uuid env eid ev input conflict db] Let_def)
      next
        case (Inr t)
        obtain err db3 where tr: "try_apply uuid env conflict t ?db2 = (err, db3)" by fastforce
        note st = try_apply_step [OF 1(2) ans(1) i1 f2 e Inr ans(2) tr]
        have f3: "follows uuid db db3" using follows_trans [OF follows_trans [OF f1 f2]] st by blast
        show ?thesis
        proof (cases "\<exists>x. err = Some x \<and> resolved x \<and> conflict + 1 < max_conflicts")
          case True
          then obtain x where x: "err = Some x" "resolved x" "conflict + 1 < max_conflicts" by blast
          have rest: "apply_result_event uuid env eid ev input (conflict + 1) db3 = (res, db')"
            using 1(6) False pend e Inr tr x
            by (auto simp: apply_result_event.simps [of uuid env eid ev input conflict db] Let_def split: if_splits)
          have "follows uuid db3 db' \<and> (\<forall>out. res = Inr out \<longrightarrow> (\<exists>e. store_get uuid eid db' = Inr e \<and> \<not> waits ev key e))"
            by (rule 1(1) [OF refl _ e _ Inr tr [symmetric] x(1) _ 1(2-4) _ rest]) (use False pend x f3 in \<open>simp_all add: follows_def\<close>)
          with f3 follows_trans show ?thesis by blast
        next
          case stop: False
          have "res = (case err of None \<Rightarrow> Inr OutcomeApplied | Some x \<Rightarrow> not_applied x)" "db' = db3"
            using 1(6) False pend e Inr tr stop
            by (auto simp: apply_result_event.simps [of uuid env eid ev input conflict db] Let_def split: option.splits if_splits)
          then show ?thesis using f3 st by (auto simp: not_applied_Inr split: option.splits)
        qed
      qed
    qed
  qed
qed

section \<open>Settling the command\<close>

lemma update_where_keys: "(\<And>x. f (g x) = f x) \<Longrightarrow> map f (update_where p g xs) = map f xs"
  by (induction xs) (auto simp: update_where_def)

lemma no_longer_matches: "(\<And>x. \<not> p (g x)) \<Longrightarrow> o' \<in> set (update_where p g xs) \<Longrightarrow> \<not> p o'"
  by (auto simp: set_update_where)

lemma confirm_by_key_settles:
  assumes "confirm_by_key now key rows = (Inr changed, rows')"
  shows "map so_key rows' = map so_key rows" "o' \<in> set rows' \<Longrightarrow> \<not> awaits_result key o'"
  using assms by (auto simp: confirm_by_key_def update_where_keys awaits_result_def dest!: no_longer_matches [rotated] split: if_splits)

lemma mark_failed_by_key_settles:
  assumes "mark_failed_by_key key code rows = (Inr changed, rows')"
  shows "map so_key rows' = map so_key rows" "o' \<in> set rows' \<Longrightarrow> \<not> awaits_result key o'"
  using assms by (auto simp: mark_failed_by_key_def update_where_keys awaits_result_def dest!: no_longer_matches [rotated] split: if_splits)

lemma follows_outbox:
  assumes ok: "uuid_reader_ok uuid" and inv: "store_inv uuid db" and keys: "map so_key rows = map so_key (od_outbox db)"
  shows "follows uuid db (db\<lparr>od_outbox := rows\<rparr>)"
proof -
  have "row_keys (db\<lparr>od_outbox := rows\<rparr>) = row_keys db" using keys by (simp add: row_keys_def)
  then show ?thesis
    using store_inv_other_rows [OF inv _ _ _ _ _ ok, of "db\<lparr>od_outbox := rows\<rparr>"] inv
    by (simp add: follows_def advances_same store_inv_def)
qed

lemma settle_command_step:
  assumes ok: "uuid_reader_ok uuid" and sur: "surroundings uuid env" and inv: "store_inv uuid db"
    and set: "settle_command env settle db = (Inr changed, db')"
    and key: "\<And>now rows c rows'. settle now rows = (Inr c, rows') \<Longrightarrow> map so_key rows' = map so_key rows \<and> (\<forall>o' \<in> set rows'. \<not> awaits_result key o')"
  shows "follows uuid db db' \<and> (\<forall>o' \<in> set (od_outbox db'). \<not> awaits_result key o')"
proof -
  let ?db1 = "rv_before_settle env db"
  have f: "follows uuid db ?db1" using sur inv by (simp add: surroundings_def commitsD)
  then have i: "store_inv uuid ?db1" by (simp add: follows_def)
  obtain rows where r: "settle (rv_settle_now env) (od_outbox ?db1) = (Inr changed, rows)" "db' = ?db1\<lparr>od_outbox := rows\<rparr>"
    using set by (auto simp: settle_command_def Let_def split: if_splits sum.splits prod.splits)
  from key [OF r(1)] follows_outbox [OF ok i] follows_trans [OF f] r(2) show ?thesis by simp
qed

text \<open>Whether the errand waits for what the result reports.\<close>

definition awaiting :: "string \<Rightarrow> string \<Rightarrow> errand \<Rightarrow> bool" where
  "awaiting rk key e \<longleftrightarrow>
     (if rk = result_reserved \<or> rk = result_reservation_refused then e_status e = StatusPendingReservation
      else (rk = result_adjusted \<or> rk = result_adjust_refused) \<and> still_pending key e)"

lemma result_transition_resolves:
  assumes ok: "uuid_reader_ok uuid" and sur: "surroundings uuid env" and inv: "store_inv uuid db"
    and ans: "answers ev input (env_correlation_id (rs_env r))" and key: "env_correlation_id (rs_env r) \<in> set (row_keys db)"
    and ap: "result_transition uuid env r ev input db = (Inr out, db')"
  shows "follows uuid db db' \<and> (\<forall>o' \<in> set (od_outbox db'). \<not> awaits_result (env_correlation_id (rs_env r)) o')
    \<and> (\<forall>e. store_get uuid (env_errand_id (rs_env r)) db' = Inr e \<longrightarrow> \<not> waits ev (env_correlation_id (rs_env r)) e)"
proof -
  let ?key = "env_correlation_id (rs_env r)" and ?eid = "env_errand_id (rs_env r)"
  obtain db1 changed where r: "apply_result_event uuid env ?eid ev input 0 db = (Inr out, db1)"
    "settle_command env (\<lambda>now. confirm_by_key now ?key) db1 = (Inr changed, db')"
    using ap by (auto simp: result_transition_def split: sum.splits prod.splits)
  from apply_result_event_resolves [OF ok sur ans inv r(1)] obtain e where
    f1: "follows uuid db db1" and e: "store_get uuid ?eid db1 = Inr e" "\<not> waits ev ?key e" by blast
  have i1: "store_inv uuid db1" and k1: "?key \<in> set (row_keys db1)" using f1 key by (auto simp: follows_def)
  have s: "follows uuid db1 db' \<and> (\<forall>o' \<in> set (od_outbox db'). \<not> awaits_result ?key o')"
    by (rule settle_command_step [OF ok sur i1 r(2)]) (use confirm_by_key_settles in blast)
  with not_waiting_kept [OF answersD(1) [OF ans] _ i1 k1 e(1) _ e(2)] follows_trans [OF f1] show ?thesis by blast
qed

lemma settled_outcome_Inr: "settled_outcome x = (Inr out, db) \<Longrightarrow> \<exists>c. x = (Inr c, db)"
  by (auto simp: settled_outcome_def split: prod.splits sum.splits)

lemma decode_result_Some:
  assumes "decode_result rk body = Some r"
  shows "rs_routing_key r = rk" "rk \<in> set credit_results" "answers_command rk (env_errand_id (rs_env r)) (env_correlation_id (rs_env r))"
    "needs_code rk \<longrightarrow> rs_code r \<noteq> []" "env_correlation_id (rs_env r) \<noteq> []"
  using assms by (auto simp: decode_result_def split: if_splits option.splits)

lemma apply_result_resolves:
  assumes ok: "uuid_reader_ok uuid" and sur: "surroundings uuid env" and inv: "store_inv uuid db"
    and key: "env_correlation_id (rs_env r) \<in> set (row_keys db)" and ap: "apply_result uuid env r db = (Inr out, db')"
  shows "follows uuid db db' \<and> (\<forall>o' \<in> set (od_outbox db'). \<not> awaits_result (env_correlation_id (rs_env r)) o')
    \<and> (\<forall>e. store_get uuid (env_errand_id (rs_env r)) db' = Inr e \<longrightarrow> \<not> awaiting (rs_routing_key r) (env_correlation_id (rs_env r)) e)"
proof -
  let ?key = "env_correlation_id (rs_env r)" and ?rk = "rs_routing_key r"
  consider (moves) ev input where "result_transition uuid env r ev input db = (Inr out, db')" "answers ev input ?key"
      "waits ev ?key = awaiting ?rk ?key"
    | (confirm) c where "settle_command env (\<lambda>now. confirm_by_key now ?key) db = (Inr c, db')" "awaiting ?rk ?key = (\<lambda>e. False)"
    | (fail) c where "settle_command env (\<lambda>now. mark_failed_by_key ?key (rs_code r)) db = (Inr c, db')" "awaiting ?rk ?key = (\<lambda>e. False)"
    using ap unfolding apply_result_def Let_def awaiting_def
    by (auto simp: answers_def result_event_def no_input_def fun_eq_iff result_defs dest!: settled_outcome_Inr split: if_splits)
  then show ?thesis
  proof cases
    case moves
    with result_transition_resolves [OF ok sur inv moves(2) key moves(1)] show ?thesis by simp
  next
    case confirm
    have "follows uuid db db' \<and> (\<forall>o' \<in> set (od_outbox db'). \<not> awaits_result ?key o')"
      by (rule settle_command_step [OF ok sur inv confirm(1)]) (use confirm_by_key_settles in blast)
    with confirm(2) show ?thesis by simp
  next
    case fail
    have "follows uuid db db' \<and> (\<forall>o' \<in> set (od_outbox db'). \<not> awaits_result ?key o')"
      by (rule settle_command_step [OF ok sur inv fail(1)]) (use mark_failed_by_key_settles in blast)
    with fail(2) show ?thesis by simp
  qed
qed

end
