(* ===== verification/Result_Properties.thy ===== *)
theory Result_Properties
  imports Result_Handling Store_Properties
begin

text \<open>The properties of the handling of credit results.\<close>

section \<open>A delivery nothing disturbs\<close>

definition undisturbed :: "result_env \<Rightarrow> bool" where
  "undisturbed env \<longleftrightarrow> rv_before_read env 0 = id \<and> rv_before_write env 0 = id \<and> rv_before_settle env = id
     \<and> \<not> rv_read_fails env 0 \<and> \<not> rv_write_fails env 0 \<and> \<not> rv_settle_fails env"

text \<open>What a result makes of the errand that waits for it.\<close>

definition after_result :: "uuid_reader \<Rightarrow> string \<Rightarrow> int \<Rightarrow> errand \<Rightarrow> errand" where
  "after_result uuid rk at e =
     (let e' = e\<lparr>e_version := e_version e + 1, e_updated_at := at\<rparr> in
      if rk = result_reserved then e'\<lparr>e_status := StatusOpen\<rparr>
      else if rk = result_reservation_refused then e'\<lparr>e_status := StatusRejected\<rparr>
      else if rk = result_adjusted then
        e'\<lparr>e_details := canon_details uuid (pe_details (the (e_pending_edit e))), e_pending_edit := None\<rparr>
      else e'\<lparr>e_pending_edit := None\<rparr>)"

definition details_fit :: "uuid_reader \<Rightarrow> details \<Rightarrow> bool" where
  "details_fit uuid d \<longleftrightarrow> details_ids_ok uuid d \<and> d_reward d \<le> max_int32 \<and> d_building_snapshot d \<noteq> None"

text \<open>The event and input a result is applied with.\<close>

definition result_input :: "result_msg \<Rightarrow> (event \<times> event_input) option" where
  "result_input r =
     (let key = env_correlation_id (rs_env r); rk = rs_routing_key r in
      if rk = result_reserved then Some (EventReservationConfirmed, no_input)
      else if rk = result_reservation_refused then Some (EventReservationRefused, no_input\<lparr>in_reason := rs_code r\<rparr>)
      else if rk = result_adjusted then Some (EventEditConfirmed, no_input\<lparr>in_edit_key := key\<rparr>)
      else if rk = result_adjust_refused then Some (EventEditRefused, no_input\<lparr>in_edit_key := key, in_reason := rs_code r\<rparr>)
      else None)"

lemma result_keys_distinct [simp]: "distinct credit_results"
  by (simp add: credit_results_def result_defs)

lemma result_input_simps:
  "rs_routing_key r = result_reserved \<Longrightarrow> result_input r = Some (EventReservationConfirmed, no_input)"
  "rs_routing_key r = result_reservation_refused \<Longrightarrow> result_input r = Some (EventReservationRefused, no_input\<lparr>in_reason := rs_code r\<rparr>)"
  "rs_routing_key r = result_adjusted \<Longrightarrow> result_input r = Some (EventEditConfirmed, no_input\<lparr>in_edit_key := env_correlation_id (rs_env r)\<rparr>)"
  "rs_routing_key r = result_adjust_refused \<Longrightarrow>
     result_input r = Some (EventEditRefused, no_input\<lparr>in_edit_key := env_correlation_id (rs_env r), in_reason := rs_code r\<rparr>)"
  by (simp_all add: result_input_def Let_def result_defs)

lemma apply_result_moves:
  "result_input r = Some (ev, input) \<Longrightarrow> apply_result uuid env r db = result_transition uuid env r ev input db"
  by (auto simp: result_input_def apply_result_def Let_def split: if_splits)

lemma awaiting_input:
  assumes "awaiting (rs_routing_key r) (env_correlation_id (rs_env r)) e"
  obtains ev input where "result_input r = Some (ev, input)" "answers ev input (env_correlation_id (rs_env r))"
    "waits ev (env_correlation_id (rs_env r)) e"
proof -
  consider "rs_routing_key r = result_reserved" "e_status e = StatusPendingReservation"
    | "rs_routing_key r = result_reservation_refused" "e_status e = StatusPendingReservation"
    | "rs_routing_key r = result_adjusted" "still_pending (env_correlation_id (rs_env r)) e"
    | "rs_routing_key r = result_adjust_refused" "still_pending (env_correlation_id (rs_env r)) e"
    using assms by (auto simp: awaiting_def split: if_splits)
  then show thesis
    by cases (rule that [OF result_input_simps(1)] that [OF result_input_simps(2)] that [OF result_input_simps(3)] that [OF result_input_simps(4)];
      simp add: answers_def result_event_def no_input_def)+
qed

lemmas outcome_eval = result_next_eval result_defs start_transition_def finish_transition_def no_changes_def no_input_def apply_to_def
  after_result_def canon_def canonical_def canon_details_def default_reason_def

lemma outcome_applied:
  assumes inp: "result_input r = Some (ev, input)" and w: "waits ev (env_correlation_id (rs_env r)) e" and inv: "errand_inv e"
  obtains t where "next_transition e ev system_actor input now = Inr t" "t_new_version t = e_version e + 1" "t_event t = ev"
    "e_pending_edit (apply_to t e) = None"
    "canonical uuid e \<longrightarrow> canon uuid (apply_to t e) = after_result uuid (rs_routing_key r) now e"
    "e_details (apply_to t e) = (if rs_routing_key r = result_adjusted then pe_details (the (e_pending_edit e)) else e_details e)"
proof -
  have reservation: "e_pending_edit e = None" if "e_status e = StatusPendingReservation"
    using errand_inv_pending(1) [OF inv] that by (cases "e_pending_edit e") auto
  have pending: "e_status e = StatusOpen" if "still_pending key e" for key
    using errand_inv_pending(1) [OF inv] that by (auto simp: still_pending_Some)
  consider "rs_routing_key r = result_reserved" | "rs_routing_key r = result_reservation_refused"
    | "rs_routing_key r = result_adjusted" | "rs_routing_key r = result_adjust_refused"
    using inp by (auto simp: result_input_def Let_def split: if_splits)
  then have "\<exists>t. next_transition e ev system_actor input now = Inr t \<and> t_new_version t = e_version e + 1 \<and> t_event t = ev
      \<and> e_pending_edit (apply_to t e) = None
      \<and> (canonical uuid e \<longrightarrow> canon uuid (apply_to t e) = after_result uuid (rs_routing_key r) now e)
      \<and> e_details (apply_to t e) = (if rs_routing_key r = result_adjusted then pe_details (the (e_pending_edit e)) else e_details e)"
  proof cases
    case 1
    then have "ev = EventReservationConfirmed" "input = no_input" using inp by (simp_all add: result_input_simps)
    with 1 w reservation show ?thesis by (auto simp: outcome_eval)
  next
    case 2
    then have "ev = EventReservationRefused" "input = no_input\<lparr>in_reason := rs_code r\<rparr>" using inp by (simp_all add: result_input_simps)
    with 2 w reservation show ?thesis by (auto simp: outcome_eval)
  next
    case 3
    then have "ev = EventEditConfirmed" "input = no_input\<lparr>in_edit_key := env_correlation_id (rs_env r)\<rparr>" using inp by (simp_all add: result_input_simps)
    with 3 w pending show ?thesis by (auto simp: outcome_eval still_pending_Some)
  next
    case 4
    then have "ev = EventEditRefused" "input = no_input\<lparr>in_edit_key := env_correlation_id (rs_env r), in_reason := rs_code r\<rparr>"
      using inp by (simp_all add: result_input_simps)
    with 4 w pending show ?thesis by (auto simp: outcome_eval still_pending_Some)
  qed
  with that show thesis by blast
qed

lemma store_get_outbox: "store_get uuid eid (db\<lparr>od_outbox := rows\<rparr>) = store_get uuid eid db"
proof -
  have "find_errand (db\<lparr>od_outbox := rows\<rparr>) = find_errand db" by (simp add: find_errand_def fun_eq_iff)
  then show ?thesis by (simp add: store_get_def split: option.split)
qed

lemma waiting_result_stored:
  assumes ok: "uuid_reader_ok uuid" and inv: "store_inv uuid db" and env: "undisturbed env"
    and inp: "result_input r = Some (ev, input)" and ans: "answers ev input (env_correlation_id (rs_env r))"
    and w: "waits ev (env_correlation_id (rs_env r)) e" and get: "store_get uuid eid db = Inr e"
    and room: "e_version e < max_int32" and fit: "\<And>p. e_pending_edit e = Some p \<Longrightarrow> details_fit uuid (pe_details p)"
  obtains db' where "apply_result_event uuid env eid ev input 0 db = (Inr OutcomeApplied, db')" "store_inv uuid db'"
    "store_get uuid eid db' = Inr (after_result uuid (rs_routing_key r) (rv_now env 0) e)"
proof -
  obtain q where q: "q \<in> set (od_errands db)" "uuid eid = Some (er_id q)" "e = errand_from_row q" "errand_inv e"
    "e_id e = er_id q" "find_errand db (er_id q) = Some q" "e_status e \<noteq> StatusNone" "tracked db e"
    by (rule stored_row [OF inv get])
  note row = store_inv_rowD [OF inv q(1)]
  have can: "canonical uuid e" and small: "d_reward (e_details e) \<le> max_int32" "d_building_snapshot (e_details e) \<noteq> None"
    using row(2) q(3) by (simp_all add: row_clean_def errand_check_def errand_from_row_def)
  obtain t where t: "next_transition e ev system_actor input (rv_now env 0) = Inr t" "t_new_version t = e_version e + 1" "t_event t = ev"
    "e_pending_edit (apply_to t e) = None" "canonical uuid e \<longrightarrow> canon uuid (apply_to t e) = after_result uuid (rs_routing_key r) (rv_now env 0) e"
    "e_details (apply_to t e) = (if rs_routing_key r = result_adjusted then pe_details (the (e_pending_edit e)) else e_details e)"
    by (rule outcome_applied [OF inp w q(4)])
  have pend: "\<exists>p. e_pending_edit e = Some p" if "rs_routing_key r = result_adjusted"
    using w inp that by (auto simp: result_input_simps still_pending_Some)
  have fits: "fits_columns uuid (apply_to t e)"
    using can small t room pend fit
    by (auto simp: fits_columns_def canonical_def details_ids_ok_def details_fit_def simp del: apply_to_fields(13) apply_to_fields(6))
  have fence: "fence_clear uuid db e t"
    using t(3) answersD(1) [OF ans] by (auto simp: fence_clear_def edit_target_supplier_def result_event_def)
  have app: "applicable uuid db e t" by (rule next_applicable [OF ok inv q(1,3) t(1) fits fence])
  let ?db' = "applied uuid (rv_db_now env 0) e t db"
  have put: "store_apply uuid (rv_db_now env 0) t db = (Inr (canon uuid (apply_to t e)), ?db')"
    using store_apply_applicable [OF inv q(1)] t(1) app q(3) by simp
  have "in_edit_key input = [] \<or> still_pending (in_edit_key input) e"
    using w answersD(3) [OF ans] by metis
  then have "apply_result_event uuid env eid ev input 0 db = (Inr OutcomeApplied, ?db')"
    using env get t(1) put by (auto simp: apply_result_event.simps [of _ _ _ _ _ 0] undisturbed_def try_apply_def Let_def)
  moreover have "store_get uuid eid ?db' = Inr (canon uuid (apply_to t e))"
    using stored_applied [OF ok inv q(1)] t(1) app q(2,3) by (simp add: stored_Some)
  moreover have "store_inv uuid ?db'" using store_inv_applied [OF ok inv q(1,3) t(1) app] .
  ultimately show thesis using that t(5) can by simp
qed

lemma handled_applied:
  assumes "undisturbed env" "decode_result rk body = Some r" "result_input r = Some (ev, input)"
    "apply_result_event uuid env (env_errand_id (rs_env r)) ev input 0 db = (Inr out, db1)"
  obtains rows where "handle_result uuid env rk body db = (ResultAck, db1\<lparr>od_outbox := rows\<rparr>)"
    "\<forall>o' \<in> set rows. \<not> awaits_result (env_correlation_id (rs_env r)) o'"
proof -
  let ?key = "env_correlation_id (rs_env r)"
  obtain changed rows where set: "confirm_by_key (rv_settle_now env) ?key (od_outbox db1) = (Inr changed, rows)"
    using decode_result_Some(5) [OF assms(2)] by (simp add: confirm_by_key_def)
  have "settle_command env (\<lambda>now. confirm_by_key now ?key) db1 = (Inr changed, db1\<lparr>od_outbox := rows\<rparr>)"
    using assms(1) set by (simp add: settle_command_def undisturbed_def)
  then have "handle_result uuid env rk body db = (ResultAck, db1\<lparr>od_outbox := rows\<rparr>)"
    using assms(2,4) apply_result_moves [OF assms(3)] by (simp add: handle_result_def result_transition_def)
  with that confirm_by_key_settles(2) [OF set] show thesis by blast
qed

section \<open>An example\<close>

text \<open>The answer to the reservation of Ada's errand.\<close>

definition ex_result_body :: json where
  "ex_result_body = JObj [(''messageId'', JStr ''m1''), (''correlationId'', JStr (ex_uuid CHR ''e'' @ '':reserve'')), (''type'', JStr ''credit.reserved''),
     (''occurredAt'', JStr ''2026-11-01T00:00:00Z''), (''errandId'', JStr (ex_uuid CHR ''e'')), (''errandVersion'', JNum 1),
     (''data'', JObj [(''amount'', JNum 300)])]"

lemma ex_decoded:
  obtains r where "decode_result result_reserved (Some ex_result_body) = Some r" "env_errand_id (rs_env r) = ex_uuid CHR ''e''"
    "env_correlation_id (rs_env r) = op_key (ex_uuid CHR ''e'') (''reserve'', 0)"
proof -
  have "case decode_result result_reserved (Some ex_result_body) of None \<Rightarrow> False
      | Some r \<Rightarrow> env_errand_id (rs_env r) = ex_uuid CHR ''e'' \<and> env_correlation_id (rs_env r) = op_key (ex_uuid CHR ''e'') (''reserve'', 0)"
    by code_simp
  with that show thesis by (auto split: option.splits)
qed

definition ex_quiet :: result_env where
  "ex_quiet = \<lparr>rv_before_read = (\<lambda>_. id), rv_before_write = (\<lambda>_. id), rv_before_settle = id, rv_now = (\<lambda>_. second), rv_db_now = (\<lambda>_. second),
     rv_settle_now = second, rv_read_fails = (\<lambda>_. False), rv_write_fails = (\<lambda>_. False), rv_settle_fails = False\<rparr>"

lemma ex_quiet_ok: "undisturbed ex_quiet" "surroundings uuid ex_quiet"
  by (simp_all add: undisturbed_def surroundings_def ex_quiet_def commits_def follows_refl)

lemma ex_waiting:
  obtains db e m where "store_inv ex_reader db" "store_get ex_reader (ex_uuid CHR ''e'') db = Inr e" "e_status e = StatusPendingReservation"
    "e_version e = 1" "e_pending_edit e = None" "decode_result result_reserved (Some ex_result_body) = Some m" "env_errand_id (rs_env m) = ex_uuid CHR ''e''"
    "env_correlation_id (rs_env m) = op_key (ex_uuid CHR ''e'') (''reserve'', 0)" "env_correlation_id (rs_env m) \<in> set (row_keys db)"
    "result_input m = Some (EventReservationConfirmed, no_input)"
proof (rule ex_confirmed)
  fix db r t
  assume c: "store_inv ex_reader db" "r \<in> set (od_errands db)" "er_id r = ex_uuid CHR ''e''"
    "next_transition (errand_from_row r) EventReservationConfirmed system_actor no_input second = Inr t"
    "store_get ex_reader (ex_uuid CHR ''e'') db = Inr (errand_from_row r)"
  let ?e = "errand_from_row r"
  have w: "e_status ?e = StatusPendingReservation" using accepted_waits [OF c(4)] by (simp add: result_event_def)
  note inv = store_inv_rowD(3) [OF c(1,2)]
  have pend: "e_pending_edit ?e = None" using errand_inv_pending(1) [OF inv] w by (cases "e_pending_edit ?e") auto
  obtain m where m: "decode_result result_reserved (Some ex_result_body) = Some m" "env_errand_id (rs_env m) = ex_uuid CHR ''e''"
    "env_correlation_id (rs_env m) = op_key (ex_uuid CHR ''e'') (''reserve'', 0)" by (rule ex_decoded)
  have key: "env_correlation_id (rs_env m) \<in> set (row_keys db)"
    using store_inv_rowD(4) [OF c(1,2)] c(3) m(3) by (simp add: tracked_def)
  show thesis
    by (rule that [OF c(1,5) w errand_inv_first [OF inv w] pend m key result_input_simps(1)]) (use decode_result_Some(1) [OF m(1)] in simp)
qed

section \<open>Properties\<close>

text \<open>
  C35. A credit result that is acknowledged is dealt with, whatever other transactions commit between the
  handler's read, its write and its confirmation, and however often the write loses to them: afterwards the
  errand no longer waits for what the result reports, the command it answers is no longer pending or sent,
  and the database is consistent.
\<close>

theorem acknowledged_result_resolved:
  assumes "uuid_reader_ok uuid" and "store_inv uuid db" and "surroundings uuid env"
    and "decode_result rk body = Some r" and "env_correlation_id (rs_env r) \<in> set (row_keys db)"
    and "handle_result uuid env rk body db = (ResultAck, db')"
  shows "store_inv uuid db' \<and> (\<forall>o' \<in> set (od_outbox db'). \<not> awaits_result (env_correlation_id (rs_env r)) o')
    \<and> (\<forall>e. store_get uuid (env_errand_id (rs_env r)) db' = Inr e \<longrightarrow> \<not> awaiting rk (env_correlation_id (rs_env r)) e)"
proof -
  obtain out where out: "apply_result uuid env r db = (Inr out, db')"
    using assms(4,6) by (auto simp: handle_result_def split: sum.splits prod.splits result_error.splits)
  from apply_result_resolves [OF assms(1,3,2,5) out] decode_result_Some(1) [OF assms(4)] show ?thesis
    by (simp add: follows_def)
qed

theorem acknowledged_result_resolved_witness:
  "\<exists>db db' e. handle_result ex_reader ex_quiet result_reserved (Some ex_result_body) db = (ResultAck, db')
     \<and> store_get ex_reader (ex_uuid CHR ''e'') db = Inr e \<and> e_status e = StatusPendingReservation
     \<and> (\<forall>o' \<in> set (od_outbox db'). \<not> awaits_result (op_key (ex_uuid CHR ''e'') (''reserve'', 0)) o')
     \<and> (\<forall>e'. store_get ex_reader (ex_uuid CHR ''e'') db' = Inr e' \<longrightarrow> e_status e' \<noteq> StatusPendingReservation)"
proof (rule ex_waiting)
  fix db e m
  assume c: "store_inv ex_reader db" "store_get ex_reader (ex_uuid CHR ''e'') db = Inr e" "e_status e = StatusPendingReservation"
    "e_version e = 1" "e_pending_edit e = None" "decode_result result_reserved (Some ex_result_body) = Some m" "env_errand_id (rs_env m) = ex_uuid CHR ''e''"
    "env_correlation_id (rs_env m) = op_key (ex_uuid CHR ''e'') (''reserve'', 0)" "env_correlation_id (rs_env m) \<in> set (row_keys db)"
    "result_input m = Some (EventReservationConfirmed, no_input)"
  have w: "waits EventReservationConfirmed (env_correlation_id (rs_env m)) e" using c(3) by simp
  obtain db1 where db1: "apply_result_event ex_reader ex_quiet (ex_uuid CHR ''e'') EventReservationConfirmed no_input 0 db = (Inr OutcomeApplied, db1)"
    by (rule waiting_result_stored [OF ex_reader_ok c(1) ex_quiet_ok(1) c(10) _ w c(2)])
      (use c in \<open>auto simp: answers_def result_event_def no_input_def max_int32_def\<close>)
  obtain rows where h: "handle_result ex_reader ex_quiet result_reserved (Some ex_result_body) db = (ResultAck, db1\<lparr>od_outbox := rows\<rparr>)"
    by (rule handled_applied [OF ex_quiet_ok(1) c(6,10)]) (use db1 c(7) in simp_all)
  from acknowledged_result_resolved [OF ex_reader_ok c(1) ex_quiet_ok(2) c(6,9) h] c h show ?thesis
    by (intro exI [of _ db] exI [of _ "db1\<lparr>od_outbox := rows\<rparr>"] exI [of _ e]) (simp add: awaiting_def)
qed

text \<open>
  C36. A credit result reaches the errand that waits for it: when no statement fails and nobody interferes,
  the delivery is acknowledged and the errand is exactly what the result says. A reservation opens it, a
  refused one rejects it, an adjustment puts the pending edit into effect and a refused one drops it.
\<close>

theorem waiting_result_applied:
  assumes "uuid_reader_ok uuid" and "store_inv uuid db" and "undisturbed env"
    and "decode_result rk body = Some r" and "store_get uuid (env_errand_id (rs_env r)) db = Inr e"
    and "awaiting rk (env_correlation_id (rs_env r)) e" and "e_version e < max_int32"
    and "\<And>p. e_pending_edit e = Some p \<Longrightarrow> details_fit uuid (pe_details p)"
  shows "\<exists>db'. handle_result uuid env rk body db = (ResultAck, db')
    \<and> store_get uuid (env_errand_id (rs_env r)) db' = Inr (after_result uuid rk (rv_now env 0) e)
    \<and> (\<forall>o' \<in> set (od_outbox db'). \<not> awaits_result (env_correlation_id (rs_env r)) o')"
proof -
  let ?key = "env_correlation_id (rs_env r)" and ?eid = "env_errand_id (rs_env r)"
  have rk: "rs_routing_key r = rk" using decode_result_Some(1) [OF assms(4)] .
  obtain ev input where inp: "result_input r = Some (ev, input)" "answers ev input ?key" "waits ev ?key e"
    using assms(6) unfolding rk [symmetric] by (rule awaiting_input)
  obtain db1 where db1: "apply_result_event uuid env ?eid ev input 0 db = (Inr OutcomeApplied, db1)" "store_inv uuid db1"
    "store_get uuid ?eid db1 = Inr (after_result uuid (rs_routing_key r) (rv_now env 0) e)"
    by (rule waiting_result_stored [OF assms(1-3) inp assms(5,7,8)])
  obtain rows where rows: "handle_result uuid env rk body db = (ResultAck, db1\<lparr>od_outbox := rows\<rparr>)"
    "\<forall>o' \<in> set rows. \<not> awaits_result ?key o'"
    by (rule handled_applied [OF assms(3,4) inp(1) db1(1)])
  then show ?thesis using db1(3) rk by (simp add: store_get_outbox)
qed

theorem waiting_result_applied_witness:
  "\<exists>db db' e. handle_result ex_reader ex_quiet result_reserved (Some ex_result_body) db = (ResultAck, db')
     \<and> store_get ex_reader (ex_uuid CHR ''e'') db = Inr e \<and> store_get ex_reader (ex_uuid CHR ''e'') db' = Inr (after_result ex_reader result_reserved second e)"
proof (rule ex_waiting)
  fix db e m
  assume c: "store_inv ex_reader db" "store_get ex_reader (ex_uuid CHR ''e'') db = Inr e" "e_status e = StatusPendingReservation"
    "e_version e = 1" "e_pending_edit e = None" "decode_result result_reserved (Some ex_result_body) = Some m" "env_errand_id (rs_env m) = ex_uuid CHR ''e''"
  have "awaiting result_reserved (env_correlation_id (rs_env m)) e" using c(3) by (simp add: awaiting_def)
  from waiting_result_applied [OF ex_reader_ok c(1) ex_quiet_ok(1) c(6) _ this] c show ?thesis
    by (auto simp: max_int32_def ex_quiet_def)
qed

end
