(* ===== verification/Supplier_Fence.thy ===== *)
theory Supplier_Fence
  imports Errand_Trace Outbox_Repo
begin

text \<open>
  Fences around a supplier that is being deleted: the fence statements of package \<^verbatim>\<open>opsrepo\<close> and the
  use cases of package \<^verbatim>\<open>fence\<close> in order-service. Each use case is one transaction on the order
  database and the audit trail; the advisory lock of \<^verbatim>\<open>Acquire\<close> orders it against the creations and
  edits of the supplier's errands, so that transactions take effect one after the other.
\<close>

type_synonym ops_state = "order_db \<times> audit_row list"

datatype ops_error = OpsNotFound | OpsConflict | OpsInvalidArgument | OpsSupplierMismatch | OpsStateConflict | OpsOther

type_synonym 'a ops = "(ops_state, ops_error, 'a) tx"

section \<open>Statements\<close>

definition ops_uuid :: "uuid_reader \<Rightarrow> string \<Rightarrow> string ops" where
  "ops_uuid uuid v = (case uuid v of None \<Rightarrow> tx_fail OpsInvalidArgument | Some u \<Rightarrow> tx_return u)"

definition find_fence :: "string \<Rightarrow> order_db \<Rightarrow> fence_row option" where
  "find_fence op db = find (\<lambda>f. fe_operation_id f = op) (od_fences db)"

definition set_fences :: "fence_row list \<Rightarrow> unit ops" where
  "set_fences fs = tx_put (\<lambda>(db, audits). (db\<lparr>od_fences := fs\<rparr>, audits))"

text \<open>The exclusive lock itself: what is left of it is the check of the id.\<close>

definition lock_supplier :: "uuid_reader \<Rightarrow> string \<Rightarrow> unit ops" where
  "lock_supplier uuid sid = tx_bind (ops_uuid uuid sid) (\<lambda>_. tx_return ())"

definition insert_fence :: "int \<Rightarrow> string \<Rightarrow> string \<Rightarrow> nat ops" where
  "insert_fence now op sid =
     tx_bind (tx_get fst) (\<lambda>db. case find_fence op db of
         Some _ \<Rightarrow> tx_return 0
       | None \<Rightarrow> tx_bind (set_fences (od_fences db @ [\<lparr>fe_operation_id = op, fe_supplier_id = sid, fe_state = FenceOpen,
             fe_created_at = now, fe_updated_at = now\<rparr>])) (\<lambda>_. tx_return 1))"

definition get_fence_row :: "string \<Rightarrow> fence_row ops" where
  "get_fence_row op = tx_bind (tx_get fst) (\<lambda>db. case find_fence op db of None \<Rightarrow> tx_fail OpsNotFound | Some f \<Rightarrow> tx_return f)"

definition create_fence :: "uuid_reader \<Rightarrow> int \<Rightarrow> string \<Rightarrow> string \<Rightarrow> (fence_row \<times> bool) ops" where
  "create_fence uuid now operation_id supplier_id =
     tx_bind (ops_uuid uuid operation_id) (\<lambda>op.
     tx_bind (ops_uuid uuid supplier_id) (\<lambda>sid.
     tx_bind (insert_fence now op sid) (\<lambda>inserted.
     tx_bind (get_fence_row op) (\<lambda>row.
       if fe_supplier_id row \<noteq> sid then tx_fail OpsSupplierMismatch else tx_return (row, inserted = 1)))))"

definition get_fence :: "uuid_reader \<Rightarrow> string \<Rightarrow> fence_row ops" where
  "get_fence uuid operation_id = tx_bind (ops_uuid uuid operation_id) get_fence_row"

text \<open>\<open>None\<close>: no open fence has this operation.\<close>

definition close_fence_row :: "int \<Rightarrow> string \<Rightarrow> fence_state \<Rightarrow> fence_row option ops" where
  "close_fence_row now op state =
     tx_bind (tx_get fst) (\<lambda>db. case find (\<lambda>f. fe_operation_id f = op \<and> fe_state f = FenceOpen) (od_fences db) of
         None \<Rightarrow> tx_return None
       | Some f \<Rightarrow> tx_bind (set_fences (update_where (\<lambda>f. fe_operation_id f = op \<and> fe_state f = FenceOpen)
             (\<lambda>f. f\<lparr>fe_state := state, fe_updated_at := now\<rparr>) (od_fences db)))
             (\<lambda>_. tx_return (Some (f\<lparr>fe_state := state, fe_updated_at := now\<rparr>))))"

definition close_fence :: "uuid_reader \<Rightarrow> int \<Rightarrow> string \<Rightarrow> fence_state \<Rightarrow> fence_row ops" where
  "close_fence uuid now operation_id state =
     (if state \<noteq> FenceCommitted \<and> state \<noteq> FenceReleased then tx_fail OpsInvalidArgument
      else tx_bind (ops_uuid uuid operation_id) (\<lambda>op.
        tx_bind (close_fence_row now op state) (\<lambda>closed. case closed of
            Some row \<Rightarrow> tx_return row
          | None \<Rightarrow> tx_bind (get_fence uuid operation_id) (\<lambda>current.
              if fe_state current \<noteq> state then tx_fail OpsStateConflict else tx_return current))))"

definition active_statuses :: "status list" where
  "active_statuses = filter active_status statuses"

text \<open>
  Whether the counting query selects a row; \<open>None\<close> is a failed cast of the pending edit's supplier, which
  is reached when the first disjunct of the condition is false.
\<close>

definition counts_for :: "uuid_reader \<Rightarrow> string \<Rightarrow> errand_row \<Rightarrow> bool option" where
  "counts_for uuid sid r =
     (if er_status r \<notin> set active_statuses then Some False
      else if er_supplier_id r = sid then Some True
      else (case er_pending_edit r of None \<Rightarrow> Some False
          | Some d \<Rightarrow> map_option (\<lambda>u. u = sid) (uuid (d_supplier_id d))))"

definition count_active_errands_for_supplier :: "uuid_reader \<Rightarrow> string \<Rightarrow> nat ops" where
  "count_active_errands_for_supplier uuid supplier_id =
     tx_bind (ops_uuid uuid supplier_id) (\<lambda>sid.
     tx_bind (tx_get fst) (\<lambda>db.
       if list_ex (\<lambda>r. counts_for uuid sid r = None) (od_errands db) then tx_fail OpsInvalidArgument
       else tx_return (length (filter (\<lambda>r. counts_for uuid sid r = Some True) (od_errands db)))))"

definition insert_audit :: "int \<Rightarrow> string \<Rightarrow> string \<Rightarrow> string \<Rightarrow> string \<Rightarrow> string \<Rightarrow> string \<Rightarrow> unit ops" where
  "insert_audit now actor action target_type target_id reason outcome =
     (if actor = [] \<or> action = [] \<or> target_type = [] \<or> target_id = [] then tx_fail OpsInvalidArgument
      else if outcome \<notin> set audit_outcomes then tx_fail OpsInvalidArgument
      else tx_put (\<lambda>(db, audits). (db, audits @ [\<lparr>au_actor_id = actor, au_action = action, au_target_type = target_type,
        au_target_id = target_id, au_reason = null_text reason, au_outcome = outcome, au_at = now\<rparr>])))"

section \<open>Use cases\<close>

datatype wire_state = StateOpen | StateCommitted | StateReleased

record fence =
  fn_operation_id :: string
  fn_supplier_id :: string
  fn_state :: wire_state
  fn_has_active_errands :: bool

fun wire :: "fence_state \<Rightarrow> wire_state" where
  "wire FenceOpen = StateOpen"
| "wire FenceCommitted = StateCommitted"
| "wire FenceReleased = StateReleased"

definition with_active_errands :: "uuid_reader \<Rightarrow> fence_row \<Rightarrow> fence ops" where
  "with_active_errands uuid stored =
     tx_bind (count_active_errands_for_supplier uuid (fe_supplier_id stored)) (\<lambda>count.
       tx_return \<lparr>fn_operation_id = fe_operation_id stored, fn_supplier_id = fe_supplier_id stored,
         fn_state = wire (fe_state stored), fn_has_active_errands = count > 0\<rparr>)"

definition audit_target_type :: string where "audit_target_type = ''supplier_fence''"
definition audit_action_acquire :: string where "audit_action_acquire = ''supplier_fence.acquire''"
definition audit_action_commit :: string where "audit_action_commit = ''supplier_fence.commit''"
definition audit_action_release :: string where "audit_action_release = ''supplier_fence.release''"

definition audit :: "int \<Rightarrow> string \<Rightarrow> string \<Rightarrow> string \<Rightarrow> string \<Rightarrow> string \<Rightarrow> unit ops" where
  "audit now actor action operation_id outcome reason =
     insert_audit now actor action audit_target_type operation_id reason outcome"

fun app_code_text :: "app_code \<Rightarrow> string" where
  "app_code_text InvalidArgument = ''INVALID_ARGUMENT''"
| "app_code_text Unauthenticated = ''UNAUTHENTICATED''"
| "app_code_text Forbidden = ''FORBIDDEN''"
| "app_code_text ValidationFailed = ''VALIDATION_FAILED''"
| "app_code_text ErrandNotFound = ''ERRAND_NOT_FOUND''"
| "app_code_text FenceNotFound = ''FENCE_NOT_FOUND''"
| "app_code_text OutboxRowNotFound = ''OUTBOX_ROW_NOT_FOUND''"
| "app_code_text ErrandChanged = ''ERRAND_CHANGED''"
| "app_code_text ErrandUnavailable = ''ERRAND_UNAVAILABLE''"
| "app_code_text InvalidTransition = ''INVALID_TRANSITION''"
| "app_code_text NotEligible = ''NOT_ELIGIBLE''"
| "app_code_text CourierRestricted = ''COURIER_RESTRICTED''"
| "app_code_text InsufficientCredits = ''INSUFFICIENT_CREDITS''"
| "app_code_text EditPending = ''EDIT_PENDING''"
| "app_code_text SupplierUnavailable = ''SUPPLIER_UNAVAILABLE''"
| "app_code_text SupplierDeletionInProgress = ''SUPPLIER_DELETION_IN_PROGRESS''"
| "app_code_text DependencyUnavailable = ''DEPENDENCY_UNAVAILABLE''"
| "app_code_text Internal = ''INTERNAL''"

datatype fence_error = FenceApp app_code | FenceInternal

fun classify :: "ops_error \<Rightarrow> fence_error" where
  "classify OpsSupplierMismatch = FenceApp InvalidArgument"
| "classify OpsStateConflict = FenceApp InvalidTransition"
| "classify OpsNotFound = FenceApp FenceNotFound"
| "classify OpsInvalidArgument = FenceApp InvalidArgument"
| "classify OpsConflict = FenceInternal"
| "classify OpsOther = FenceInternal"

text \<open>The rejection is recorded outside the transaction, on the state the rollback left.\<close>

definition refuse :: "int \<Rightarrow> string \<Rightarrow> string \<Rightarrow> string \<Rightarrow> ops_error \<Rightarrow> ops_state \<Rightarrow> fence_error \<times> ops_state" where
  "refuse now actor action operation_id err s =
     (case classify err of
        FenceInternal \<Rightarrow> (FenceInternal, s)
      | FenceApp code \<Rightarrow>
          (FenceApp code, snd (run_tx (audit now actor action operation_id ''REJECTED'' (app_code_text code)) s)))"

definition answered :: "int \<Rightarrow> string \<Rightarrow> string \<Rightarrow> string \<Rightarrow> (ops_error + fence) \<times> ops_state
    \<Rightarrow> (fence_error + fence) \<times> ops_state" where
  "answered now actor action operation_id x =
     (case x of (Inr f, s) \<Rightarrow> (Inr f, s)
      | (Inl err, s) \<Rightarrow> (case refuse now actor action operation_id err s of (e, s') \<Rightarrow> (Inl e, s')))"

definition acquire_tx :: "uuid_reader \<Rightarrow> int \<Rightarrow> string \<Rightarrow> string \<Rightarrow> string \<Rightarrow> fence ops" where
  "acquire_tx uuid now actor operation_id supplier_id =
     tx_bind (lock_supplier uuid supplier_id) (\<lambda>_.
     tx_bind (create_fence uuid now operation_id supplier_id) (\<lambda>(stored, _).
     tx_bind (with_active_errands uuid stored) (\<lambda>result.
     tx_bind (audit now actor audit_action_acquire operation_id ''SUCCEEDED'' []) (\<lambda>_. tx_return result))))"

definition acquire :: "uuid_reader \<Rightarrow> int \<Rightarrow> string \<Rightarrow> string \<Rightarrow> string \<Rightarrow> ops_state
    \<Rightarrow> (fence_error + fence) \<times> ops_state" where
  "acquire uuid now actor operation_id supplier_id s =
     answered now actor audit_action_acquire operation_id (run_tx (acquire_tx uuid now actor operation_id supplier_id) s)"

definition inspect :: "uuid_reader \<Rightarrow> string \<Rightarrow> ops_state \<Rightarrow> fence_error + fence" where
  "inspect uuid operation_id s =
     (case tx_bind (get_fence uuid operation_id) (with_active_errands uuid) s of
        Inl err \<Rightarrow> Inl (classify err) | Inr (f, _) \<Rightarrow> Inr f)"

definition close_tx :: "uuid_reader \<Rightarrow> int \<Rightarrow> string \<Rightarrow> string \<Rightarrow> string \<Rightarrow> fence_state \<Rightarrow> fence ops" where
  "close_tx uuid now actor action operation_id state =
     tx_bind (close_fence uuid now operation_id state) (\<lambda>stored.
     tx_bind (with_active_errands uuid stored) (\<lambda>result.
     tx_bind (audit now actor action operation_id ''SUCCEEDED'' []) (\<lambda>_. tx_return result)))"

definition close :: "uuid_reader \<Rightarrow> int \<Rightarrow> string \<Rightarrow> string \<Rightarrow> string \<Rightarrow> fence_state \<Rightarrow> ops_state
    \<Rightarrow> (fence_error + fence) \<times> ops_state" where
  "close uuid now actor action operation_id state s =
     answered now actor action operation_id (run_tx (close_tx uuid now actor action operation_id state) s)"

definition commit_fence :: "uuid_reader \<Rightarrow> int \<Rightarrow> string \<Rightarrow> string \<Rightarrow> ops_state \<Rightarrow> (fence_error + fence) \<times> ops_state" where
  "commit_fence uuid now actor operation_id = close uuid now actor audit_action_commit operation_id FenceCommitted"

definition release_fence :: "uuid_reader \<Rightarrow> int \<Rightarrow> string \<Rightarrow> string \<Rightarrow> ops_state \<Rightarrow> (fence_error + fence) \<times> ops_state" where
  "release_fence uuid now actor operation_id = close uuid now actor audit_action_release operation_id FenceReleased"

end
