(* ===== verification/Background_Jobs.thy ===== *)
theory Background_Jobs
  imports Supplier_Fence
begin

text \<open>
  The background jobs of order-service: the deadline and reminder jobs of package \<^verbatim>\<open>scheduler\<close>, with
  the statements of \<^verbatim>\<open>opsrepo\<close> they use, and the recovery of stuck credit operations in package
  \<^verbatim>\<open>reconciler\<close>. A \<open>job_env\<close> says what surrounds one batch: the readings of the clocks, the rows others
  have locked, and whether the database fails.
\<close>

section \<open>Settings\<close>

record system_settings =
  ss_deadlines :: deadline_settings
  ss_withdrawal_count :: int
  ss_withdrawal_window :: int
  ss_withdrawal_duration :: int
  ss_cancellation_count :: int
  ss_cancellation_window :: int
  ss_reservation_timeout :: int
  ss_edit_timeout :: int
  ss_outbox_confirm_timeout :: int

definition default_system_settings :: system_settings where
  "default_system_settings =
     \<lparr>ss_deadlines = default_deadline_settings, ss_withdrawal_count = 3, ss_withdrawal_window = 15 * minute,
      ss_withdrawal_duration = 15 * minute, ss_cancellation_count = 20, ss_cancellation_window = hour,
      ss_reservation_timeout = 5 * minute, ss_edit_timeout = 5 * minute, ss_outbox_confirm_timeout = 10 * minute\<rparr>"

definition validate_settings :: "system_settings \<Rightarrow> app_error option" where
  "validate_settings s =
     (let fields = (case validate_deadlines (ss_deadlines s) of None \<Rightarrow> [] | Some err \<Rightarrow> err_fields err)
        @ not_positive ''withdrawalRestriction.count'' (ss_withdrawal_count s)
        @ not_positive ''withdrawalRestriction.window'' (ss_withdrawal_window s)
        @ not_positive ''withdrawalRestriction.duration'' (ss_withdrawal_duration s)
        @ not_positive ''cancellationFlag.count'' (ss_cancellation_count s)
        @ not_positive ''cancellationFlag.window'' (ss_cancellation_window s)
        @ not_positive ''reservationTimeout'' (ss_reservation_timeout s)
        @ not_positive ''editTimeout'' (ss_edit_timeout s)
        @ not_positive ''outboxConfirmTimeout'' (ss_outbox_confirm_timeout s)
      in if fields \<noteq> [] then Some (validation_error fields) else None)"

section \<open>Batches\<close>

record batch_result =
  br_seen :: nat
  br_applied :: nat

record job_env =
  je_now :: int
  je_db_now :: int
  je_held :: "string \<Rightarrow> bool"
  je_fails :: bool

definition claimed_rows :: "due_kind \<Rightarrow> int \<Rightarrow> int \<Rightarrow> (string \<Rightarrow> bool) \<Rightarrow> order_db \<Rightarrow> errand_row list" where
  "claimed_rows kind cutoff limit held db =
     (case claim_query kind cutoff (nat (min limit max_int32)) held db of Inl _ \<Rightarrow> [] | Inr (rows, _) \<Rightarrow> rows)"

text \<open>One batch; \<^verbatim>\<open>decide\<close> is called once for every row that was claimed.\<close>

definition run_claim :: "uuid_reader \<Rightarrow> due_kind \<Rightarrow> int \<Rightarrow> int \<Rightarrow> job_env \<Rightarrow> decide \<Rightarrow> order_db \<Rightarrow> (store_error + batch_result) \<times> order_db" where
  "run_claim uuid kind cutoff limit env decide db =
     (if je_fails env then (Inl StoreErr, db)
      else (case claim_due uuid (je_db_now env) kind cutoff limit (je_held env) decide db of
          (Inl err, db') \<Rightarrow> (Inl err, db')
        | (Inr n, db') \<Rightarrow> (Inr \<lparr>br_seen = length (claimed_rows kind cutoff limit (je_held env) db), br_applied = n\<rparr>, db')))"

section \<open>Deadline jobs\<close>

fun deadline_event :: "due_kind \<Rightarrow> event option" where
  "deadline_event AcceptanceExpiry = Some EventAcceptanceDeadlinePassed"
| "deadline_event PickupDeadline = Some EventPickupDeadlinePassed"
| "deadline_event DeliveryDeadline = Some EventDeliveryDeadlinePassed"
| "deadline_event VerificationLapse = Some EventVerificationLapsed"
| "deadline_event _ = None"

definition default_batch_size :: int where "default_batch_size = 100"

definition scheduler_batch_size :: "int \<Rightarrow> int" where
  "scheduler_batch_size configured = (if configured \<le> 0 then default_batch_size else configured)"

definition deadline_decide :: "due_kind \<Rightarrow> event \<Rightarrow> int \<Rightarrow> decide" where
  "deadline_decide kind ev now e =
     (if \<not> due kind e now then Inr None
      else (case next_transition e ev system_actor no_input now of Inl _ \<Rightarrow> Inr None | Inr t \<Rightarrow> Inr (Some t)))"

definition run_deadline :: "uuid_reader \<Rightarrow> due_kind \<Rightarrow> event \<Rightarrow> int \<Rightarrow> job_env \<Rightarrow> order_db \<Rightarrow> (store_error + batch_result) \<times> order_db" where
  "run_deadline uuid kind ev limit env =
     run_claim uuid kind (je_now env) limit env (deadline_decide kind ev (je_now env))"

text \<open>\<open>cancelled\<close> and \<open>run\<close> are given the number of the batch; \<open>fuel\<close> bounds how many there are.\<close>

fun drain :: "nat \<Rightarrow> (nat \<Rightarrow> bool) \<Rightarrow> (nat \<Rightarrow> order_db \<Rightarrow> ('e + batch_result) \<times> order_db) \<Rightarrow> int \<Rightarrow> nat \<Rightarrow> order_db \<Rightarrow> order_db option" where
  "drain 0 cancelled run limit i db = None"
| "drain (Suc fuel) cancelled run limit i db =
     (if cancelled i then Some db
      else (case run i db of
          (Inl err, db') \<Rightarrow> Some db'
        | (Inr res, db') \<Rightarrow>
            if int (br_seen res) < limit \<or> br_applied res = 0 then Some db'
            else drain fuel cancelled run limit (Suc i) db'))"

section \<open>Reminders\<close>

datatype reminder_kind = ReminderVerification | ReminderPickup

record reminder_candidate =
  rk_errand_id :: string
  rk_version :: int
  rk_status :: status
  rk_requester_id :: string
  rk_courier_id :: string
  rk_deadline :: int

definition max_page_size :: int where "max_page_size = 200"

fun reminder_operation :: "reminder_kind \<Rightarrow> string" where
  "reminder_operation ReminderVerification = ''verify-reminder''"
| "reminder_operation ReminderPickup = ''pickup-reminder''"

fun reminder_event :: "reminder_kind \<Rightarrow> event_name" where
  "reminder_event ReminderVerification = ErrandVerificationReminder"
| "reminder_event ReminderPickup = ErrandPickupDeadlineApproaching"

fun reminder_status :: "reminder_kind \<Rightarrow> status" where
  "reminder_status ReminderVerification = StatusDelivered"
| "reminder_status ReminderPickup = StatusAssigned"

fun reminder_deadline :: "reminder_kind \<Rightarrow> errand_row \<Rightarrow> int option" where
  "reminder_deadline ReminderVerification r = er_verification_deadline r"
| "reminder_deadline ReminderPickup r = er_pickup_deadline r"

text \<open>The key as the query writes it: the version is always there.\<close>

definition reminder_key_sql :: "reminder_kind \<Rightarrow> errand_row \<Rightarrow> string" where
  "reminder_key_sql kind r = er_id r @ '':'' @ reminder_operation kind @ '':'' @ itoa (er_version r)"

definition wants_reminder :: "reminder_kind \<Rightarrow> int \<Rightarrow> int \<Rightarrow> order_db \<Rightarrow> errand_row \<Rightarrow> bool" where
  "wants_reminder kind now remind_before db r \<longleftrightarrow> er_status r = reminder_status kind
     \<and> (case reminder_deadline kind r of None \<Rightarrow> False | Some d \<Rightarrow> d > now \<and> d \<le> remind_before)
     \<and> reminder_key_sql kind r \<notin> so_key ` set (od_outbox db)"

definition candidate_of :: "reminder_kind \<Rightarrow> errand_row \<Rightarrow> reminder_candidate" where
  "candidate_of kind r = \<lparr>rk_errand_id = er_id r, rk_version = er_version r, rk_status = er_status r,
     rk_requester_id = er_requester_id r, rk_courier_id = string_of (er_courier_id r),
     rk_deadline = time_or_zero (reminder_deadline kind r)\<rparr>"

definition list_reminder_candidates :: "reminder_kind \<Rightarrow> int \<Rightarrow> int \<Rightarrow> int \<Rightarrow> order_db \<Rightarrow> ops_error + reminder_candidate list" where
  "list_reminder_candidates kind now remind_before limit db =
     (if limit \<le> 0 \<or> limit > max_page_size then Inl OpsInvalidArgument
      else Inr (map (candidate_of kind) (take (nat limit) (sort_key (\<lambda>r. time_or_zero (reminder_deadline kind r)) (sort_key er_id
        (filter (wants_reminder kind now remind_before db) (od_errands db)))))))"

definition is_reminder_kind :: "string \<Rightarrow> bool" where
  "is_reminder_kind kind \<longleftrightarrow> kind = event_kind ErrandVerificationReminder \<or> kind = event_kind ErrandPickupDeadlineApproaching"

text \<open>\<^verbatim>\<open>INSERT ... SELECT\<close> from the errand as it is now; payloads of reminders can always be encoded.\<close>

definition insert_current_reminder :: "uuid_reader \<Rightarrow> int \<Rightarrow> outbox_row \<Rightarrow> status \<Rightarrow> int \<Rightarrow> order_db \<Rightarrow> (ops_error + bool) \<times> order_db" where
  "insert_current_reminder uuid now row status version db =
     (if \<not> is_reminder_kind (ob_kind row) then (Inl OpsInvalidArgument, db)
      else if ob_key row = [] then (Inl OpsInvalidArgument, db)
      else (case uuid (ob_errand_id row) of
          None \<Rightarrow> (Inl OpsInvalidArgument, db)
        | Some eid \<Rightarrow>
            if list_ex (\<lambda>r. er_id r = eid \<and> er_status r = status \<and> er_version r = i32 version) (od_errands db)
              \<and> ob_key row \<notin> so_key ` set (od_outbox db)
            then (Inr True, append_outbox now (row\<lparr>ob_errand_id := eid\<rparr>) db)
            else (Inr False, db)))"

definition reminder_row :: "reminder_kind \<Rightarrow> int \<Rightarrow> reminder_candidate \<Rightarrow> outbox_row" where
  "reminder_row kind now c =
     \<lparr>ob_kind = event_kind (reminder_event kind), ob_key = idempotency_key (rk_errand_id c) (reminder_operation kind) (rk_version c),
      ob_errand_id = rk_errand_id c,
      ob_payload = ReminderPayload \<lparr>rm_errand_id = rk_errand_id c, rm_errand_version = rk_version c, rm_status = rk_status c,
        rm_requester_id = rk_requester_id c, rm_courier_id = rk_courier_id c, rm_deadline = rk_deadline c, rm_at = now\<rparr>\<rparr>"

text \<open>Others may write between the query and each insertion: \<open>others\<close> is given the number of the insertion.\<close>

fun raise_reminders :: "uuid_reader \<Rightarrow> (nat \<Rightarrow> order_db \<Rightarrow> order_db) \<Rightarrow> reminder_kind \<Rightarrow> int \<Rightarrow> int \<Rightarrow> nat \<Rightarrow> reminder_candidate list \<Rightarrow> order_db
    \<Rightarrow> (ops_error + nat) \<times> order_db" where
  "raise_reminders uuid others kind now db_now i [] db = (Inr 0, db)"
| "raise_reminders uuid others kind now db_now i (c # cs) db =
     (case insert_current_reminder uuid db_now (reminder_row kind now c) (rk_status c) (rk_version c) (others i db) of
        (Inl err, db') \<Rightarrow> (Inl err, db')
      | (Inr inserted, db') \<Rightarrow>
          (case raise_reminders uuid others kind now db_now (Suc i) cs db' of
             (Inl err, db'') \<Rightarrow> (Inl err, db'')
           | (Inr n, db'') \<Rightarrow> (Inr (if inserted then Suc n else n), db'')))"

definition reminder_lead :: "reminder_kind \<Rightarrow> int \<Rightarrow> system_settings \<Rightarrow> int" where
  "reminder_lead kind pickup_lead s =
     (case kind of ReminderVerification \<Rightarrow> ds_verification_after (ss_deadlines s) - ds_verification_reminder_after (ss_deadlines s)
      | ReminderPickup \<Rightarrow> pickup_lead)"

definition run_reminder :: "uuid_reader \<Rightarrow> (nat \<Rightarrow> order_db \<Rightarrow> order_db) \<Rightarrow> reminder_kind \<Rightarrow> int \<Rightarrow> (ops_error + system_settings) \<Rightarrow> int \<Rightarrow> job_env \<Rightarrow> order_db
    \<Rightarrow> (ops_error + batch_result) \<times> order_db" where
  "run_reminder uuid others kind pickup_lead settings limit env db =
     (if kind = ReminderVerification \<and> (case settings of Inl _ \<Rightarrow> True | Inr _ \<Rightarrow> False) then (Inl OpsOther, db)
      else let s = (case settings of Inr s \<Rightarrow> s | Inl _ \<Rightarrow> default_system_settings) in
        if je_fails env then (Inl OpsOther, db)
        else (case list_reminder_candidates kind (je_now env) (je_now env + reminder_lead kind pickup_lead s) limit db of
            Inl err \<Rightarrow> (Inl err, db)
          | Inr cs \<Rightarrow>
              (case raise_reminders uuid others kind (je_now env) (je_db_now env) 0 cs db of
                 (Inl err, db') \<Rightarrow> (Inl err, db')
               | (Inr n, db') \<Rightarrow> (Inr \<lparr>br_seen = length cs, br_applied = n\<rparr>, db'))))"

section \<open>The reconciler\<close>

definition reconciler_batch_size :: "int \<Rightarrow> int \<Rightarrow> int option" where
  "reconciler_batch_size interval configured =
     (let i = (if interval = 0 then 30 * second else interval); b = (if configured = 0 then 100 else configured)
      in if i < 1 \<or> b < 1 then None else Some b)"

definition adjust_timeout_reason :: string where "adjust_timeout_reason = ''ADJUST_TIMEOUT''"

definition give_up :: "event \<Rightarrow> event_input \<Rightarrow> int \<Rightarrow> decide" where
  "give_up ev input now e = (case next_transition e ev system_actor input now of Inl err \<Rightarrow> Inl (StoreApp err) | Inr t \<Rightarrow> Inr (Some t))"

definition reconcile_decide :: "due_kind \<Rightarrow> int \<Rightarrow> int \<Rightarrow> outbox_table \<Rightarrow> decide" where
  "reconcile_decide kind cutoff now rows e =
     (if \<not> due kind e cutoff then Inr None
      else if kind = StuckReservation then
        (case get_by_key (idempotency_key (e_id e) ''reserve'' 0) rows of
           Inl _ \<Rightarrow> Inl StoreErr
         | Inr row \<Rightarrow>
             if oc_status row \<noteq> Sent \<and> oc_status row \<noteq> Failed then Inr None
             else give_up EventReservationFailed (no_input\<lparr>in_reason := reason_reservation_failed\<rparr>) now e)
      else give_up EventEditRefused (no_input\<lparr>in_reason := adjust_timeout_reason, in_edit_timed_out := True,
             in_edit_key := (case e_pending_edit e of None \<Rightarrow> [] | Some p \<Rightarrow> pe_key p)\<rparr>) now e)"

definition reconcile_timeout :: "due_kind \<Rightarrow> system_settings \<Rightarrow> int" where
  "reconcile_timeout kind s = (if kind = StuckEdit then ss_edit_timeout s else ss_reservation_timeout s)"

definition reconcile :: "uuid_reader \<Rightarrow> due_kind \<Rightarrow> (ops_error + system_settings) \<Rightarrow> int \<Rightarrow> job_env \<Rightarrow> order_db
    \<Rightarrow> (store_error + batch_result) \<times> order_db" where
  "reconcile uuid kind settings batch env db =
     (if kind \<noteq> StuckReservation \<and> kind \<noteq> StuckEdit then (Inl StoreErr, db)
      else (case settings of
          Inl _ \<Rightarrow> (Inl StoreErr, db)
        | Inr s \<Rightarrow>
            if reconcile_timeout kind s \<le> 0 then (Inl StoreErr, db)
            else let cutoff = je_now env - reconcile_timeout kind s in
              run_claim uuid kind cutoff batch env (reconcile_decide kind cutoff (je_now env) (od_outbox db)) db))"

end
