(* ===== verification/Fence_Safety.thy ===== *)
theory Fence_Safety
  imports Background_Jobs
begin

text \<open>
  What a fence achieves: while it is open or committed, no active errand comes to use its supplier. Runs
  interleave the store's transactions with those of the fence service; a decision may rest on an errand
  read earlier.
\<close>

section \<open>Fences and the errands of a supplier\<close>

definition blocked :: "string \<Rightarrow> order_db \<Rightarrow> bool" where
  "blocked sid db \<longleftrightarrow> list_ex (\<lambda>f. fe_supplier_id f = sid \<and> fe_state f \<in> {FenceOpen, FenceCommitted}) (od_fences db)"

definition fence_held :: "string \<Rightarrow> string \<Rightarrow> order_db \<Rightarrow> bool" where
  "fence_held op sid db \<longleftrightarrow>
     list_ex (\<lambda>f. fe_operation_id f = op \<and> fe_supplier_id f = sid \<and> fe_state f \<in> {FenceOpen, FenceCommitted}) (od_fences db)"

definition supplier_in_use :: "uuid_reader \<Rightarrow> string \<Rightarrow> order_db \<Rightarrow> bool" where
  "supplier_in_use uuid sid db \<longleftrightarrow> list_ex (\<lambda>r. counts_for uuid sid r = Some True) (od_errands db)"

lemma fence_held_blocked: "fence_held op sid db \<Longrightarrow> blocked sid db"
  by (auto simp: fence_held_def blocked_def list_ex_iff)

lemma active_statuses_set: "s \<in> set active_statuses \<longleftrightarrow> active_status s"
  by (auto simp: active_statuses_def active_status_def valid_status_def)

text \<open>Which suppliers an active row uses.\<close>

lemma counts_for_iff:
  "counts_for uuid sid r = Some True \<longleftrightarrow> active_status (er_status r)
     \<and> (er_supplier_id r = sid \<or> (\<exists>d. er_pending_edit r = Some d \<and> uuid (d_supplier_id d) = Some sid))"
  by (auto simp: counts_for_def active_statuses_set split: option.splits)

lemma row_for_pending: "er_pending_edit (row_for uuid e) = map_option pe_details (e_pending_edit e)"
  by (cases "e_pending_edit e") (simp_all add: row_for_def row_of_def Let_def)

lemma from_row_pending:
  "e_pending_edit (errand_from_row r) = Some p \<Longrightarrow> er_pending_edit r = Some (pe_details p)"
  by (auto simp: errand_from_row_def split: option.splits)

section \<open>A transition brings in no fenced supplier\<close>

lemma details_from:
  assumes nx: "next_transition e ev a input at = Inr t" and d: "ch_details (t_changes t) = Some d"
  shows "t_event t = EventEdit \<or> (\<exists>p. e_pending_edit e = Some p \<and> d = pe_details p)"
proof -
  obtain r t0 where r: "apply_event ev (start_transition e ev a input at r) e input at = Inr t0" "t = finish_transition r e input t0"
    by (rule next_transition_Inr [OF nx])
  have "t_event t = ev" by (rule transition_summary [OF nx])
  moreover have "ev = EventEdit \<or> (\<exists>p. e_pending_edit e = Some p \<and> d = pe_details p)"
    using r d by (cases ev) (auto simp: Let_def split: if_splits option.splits)
  ultimately show ?thesis by simp
qed

text \<open>The supplier an edit moves to passed the fence check, or the errand had it before.\<close>

lemma edit_supplier_clear:
  assumes ok: "uuid_reader_ok uuid" and clear: "fence_clear uuid db cur t" and ev: "t_event t = EventEdit" and blk: "blocked sid db"
    and to: "ch_details (t_changes t) = Some d \<or> ch_details (t_changes t) = None \<and> ch_pending_edit (t_changes t) = SetTo p \<and> d = pe_details p"
    and sid: "uuid (d_supplier_id d) = Some sid"
  shows "d_supplier_id d = d_supplier_id (e_details cur)"
proof (rule ccontr)
  assume ne: "d_supplier_id d \<noteq> d_supplier_id (e_details cur)"
  have "d_supplier_id d \<noteq> []" using ok sid by (auto simp: uuid_reader_ok_def)
  with ne to ev have "edit_target_supplier cur t = Some (d_supplier_id d)" by (auto simp: edit_target_supplier_def Let_def)
  with clear sid blk show False by (simp add: fence_clear_def blocked_def)
qed

lemma applied_not_in_use:
  assumes ok: "uuid_reader_ok uuid" and inv: "store_inv uuid db" and r: "r \<in> set (od_errands db)"
    and nx: "next_transition (errand_from_row r) ev a input at = Inr t" and app: "applicable uuid db (errand_from_row r) t"
    and blk: "blocked sid db" and unused: "\<not> supplier_in_use uuid sid db"
  shows "\<not> supplier_in_use uuid sid (applied uuid now (errand_from_row r) t db)"
proof
  let ?cur = "errand_from_row r" and ?new = "row_for uuid (apply_to t (errand_from_row r))"
  note row = store_inv_rowD [OF inv r]
  assume "supplier_in_use uuid sid (applied uuid now ?cur t db)"
  then have new: "counts_for uuid sid ?new = Some True"
    using unused by (auto simp: supplier_in_use_def list_ex_iff set_update_where split: if_splits)
  have clear: "fence_clear uuid db ?cur t" and sto: "storable uuid (apply_to t ?cur)" using app by (simp_all add: applicable_def)
  obtain q where "\<not> terminal (e_status ?cur)" by (rule transition_summary [OF nx])
  then have "active_status (er_status r)" using row(2) row_clean_status [OF row(2)] by (simp add: active_status_def row_clean_def errand_check_def)
  moreover have "counts_for uuid sid r \<noteq> Some True" using unused r by (auto simp: supplier_in_use_def list_ex_iff)
  ultimately have old: "d_supplier_id (e_details ?cur) \<noteq> sid"
    "\<And>p. e_pending_edit ?cur = Some p \<Longrightarrow> uuid (d_supplier_id (pe_details p)) \<noteq> Some sid"
    using from_row_pending [of r] by (auto simp: counts_for_iff errand_from_row_def split: option.splits)
  have own: "uuid (d_supplier_id (e_details ?cur)) = Some (d_supplier_id (e_details ?cur))"
    using row(2) by (simp add: row_clean_def canonical_def)
  have ids: "uuid (d_supplier_id (e_details (apply_to t ?cur))) \<noteq> None"
    using insert_params_InrD(2) [OF storable_row [OF sto]] by (simp add: details_ids_ok_def)
  have pend: "e_pending_edit (apply_to t ?cur) = edit_requested t" by (rule pending_after_inv [OF nx row(3)])
  from new consider (details) "uuid (d_supplier_id (e_details (apply_to t ?cur))) = Some sid"
    | (pending) p where "edit_requested t = Some p" "uuid (d_supplier_id (pe_details p)) = Some sid"
    using ids pend by (auto simp: counts_for_iff row_for_pending simp del: apply_to_fields(6,13))
  then show False
  proof cases
    case details
    show False
    proof (cases "ch_details (t_changes t)")
      case None
      with details own old(1) show False by simp
    next
      case (Some d)
      with details have d: "uuid (d_supplier_id d) = Some sid" by simp
      from details_from [OF nx Some] show False
      proof
        assume ev: "t_event t = EventEdit"
        from edit_supplier_clear [OF ok clear ev blk _ d] Some own old(1) d show False by simp
      next
        assume "\<exists>p. e_pending_edit ?cur = Some p \<and> d = pe_details p"
        with old(2) d show False by blast
      qed
    qed
  next
    case pending
    then have ev: "t_event t = EventEdit" and ch: "ch_pending_edit (t_changes t) = SetTo p"
      by (auto simp: edit_requested_def split: if_splits update.splits)
    obtain x t0 where x: "apply_event (t_event t) (start_transition ?cur (t_event t) a input at x) ?cur input at = Inr t0" "t = finish_transition x ?cur input t0"
      using nx ev by (metis next_transition_Inr transition_summary)
    have "ch_details (t_changes t) = None"
      using event_effect_edit(3) [OF x(1), of p] edit_requested_finish [OF x(1)] x(2) pending(1) by simp
    from edit_supplier_clear [OF ok clear ev blk, of "pe_details p" p] this ch pending(2) own old(1) show False by simp
  qed
qed

section \<open>Transactions of the store\<close>

text \<open>The state a fence protects: consistent, the fence in force, and the supplier unused.\<close>

definition guarded :: "uuid_reader \<Rightarrow> string \<Rightarrow> string \<Rightarrow> order_db \<Rightarrow> bool" where
  "guarded uuid op sid db \<longleftrightarrow> store_inv uuid db \<and> fence_held op sid db \<and> \<not> supplier_in_use uuid sid db"

lemma guarded_applied:
  assumes "uuid_reader_ok uuid" "guarded uuid op sid db" "r \<in> set (od_errands db)"
    "next_transition (errand_from_row r) ev a input at = Inr t" "applicable uuid db (errand_from_row r) t"
  shows "guarded uuid op sid (applied uuid now (errand_from_row r) t db)"
proof -
  have g: "store_inv uuid db" "fence_held op sid db" "\<not> supplier_in_use uuid sid db" using assms(2) by (simp_all add: guarded_def)
  from store_inv_applied [OF assms(1) g(1) assms(3) refl assms(4,5)]
    applied_not_in_use [OF assms(1) g(1) assms(3-5) fence_held_blocked [OF g(2)] g(3)] g(2) show ?thesis
    by (simp add: guarded_def fence_held_def)
qed

lemma guarded_created:
  assumes ok: "uuid_reader_ok uuid" and g: "guarded uuid op sid db" and new: "new_errand e" "uuid (e_id e) = Some (e_id e)"
    and nx: "next_transition e EventSubmit a input at = Inr t" and cr: "store_create uuid now e t db = (res, db')"
  shows "guarded uuid op sid db'"
proof -
  have inv: "store_inv uuid db" "fence_held op sid db" "\<not> supplier_in_use uuid sid db" using g by (simp_all add: guarded_def)
  show ?thesis
  proof (rule store_create_cases [OF ok inv(1) new nx cr])
    assume c: "creatable uuid db e t" "db' = created uuid now e t db"
      "\<not> list_ex (\<lambda>f. fe_supplier_id f = er_supplier_id (row_for uuid (apply_to t e)) \<and> fe_state f \<in> {FenceOpen, FenceCommitted}) (od_fences db)"
    have "er_supplier_id (row_for uuid (apply_to t e)) \<noteq> sid"
      using c(3) fence_held_blocked [OF inv(2)] by (auto simp: blocked_def simp del: row_for_fields(6))
    then have "counts_for uuid sid (row_for uuid (apply_to t e)) \<noteq> Some True"
      using submit_new(3) [OF new(1) nx] by (simp add: counts_for_iff row_for_pending del: apply_to_fields(6,13))
    with inv c(2) store_inv_created [OF ok inv(1) new nx c(1)] show ?thesis
      by (auto simp: guarded_def fence_held_def supplier_in_use_def)
  qed (use g in simp_all)
qed

lemma guarded_written:
  assumes ok: "uuid_reader_ok uuid" and g: "guarded uuid op sid db" and old: "store_inv uuid old" "advances old db"
    and rd: "store_get uuid eid old = Inr e" and nx: "next_transition e ev a input at = Inr t" and ap: "store_apply uuid now t db = (res, db')"
  shows "guarded uuid op sid db'"
proof -
  have inv: "store_inv uuid db" using g by (simp add: guarded_def)
  show ?thesis
  proof (rule store_apply_cases [OF ok inv old(2,1) rd nx ap])
    fix r assume r: "r \<in> set (od_errands db)" "e = errand_from_row r" "applicable uuid db e t" "db' = applied uuid now e t db"
    from guarded_applied [OF ok g r(1)] nx r show ?thesis by simp
  qed (use g in simp)
qed

lemma guarded_claimed:
  assumes ok: "uuid_reader_ok uuid" and g: "guarded uuid op sid db" and dec: "decides_by_next decide"
    and cl: "claim_due uuid now kind cutoff limit held decide db = (res, db')"
  shows "guarded uuid op sid db'"
proof -
  have inv: "store_inv uuid db" using g by (simp add: guarded_def)
  have "store_inv uuid db' \<and> guarded uuid op sid db'"
    by (rule claim_due_keeps [where P = "guarded uuid op sid", OF ok inv dec cl _ g]) (rule guarded_applied [OF ok])
  then show ?thesis ..
qed

lemma guarded_rejection:
  assumes ok: "uuid_reader_ok uuid" and g: "guarded uuid op sid db" and rej: "record_rejection uuid now r db = (res, db')"
  shows "guarded uuid op sid db'"
proof -
  have inv: "store_inv uuid db" using g by (simp add: guarded_def)
  have "od_fences db' = od_fences db"
    using rej by (auto simp: record_rejection_def get_errand_def run_tx_def tx_bind_def insert_outbox_if_absent_def
        split: if_splits option.splits sum.splits prod.splits)
  with record_rejection_cases [OF ok inv rej] g show ?thesis
    by (simp add: guarded_def fence_held_def supplier_in_use_def)
qed

section \<open>Reminders\<close>

text \<open>The key of a reminder is none of the keys of an errand's own rows.\<close>

lemma reminder_key_apart:
  assumes "no_colon eid" "no_colon eid'" "fst p \<in> set known_ops"
  shows "idempotency_key eid (reminder_operation kind) v \<noteq> op_key eid' p"
proof
  let ?q = "(reminder_operation kind, v)"
  assume "idempotency_key eid (reminder_operation kind) v = op_key eid' p"
  then have eq: "op_key eid ?q = op_key eid' p" by (simp add: op_key_def)
  from op_key_other [OF assms(1,2) eq] have "drop (Suc (length eid)) (op_key eid ?q) = drop (Suc (length eid)) (op_key eid p)" using eq by simp
  then have rest: "reminder_operation kind @ (if v > 0 then CHR '':'' # itoa v else []) = fst p @ (if snd p > 0 then CHR '':'' # itoa (snd p) else [])"
    by (simp add: op_key_def idempotency_key_def split: if_splits)
  have "no_colon (reminder_operation kind)" by (cases kind) (simp_all add: no_colon_def)
  with arg_cong [OF rest, of "takeWhile (\<lambda>c. c \<noteq> CHR '':'')"] known_ops_no_colon [OF assms(3)] have "reminder_operation kind = fst p"
    by (simp add: takeWhile_colon split: if_splits)
  moreover have "reminder_operation kind \<notin> set known_ops"
    by (cases kind) (simp_all add: known_ops_def transition_event_names_def event_operation_def)
  ultimately show False using assms(3) by simp
qed

lemma reminder_keeps:
  assumes ok: "uuid_reader_ok uuid" and inv: "store_inv uuid db" and id: "uuid (rk_errand_id c) = Some (rk_errand_id c)"
    and ins: "insert_current_reminder uuid now (reminder_row kind at c) status version db = (res, db')"
  shows "store_inv uuid db'" "od_fences db' = od_fences db" "od_errands db' = od_errands db"
proof -
  let ?row = "reminder_row kind at c" and ?key = "idempotency_key (rk_errand_id c) (reminder_operation kind) (rk_version c)"
  consider "db' = db" | "db' = append_outbox now (?row\<lparr>ob_errand_id := rk_errand_id c\<rparr>) db" "?key \<notin> set (row_keys db)"
    using ins id by (auto simp: insert_current_reminder_def reminder_row_def row_keys_def split: if_splits)
  then have "store_inv uuid db' \<and> od_fences db' = od_fences db \<and> od_errands db' = od_errands db"
  proof cases
    case 2
    have keys: "row_keys db' = row_keys db @ [?key]" using 2(1) by (simp add: reminder_row_def)
    have "store_inv uuid db'"
    proof (rule store_inv_other_rows [OF inv _ _ _ _ _ ok])
      show "k \<noteq> op_key eid p" if "k \<in> set (row_keys db')" "k \<notin> set (row_keys db)" "no_colon eid" "length eid = 36" "fst p \<in> set known_ops" for k eid p
        using that keys reminder_key_apart [OF uuid_reader_okD(3) [OF ok id] that(3,5)] by auto
    qed (use 2 keys inv in \<open>auto simp: store_inv_def\<close>)
    with 2(1) show ?thesis by simp
  qed (use inv in simp)
  then show "store_inv uuid db'" "od_fences db' = od_fences db" "od_errands db' = od_errands db" by simp_all
qed

section \<open>Transactions of the errand store\<close>

text \<open>
  One transaction of order-service on its errands: a submission, a decision on an errand read earlier, a
  recorded rejection, a batch of a job, a reminder, or a delivery of the outbox.
\<close>

inductive errand_step :: "uuid_reader \<Rightarrow> ops_state \<Rightarrow> ops_state \<Rightarrow> bool" for uuid where
  submitted: "new_errand e \<Longrightarrow> uuid (e_id e) = Some (e_id e) \<Longrightarrow> next_transition e EventSubmit a input at = Inr t \<Longrightarrow>
    store_create uuid now e t db = (res, db') \<Longrightarrow> errand_step uuid (db, au) (db', au)"
| decided: "store_inv uuid old \<Longrightarrow> advances old db \<Longrightarrow> store_get uuid eid old = Inr e \<Longrightarrow> next_transition e ev a input at = Inr t \<Longrightarrow>
    store_apply uuid now t db = (res', db') \<Longrightarrow> errand_step uuid (db, au) (db', au)"
| rejected: "record_rejection uuid now r db = (res'', db') \<Longrightarrow> errand_step uuid (db, au) (db', au)"
| claimed: "decides_by_next decide \<Longrightarrow> claim_due uuid now kind cutoff limit held decide db = (n, db') \<Longrightarrow>
    errand_step uuid (db, au) (db', au)"
| reminded: "uuid (rk_errand_id c) = Some (rk_errand_id c) \<Longrightarrow>
    insert_current_reminder uuid now (reminder_row rkind at c) status version db = (inserted, db') \<Longrightarrow> errand_step uuid (db, au) (db', au)"
| delivered: "map so_key rows = map so_key (od_outbox db) \<Longrightarrow> errand_step uuid (db, au) (db\<lparr>od_outbox := rows\<rparr>, au')"

lemma delivered_keeps:
  assumes "uuid_reader_ok uuid" "store_inv uuid db" "map so_key rows = map so_key (od_outbox db)"
  shows "store_inv uuid (db\<lparr>od_outbox := rows\<rparr>)"
proof -
  have "row_keys (db\<lparr>od_outbox := rows\<rparr>) = row_keys db" using assms(3) by (simp add: row_keys_def)
  with assms(2) store_inv_other_rows [OF _ _ _ _ _ _ assms(1), of db "db\<lparr>od_outbox := rows\<rparr>"] show ?thesis by (simp add: store_inv_def)
qed

lemma errand_step_keeps:
  assumes ok: "uuid_reader_ok uuid" and st: "errand_step uuid s s'" and inv: "store_inv uuid (fst s)"
  shows "store_inv uuid (fst s') \<and> od_fences (fst s') = od_fences (fst s)"
  using st inv
proof (cases rule: errand_step.cases)
  case (submitted e a input at t now db res db' au)
  show ?thesis
    by (rule store_create_cases [OF ok _ submitted(3-6)])
      (use submitted inv store_inv_created [OF ok _ submitted(3-5)] in auto)
next
  case (decided old db eid e ev a input at t now res' db' au)
  show ?thesis
    by (rule store_apply_cases [OF ok _ decided(4,3,5-7)])
      (use decided inv store_inv_applied [OF ok] in auto)
next
  case (rejected now r db res'' db' au)
  have "od_fences db' = od_fences db"
    using rejected(3) by (auto simp: record_rejection_def get_errand_def run_tx_def tx_bind_def insert_outbox_if_absent_def
        split: if_splits option.splits sum.splits prod.splits)
  with record_rejection_cases [OF ok _ rejected(3)] inv rejected(1,2) show ?thesis by simp
next
  case (claimed decide now kind cutoff limit held db n db' au)
  have "store_inv uuid db' \<and> od_fences db' = od_fences db"
    by (rule claim_due_keeps [where P = "\<lambda>d. od_fences d = od_fences db", OF ok _ claimed(3,4)]) (use inv claimed(1) in auto)
  with claimed(1,2) show ?thesis by simp
next
  case (reminded c now rkind at status version db inserted db' au)
  with inv reminder_keeps [OF ok _ reminded(3,4)] show ?thesis by simp
next
  case (delivered rows db au au')
  with inv delivered_keeps [OF ok _ delivered(3)] show ?thesis by simp
qed

lemma guarded_errand_step:
  assumes ok: "uuid_reader_ok uuid" and st: "errand_step uuid s s'" and g: "guarded uuid op sid (fst s)"
  shows "guarded uuid op sid (fst s')"
  using st g
proof (cases rule: errand_step.cases)
  case (submitted e a input at t now db res db' au)
  with g guarded_created [OF ok] show ?thesis by simp
next
  case (decided old db eid e ev a input at t now res' db' au)
  with g guarded_written [OF ok] show ?thesis by simp
next
  case (rejected now r db res'' db' au)
  with g guarded_rejection [OF ok] show ?thesis by simp
next
  case (claimed decide now kind cutoff limit held db n db' au)
  with g guarded_claimed [OF ok] show ?thesis by simp
next
  case (reminded c now rkind at status version db inserted db' au)
  with g reminder_keeps [OF ok _ reminded(3,4)] show ?thesis by (simp add: guarded_def fence_held_def supplier_in_use_def)
next
  case (delivered rows db au au')
  with g delivered_keeps [OF ok _ delivered(3)] show ?thesis by (simp add: guarded_def fence_held_def supplier_in_use_def)
qed

section \<open>Transactions of the fence service\<close>

text \<open>What a transaction may do to the fences.\<close>

definition fences_move :: "string \<Rightarrow> fence_row list \<Rightarrow> fence_row list \<Rightarrow> bool" where
  "fences_move op fs fs' \<longleftrightarrow> (\<forall>f \<in> set fs. fe_operation_id f = op \<longrightarrow> fe_state f \<in> {FenceOpen, FenceCommitted} \<longrightarrow>
     (\<exists>f' \<in> set fs'. fe_operation_id f' = op \<and> fe_supplier_id f' = fe_supplier_id f \<and> fe_state f' \<in> {FenceOpen, FenceCommitted}))"

definition fence_step :: "string \<Rightarrow> ops_state \<Rightarrow> ops_state \<Rightarrow> bool" where
  "fence_step op s s' \<longleftrightarrow> (\<exists>fs. fst s' = (fst s)\<lparr>od_fences := fs\<rparr> \<and> fences_move op (od_fences (fst s)) fs)"

lemma fences_move_refl: "fences_move op fs fs"
  by (auto simp: fences_move_def)

lemma fence_stepI: "fst s' = (fst s)\<lparr>od_fences := fs\<rparr> \<Longrightarrow> fences_move op (od_fences (fst s)) fs \<Longrightarrow> fence_step op s s'"
  by (auto simp: fence_step_def)

lemma fences_move_append: "fences_move op fs (fs @ gs)"
  by (auto simp: fences_move_def)

lemma fences_move_map:
  assumes "\<And>f. fe_operation_id (g f) = fe_operation_id f \<and> fe_supplier_id (g f) = fe_supplier_id f"
    "\<And>f. fe_operation_id f = op \<Longrightarrow> fe_state f \<in> {FenceOpen, FenceCommitted} \<Longrightarrow> fe_state (g f) \<in> {FenceOpen, FenceCommitted}"
  shows "fences_move op fs (map g fs)"
  unfolding fences_move_def
proof (intro ballI impI)
  fix f assume f: "f \<in> set fs" "fe_operation_id f = op" "fe_state f \<in> {FenceOpen, FenceCommitted}"
  then have "g f \<in> set (map g fs)" "fe_operation_id (g f) = op \<and> fe_supplier_id (g f) = fe_supplier_id f \<and> fe_state (g f) \<in> {FenceOpen, FenceCommitted}"
    using assms by simp_all
  then show "\<exists>f' \<in> set (map g fs). fe_operation_id f' = op \<and> fe_supplier_id f' = fe_supplier_id f \<and> fe_state f' \<in> {FenceOpen, FenceCommitted}" by blast
qed

lemma fence_step_refl: "fst s' = fst s \<Longrightarrow> fence_step op s s'"
  by (auto simp: fence_step_def fences_move_refl intro: exI [of _ "od_fences (fst s)"])

lemma fence_step_trans: "fence_step op a b \<Longrightarrow> fence_step op b c \<Longrightarrow> fence_step op a c"
  by (fastforce simp: fence_step_def fences_move_def)

lemma store_inv_fences:
  assumes "uuid_reader_ok uuid" "store_inv uuid db"
  shows "store_inv uuid (db\<lparr>od_fences := fs\<rparr>)"
proof -
  have "row_keys (db\<lparr>od_fences := fs\<rparr>) = row_keys db" by (simp add: row_keys_def)
  then show ?thesis by (intro store_inv_other_rows [OF assms(2) _ _ _ _ _ assms(1)]) (use assms(2) in \<open>auto simp: store_inv_def\<close>)
qed

lemma guarded_fence_step:
  assumes ok: "uuid_reader_ok uuid" and g: "guarded uuid op sid (fst s)" and st: "fence_step op s s'"
  shows "guarded uuid op sid (fst s')"
proof -
  obtain fs where fs: "fst s' = (fst s)\<lparr>od_fences := fs\<rparr>" "fences_move op (od_fences (fst s)) fs" using st by (auto simp: fence_step_def)
  have "store_inv uuid (fst s')" using store_inv_fences [OF ok] g fs(1) by (simp add: guarded_def)
  moreover have "fence_held op sid (fst s')"
    using g fs unfolding guarded_def fence_held_def list_ex_iff fences_move_def by fastforce
  ultimately show ?thesis using g fs(1) by (simp add: guarded_def supplier_in_use_def)
qed

definition fence_tx :: "string \<Rightarrow> 'a ops \<Rightarrow> bool" where
  "fence_tx op m \<longleftrightarrow> (\<forall>s a s'. m s = Inr (a, s') \<longrightarrow> fence_step op s s')"

lemma fence_tx_bind: "fence_tx op m \<Longrightarrow> (\<And>a. fence_tx op (f a)) \<Longrightarrow> fence_tx op (tx_bind m f)"
  unfolding fence_tx_def tx_bind_iff by (metis fence_step_trans)

lemma fence_tx_basic:
  "fence_tx op (tx_return a)" "fence_tx op (tx_fail err)" "fence_tx op (tx_get g)" "fence_tx op (ops_uuid uuid v)"
  "fence_tx op (get_fence_row o')" "fence_tx op (count_active_errands_for_supplier uuid sid)" "fence_tx op (audit now actor action oid out reason)"
  by (auto simp: fence_tx_def ops_uuid_def get_fence_row_def count_active_errands_for_supplier_def audit_def insert_audit_def tx_bind_iff
      split: option.splits if_splits intro: fence_step_refl)

lemma fence_tx_run: "fence_tx op m \<Longrightarrow> fence_step op s (snd (run_tx m s))"
  by (cases "m s") (auto simp: fence_tx_def run_tx_def fence_step_refl simp del: split_paired_All)

lemma fence_tx_insert: "fence_tx op (insert_fence now o' sid)"
proof -
  have "fence_step op s (fst s\<lparr>od_fences := od_fences (fst s) @ [f]\<rparr>, snd s)" for s f
    by (rule fence_stepI [OF _ fences_move_append]) simp
  then show ?thesis
    by (auto simp: fence_tx_def insert_fence_def set_fences_def tx_bind_iff fence_step_refl split: option.splits prod.splits)
qed

lemma fence_tx_close_row:
  assumes "state = FenceCommitted \<or> o' \<noteq> op"
  shows "fence_tx op (close_fence_row now o' state)"
  unfolding fence_tx_def
proof (intro allI impI)
  fix s a s' assume "close_fence_row now o' state s = Inr (a, s')"
  then consider "s' = s" | "fst s' = (fst s)\<lparr>od_fences := update_where (\<lambda>f. fe_operation_id f = o' \<and> fe_state f = FenceOpen)
      (\<lambda>f. f\<lparr>fe_state := state, fe_updated_at := now\<rparr>) (od_fences (fst s))\<rparr>"
    by (auto simp: close_fence_row_def set_fences_def tx_bind_iff split: option.splits prod.splits)
  then show "fence_step op s s'"
  proof cases
    case 2
    then show ?thesis by (rule fence_stepI) (use assms in \<open>auto simp: update_where_def intro!: fences_move_map split: if_splits\<close>)
  qed (simp add: fence_step_refl)
qed

lemma fence_tx_active: "fence_tx op (with_active_errands uuid stored)"
  unfolding with_active_errands_def by (intro fence_tx_bind fence_tx_basic)

lemma fence_tx_close:
  assumes "state = FenceCommitted \<or> uuid oid \<noteq> Some op"
  shows "fence_tx op (close_tx uuid now actor action oid state)"
proof -
  have "fence_tx op (close_fence uuid now oid state)"
    unfolding fence_tx_def
  proof (intro allI impI)
    fix s a s' assume cl: "close_fence uuid now oid state s = Inr (a, s')"
    then obtain o' where o': "uuid oid = Some o'" by (auto simp: close_fence_def ops_uuid_def tx_bind_iff split: if_splits option.splits)
    obtain closed s1 where c: "close_fence_row now o' state s = Inr (closed, s1)" "fst s' = fst s1"
      using cl o' by (auto simp: close_fence_def ops_uuid_def get_fence_def get_fence_row_def tx_bind_iff split: if_splits option.splits)
    have "fence_step op s s1" using fence_tx_close_row [of state o' op now] assms o' c(1) unfolding fence_tx_def by blast
    with fence_step_refl [OF c(2)] fence_step_trans show "fence_step op s s'" by blast
  qed
  then show ?thesis unfolding close_tx_def by (intro fence_tx_bind fence_tx_active fence_tx_basic) simp_all
qed

lemma fence_tx_acquire: "fence_tx op (acquire_tx uuid now actor oid sid)"
  unfolding acquire_tx_def lock_supplier_def create_fence_def
  by (auto intro!: fence_tx_bind fence_tx_basic fence_tx_insert fence_tx_active)

lemma fence_step_answered:
  assumes "fence_tx op m"
  shows "fence_step op s (snd (answered now actor action oid (run_tx m s)))"
proof -
  have "fence_step op s' (snd (refuse now actor action oid err s'))" for err s'
    by (cases "classify err") (auto simp: refuse_def fence_step_refl fence_tx_run fence_tx_basic)
  note refused = this
  obtain res s1 where run: "run_tx m s = (res, s1)" by (cases "run_tx m s")
  have st: "fence_step op s s1" using fence_tx_run [OF assms, of s] run by simp
  show ?thesis
  proof (cases res)
    case (Inl err)
    obtain e s2 where r: "refuse now actor action oid err s1 = (e, s2)" by (cases "refuse now actor action oid err s1")
    from fence_step_trans [OF st] refused [of s1 err] r Inl run show ?thesis by (simp add: answered_def)
  next
    case (Inr f)
    with run st show ?thesis by (simp add: answered_def)
  qed
qed

section \<open>Runs under a fence\<close>

text \<open>One transaction of order-service, of any kind but a release of the fence \<open>op\<close>.\<close>

inductive platform_step :: "uuid_reader \<Rightarrow> string \<Rightarrow> ops_state \<Rightarrow> ops_state \<Rightarrow> bool" for uuid op where
  errands: "errand_step uuid s s' \<Longrightarrow> platform_step uuid op s s'"
| acquired: "acquire uuid now actor oid sid s = (f, s') \<Longrightarrow> platform_step uuid op s s'"
| committed: "commit_fence uuid now actor oid s = (f, s') \<Longrightarrow> platform_step uuid op s s'"
| released: "uuid oid \<noteq> Some op \<Longrightarrow> release_fence uuid now actor oid s = (f, s') \<Longrightarrow> platform_step uuid op s s'"

lemma guarded_step:
  assumes ok: "uuid_reader_ok uuid" and st: "platform_step uuid op s s'" and g: "guarded uuid op sid (fst s)"
  shows "guarded uuid op sid (fst s')"
  using st g
proof (cases rule: platform_step.cases)
  case errands
  with g guarded_errand_step [OF ok] show ?thesis by simp
next
  case (acquired now actor oid sid f)
  then have "fence_step op s s'" using fence_step_answered [OF fence_tx_acquire] by (metis acquire_def snd_conv)
  then show ?thesis by (rule guarded_fence_step [OF ok g])
next
  case (committed now actor oid f)
  then have "fence_step op s s'"
    using fence_step_answered [OF fence_tx_close [of FenceCommitted]] by (metis commit_fence_def close_def snd_conv)
  then show ?thesis by (rule guarded_fence_step [OF ok g])
next
  case (released oid now actor f)
  then have "fence_step op s s'"
    using fence_step_answered [OF fence_tx_close [of FenceReleased uuid oid op]] by (metis release_fence_def close_def snd_conv)
  then show ?thesis by (rule guarded_fence_step [OF ok g])
qed

lemma guarded_run:
  assumes "uuid_reader_ok uuid" "(platform_step uuid op)\<^sup>*\<^sup>* s s'" "guarded uuid op sid (fst s)"
  shows "guarded uuid op sid (fst s')"
  using assms(2,3) by (induction rule: rtranclp_induct) (auto intro: guarded_step [OF assms(1)])

section \<open>Acquiring\<close>

text \<open>An acquired fence that is not released is in force, and its answer tells whether the supplier is in use.\<close>

lemma create_fence_Inr:
  assumes "create_fence uuid now oid supplier s = Inr ((row, fresh), s')"
  obtains op sid where "uuid oid = Some op" "uuid supplier = Some sid" "find_fence op (fst s') = Some row" "fe_supplier_id row = sid"
  using assms
  by (auto simp: create_fence_def ops_uuid_def get_fence_row_def tx_bind_iff split: option.splits if_splits)

lemma acquired_guards:
  assumes ok: "uuid_reader_ok uuid" and inv: "store_inv uuid (fst s)" and acq: "acquire uuid now actor oid supplier s = (Inr f, s')"
    and st: "fn_state f \<noteq> StateReleased" and free: "\<not> fn_has_active_errands f"
  obtains op sid where "uuid oid = Some op" "uuid supplier = Some sid" "guarded uuid op sid (fst s')"
proof -
  have "run_tx (acquire_tx uuid now actor oid supplier) s = (Inr f, s')"
    using acq by (auto simp: acquire_def answered_def split: sum.splits prod.splits)
  then have tx: "acquire_tx uuid now actor oid supplier s = Inr (f, s')" by (rule run_tx_InrD)
  then obtain row c s1 s2 where a: "create_fence uuid now oid supplier s = Inr ((row, c), s1)" "with_active_errands uuid row s1 = Inr (f, s2)"
    "audit now actor audit_action_acquire oid ''SUCCEEDED'' [] s2 = Inr ((), s')"
    by (auto simp: acquire_tx_def lock_supplier_def ops_uuid_def tx_bind_iff split: option.splits)
  obtain op sid where c: "uuid oid = Some op" "uuid supplier = Some sid" "find_fence op (fst s1) = Some row" "fe_supplier_id row = sid"
    by (rule create_fence_Inr [OF a(1)])
  have sid: "uuid sid = Some sid" using uuid_reader_okD(1) [OF ok c(2)] .
  have same: "fst s' = fst s1"
    using a(2,3) by (auto simp: with_active_errands_def count_active_errands_for_supplier_def ops_uuid_def audit_def insert_audit_def tx_bind_iff
        split: option.splits if_splits)
  have w: "fn_state f = wire (fe_state row)" "fn_has_active_errands f \<longleftrightarrow> supplier_in_use uuid sid (fst s1)"
    using a(2) c(4) sid
    by (auto simp: with_active_errands_def count_active_errands_for_supplier_def ops_uuid_def tx_bind_iff supplier_in_use_def list_ex_iff
        filter_empty_conv split: if_splits)
  have "fe_state row \<in> {FenceOpen, FenceCommitted}" using w(1) st by (cases "fe_state row") simp_all
  moreover have "row \<in> set (od_fences (fst s1))" "fe_operation_id row = op" using find_Some_mem [of _ _ row] c(3) by (auto simp: find_fence_def)
  ultimately have "fence_held op sid (fst s')" using c(4) same by (auto simp: fence_held_def list_ex_iff)
  moreover have "fence_step op s s'" using fence_tx_acquire tx unfolding fence_tx_def by blast
  then have "store_inv uuid (fst s')" using store_inv_fences [OF ok inv] by (auto simp: fence_step_def)
  ultimately show thesis using that [OF c(1,2)] w(2) free same by (simp add: guarded_def)
qed

end
