(* ===== verification/Job_Batches.thy ===== *)
theory Job_Batches
  imports Background_Jobs Errand_Contract
begin

text \<open>
  What a batch of decisions does when nothing stops it: every decision is applied to its errand, every other
  errand stays as it is. The deadline jobs and the reconciler are instances.
\<close>

section \<open>Applying a batch\<close>

lemma batch_ready_step:
  assumes inv: "store_inv uuid db" and br: "batch_ready db locked (t # ts)"
    and r: "r \<in> set (od_errands db)" "next_transition (errand_from_row r) ev a input at = Inr t"
  shows "batch_ready (applied uuid now (errand_from_row r) t db) (locked(t_errand_id t \<mapsto> x)) ts"
proof -
  have "q \<in> set (od_errands (applied uuid now (errand_from_row r) t db))" if "q \<in> set (od_errands db)" "er_id q \<noteq> er_id r" for q
    using that by (simp add: set_update_where)
  moreover have "t_errand_id t = er_id r" using next_errand_id [OF r(2)] by simp
  ultimately show ?thesis
    using br next_errand_id unfolding batch_ready_def
    by (auto 0 4 simp: image_iff) (metis errand_from_row_fields(1))
qed

text \<open>The errands a batch decides on can take their decisions.\<close>

definition batch_fits :: "uuid_reader \<Rightarrow> order_db \<Rightarrow> transition list \<Rightarrow> bool" where
  "batch_fits uuid db ts \<longleftrightarrow> (\<forall>t \<in> set ts. \<forall>r \<in> set (od_errands db). er_id r = t_errand_id t \<longrightarrow>
     fits_columns uuid (apply_to t (errand_from_row r)) \<and> t_event t \<noteq> EventEdit)"

definition decided_row :: "uuid_reader \<Rightarrow> transition list \<Rightarrow> errand_row \<Rightarrow> errand_row" where
  "decided_row uuid ts r =
     (case find (\<lambda>t. t_errand_id t = er_id r) ts of None \<Rightarrow> r | Some t \<Rightarrow> row_for uuid (apply_to t (errand_from_row r)))"

lemma apply_decided_applies:
  assumes ok: "uuid_reader_ok uuid"
  shows "store_inv uuid db \<Longrightarrow> batch_ready db locked ts \<Longrightarrow> batch_fits uuid db ts \<Longrightarrow>
    \<exists>db'. apply_decided uuid now locked ts db = Inr ((), db') \<and> store_inv uuid db' \<and> od_fences db' = od_fences db
      \<and> set (row_keys db') = set (row_keys db) \<union> (\<Union>t \<in> set ts. ob_key ` set (t_outbox t))
      \<and> od_errands db' = map (decided_row uuid ts) (od_errands db)"
proof (induction ts arbitrary: db locked)
  case (Cons t ts)
  from Cons.prems(2) obtain r ev a input at where r: "r \<in> set (od_errands db)" "locked (t_errand_id t) = Some (errand_from_row r)"
    "next_transition (errand_from_row r) ev a input at = Inr t" by (auto simp: batch_ready_def)
  let ?cur = "errand_from_row r" and ?new = "row_for uuid (apply_to t (errand_from_row r))"
  note row = store_inv_rowD [OF Cons.prems(1) r(1)]
  have tid: "t_errand_id t = er_id r" using next_errand_id [OF r(3)] by simp
  have sub: "t_from t \<noteq> StatusNone" by (rule transition_summary [OF r(3)]) (use row_clean_status [OF row(2)] in simp)
  have fit: "fits_columns uuid (apply_to t ?cur)" and noedit: "t_event t \<noteq> EventEdit"
    using Cons.prems(3) r(1) tid by (auto simp: batch_fits_def)
  have "fence_clear uuid db ?cur t" using noedit by (simp add: fence_clear_def edit_target_supplier_def)
  then have app: "applicable uuid db ?cur t" by (rule next_applicable [OF ok Cons.prems(1) r(1) refl r(3) fit])
  let ?d = "applied uuid now ?cur t db" and ?stored = "canon uuid (apply_to t ?cur)"
  have st: "apply_locked uuid now ?cur t db = Inr (?stored, ?d)"
    using apply_locked_iff [OF row(1) r(1) row(2) sub refl] next_nonneg [OF r(3) row(3)] app by simp
  have inv: "store_inv uuid ?d" by (rule store_inv_applied [OF ok Cons.prems(1) r(1) refl r(3) app])
  have errs: "set (od_errands ?d) = insert ?new (set (od_errands db) - {r})"
    using set_update_key [OF row(1) r(1), of "\<lambda>_. ?new"] by simp
  have id: "er_id ?new = er_id r" using row(8) by simp
  have others: "er_id r \<notin> t_errand_id ` set ts" using Cons.prems(2) tid by (auto simp: batch_ready_def)
  have uniq: "q = r" if "q \<in> set (od_errands db)" "er_id q = er_id r" for q
    using distinct_key_eq [OF row(1) that(1) r(1)] that(2) by simp
  have fits: "batch_fits uuid ?d ts"
    using Cons.prems(3) others id unfolding batch_fits_def errs by (auto simp: image_iff)
  from Cons.IH [OF inv batch_ready_step [OF Cons.prems(1,2) r(1,3)] fits] obtain db' where db':
    "apply_decided uuid now (locked(t_errand_id t \<mapsto> ?stored)) ts ?d = Inr ((), db')" "store_inv uuid db'" "od_fences db' = od_fences ?d"
    "set (row_keys db') = set (row_keys ?d) \<union> (\<Union>t \<in> set ts. ob_key ` set (t_outbox t))"
    "od_errands db' = map (decided_row uuid ts) (od_errands ?d)" by blast
  have "apply_decided uuid now locked (t # ts) db = Inr ((), db')"
    using r(2) sub st db'(1) by (simp add: tx_bind_def)
  moreover have "od_errands db' = map (decided_row uuid (t # ts)) (od_errands db)"
  proof -
    have none: "find (\<lambda>u. t_errand_id u = er_id r) ts = None" using others by (auto simp: find_None_iff2 image_iff)
    have "decided_row uuid ts (if er_id q = er_id r then ?new else q) = decided_row uuid (t # ts) q" if "q \<in> set (od_errands db)" for q
      using uniq [OF that] none id tid by (auto simp: decided_row_def)
    then show ?thesis using db'(5) by (simp add: update_where_def)
  qed
  ultimately show ?case using db'(2,3,4) by (intro exI [of _ db']) (simp add: Un_assoc)
qed (auto simp: decided_row_def intro!: map_idI [symmetric])

section \<open>Claiming and applying\<close>

definition choice :: "decide \<Rightarrow> errand_row \<Rightarrow> transition option" where
  "choice decide r = (case decide (errand_from_row r) of Inl _ \<Rightarrow> None | Inr c \<Rightarrow> c)"

lemma decide_all_total:
  assumes "\<And>r. r \<in> set rows \<Longrightarrow> \<exists>c. decide (errand_from_row r) = Inr c"
  shows "decide_all decide (map errand_from_row rows) = Inr (List.map_filter (choice decide) rows)"
  using assms
proof (induction rows)
  case (Cons r rows)
  then have IH: "decide_all decide (map errand_from_row rows) = Inr (List.map_filter (choice decide) rows)" by simp
  obtain c where c: "decide (errand_from_row r) = Inr c" using Cons.prems by auto
  then have "choice decide r = c" by (simp add: choice_def)
  with IH c show ?case by (simp add: map_filter_simps split: option.split)
qed (simp add: map_filter_simps)

lemma map_filter_mem: "t \<in> set (List.map_filter f xs) \<longleftrightarrow> (\<exists>x \<in> set xs. f x = Some t)"
  by (force simp: List.map_filter_def)

text \<open>The row of an errand after a batch on \<open>rows\<close>.\<close>

definition job_row :: "uuid_reader \<Rightarrow> decide \<Rightarrow> errand_row list \<Rightarrow> errand_row \<Rightarrow> errand_row" where
  "job_row uuid decide rows r =
     (if r \<in> set rows then (case choice decide r of None \<Rightarrow> r | Some t \<Rightarrow> row_for uuid (apply_to t (errand_from_row r))) else r)"

lemma choice_id:
  assumes "decides_by_next decide" "choice decide r = Some t"
  shows "t_errand_id t = er_id r"
proof -
  have "decide (errand_from_row r) = Inr (Some t)" using assms(2) by (auto simp: choice_def split: sum.splits)
  with assms(1) obtain ev a input at where "next_transition (errand_from_row r) ev a input at = Inr t" unfolding decides_by_next_def by blast
  from next_errand_id [OF this] show ?thesis by simp
qed

lemma decided_row_job:
  assumes dec: "decides_by_next decide" and dist: "distinct (map er_id all)" and sub: "set rows \<subseteq> set all" and r: "r \<in> set all"
  shows "decided_row uuid (List.map_filter (choice decide) rows) r = job_row uuid decide rows r"
proof -
  let ?ts = "List.map_filter (choice decide) rows"
  have mine: "q = r \<and> q \<in> set rows" if "t \<in> set ?ts" "t_errand_id t = er_id r" "q \<in> set rows" "choice decide q = Some t" for t q
  proof -
    have "er_id q = er_id r" using choice_id [OF dec that(4)] that(2) by simp
    then show ?thesis using distinct_key_eq [OF dist _ r, of q] sub that(3) by blast
  qed
  show ?thesis
  proof (cases "find (\<lambda>t. t_errand_id t = er_id r) ?ts")
    case None
    have "job_row uuid decide rows r = r"
    proof (cases "r \<in> set rows")
      case True
      have "choice decide r \<noteq> Some t" for t
        using None True choice_id [OF dec, of r t] by (force simp: find_None_iff map_filter_mem)
      then have "choice decide r = None" by (meson not_Some_eq)
      then show ?thesis by (simp add: job_row_def)
    qed (simp add: job_row_def)
    with None show ?thesis by (simp add: decided_row_def)
  next
    case (Some t)
    then have t: "t \<in> set ?ts" "t_errand_id t = er_id r" using find_Some_mem [OF Some] by auto
    then obtain q where q: "q \<in> set rows" "choice decide q = Some t" by (auto simp: map_filter_mem)
    from mine [OF t q] have "q = r" "r \<in> set rows" using q(1) by auto
    with q(2) Some show ?thesis by (simp add: decided_row_def job_row_def)
  qed
qed

lemma claim_due_applies:
  assumes ok: "uuid_reader_ok uuid" and inv: "store_inv uuid db" and dec: "decides_by_next decide" and lim: "1 \<le> limit"
    and rows: "rows = claimed_rows kind cutoff limit held db"
    and tot: "\<And>r. r \<in> set rows \<Longrightarrow> \<exists>c. decide (errand_from_row r) = Inr c"
    and fit: "\<And>r t. r \<in> set rows \<Longrightarrow> choice decide r = Some t \<Longrightarrow> fits_columns uuid (apply_to t (errand_from_row r)) \<and> t_event t \<noteq> EventEdit"
  obtains db' where "claim_due uuid now kind cutoff limit held decide db = (Inr (length (List.map_filter (choice decide) rows)), db')"
    "store_inv uuid db'" "od_errands db' = map (job_row uuid decide rows) (od_errands db)"
    "set (row_keys db') = set (row_keys db) \<union> (\<Union>t \<in> set (List.map_filter (choice decide) rows). ob_key ` set (t_outbox t))"
proof -
  let ?ts = "List.map_filter (choice decide) rows"
  have q: "claim_query kind cutoff (nat (min limit max_int32)) held db = Inr (rows, db)"
    using rows by (simp add: claimed_rows_def claim_query_def)
  have dist: "distinct (map er_id (od_errands db))" using inv by (simp add: store_inv_def)
  from claim_query_rows [OF q dist] have rs: "distinct (map er_id rows)" "set rows \<subseteq> set (od_errands db)" by simp_all
  have all: "decide_all decide (map errand_from_row rows) = Inr ?ts" by (rule decide_all_total) (rule tot)
  have br: "batch_ready db (map_of (map (\<lambda>e. (e_id e, e)) (map errand_from_row rows))) ?ts"
    by (rule batch_ready_decided [OF inv dec rs all])
  have "batch_fits uuid db ?ts"
    unfolding batch_fits_def
  proof (intro ballI impI)
    fix t r assume t: "t \<in> set ?ts" and r: "r \<in> set (od_errands db)" "er_id r = t_errand_id t"
    from t obtain x where x: "x \<in> set rows" "choice decide x = Some t" by (auto simp: map_filter_mem)
    have "x = r" using distinct_key_eq [OF dist _ r(1), of x] x(1) rs(2) choice_id [OF dec x(2)] r(2) by auto
    with fit [OF x] show "fits_columns uuid (apply_to t (errand_from_row r)) \<and> t_event t \<noteq> EventEdit" by simp
  qed
  from apply_decided_applies [OF ok inv br this] obtain db' where db':
    "apply_decided uuid now (map_of (map (\<lambda>e. (e_id e, e)) (map errand_from_row rows))) ?ts db = Inr ((), db')" "store_inv uuid db'"
    "set (row_keys db') = set (row_keys db) \<union> (\<Union>t \<in> set ?ts. ob_key ` set (t_outbox t))"
    "od_errands db' = map (decided_row uuid ?ts) (od_errands db)" by blast
  have "claim_due uuid now kind cutoff limit held decide db = (Inr (length ?ts), db')"
    using lim q all db'(1) by (simp add: claim_due_def claim_due_tx_def run_tx_def tx_bind_def lift_sum_def)
  moreover have "od_errands db' = map (job_row uuid decide rows) (od_errands db)"
    using db'(4) decided_row_job [OF dec dist rs(2)] by simp
  ultimately show thesis using that db'(2,3) by blast
qed

section \<open>Deadline jobs\<close>

text \<open>The status an errand waits in for its deadline.\<close>

fun deadline_status :: "due_kind \<Rightarrow> status" where
  "deadline_status AcceptanceExpiry = StatusOpen"
| "deadline_status PickupDeadline = StatusAssigned"
| "deadline_status DeliveryDeadline = StatusPickedUp"
| "deadline_status VerificationLapse = StatusDelivered"
| "deadline_status StuckReservation = StatusPendingReservation"
| "deadline_status StuckEdit = StatusOpen"

lemma claimable_status: "claimable kind now r \<Longrightarrow> er_status r = deadline_status kind \<or> kind = StuckEdit"
  by (cases kind) (auto simp: claimable_def split: if_splits option.splits)

lemma claimable_later: "claimable kind now r \<Longrightarrow> now \<le> later \<Longrightarrow> claimable kind later r"
  by (auto simp: claimable_def split: option.splits)

text \<open>\<^verbatim>\<open>Next\<close> accepts the system's event on every errand that is due, and moves it on.\<close>

lemma deadline_accepted:
  assumes "deadline_event kind = Some ev" "due kind e now" "errand_inv e"
  obtains t where "next_transition e ev system_actor no_input now = Inr t" "t_to t \<noteq> deadline_status kind" "t_event t = ev"
    "t_new_version t = e_version e + 1" "ch_details (t_changes t) = None" "e_pending_edit (apply_to t e) = None"
proof -
  have "\<exists>t. next_transition e ev system_actor no_input now = Inr t \<and> t_to t \<noteq> deadline_status kind \<and> t_event t = ev
      \<and> t_new_version t = e_version e + 1 \<and> ch_details (t_changes t) = None"
    using assms(1,2)
    by (cases kind) (auto simp: due_def at_status_def next_transition_def rules_for_def transition_table_def terminal_def valid_status_def statuses_def
        Let_def system_actor_def passed_opt_def passed_def start_transition_def finish_transition_def no_changes_def split: option.splits if_splits)
  then obtain t where t: "next_transition e ev system_actor no_input now = Inr t" "t_to t \<noteq> deadline_status kind" "t_event t = ev"
    "t_new_version t = e_version e + 1" "ch_details (t_changes t) = None" by blast
  have "ev \<noteq> EventEdit" using assms(1) by (cases kind) auto
  then have "edit_requested t = None" using t(3) by (simp add: edit_requested_def)
  then have "e_pending_edit (apply_to t e) = None" using pending_after_inv [OF t(1) assms(3)] by simp
  with t that show thesis by blast
qed

lemma deadline_decides: "decides_by_next (deadline_decide kind ev now)"
  by (auto simp: decides_by_next_def deadline_decide_def split: if_splits sum.splits)

definition waiting_rows :: "due_kind \<Rightarrow> order_db \<Rightarrow> nat" where
  "waiting_rows kind db = length (filter (\<lambda>r. er_status r = deadline_status kind) (od_errands db))"

definition room_left :: "due_kind \<Rightarrow> order_db \<Rightarrow> bool" where
  "room_left kind db \<longleftrightarrow> (\<forall>r \<in> set (od_errands db). er_status r = deadline_status kind \<longrightarrow> er_version r < max_int32)"

definition quiet_job :: "job_env \<Rightarrow> bool" where
  "quiet_job env \<longleftrightarrow> \<not> je_fails env \<and> je_held env = (\<lambda>_. False)"

lemma length_filter_mem:
  assumes "distinct xs" "distinct ys" "set ys \<subseteq> set xs"
  shows "length (filter (\<lambda>x. x \<in> set ys) xs) = length ys"
proof -
  have "set (filter (\<lambda>x. x \<in> set ys) xs) = set ys" using assms(3) by auto
  with assms(1,2) show ?thesis by (metis distinct_card distinct_filter)
qed

lemma filter_map_moved:
  assumes "\<And>x. x \<in> set ys \<Longrightarrow> \<not> P (f x)" "\<And>x. x \<notin> set ys \<Longrightarrow> f x = x"
  shows "filter P (map f xs) = filter (\<lambda>x. P x \<and> x \<notin> set ys) xs"
  using assms by (induction xs) (auto, metis)

lemma length_filter_moved:
  assumes "distinct xs" "distinct ys" "set ys \<subseteq> set xs" "\<And>y. y \<in> set ys \<Longrightarrow> P y"
  shows "length (filter (\<lambda>x. P x \<and> x \<notin> set ys) xs) + length ys = length (filter P xs)"
proof -
  have "filter (\<lambda>x. x \<in> set ys) (filter P xs) = filter (\<lambda>x. x \<in> set ys) xs" using assms(4) by (auto intro!: filter_cong)
  then have "length (filter (\<lambda>x. x \<in> set ys) (filter P xs)) = length ys" using length_filter_mem [OF assms(1-3)] by simp
  with sum_length_filter_compl [of "\<lambda>x. x \<in> set ys" "filter P xs"] show ?thesis by (simp add: conj_commute)
qed

lemma claimed_rows_facts:
  assumes "store_inv uuid db" "rows = claimed_rows kind cutoff limit held db"
  shows "distinct rows" "set rows \<subseteq> set (od_errands db)" "r \<in> set rows \<Longrightarrow> claimable kind cutoff r"
    "held = (\<lambda>_. False) \<Longrightarrow> 1 \<le> limit \<Longrightarrow> limit \<le> max_int32 \<Longrightarrow> int (length rows) < limit \<Longrightarrow> r \<in> set (od_errands db) \<Longrightarrow> claimable kind cutoff r \<Longrightarrow> r \<in> set rows"
proof -
  let ?xs = "sort_key (\<lambda>r. the (claim_column kind r)) (sort_key er_id (filter (\<lambda>r. claimable kind cutoff r \<and> \<not> held (er_id r)) (od_errands db)))"
  have rows: "rows = take (nat (min limit max_int32)) ?xs" using assms(2) by (simp add: claimed_rows_def claim_query_def)
  have q: "claim_query kind cutoff (nat (min limit max_int32)) held db = Inr (rows, db)" by (simp add: rows claim_query_def)
  have "distinct (map er_id (od_errands db))" using assms(1) by (simp add: store_inv_def)
  from claim_query_rows [OF q this] show "distinct rows" "set rows \<subseteq> set (od_errands db)" "r \<in> set rows \<Longrightarrow> claimable kind cutoff r"
    by (auto simp: distinct_map)
  show "r \<in> set rows" if "held = (\<lambda>_. False)" "1 \<le> limit" "limit \<le> max_int32" "int (length rows) < limit" "r \<in> set (od_errands db)" "claimable kind cutoff r"
  proof -
    have "rows = ?xs" using that(2-4) by (auto simp: rows)
    with that(1,5,6) show ?thesis by simp
  qed
qed

lemma fits_unchanged:
  assumes clean: "row_clean uuid r" and v: "er_version r < max_int32" "t_new_version t = e_version (errand_from_row r) + 1"
    and ch: "ch_details (t_changes t) = None" "e_pending_edit (apply_to t (errand_from_row r)) = None"
  shows "fits_columns uuid (apply_to t (errand_from_row r))"
  using assms by (auto simp: fits_columns_def row_clean_def canonical_def details_ids_ok_def errand_check_def errand_from_row_def
      simp del: apply_to_fields(13))

lemma deadline_batch:
  assumes ok: "uuid_reader_ok uuid" and inv: "store_inv uuid db" and ev: "deadline_event kind = Some ev"
    and lim: "1 \<le> limit" "limit \<le> max_int32" and env: "quiet_job env" and room: "room_left kind db"
  obtains n db' where "run_deadline uuid kind ev limit env db = (Inr \<lparr>br_seen = n, br_applied = n\<rparr>, db')" "store_inv uuid db'" "room_left kind db'"
    "waiting_rows kind db' + n = waiting_rows kind db"
    "int n < limit \<longrightarrow> (\<forall>r \<in> set (od_errands db'). \<not> claimable kind (je_now env) r)"
proof -
  let ?now = "je_now env" and ?P = "\<lambda>r. er_status r = deadline_status kind"
  define rows where "rows = claimed_rows kind ?now limit (je_held env) db"
  define decide where "decide = deadline_decide kind ev ?now"
  note rs = claimed_rows_facts [OF inv rows_def]
  have kind: "kind \<noteq> StuckEdit" using ev by auto
  have dec: "decides_by_next decide" unfolding decide_def by (rule deadline_decides)
  have cho: "\<exists>t. choice decide r = Some t \<and> decide (errand_from_row r) = Inr (Some t) \<and> t_to t \<noteq> deadline_status kind \<and> t_event t \<noteq> EventEdit
      \<and> fits_columns uuid (apply_to t (errand_from_row r))" if r: "r \<in> set rows" for r
  proof -
    note row = store_inv_rowD [OF inv subsetD [OF rs(2) r]]
    have du: "due kind (errand_from_row r) ?now" using claimable_due [of r] row(2) rs(3) [OF r] by (simp add: row_clean_def)
    obtain t where t: "next_transition (errand_from_row r) ev system_actor no_input ?now = Inr t" "t_to t \<noteq> deadline_status kind" "t_event t = ev"
      "t_new_version t = e_version (errand_from_row r) + 1" "ch_details (t_changes t) = None" "e_pending_edit (apply_to t (errand_from_row r)) = None"
      by (rule deadline_accepted [OF ev du row(3)])
    have "er_version r < max_int32" using room claimable_status [OF rs(3) [OF r]] kind subsetD [OF rs(2) r] by (auto simp: room_left_def)
    from fits_unchanged [OF row(2) this t(4-6)] have "fits_columns uuid (apply_to t (errand_from_row r))" .
    moreover have "ev \<noteq> EventEdit" using ev by (cases kind) auto
    ultimately show ?thesis using t du by (simp add: choice_def decide_def deadline_decide_def)
  qed
  have map: "length (List.map_filter (choice decide) rows) = length rows"
  proof -
    have "filter (\<lambda>x. choice decide x \<noteq> None) rows = rows" using cho by (auto simp: filter_id_conv)
    then show ?thesis by (simp add: List.map_filter_def o_def)
  qed
  obtain db' where db': "claim_due uuid (je_db_now env) kind ?now limit (je_held env) decide db = (Inr (length (List.map_filter (choice decide) rows)), db')"
    "store_inv uuid db'" "od_errands db' = map (job_row uuid decide rows) (od_errands db)"
    by (rule claim_due_applies [OF ok inv dec lim(1) rows_def]) (use cho in fastforce)+
  have moved: "\<not> ?P (job_row uuid decide rows r)" if "r \<in> set rows" for r
    using cho [OF that] that by (auto simp: job_row_def)
  have kept: "job_row uuid decide rows r = r" if "r \<notin> set rows" for r using that by (simp add: job_row_def)
  have left: "filter ?P (od_errands db') = filter (\<lambda>r. ?P r \<and> r \<notin> set rows) (od_errands db)"
    unfolding db'(3) by (rule filter_map_moved) (use moved kept in auto)
  have stat: "?P r" if "r \<in> set rows" for r using claimable_status [OF rs(3) [OF that]] kind by simp
  have dist: "distinct (od_errands db)" using inv by (auto simp: store_inv_def distinct_map)
  have run: "run_deadline uuid kind ev limit env db = (Inr \<lparr>br_seen = length rows, br_applied = length rows\<rparr>, db')"
    using env db'(1) map by (simp add: run_deadline_def run_claim_def quiet_job_def rows_def decide_def)
  have old: "r \<in> set (od_errands db) \<and> r \<notin> set rows" if "r \<in> set (od_errands db')" "?P r" for r
    using that arg_cong [OF left, of set] by auto
  have "room_left kind db'" using room old by (auto simp: room_left_def)
  moreover have "waiting_rows kind db' + length rows = waiting_rows kind db"
    unfolding waiting_rows_def left by (rule length_filter_moved [OF dist rs(1,2)]) (rule stat)
  moreover have "\<not> claimable kind ?now r" if "int (length rows) < limit" "r \<in> set (od_errands db')" for r
    using old [OF that(2)] claimable_status [of kind ?now r] kind rs(4) [OF _ lim that(1)] env by (auto simp: quiet_job_def)
  ultimately show thesis using that run db'(2) by blast
qed

lemma drain_completes:
  assumes ok: "uuid_reader_ok uuid" and ev: "deadline_event kind = Some ev" and lim: "1 \<le> limit" "limit \<le> max_int32"
    and env: "\<And>i. quiet_job (envs i)" "\<And>i. start \<le> je_now (envs i)"
  shows "store_inv uuid db \<Longrightarrow> room_left kind db \<Longrightarrow> waiting_rows kind db < fuel \<Longrightarrow>
    \<exists>db'. drain fuel (\<lambda>_. False) (\<lambda>i. run_deadline uuid kind ev limit (envs i)) limit i db = Some db' \<and> store_inv uuid db'
      \<and> (\<forall>r \<in> set (od_errands db'). \<not> claimable kind start r)"
proof (induction fuel arbitrary: i db)
  case (Suc fuel)
  obtain n db1 where b: "run_deadline uuid kind ev limit (envs i) db = (Inr \<lparr>br_seen = n, br_applied = n\<rparr>, db1)" "store_inv uuid db1" "room_left kind db1"
    "waiting_rows kind db1 + n = waiting_rows kind db"
    "int n < limit \<longrightarrow> (\<forall>r \<in> set (od_errands db1). \<not> claimable kind (je_now (envs i)) r)"
    by (rule deadline_batch [OF ok Suc.prems(1) ev lim env(1) Suc.prems(2)])
  show ?case
  proof (cases "int n < limit")
    case True
    with b(5) claimable_later env(2) have "\<forall>r \<in> set (od_errands db1). \<not> claimable kind start r" by blast
    with b(1,2) True show ?thesis by simp
  next
    case False
    then have "0 < n" using lim(1) by simp
    with Suc.IH [OF b(2,3), of "Suc i"] b(1,4) False Suc.prems(3) show ?thesis by simp
  qed
qed simp

section \<open>The reconciler\<close>

definition reserve_unanswered :: "order_db \<Rightarrow> errand_row \<Rightarrow> bool" where
  "reserve_unanswered db r \<longleftrightarrow>
     list_ex (\<lambda>o'. so_key o' = op_key (er_id r) (''reserve'', 0) \<and> so_status o' \<in> {Sent, Failed}) (od_outbox db)"

text \<open>What giving up does to an errand: a reservation is released, an edit is dropped and reverted.\<close>

definition given_up :: "due_kind \<Rightarrow> errand \<Rightarrow> order_db \<Rightarrow> errand \<Rightarrow> bool" where
  "given_up kind e db' e' \<longleftrightarrow> e_version e' = e_version e + 1 \<and> e_details e' = e_details e \<and> e_pending_edit e' = None
     \<and> (if kind = StuckReservation then e_status e' = StatusRejected \<and> op_key (e_id e) (''release'', 0) \<in> set (row_keys db')
        else e_status e' = StatusOpen \<and> op_key (e_id e) (''adjust-revert'', e_version e + 1) \<in> set (row_keys db'))"

lemma reconcile_decides: "decides_by_next (reconcile_decide kind cutoff now rows)"
  by (auto simp: decides_by_next_def reconcile_decide_def give_up_def split: if_splits sum.splits)

lemma get_reserve_row:
  assumes inv: "store_inv uuid db" and r: "r \<in> set (od_errands db)"
  obtains row where "get_by_key (idempotency_key (er_id r) ''reserve'' 0) (od_outbox db) = Inr row"
    "oc_status row = Sent \<or> oc_status row = Failed \<longleftrightarrow> reserve_unanswered db r"
proof -
  let ?key = "op_key (er_id r) (''reserve'', 0)"
  have "?key \<in> set (row_keys db)" using store_inv_rowD(4) [OF inv r] by (simp add: tracked_def)
  then obtain o' where o': "o' \<in> set (od_outbox db)" "so_key o' = ?key" by (auto simp: row_keys_def)
  have dist: "distinct (map so_key (od_outbox db))" using store_inv_rowD(6) [OF inv r] by (simp add: row_keys_def)
  have f: "find (\<lambda>x. so_key x = ?key) (od_outbox db) = Some o'" using find_key_unique [OF dist o'(1)] o'(2) by simp
  have "x = o'" if "x \<in> set (od_outbox db)" "so_key x = ?key" for x
    using distinct_key_eq [OF dist that(1) o'(1)] that(2) o'(2) by simp
  then have "reserve_unanswered db r \<longleftrightarrow> so_status o' \<in> {Sent, Failed}"
    using o' unfolding reserve_unanswered_def list_ex_iff by blast
  moreover have "idempotency_key (er_id r) ''reserve'' 0 = ?key" by (simp add: op_key_def)
  ultimately show thesis using that [of "record_of o'"] f by (simp add: get_by_key_def record_of_def)
qed

lemmas give_up_eval = next_transition_def rules_for_def transition_table_def terminal_def valid_status_def statuses_def Let_def
  system_actor_def start_transition_def finish_transition_def no_changes_def no_input_def outbox_rows_def credit_rows_def
  reverts_adjust_def edit_requested_def credit_row_def op_key_def

lemma reservation_given_up:
  assumes "e_status e = StatusPendingReservation" "errand_inv e"
  obtains t where "next_transition e EventReservationFailed system_actor (no_input\<lparr>in_reason := reason_reservation_failed\<rparr>) now = Inr t"
    "t_to t = StatusRejected" "t_new_version t = e_version e + 1" "ch_details (t_changes t) = None" "t_event t = EventReservationFailed"
    "op_key (e_id e) (''release'', 0) \<in> ob_key ` set (t_outbox t)" "e_pending_edit (apply_to t e) = None"
proof -
  have "\<exists>t. next_transition e EventReservationFailed system_actor (no_input\<lparr>in_reason := reason_reservation_failed\<rparr>) now = Inr t
    \<and> t_to t = StatusRejected \<and> t_new_version t = e_version e + 1 \<and> ch_details (t_changes t) = None \<and> t_event t = EventReservationFailed
    \<and> op_key (e_id e) (''release'', 0) \<in> ob_key ` set (t_outbox t)"
    using assms(1) by (simp add: give_up_eval)
  then obtain t where t: "next_transition e EventReservationFailed system_actor (no_input\<lparr>in_reason := reason_reservation_failed\<rparr>) now = Inr t"
    "t_to t = StatusRejected" "t_new_version t = e_version e + 1" "ch_details (t_changes t) = None" "t_event t = EventReservationFailed"
    "op_key (e_id e) (''release'', 0) \<in> ob_key ` set (t_outbox t)" by blast
  have "edit_requested t = None" using t(5) by (simp add: edit_requested_def)
  with pending_after_inv [OF t(1) assms(2)] t that show thesis by simp
qed

lemma edit_given_up:
  assumes "e_pending_edit e = Some p" "errand_inv e"
  obtains t where "next_transition e EventEditRefused system_actor
      (no_input\<lparr>in_reason := adjust_timeout_reason, in_edit_timed_out := True, in_edit_key := pe_key p\<rparr>) now = Inr t"
    "t_to t = StatusOpen" "t_new_version t = e_version e + 1" "ch_details (t_changes t) = None" "t_event t = EventEditRefused"
    "op_key (e_id e) (''adjust-revert'', e_version e + 1) \<in> ob_key ` set (t_outbox t)" "e_pending_edit (apply_to t e) = None"
proof -
  let ?input = "no_input\<lparr>in_reason := adjust_timeout_reason, in_edit_timed_out := True, in_edit_key := pe_key p\<rparr>"
  have "e_status e = StatusOpen" using errand_inv_pending(1) [OF assms(2,1)] .
  then have "\<exists>t. next_transition e EventEditRefused system_actor ?input now = Inr t
    \<and> t_to t = StatusOpen \<and> t_new_version t = e_version e + 1 \<and> ch_details (t_changes t) = None \<and> t_event t = EventEditRefused
    \<and> op_key (e_id e) (''adjust-revert'', e_version e + 1) \<in> ob_key ` set (t_outbox t)"
    using assms(1) by (simp add: give_up_eval)
  then obtain t where t: "next_transition e EventEditRefused system_actor ?input now = Inr t"
    "t_to t = StatusOpen" "t_new_version t = e_version e + 1" "ch_details (t_changes t) = None" "t_event t = EventEditRefused"
    "op_key (e_id e) (''adjust-revert'', e_version e + 1) \<in> ob_key ` set (t_outbox t)" by blast
  have "edit_requested t = None" using t(5) by (simp add: edit_requested_def)
  with pending_after_inv [OF t(1) assms(2)] t that show thesis by simp
qed

definition gives_up_on :: "due_kind \<Rightarrow> order_db \<Rightarrow> errand_row \<Rightarrow> bool" where
  "gives_up_on kind db r \<longleftrightarrow> kind = StuckEdit \<or> reserve_unanswered db r"

lemma reconcile_choice:
  assumes inv: "store_inv uuid db" and r: "r \<in> set (od_errands db)" "claimable kind cutoff r" and kind: "kind = StuckReservation \<or> kind = StuckEdit"
    and room: "er_version r < max_int32"
  shows "if gives_up_on kind db r
    then \<exists>t. reconcile_decide kind cutoff now (od_outbox db) (errand_from_row r) = Inr (Some t) \<and> fits_columns uuid (apply_to t (errand_from_row r))
      \<and> t_event t \<noteq> EventEdit \<and> t_new_version t = er_version r + 1 \<and> ch_details (t_changes t) = None \<and> e_pending_edit (apply_to t (errand_from_row r)) = None
      \<and> (if kind = StuckReservation then t_to t = StatusRejected \<and> op_key (er_id r) (''release'', 0) \<in> ob_key ` set (t_outbox t)
         else t_to t = StatusOpen \<and> op_key (er_id r) (''adjust-revert'', er_version r + 1) \<in> ob_key ` set (t_outbox t))
    else reconcile_decide kind cutoff now (od_outbox db) (errand_from_row r) = Inr None"
proof -
  let ?e = "errand_from_row r"
  note row = store_inv_rowD [OF inv r(1)]
  have du: "due kind ?e cutoff" using claimable_due [of r] row(2) r(2) by (simp add: row_clean_def)
  show ?thesis
  proof (cases "kind = StuckEdit")
    case True
    from du True obtain p where p: "e_pending_edit ?e = Some p" by (auto simp: due_def split: option.splits)
    obtain t where t: "next_transition ?e EventEditRefused system_actor
        (no_input\<lparr>in_reason := adjust_timeout_reason, in_edit_timed_out := True, in_edit_key := pe_key p\<rparr>) now = Inr t"
      "t_to t = StatusOpen" "t_new_version t = e_version ?e + 1" "ch_details (t_changes t) = None" "t_event t = EventEditRefused"
      "op_key (e_id ?e) (''adjust-revert'', e_version ?e + 1) \<in> ob_key ` set (t_outbox t)" "e_pending_edit (apply_to t ?e) = None"
      by (rule edit_given_up [OF p row(3)])
    with True du p fits_unchanged [OF row(2) room t(3,4,7)] show ?thesis
      by (simp add: reconcile_decide_def give_up_def gives_up_on_def del: apply_to_fields(13))
  next
    case False
    with kind have k: "kind = StuckReservation" by simp
    then have st: "e_status ?e = StatusPendingReservation" using claimable_status [OF r(2)] by simp
    obtain m where m: "get_by_key (idempotency_key (er_id r) ''reserve'' 0) (od_outbox db) = Inr m"
      "oc_status m = Sent \<or> oc_status m = Failed \<longleftrightarrow> reserve_unanswered db r" by (rule get_reserve_row [OF inv r(1)])
    obtain t where t: "next_transition ?e EventReservationFailed system_actor (no_input\<lparr>in_reason := reason_reservation_failed\<rparr>) now = Inr t"
      "t_to t = StatusRejected" "t_new_version t = e_version ?e + 1" "ch_details (t_changes t) = None" "t_event t = EventReservationFailed"
      "op_key (e_id ?e) (''release'', 0) \<in> ob_key ` set (t_outbox t)" "e_pending_edit (apply_to t ?e) = None"
      by (rule reservation_given_up [OF st row(3)])
    with k du m fits_unchanged [OF row(2) room t(3,4,7)] show ?thesis
      by (auto simp: reconcile_decide_def give_up_def gives_up_on_def simp del: apply_to_fields(13))
  qed
qed

text \<open>The stored errand after a batch.\<close>

lemma job_row_stored:
  assumes inv: "store_inv uuid db" "store_inv uuid db'" and errs: "od_errands db' = map (job_row uuid decide rows) (od_errands db)"
    and r: "r \<in> set (od_errands db)" and id: "er_id (job_row uuid decide rows r) = er_id r"
  shows "store_get uuid (er_id r) db' = Inr (errand_from_row (job_row uuid decide rows r))"
proof -
  have "job_row uuid decide rows r \<in> set (od_errands db')" using errs r by simp
  with find_errand_iff [of db' "er_id r"] inv(2) id have "find_errand db' (er_id r) = Some (job_row uuid decide rows r)"
    by (simp add: store_inv_def)
  with store_inv_rowD(8) [OF inv(1) r] show ?thesis by (simp add: store_get_def)
qed

lemma reconcile_batch:
  assumes ok: "uuid_reader_ok uuid" and inv: "store_inv uuid db" and kind: "kind = StuckReservation \<or> kind = StuckEdit"
    and set: "0 < reconcile_timeout kind s" and lim: "1 \<le> batch" and env: "\<not> je_fails env"
    and room: "\<And>r. r \<in> set (od_errands db) \<Longrightarrow> er_version r < max_int32"
    and rows: "rows = claimed_rows kind (je_now env - reconcile_timeout kind s) batch (je_held env) db"
  obtains db' res where "reconcile uuid kind (Inr s) batch env db = (Inr res, db')" "store_inv uuid db'"
    "\<And>r. r \<in> set rows \<Longrightarrow> gives_up_on kind db r \<Longrightarrow> \<exists>e'. store_get uuid (er_id r) db' = Inr e' \<and> given_up kind (errand_from_row r) db' e'"
    "\<And>r. r \<in> set (od_errands db) \<Longrightarrow> r \<notin> set rows \<or> \<not> gives_up_on kind db r \<Longrightarrow> store_get uuid (er_id r) db' = Inr (errand_from_row r)"
proof -
  let ?cut = "je_now env - reconcile_timeout kind s"
  define decide where "decide = reconcile_decide kind ?cut (je_now env) (od_outbox db)"
  note rs = claimed_rows_facts [OF inv rows]
  have dec: "decides_by_next decide" unfolding decide_def by (rule reconcile_decides)
  note cho = reconcile_choice [OF inv subsetD [OF rs(2)] rs(3) kind room [OF subsetD [OF rs(2)]], of _ "je_now env", folded decide_def]
  have tot: "\<exists>c. decide (errand_from_row r) = Inr c" if "r \<in> set rows" for r using cho [OF that that that] by (auto split: if_splits)
  have fit: "fits_columns uuid (apply_to t (errand_from_row r)) \<and> t_event t \<noteq> EventEdit" if "r \<in> set rows" "choice decide r = Some t" for r t
    using cho [OF that(1) that(1) that(1)] that(2) by (auto simp: choice_def split: if_splits)
  obtain db' where db': "claim_due uuid (je_db_now env) kind ?cut batch (je_held env) decide db = (Inr (length (List.map_filter (choice decide) rows)), db')"
    "store_inv uuid db'" "od_errands db' = map (job_row uuid decide rows) (od_errands db)"
    "set (row_keys db') = set (row_keys db) \<union> (\<Union>t \<in> set (List.map_filter (choice decide) rows). ob_key ` set (t_outbox t))"
    by (rule claim_due_applies [OF ok inv dec lim rows tot fit])
  have run: "\<exists>res. reconcile uuid kind (Inr s) batch env db = (Inr res, db')"
    using db'(1) kind set env by (auto simp: reconcile_def run_claim_def decide_def Let_def)
  have up: "\<exists>e'. store_get uuid (er_id r) db' = Inr e' \<and> given_up kind (errand_from_row r) db' e'"
    if r: "r \<in> set rows" "gives_up_on kind db r" for r
  proof -
    let ?e = "errand_from_row r"
    have mem: "r \<in> set (od_errands db)" using rs(2) r(1) by blast
    note row = store_inv_rowD [OF inv mem]
    from cho [OF r(1) r(1) r(1)] r(2) obtain t where t: "decide ?e = Inr (Some t)" "fits_columns uuid (apply_to t ?e)"
      "t_new_version t = er_version r + 1" "ch_details (t_changes t) = None" "e_pending_edit (apply_to t ?e) = None"
      "if kind = StuckReservation then t_to t = StatusRejected \<and> op_key (er_id r) (''release'', 0) \<in> ob_key ` set (t_outbox t)
         else t_to t = StatusOpen \<and> op_key (er_id r) (''adjust-revert'', er_version r + 1) \<in> ob_key ` set (t_outbox t)" by auto
    have c: "choice decide r = Some t" using t(1) by (simp add: choice_def)
    then have keys: "ob_key ` set (t_outbox t) \<subseteq> set (row_keys db')" using db'(4) r(1) by (force simp: map_filter_mem)
    have jr: "job_row uuid decide rows r = row_for uuid (apply_to t ?e)" using r(1) c by (simp add: job_row_def)
    obtain ev a input at where nx: "next_transition ?e ev a input at = Inr t" using dec t(1) unfolding decides_by_next_def by blast
    have read: "errand_from_row (row_for uuid (apply_to t ?e)) = canon uuid (apply_to t ?e)"
      by (rule errand_from_row_of) (use next_nonneg [OF nx row(3)] t(2) in \<open>simp_all add: fits_columns_def\<close>)
    have can: "canon_details uuid (e_details ?e) = e_details ?e"
      using row(2) by (simp add: row_clean_def canonical_def canon_details_def)
    have "store_get uuid (er_id r) db' = Inr (canon uuid (apply_to t ?e))"
      using job_row_stored [OF inv db'(2,3) mem] jr read row(8) by simp
    moreover have "given_up kind ?e db' (canon uuid (apply_to t ?e))"
      using t(3-6) keys can by (auto simp: given_up_def canon_def simp del: apply_to_fields(13))
    ultimately show ?thesis by blast
  qed
  have same: "store_get uuid (er_id r) db' = Inr (errand_from_row r)"
    if r: "r \<in> set (od_errands db)" "r \<notin> set rows \<or> \<not> gives_up_on kind db r" for r
  proof -
    have "job_row uuid decide rows r = r" using r cho [of r] by (auto simp: job_row_def choice_def)
    with job_row_stored [OF inv db'(2,3) r(1)] show ?thesis by simp
  qed
  from run up same db'(2) that show thesis by blast
qed

end
