(* ===== verification/Operations_Properties.thy ===== *)
theory Operations_Properties
  imports Fence_Safety Job_Batches Result_Handling Store_Properties
begin

text \<open>The properties of order-service's operations around the errand store: fences and background jobs.\<close>

section \<open>Fences\<close>





section \<open>Background jobs\<close>



definition ex_job :: "int \<Rightarrow> job_env" where
  "ex_job now = \<lparr>je_now = now, je_db_now = now, je_held = (\<lambda>_. False), je_fails = False\<rparr>"


text \<open>
  C39. The reconciler resolves what it selects. A batch never fails on a consistent database. Every overdue
  reservation it selects whose reserve command was sent or failed ends rejected, with the release of its
  credits in the outbox; every overdue edit it selects is dropped, its errand stays open with its old
  details, and a command that restores the reserved amount is in the outbox. No other errand changes.
\<close>

theorem reconciler_resolves_stuck:
  assumes "uuid_reader_ok uuid" and "store_inv uuid db" and "kind = StuckReservation \<or> kind = StuckEdit"
    and "0 < reconcile_timeout kind s" and "1 \<le> batch" and "\<not> je_fails env"
    and "\<And>r. r \<in> set (od_errands db) \<Longrightarrow> er_version r < max_int32"
    and "rows = claimed_rows kind (je_now env - reconcile_timeout kind s) batch (je_held env) db"
  shows "\<exists>res db'. reconcile uuid kind (Inr s) batch env db = (Inr res, db') \<and> store_inv uuid db'
    \<and> (\<forall>r \<in> set (od_errands db). \<exists>e'. store_get uuid (er_id r) db' = Inr e'
        \<and> (if r \<in> set rows \<and> gives_up_on kind db r then given_up kind (errand_from_row r) db' e' else e' = errand_from_row r))"
proof (rule reconcile_batch [OF assms])
  fix res db'
  assume b: "reconcile uuid kind (Inr s) batch env db = (Inr res, db')" "store_inv uuid db'"
    "\<And>r. r \<in> set rows \<Longrightarrow> gives_up_on kind db r \<Longrightarrow> \<exists>e'. store_get uuid (er_id r) db' = Inr e' \<and> given_up kind (errand_from_row r) db' e'"
    "\<And>r. r \<in> set (od_errands db) \<Longrightarrow> r \<notin> set rows \<or> \<not> gives_up_on kind db r \<Longrightarrow> store_get uuid (er_id r) db' = Inr (errand_from_row r)"
  then show ?thesis by (intro exI [of _ res] exI [of _ db']) (auto split: if_splits)
qed

text \<open>Ada's reservation, sent and never answered.\<close>

lemma ex_stuck:
  obtains db r where "store_inv ex_reader db" "od_errands db = [r]" "er_status r = StatusPendingReservation" "er_version r = 1" "er_created_at r = 0"
    "er_id r = ex_uuid CHR ''e''" "reserve_unanswered db r"
proof -
  obtain t where t: "next_transition ex_new EventSubmit ada no_input 0 = Inr t" "store_inv ex_reader (created ex_reader 0 ex_new t empty_order_db)"
    "row_for ex_reader (apply_to t ex_new) \<in> set (od_errands (created ex_reader 0 ex_new t empty_order_db))"
    "errand_from_row (row_for ex_reader (apply_to t ex_new)) = apply_to t ex_new" "t_new_version t = 1"
    by (rule ex_created)
  let ?db = "created ex_reader 0 ex_new t empty_order_db" and ?r = "row_for ex_reader (apply_to t ex_new)"
  let ?db' = "?db\<lparr>od_outbox := map (\<lambda>o'. o'\<lparr>so_status := Sent\<rparr>) (od_outbox ?db)\<rparr>"
  have "map so_key (map (\<lambda>o'. o'\<lparr>so_status := Sent\<rparr>) (od_outbox ?db)) = map so_key (od_outbox ?db)" by simp
  from follows_outbox [OF ex_reader_ok t(2) this] have inv: "store_inv ex_reader ?db'" by (simp add: follows_def)
  have "op_key (er_id ?r) (''reserve'', 0) \<in> set (row_keys ?db)" using store_inv_rowD(4) [OF t(2,3)] by (simp add: tracked_def)
  then have "reserve_unanswered ?db' ?r" by (auto simp: reserve_unanswered_def row_keys_def list_ex_iff)
  moreover have "t_from t = StatusNone" "t_to t = StatusPendingReservation" using submit_new(1,2) [OF ex_new_fields(10) t(1)] by simp_all
  moreover have "t_at t = 0" by (rule transition_summary [OF t(1)])
  moreover have "er_version ?r = 1" using arg_cong [OF t(4), of e_version] t(5) by simp
  moreover have "e_created_at (apply_to t ex_new) = 0" using calculation(2,4) by (simp add: apply_to_def Let_def)
  ultimately show thesis by (intro that [OF inv, of ?r]) (simp_all add: empty_order_db_def)
qed

theorem reconciler_resolves_stuck_witness:
  "\<exists>db res db' e'. reconcile ex_reader StuckReservation (Inr default_system_settings) 100 (ex_job hour) db = (Inr res, db')
     \<and> store_get ex_reader (ex_uuid CHR ''e'') db' = Inr e' \<and> e_status e' = StatusRejected
     \<and> op_key (ex_uuid CHR ''e'') (''release'', 0) \<in> set (row_keys db')"
proof (rule ex_stuck)
  fix db r
  assume d: "store_inv ex_reader db" "od_errands db = [r]" "er_status r = StatusPendingReservation" "er_version r = 1" "er_created_at r = 0"
    "er_id r = ex_uuid CHR ''e''" "reserve_unanswered db r"
  let ?s = default_system_settings and ?env = "ex_job hour"
  have time: "reconcile_timeout StuckReservation ?s = 5 * minute" by (simp add: reconcile_timeout_def default_system_settings_def)
  have "claimable StuckReservation (hour - 5 * minute) r" using d(3,5) by (simp add: claimable_def duration_defs)
  then have mem: "r \<in> set (claimed_rows StuckReservation (je_now ?env - reconcile_timeout StuckReservation ?s) 100 (je_held ?env) db)"
    using d(2) by (simp add: claimed_rows_def claim_query_def time ex_job_def max_int32_def)
  have "gives_up_on StuckReservation db r" using d(7) by (simp add: gives_up_on_def)
  moreover have "\<exists>res db'. reconcile ex_reader StuckReservation (Inr ?s) 100 ?env db = (Inr res, db') \<and> store_inv ex_reader db'
    \<and> (\<forall>r \<in> set (od_errands db). \<exists>e'. store_get ex_reader (er_id r) db' = Inr e'
        \<and> (if r \<in> set (claimed_rows StuckReservation (je_now ?env - reconcile_timeout StuckReservation ?s) 100 (je_held ?env) db)
              \<and> gives_up_on StuckReservation db r then given_up StuckReservation (errand_from_row r) db' e' else e' = errand_from_row r))"
    by (rule reconciler_resolves_stuck [OF ex_reader_ok d(1) _ _ _ _ _ refl])
      (use d(2,4) time in \<open>auto simp: ex_job_def duration_defs max_int32_def\<close>)
  ultimately show ?thesis using mem d(2,6) by (fastforce simp: given_up_def)
qed

end
