(* ===== verification/Time_Roundtrip.thy ===== *)
theory Time_Roundtrip
  imports Go_Time
begin

text \<open>
  Times survive their text form: the date \<open>civil_of_days\<close> computes is a date of the calendar and
  \<open>days_of_civil\<close> is its inverse, and \<^verbatim>\<open>UnmarshalJSON\<close> reads back the instant
  \<^verbatim>\<open>MarshalJSON\<close> wrote.
\<close>

section \<open>The calendar\<close>

text \<open>Years are counted from March: \<open>era_start\<close> is the day of the 400-year era on which year \<open>y\<close> starts.\<close>

definition era_start :: "int \<Rightarrow> int" where
  "era_start y = 365 * y + y div 4 - y div 100 + y div 400"

definition era_slope :: "int \<Rightarrow> int" where
  "era_slope doe = doe - doe div 1460 + doe div 36524 - doe div 146096"

definition doy_ok :: "int \<Rightarrow> bool" where
  "doy_ok doy \<longleftrightarrow> (let mp = (5 * doy + 2) div 153; d = doy - (153 * mp + 2) div 5 + 1 in
     0 \<le> mp \<and> mp \<le> 11 \<and> 1 \<le> d \<and> d \<le> (if mp = 11 then (if doy = 365 then 29 else 28) else if mp \<in> {1, 3, 6, 8} then 30 else 31))"

lemma div_le:
  assumes "0 < (k::int)" "x < k * (a + 1)"
  shows "x div k \<le> a"
proof (rule ccontr)
  assume "\<not> x div k \<le> a"
  then have "k * (a + 1) \<le> k * (x div k)" using assms(1) by (intro mult_left_mono) simp_all
  also have "\<dots> \<le> x" using assms(1) by (simp add: minus_mod_eq_mult_div [symmetric])
  finally show False using assms(2) by simp
qed

lemma le_div: "0 < (k::int) \<Longrightarrow> k * b \<le> x \<Longrightarrow> b \<le> x div k"
  using zdiv_mono1 [of "k * b" x k] by simp

lemma div_bounds: "0 < (k::int) \<Longrightarrow> k * (x div k) \<le> x" "0 < (k::int) \<Longrightarrow> x < k * (x div k) + k"
  using mult_div_mod_eq [of k x] pos_mod_sign [of k x] pos_mod_bound [of k x] by linarith+

lemma doys_ok:
  assumes "0 \<le> doy" "doy \<le> 365"
  shows "doy_ok doy"
proof -
  define mp where "mp = (5 * doy + 2) div 153"
  have b: "153 * mp \<le> 5 * doy + 2" "5 * doy + 2 < 153 * mp + 153" unfolding mp_def by linarith+
  have "0 \<le> mp" "mp \<le> 11" using assms b by simp_all
  then have "mp = 0 \<or> mp = 1 \<or> mp = 2 \<or> mp = 3 \<or> mp = 4 \<or> mp = 5 \<or> mp = 6 \<or> mp = 7 \<or> mp = 8 \<or> mp = 9 \<or> mp = 10 \<or> mp = 11" by presburger
  then show ?thesis unfolding doy_ok_def Let_def mp_def [symmetric] using b assms by (elim disjE) (auto split: if_split)
qed

lemma div_step:
  assumes "0 < (k::int)"
  shows "(x + 1) div k = x div k + (if k dvd x + 1 then 1 else 0)"
proof -
  have x: "x = k * (x div k) + x mod k" "0 \<le> x mod k" "x mod k < k" using assms by simp_all
  show ?thesis
  proof (cases "x mod k = k - 1")
    case True
    then have "x + 1 = k * (x div k + 1)" using x(1) by (simp add: distrib_left)
    then show ?thesis using assms by (metis dvd_triv_left nonzero_mult_div_cancel_left order_less_irrefl)
  next
    case False
    then have lt: "0 \<le> x mod k + 1" "x mod k + 1 < k" using x by simp_all
    have eq: "x + 1 = (x mod k + 1) + k * (x div k)" using x(1) by simp
    have "(x + 1) div k = x div k" "(x + 1) mod k = x mod k + 1"
      unfolding eq div_mult_self2 [OF less_imp_neq [OF assms, symmetric]] mod_mult_self2 using lt by simp_all
    then show ?thesis using lt(1) x(2) by (simp add: dvd_eq_mod_eq_0)
  qed
qed

lemma era_slope_step: "era_slope x \<le> era_slope (x + 1)"
proof -
  have dvd: "(36524::int) dvd x + 1" if "(146096::int) dvd x + 1" using that by (rule dvd_trans [rotated]) simp
  have one: "(x + 1) div 1460 \<le> x div 1460 + 1" using div_step [of 1460 x] by (simp split: if_splits)
  have mono: "x div 36524 \<le> (x + 1) div 36524" by (rule zdiv_mono1) simp_all
  have "(x + 1) div 146096 - x div 146096 \<le> (x + 1) div 36524 - x div 36524"
  proof (cases "146096 dvd x + 1")
    case True
    have "(x + 1) div 146096 = x div 146096 + 1" "(x + 1) div 36524 = x div 36524 + 1"
      by (subst div_step; simp only: True dvd [OF True] if_True zero_less_numeral)+
    then show ?thesis by linarith
  next
    case False
    have "(x + 1) div 146096 = x div 146096 + 0" by (subst div_step) (simp_all only: False if_False zero_less_numeral)
    with mono show ?thesis by linarith
  qed
  with one show ?thesis unfolding era_slope_def by linarith
qed

lemma era_slope_mono: "x \<le> y \<Longrightarrow> era_slope x \<le> era_slope y"
  by (induction y rule: int_ge_induct) (auto intro: order_trans [OF _ era_slope_step])

text \<open>Every day of an era lies in one of its years.\<close>

lemma era_year:
  assumes "0 \<le> doe" "doe < era_start (int n)"
  obtains y where "0 \<le> y" "y < int n" "era_start y \<le> doe" "doe < era_start (y + 1)"
proof -
  have "\<exists>y. 0 \<le> y \<and> y < int n \<and> era_start y \<le> doe \<and> doe < era_start (y + 1)" using assms
  proof (induction n)
    case 0
    then show ?case by (simp add: era_start_def)
  next
    case (Suc n)
    show ?case
    proof (cases "doe < era_start (int n)")
      case True
      with Suc show ?thesis by force
    next
      case False
      then show ?thesis using Suc.prems by (intro exI [of _ "int n"]) (simp add: add.commute)
    qed
  qed
  with that show thesis by blast
qed

lemma era_start_400 [simp]: "era_start 400 = 146097"
  by (simp add: era_start_def)

lemma era_start_step: "era_start (y + 1) = era_start y + (if is_leap (y + 1) then 366 else 365)"
proof -
  let ?i = "\<lambda>k::int. if k dvd y + 1 then 1 else 0 :: int"
  have "(y + 1) div 4 = y div 4 + ?i 4" "(y + 1) div 100 = y div 100 + ?i 100" "(y + 1) div 400 = y div 400 + ?i 400"
    by (rule div_step, simp)+
  then have "era_start (y + 1) = 365 * (y + 1) + (y div 4 + ?i 4) - (y div 100 + ?i 100) + (y div 400 + ?i 400)"
    by (simp only: era_start_def)
  also have "\<dots> = era_start y + (365 + ?i 4 - ?i 100 + ?i 400)" unfolding era_start_def by (simp only: algebra_simps)
  finally have step: "era_start (y + 1) = era_start y + (365 + ?i 4 - ?i 100 + ?i 400)" .
  have "(4::int) dvd y + 1" if "(100::int) dvd y + 1" using that by (rule dvd_trans [rotated]) simp
  moreover have "(100::int) dvd y + 1" if "(400::int) dvd y + 1" using that by (rule dvd_trans [rotated]) simp
  moreover have "is_leap (y + 1) \<longleftrightarrow> 4 dvd y + 1 \<and> (\<not> 100 dvd y + 1 \<or> 400 dvd y + 1)" by (simp add: is_leap_def dvd_eq_mod_eq_0)
  ultimately have "365 + ?i 4 - ?i 100 + ?i 400 = (if is_leap (y + 1) then 366 else 365)"
    by (cases "4 dvd y + 1"; cases "100 dvd y + 1"; cases "400 dvd y + 1") simp_all
  with step show ?thesis by (simp only:)
qed

text \<open>The first and the last day of a year belong to it.\<close>

lemma era_slope_first:
  assumes "0 \<le> y" "y < 400"
  shows "365 * y \<le> era_slope (era_start y)"
proof -
  define A B s where "A = y div 4" and "B = y div 100" and "s = era_start y"
  have q: "4 * A \<le> y" "y < 4 * A + 4" "100 * B \<le> y" unfolding A_def B_def by (rule div_bounds, simp)+
  have d: "25 * B \<le> A" "0 \<le> B" "A \<le> 99" "y div 400 = 0"
    using assms q unfolding A_def B_def by (simp_all add: le_div div_le)
  have s: "s = 365 * y + A - B" using d(4) by (simp add: s_def era_start_def A_def B_def)
  have "s < 1460 * (A + 1)" "36524 * B \<le> s" "s < 146096" using d q assms by (simp_all add: s)
  then have "s div 1460 \<le> A" "B \<le> s div 36524" "s div 146096 \<le> 0" by (simp_all add: div_le le_div)
  then show ?thesis using s by (simp add: era_slope_def s_def)
qed

lemma era_slope_last:
  assumes "0 \<le> y" "y < 400"
  shows "era_slope (era_start (y + 1) - 1) < 365 * (y + 1)"
proof (cases "y + 1 = 400")
  case True
  then have "era_start (y + 1) - 1 = 146096" by simp
  then show ?thesis using True by (simp add: era_slope_def)
next
  case False
  define A B s where "A = (y + 1) div 4" and "B = (y + 1) div 100" and "s = era_start (y + 1) - 1"
  have q: "4 * A \<le> y + 1" "y + 1 < 100 * B + 100" "100 * B \<le> y + 1" unfolding A_def B_def by (rule div_bounds, simp)+
  have d: "A \<le> 25 * B + 24" "25 * B \<le> A" "0 \<le> B" "(y + 1) div 400 = 0"
    using assms False q unfolding A_def B_def by (simp_all add: le_div div_le)
  have s: "s = 365 * (y + 1) + A - B - 1" using d(4) by (simp add: s_def era_start_def A_def B_def)
  have "s < 36524 * (B + 1)" "0 \<le> s" using d q assms by (simp_all add: s)
  then have r: "s div 36524 \<le> B" "0 \<le> s div 146096" "0 \<le> s div 1460" by (simp_all add: div_le)
  have "A \<le> s div 1460" if "1 \<le> A"
  proof -
    have "B + 1 \<le> A" using d(2,3) that by (cases "B = 0") simp_all
    then show ?thesis using q(1) by (intro le_div) (simp_all add: s)
  qed
  with r d(2,3) s have "s - s div 1460 + s div 36524 - s div 146096 < 365 * (y + 1)" by linarith
  then show ?thesis by (simp add: era_slope_def s_def)
qed

lemma civil_year:
  assumes "0 \<le> doe" "doe < 146097"
  obtains y where "era_slope doe div 365 = y" "0 \<le> y" "y < 400" "0 \<le> doe - era_start y" "doe - era_start y \<le> 365"
    "doe - era_start y = 365 \<longrightarrow> is_leap (y + 1)" "era_start y = 365 * y + y div 4 - y div 100"
proof -
  obtain y where y: "0 \<le> y" "y < 400" "era_start y \<le> doe" "doe < era_start (y + 1)"
    using era_year [of doe 400] assms by auto
  have "365 * y \<le> era_slope doe" "era_slope doe < 365 * (y + 1)"
    using order_trans [OF era_slope_first era_slope_mono] le_less_trans [OF era_slope_mono era_slope_last] y by simp_all
  then have "era_slope doe div 365 = y" by (intro order_antisym) (simp_all add: le_div div_le)
  moreover have "y div 400 = 0" using y(1,2) by simp
  ultimately show thesis using y era_start_step [of y]
    by (intro that [of y]) (simp_all add: era_start_def [of y] split: if_splits)
qed

text \<open>The date of a day is a date of the calendar, and its day is that day.\<close>

lemma civil_of_days:
  assumes "civil_of_days days = (y, m, d)"
  shows "1 \<le> m \<and> m \<le> 12 \<and> 1 \<le> d \<and> d \<le> days_in m y \<and> days_of_civil y m d = days"
proof -
  define z where "z = days + 719468"
  define era where "era = z div 146097"
  define doe where "doe = z mod 146097"
  have z: "z = era * 146097 + doe" by (simp add: era_def doe_def)
  have doe: "0 \<le> doe" "doe < 146097" by (simp_all add: doe_def)
  obtain yoe where yoe: "era_slope doe div 365 = yoe" "0 \<le> yoe" "yoe < 400" "0 \<le> doe - era_start yoe" "doe - era_start yoe \<le> 365"
    "doe - era_start yoe = 365 \<longrightarrow> is_leap (yoe + 1)" "era_start yoe = 365 * yoe + yoe div 4 - yoe div 100"
    by (rule civil_year [OF doe])
  define doy where "doy = doe - era_start yoe"
  define mp where  "mp = (5 * doy + 2) div 153"
  have dy: "0 \<le> doy" "doy \<le> 365" "doy = 365 \<Longrightarrow> is_leap (yoe + 1)" using yoe(4-6) by (simp_all add: doy_def)
  have slope: "(doe - doe div 1460 + doe div 36524 - doe div 146096) div 365 = yoe" using yoe(1) by (simp only: era_slope_def)
  have "(y, m, d) = (yoe + era * 400 + (if (if mp < 10 then mp + 3 else mp - 9) \<le> 2 then 1 else 0), if mp < 10 then mp + 3 else mp - 9,
      doy - (153 * mp + 2) div 5 + 1)"
    unfolding assms [symmetric] civil_of_days_def Let_def z_def [symmetric] era_def [symmetric] doe_def [symmetric] slope
      yoe(7) [symmetric] doy_def [symmetric] mp_def [symmetric] ..
  then have ymd: "m = (if mp < 10 then mp + 3 else mp - 9)" "y = yoe + era * 400 + (if m \<le> 2 then 1 else 0)" "d = doy - (153 * mp + 2) div 5 + 1"
    by simp_all
  have ok: "0 \<le> mp" "mp \<le> 11" "1 \<le> d"
    "d \<le> (if mp = 11 then (if doy = 365 then 29 else 28) else if mp \<in> {1, 3, 6, 8} then 30 else 31)"
    using doys_ok [OF dy(1,2)] unfolding doy_ok_def Let_def mp_def [symmetric] ymd(3) [symmetric] by blast+
  have leap: "is_leap (yoe + era * 400 + 1) \<longleftrightarrow> is_leap (yoe + 1)"
  proof -
    have "(yoe + era * 400 + 1) mod 4 = (yoe + 1) mod 4" using mod_mult_self2 [of "yoe + 1" 4 "100 * era"] by (simp add: algebra_simps)
    moreover have "(yoe + era * 400 + 1) mod 100 = (yoe + 1) mod 100" using mod_mult_self2 [of "yoe + 1" 100 "4 * era"] by (simp add: algebra_simps)
    moreover have "(yoe + era * 400 + 1) mod 400 = (yoe + 1) mod 400" using mod_mult_self2 [of "yoe + 1" 400 era] by (simp add: algebra_simps)
    ultimately show ?thesis unfolding is_leap_def by simp
  qed
  have "m = 2 \<longleftrightarrow> mp = 11" "m \<in> {4, 6, 9, 11} \<longleftrightarrow> mp \<in> {1, 3, 6, 8}" using ok(1,2) by (auto simp: ymd(1))
  then have len: "d \<le> days_in m y" using ok(4) dy(3) leap ymd(2) by (auto simp: days_in_def split: if_splits)
  have y': "(if m \<le> 2 then y - 1 else y) = yoe + era * 400" using ymd(2) by simp
  have month: "(if m > 2 then m - 3 else m + 9) = mp" using ok(1,2) by (auto simp: ymd(1))
  have "days_of_civil y m d = era * 146097 + (era_start yoe + doy) - 719468"
    unfolding days_of_civil_def Let_def y' month yoe(7) using yoe(2,3) by (simp add: ymd(3))
  also have "\<dots> = days" using z by (simp add: doy_def z_def)
  finally show ?thesis using ok len by (auto simp: ymd(1))
qed

section \<open>The text form\<close>

lemma is_digit_digit_char: "n < 10 \<Longrightarrow> is_digit (digit_char n)"
  by (simp add: is_digit_def digit_char_def)

lemma read_nat_zeros: "read_nat (replicate k CHR ''0'' @ ds) = read_nat ds"
  by (induction k) (simp_all add: read_nat_def char_digit_def)

lemma pad:
  assumes "0 \<le> n" "n < 10 ^ Suc w"
  shows "length (pad (Suc w) n) = Suc w" "list_all is_digit (pad (Suc w) n)" "read_nat (pad (Suc w) n) = nat n"
proof -
  have "nat n < 10 ^ Suc w" using assms by (simp add: nat_less_iff)
  from length_show_nat [OF this] show "length (pad (Suc w) n) = Suc w" by (simp add: pad_def Let_def)
  have "list_all is_digit (show_nat (nat n))" using show_nat_chars [of "nat n"] by (auto simp: list_all_iff is_digit_digit_char)
  moreover have "is_digit CHR ''0''" by (simp add: is_digit_def)
  ultimately show "list_all is_digit (pad (Suc w) n)" by (auto simp: pad_def Let_def list_all_iff)
  show "read_nat (pad (Suc w) n) = nat n" by (simp add: pad_def Let_def read_nat_zeros)
qed

lemma pad_2:
  assumes "0 \<le> n" "n \<le> hi" "hi < 100"
  obtains a b where "pad 2 n = [a, b]" "is_digit a" "is_digit b" "int (read_nat [a, b]) = n"
proof -
  have "length (pad 2 n) = 2" "list_all is_digit (pad 2 n)" "read_nat (pad 2 n) = nat n"
    using pad [of n 1] assms by (simp_all add: numeral_2_eq_2)
  with assms(1) that show thesis by (auto simp: numeral_2_eq_2 length_Suc_conv)
qed

lemma pad_4:
  assumes "0 \<le> n" "n \<le> 9999"
  obtains a b c d where "pad 4 n = [a, b, c, d]" "is_digit a" "is_digit b" "is_digit c" "is_digit d" "int (read_nat [a, b, c, d]) = n"
proof -
  have "length (pad 4 n) = 4" "list_all is_digit (pad 4 n)" "read_nat (pad 4 n) = nat n"
    using pad [of n 3] assms by (simp_all add: eval_nat_numeral)
  with assms(1) that show thesis by (auto simp: eval_nat_numeral length_Suc_conv)
qed

lemma digits_at_2:
  "drop i s = a # b # r \<Longrightarrow> is_digit a \<Longrightarrow> is_digit b \<Longrightarrow> int (read_nat [a, b]) = v \<Longrightarrow> lo \<le> v \<Longrightarrow> v \<le> hi \<Longrightarrow> digits_at i 2 lo hi s = Some v"
  by (simp add: digits_at_def Let_def)

text \<open>What \<^verbatim>\<open>UnmarshalJSON\<close> makes of the rest after the seconds.\<close>

lemma fraction_read:
  assumes "0 \<le> ns" "ns < second"
  shows "let rest = fraction ns @ ''Z'';
      frac = (if char_at 0 rest CHR ''.'' then takeWhile is_digit (drop 1 rest) else []);
      zone = (if frac = [] then rest else drop (1 + length frac) rest)
    in zone = ''Z'' \<and> nanoseconds frac = ns"
proof (cases "ns = 0")
  case True
  then show ?thesis using read_nat_zeros [of 9 "[]"] by (simp add: fraction_def char_at_def nanoseconds_def read_nat_def)
next
  case False
  let ?z = "\<lambda>c. c = CHR ''0''"
  let ?ds = "rev (dropWhile ?z (rev (pad 9 ns)))" and ?k = "length (takeWhile ?z (rev (pad 9 ns)))"
  have p: "length (pad 9 ns) = 9" "list_all is_digit (pad 9 ns)" "read_nat (pad 9 ns) = nat ns"
    using pad [of ns 8] assms by (simp_all add: second_def)
  have "takeWhile ?z (rev (pad 9 ns)) = replicate ?k CHR ''0''"
    by (rule replicate_length_same [symmetric]) (auto dest: set_takeWhileD)
  then have split: "pad 9 ns = ?ds @ replicate ?k CHR ''0''"
    by (metis rev_append rev_replicate rev_rev_ident takeWhile_dropWhile_id)
  have "?ds \<noteq> []"
  proof
    assume "?ds = []"
    with split have "read_nat (pad 9 ns) = 0" using read_nat_zeros [of ?k "[]"] by (simp add: read_nat_def)
    with p(3) False assms(1) show False by simp
  qed
  moreover have "list_all is_digit ?ds" using p(2) split by (metis list_all_append)
  then have "takeWhile is_digit (?ds @ ''Z'') = ?ds" by (simp add: list_all_iff takeWhile_append is_digit_def)
  moreover have "length ?ds + ?k = 9" using arg_cong [OF split, of length] p(1) by simp
  then have "nanoseconds ?ds = ns"
    using p(3) split assms(1) by (simp add: nanoseconds_def) (metis add_diff_cancel_left' int_nat_eq)
  ultimately show ?thesis using False by (simp add: fraction_def char_at_def)
qed

lemma time_roundtrip:
  assumes "format_time t = Some s"
  shows "parse_time s = Some t"
proof -
  define secs where "secs = t div second"
  define sod where "sod = secs mod 86400"
  obtain y m d where c: "civil_of_days (secs div 86400) = (y, m, d)" by (metis prod_cases3)
  note date = civil_of_days [OF c]
  have y: "0 \<le> y" "y \<le> 9999" and s: "s = pad 4 y @ ''-'' @ pad 2 m @ ''-'' @ pad 2 d @ ''T'' @ pad 2 (sod div 3600) @ '':''
           @ pad 2 (sod mod 3600 div 60) @ '':'' @ pad 2 (sod mod 60) @ fraction (t mod second) @ ''Z''"
    using assms c by (auto simp: format_time_def Let_def secs_def sod_def split: if_splits)
  have sod: "0 \<le> sod" "sod < 86400" by (simp_all add: sod_def)
  have d31: "d \<le> 31" using date by (auto simp: days_in_def split: if_splits)
  have r: "0 \<le> sod div 3600" "sod div 3600 \<le> 23" "0 \<le> sod mod 3600 div 60" "sod mod 3600 div 60 \<le> 59" "0 \<le> sod mod 60" "sod mod 60 \<le> 59"
    using sod by auto
  obtain y1 y2 y3 y4 where Y: "pad 4 y = [y1, y2, y3, y4]" "is_digit y1" "is_digit y2" "is_digit y3" "is_digit y4" "int (read_nat [y1, y2, y3, y4]) = y"
    by (rule pad_4 [OF y])
  obtain m1 m2 where M: "pad 2 m = [m1, m2]" "is_digit m1" "is_digit m2" "int (read_nat [m1, m2]) = m" by (rule pad_2 [of m 12]) (use date in simp_all)
  obtain d1 d2 where D: "pad 2 d = [d1, d2]" "is_digit d1" "is_digit d2" "int (read_nat [d1, d2]) = d" by (rule pad_2 [of d 31]) (use date d31 in simp_all)
  obtain h1 h2 where H: "pad 2 (sod div 3600) = [h1, h2]" "is_digit h1" "is_digit h2" "int (read_nat [h1, h2]) = sod div 3600"
    by (rule pad_2 [OF r(1,2)]) simp_all
  obtain i1 i2 where I: "pad 2 (sod mod 3600 div 60) = [i1, i2]" "is_digit i1" "is_digit i2" "int (read_nat [i1, i2]) = sod mod 3600 div 60"
    by (rule pad_2 [OF r(3,4)]) simp_all
  obtain s1 s2 where S: "pad 2 (sod mod 60) = [s1, s2]" "is_digit s1" "is_digit s2" "int (read_nat [s1, s2]) = sod mod 60"
    by (rule pad_2 [OF r(5,6)]) simp_all
  have ns: "0 \<le> t mod second" "t mod second < second" by (simp_all add: second_def)
  note frac = fraction_read [OF ns, unfolded Let_def]
  have zone: "parse_zone ''Z'' = Some 0" by (simp add: parse_zone_def)
  have shape: "s = [y1, y2, y3, y4, CHR ''-'', m1, m2, CHR ''-'', d1, d2, CHR ''T'', h1, h2, CHR '':'', i1, i2, CHR '':'', s1, s2]
      @ fraction (t mod second) @ ''Z''"
    by (simp add: s Y(1) M(1) D(1) H(1) I(1) S(1))
  have marks: "char_at 4 s CHR ''-'' \<and> char_at 7 s CHR ''-'' \<and> char_at 10 s CHR ''T'' \<and> char_at 13 s CHR '':'' \<and> char_at 16 s CHR '':''"
    by (simp add: shape char_at_def)
  have year: "digits_at 0 4 0 9999 s = Some y" using Y(2-) y by (simp add: shape digits_at_def Let_def)
  have month: "digits_at 5 2 1 12 s = Some m" by (rule digits_at_2 [OF _ M(2-4)]) (use date in \<open>simp_all add: shape\<close>)
  have day: "digits_at 8 2 1 (days_in m y) s = Some d" by (rule digits_at_2 [OF _ D(2-4)]) (use date in \<open>simp_all add: shape\<close>)
  have hours: "digits_at 11 2 0 23 s = Some (sod div 3600)" by (rule digits_at_2 [OF _ H(2-4) r(1,2)]) (simp add: shape)
  have minutes: "digits_at 14 2 0 59 s = Some (sod mod 3600 div 60)" by (rule digits_at_2 [OF _ I(2-4) r(3,4)]) (simp add: shape)
  have seconds: "digits_at 17 2 0 59 s = Some (sod mod 60)" by (rule digits_at_2 [OF _ S(2-4) r(5,6)]) (simp add: shape)
  have rest: "drop 19 s = fraction (t mod second) @ ''Z''" by (simp add: shape)
  have "(days_of_civil y m d * 86400 + sod div 3600 * 3600 + sod mod 3600 div 60 * 60 + sod mod 60 - 0) * second + t mod second = t"
  proof -
    have "sod mod 3600 mod 60 = sod mod 60" by (rule mod_mod_cancel) simp
    then have "sod mod 3600 div 60 * 60 + sod mod 60 = sod mod 3600" using div_mult_mod_eq [of "sod mod 3600" 60] by simp
    moreover have "days_of_civil y m d * 86400 + sod = secs" using date by (simp add: sod_def)
    ultimately have "days_of_civil y m d * 86400 + sod div 3600 * 3600 + sod mod 3600 div 60 * 60 + sod mod 60 = secs"
      by (simp only: add.assoc div_mult_mod_eq)
    then show ?thesis by (simp add: secs_def)
  qed
  with frac show ?thesis unfolding parse_time_def if_P [OF marks] rest year month hours minutes seconds
    by (simp add: day Let_def zone)
qed

end
