(* ===== verification/Credit_Protocol.thy ===== *)
theory Credit_Protocol
  imports Credit_Progress Credit_Results Outbox_Delivery Time_Roundtrip
begin

text \<open>
  The protocol between order-service and credit-service: what one writes, the other reads. A command is
  encoded by order-service (\<^verbatim>\<open>CreditCommand\<close>, \<^verbatim>\<open>encode\<close>), stored and published,
  decoded and executed by credit-service, whose result is stored, published and decoded by order-service.
  Both outboxes keep their payloads in \<^verbatim>\<open>jsonb\<close> columns, which may put the keys of an object in
  another order: \<open>same_json\<close> compares values up to that.
\<close>

section \<open>JSON objects up to the order of their keys\<close>

fun sorted_json :: "json \<Rightarrow> json" where
  "sorted_json (JObj fs) = JObj (sort_key fst (map (\<lambda>(k, v). (k, sorted_json v)) fs))"
| "sorted_json (JArr js) = JArr (map sorted_json js)"
| "sorted_json j = j"

definition same_json :: "json \<Rightarrow> json \<Rightarrow> bool" where
  "same_json a b \<longleftrightarrow> sorted_json a = sorted_json b"

lemma same_json_refl [simp]: "same_json j j"
  by (simp add: same_json_def)

definition read_fields :: "(json \<Rightarrow> 'a \<Rightarrow> 'a) \<Rightarrow> 'a \<Rightarrow> string \<Rightarrow> (string \<times> json) list \<Rightarrow> 'a" where
  "read_fields step init name fs = foldl (\<lambda>acc (k, v). if field_matches name k then step v acc else acc) init fs"

abbreviation matching :: "string \<Rightarrow> (string \<times> json) list \<Rightarrow> (string \<times> json) list" where
  "matching name fs \<equiv> filter (\<lambda>(k, v). field_matches name k) fs"

lemma read_fields_matching: "read_fields step init name fs = foldl (\<lambda>acc (k, v). step v acc) init (matching name fs)"
  by (induction fs arbitrary: init) (auto simp: read_fields_def)

lemma field_readers:
  "string_field = read_fields set_string (Some [])" "int_field = read_fields set_int (Some 0)"
  "time_field = read_fields set_time (Some zero_time)" "raw_field = read_fields (\<lambda>v _. Some v) None"
  by (simp_all add: fun_eq_iff string_field_def int_field_def time_field_def raw_field_def read_fields_def)

lemma same_json_object:
  assumes "same_json j (JObj fs)"
  obtains gs where "j = JObj gs" "mset (map (\<lambda>(k, v). (k, sorted_json v)) gs) = mset (map (\<lambda>(k, v). (k, sorted_json v)) fs)"
proof (cases j)
  case (JObj gs)
  with assms have "sort_key fst (map (\<lambda>(k, v). (k, sorted_json v)) gs) = sort_key fst (map (\<lambda>(k, v). (k, sorted_json v)) fs)"
    by (simp add: same_json_def)
  from arg_cong [OF this, of mset] JObj that show thesis by simp
qed (use assms in \<open>simp_all add: same_json_def\<close>)

text \<open>A key that occurs once is read alike from both.\<close>

lemma matching_same:
  assumes "mset (map (\<lambda>(k, v). (k, sorted_json v)) gs) = mset (map (\<lambda>(k, v). (k, sorted_json v)) fs)" "length (matching name fs) \<le> 1"
  shows "map (\<lambda>(k, v). (k, sorted_json v)) (matching name gs) = map (\<lambda>(k, v). (k, sorted_json v)) (matching name fs)"
proof -
  let ?s = "map (\<lambda>(k, v). (k, sorted_json v))" and ?P = "\<lambda>(k, v). field_matches name k"
  have move: "?s (matching name xs) = matching name (?s xs)" for xs by (induction xs) auto
  have "mset (matching name (?s gs)) = mset (matching name (?s fs))" using assms(1) by simp
  then have m: "mset (?s (matching name gs)) = mset (?s (matching name fs))" by (simp only: move)
  then have "length (matching name gs) = length (matching name fs)" by (metis length_map size_mset)
  with m assms(2) show ?thesis
    by (cases "matching name fs"; cases "matching name gs") (auto simp del: filter_eq_Cons_iff)
qed

lemma set_string_sorted [simp]: "set_string (sorted_json v) acc = set_string v acc"
  by (cases v; cases acc; simp)

lemma set_int_sorted [simp]: "set_int (sorted_json v) acc = set_int v acc"
  by (cases v; cases acc; simp)

lemma set_time_sorted [simp]: "set_time (sorted_json v) acc = set_time v acc"
  by (cases v; cases acc; simp)

lemma same_fields:
  assumes "mset (map (\<lambda>(k, v). (k, sorted_json v)) gs) = mset (map (\<lambda>(k, v). (k, sorted_json v)) fs)" "length (matching name fs) \<le> 1"
  shows "string_field name gs = string_field name fs" "int_field name gs = int_field name fs" "time_field name gs = time_field name fs"
    "rel_option same_json (raw_field name gs) (raw_field name fs)"
proof -
  note m = matching_same [OF assms]
  have eq: "read_fields step init name gs = read_fields step init name fs" if "\<And>v acc. step (sorted_json v) acc = step v acc" for step init
  proof -
    have "foldl (\<lambda>acc (k, v). step v acc) init (map (\<lambda>(k, v). (k, sorted_json v)) xs) = foldl (\<lambda>acc (k, v). step v acc) init xs" for xs
      by (induction xs arbitrary: init) (auto simp: that)
    then show ?thesis unfolding read_fields_matching by (metis m)
  qed
  show "string_field name gs = string_field name fs" "int_field name gs = int_field name fs" "time_field name gs = time_field name fs"
    unfolding field_readers by (rule eq, simp)+
  show "rel_option same_json (raw_field name gs) (raw_field name fs)"
    using m assms(2) unfolding field_readers read_fields_matching
    by (cases "matching name fs"; cases "matching name gs") (auto simp: same_json_def simp del: filter_eq_Cons_iff)
qed

text \<open>The keys of the protocol's objects match only themselves.\<close>

definition field_names :: "string list" where
  "field_names = [''messageId'', ''correlationId'', ''type'', ''occurredAt'', ''errandId'', ''errandVersion'', ''data'', ''requesterId'',
     ''courierId'', ''amount'', ''newAmount'', ''seq'', ''code'']"

lemma field_matches_names:
  assumes "a \<in> set field_names" "b \<in> set field_names"
  shows "field_matches a b \<longleftrightarrow> a = b"
proof -
  have "distinct (map to_lower field_names)" by code_simp
  then have "inj_on to_lower (set field_names)" by (simp only: distinct_map)
  with assms show ?thesis by (auto simp: field_matches_def dest: inj_onD)
qed

definition named :: "(string \<times> json) list \<Rightarrow> bool" where
  "named fs \<longleftrightarrow> distinct (map fst fs) \<and> set (map fst fs) \<subseteq> set field_names"

lemma matching_named:
  assumes "named fs" "name \<in> set field_names"
  shows "matching name fs = (case map_of fs name of None \<Rightarrow> [] | Some v \<Rightarrow> [(name, v)])"
  using assms(1)
proof (induction fs)
  case (Cons kv fs)
  obtain k v where kv: "kv = (k, v)" by fastforce
  with Cons.prems have k: "k \<in> set field_names" "k \<notin> fst ` set fs" and "named fs" by (simp_all add: named_def)
  with Cons.IH kv assms(2) show ?case by (auto simp: field_matches_names map_of_eq_None_iff [symmetric])
qed simp

text \<open>What is read from an object that holds the values \<open>m\<close>, in any order.\<close>

definition reads :: "(string \<times> json) list \<Rightarrow> (string \<Rightarrow> json option) \<Rightarrow> bool" where
  "reads gs m \<longleftrightarrow> (\<forall>name \<in> set field_names.
     string_field name gs = (case m name of None \<Rightarrow> Some [] | Some v \<Rightarrow> set_string v (Some []))
     \<and> int_field name gs = (case m name of None \<Rightarrow> Some 0 | Some v \<Rightarrow> set_int v (Some 0))
     \<and> time_field name gs = (case m name of None \<Rightarrow> Some zero_time | Some v \<Rightarrow> set_time v (Some zero_time))
     \<and> rel_option same_json (raw_field name gs) (m name))"

lemma readsD:
  assumes "reads gs m" "name \<in> set field_names"
  shows "string_field name gs = (case m name of None \<Rightarrow> Some [] | Some v \<Rightarrow> set_string v (Some []))"
    "int_field name gs = (case m name of None \<Rightarrow> Some 0 | Some v \<Rightarrow> set_int v (Some 0))"
    "time_field name gs = (case m name of None \<Rightarrow> Some zero_time | Some v \<Rightarrow> set_time v (Some zero_time))"
    "rel_option same_json (raw_field name gs) (m name)"
  using assms by (simp_all add: reads_def)

lemma object_read:
  assumes "same_json j (JObj fs)" "named fs"
  obtains gs where "j = JObj gs" "reads gs (map_of fs)"
proof -
  obtain gs where gs: "j = JObj gs" "mset (map (\<lambda>(k, v). (k, sorted_json v)) gs) = mset (map (\<lambda>(k, v). (k, sorted_json v)) fs)"
    by (rule same_json_object [OF assms(1)])
  have "reads gs (map_of fs)" unfolding reads_def
  proof
    fix name
    assume n: "name \<in> set field_names"
    note m = matching_named [OF assms(2) n]
    then have "length (matching name fs) \<le> 1" by (simp split: option.split)
    from same_fields [OF gs(2) this]
    show "string_field name gs = (case map_of fs name of None \<Rightarrow> Some [] | Some v \<Rightarrow> set_string v (Some []))
      \<and> int_field name gs = (case map_of fs name of None \<Rightarrow> Some 0 | Some v \<Rightarrow> set_int v (Some 0))
      \<and> time_field name gs = (case map_of fs name of None \<Rightarrow> Some zero_time | Some v \<Rightarrow> set_time v (Some zero_time))
      \<and> rel_option same_json (raw_field name gs) (map_of fs name)"
      unfolding field_readers read_fields_matching m by (auto split: option.splits)
  qed
  with gs(1) that show thesis by blast
qed

lemma map_of_omit [simp]:
  "map_of (omit_empty_str k s) x = (if x = k \<and> s \<noteq> [] then Some (JStr s) else None)"
  "map_of (omit_empty_num k n) x = (if x = k \<and> n \<noteq> 0 then Some (JNum n) else None)"
  by (simp_all add: omit_empty_str_def omit_empty_num_def)

lemma fst_omit [simp]:
  "map fst (omit_empty_str k s) = (if s = [] then [] else [k])" "map fst (omit_empty_num k n) = (if n = 0 then [] else [k])"
  by (simp_all add: omit_empty_str_def omit_empty_num_def)

section \<open>Envelopes\<close>

lemma envelope_read:
  assumes "envelope_to_json e = Some j" "same_json j' j" "in_int64 (env_errand_version e)" "env_data e = Some d"
  obtains d' where "envelope_of_json j' = Some (e\<lparr>env_data := Some d'\<rparr>)" "same_json d' d"
proof -
  obtain at where at: "format_time (env_occurred_at e) = Some at" using assms(1) by (auto simp: envelope_to_json_def split: option.splits)
  let ?fs = "[(''messageId'', JStr (env_message_id e))] @ omit_empty_str ''correlationId'' (env_correlation_id e)
           @ [(''type'', JStr (env_type e)), (''occurredAt'', JStr at), (''errandId'', JStr (env_errand_id e)),
              (''errandVersion'', JNum (env_errand_version e)), (''data'', d)]"
  have j: "j = JObj ?fs" using assms(1,4) at by (simp add: envelope_to_json_def)
  have "named ?fs" by (simp add: named_def field_names_def)
  with assms(2) obtain gs where gs: "j' = JObj gs" "reads gs (map_of ?fs)" unfolding j by (rule object_read)
  note rd = readsD [OF gs(2)]
  have "rel_option same_json (raw_field ''data'' gs) (Some d)" using rd(4) [of "''data''"] by (simp add: field_names_def map_add_def)
  then obtain d' where d': "raw_field ''data'' gs = Some d'" "same_json d' d" by (auto simp: option_rel_Some2)
  have "parse_time at = Some (env_occurred_at e)" by (rule time_roundtrip [OF at])
  then have "envelope_of_json j' = Some (e\<lparr>env_data := Some d'\<rparr>)"
    using rd(1) [of "''messageId''"] rd(1) [of "''correlationId''"] rd(1) [of "''type''"] rd(1) [of "''errandId''"]
      rd(2) [of "''errandVersion''"] rd(3) [of "''occurredAt''"] d'(1) assms(3)
    by (simp add: envelope_of_json_def struct_fields_def gs(1) field_names_def map_add_def)
  with d'(2) that show thesis by blast
qed

section \<open>Commands\<close>

definition command_fields :: "credit_command \<Rightarrow> (string \<times> json) list" where
  "command_fields c = [(''errandId'', JStr (cc_errand_id c)), (''errandVersion'', JNum (cc_errand_version c)), (''requesterId'', JStr (cc_requester_id c))]
     @ omit_empty_str ''courierId'' (cc_courier_id c) @ omit_empty_num ''amount'' (cc_amount c)
     @ omit_empty_num ''newAmount'' (cc_new_amount c) @ omit_empty_num ''seq'' (cc_seq c)"

text \<open>The body \<^verbatim>\<open>encode\<close> makes of a message that carries a credit command.\<close>

definition command_body :: "message \<Rightarrow> credit_command \<Rightarrow> json option" where
  "command_body m c =
     (if encodes m then envelope_to_json \<lparr>env_message_id = m_message_id m, env_correlation_id = m_correlation_id m, env_type = m_type m,
        env_occurred_at = m_occurred_at m, env_errand_id = m_errand_id m, env_errand_version = m_errand_version m,
        env_data = Some (JObj (command_fields c))\<rparr>
      else None)"

definition go_command :: "credit_command \<Rightarrow> bool" where
  "go_command c \<longleftrightarrow> in_int64 (cc_errand_version c) \<and> in_int64 (cc_amount c) \<and> in_int64 (cc_new_amount c) \<and> in_int64 (cc_seq c)"

text \<open>The command credit-service should read.\<close>

definition sent_command :: "string \<Rightarrow> credit_command \<Rightarrow> command" where
  "sent_command rk c =
     (if rk = kind_credit_reserve then Reserve \<lparr>rc_order_id = cc_errand_id c, rc_errand_version = cc_errand_version c,
        rc_requester_subject = cc_requester_id c, rc_amount = cc_amount c\<rparr>
      else if rk = kind_credit_adjust then Adjust \<lparr>ac_order_id = cc_errand_id c, ac_errand_version = cc_errand_version c,
        ac_requester_subject = cc_requester_id c, ac_new_amount = cc_new_amount c, ac_seq = cc_seq c\<rparr>
      else if rk = kind_credit_release then Release \<lparr>lc_order_id = cc_errand_id c, lc_errand_version = cc_errand_version c,
        lc_requester_subject = cc_requester_id c\<rparr>
      else Transfer \<lparr>tc_order_id = cc_errand_id c, tc_errand_version = cc_errand_version c, tc_requester_subject = cc_requester_id c,
        tc_courier_subject = cc_courier_id c, tc_amount = cc_amount c\<rparr>)"

lemma kind_command [simp]: "command_reserve = kind_credit_reserve" "command_adjust = kind_credit_adjust" "command_release = kind_credit_release"
  "command_transfer = kind_credit_transfer"
  by (simp_all add: command_defs kind_credit_reserve_def kind_credit_adjust_def kind_credit_release_def kind_credit_transfer_def)

lemma command_read:
  assumes "go_command c" "same_json d (JObj (command_fields c))"
  obtains gs where "d = JObj gs" "string_field ''errandId'' gs = Some (cc_errand_id c)" "int_field ''errandVersion'' gs = Some (cc_errand_version c)"
    "string_field ''requesterId'' gs = Some (cc_requester_id c)" "string_field ''courierId'' gs = Some (cc_courier_id c)"
    "int_field ''amount'' gs = Some (cc_amount c)" "int_field ''newAmount'' gs = Some (cc_new_amount c)" "int_field ''seq'' gs = Some (cc_seq c)"
proof -
  have "named (command_fields c)" by (simp add: named_def field_names_def command_fields_def)
  with assms(2) obtain gs where gs: "d = JObj gs" "reads gs (map_of (command_fields c))" by (rule object_read)
  note rd = readsD [OF gs(2)]
  have zero: "in_int64 0" by (simp add: in_int64_def int64_min_def int64_max_def)
  have m: "map_of (command_fields c) ''errandId'' = Some (JStr (cc_errand_id c))"
    "map_of (command_fields c) ''errandVersion'' = Some (JNum (cc_errand_version c))"
    "map_of (command_fields c) ''requesterId'' = Some (JStr (cc_requester_id c))"
    "map_of (command_fields c) ''courierId'' = (if cc_courier_id c \<noteq> [] then Some (JStr (cc_courier_id c)) else None)"
    "map_of (command_fields c) ''amount'' = (if cc_amount c \<noteq> 0 then Some (JNum (cc_amount c)) else None)"
    "map_of (command_fields c) ''newAmount'' = (if cc_new_amount c \<noteq> 0 then Some (JNum (cc_new_amount c)) else None)"
    "map_of (command_fields c) ''seq'' = (if cc_seq c \<noteq> 0 then Some (JNum (cc_seq c)) else None)"
    by (simp_all add: command_fields_def map_add_def)
  show thesis
    by (rule that [OF gs(1)])
      (use assms(1) in \<open>simp_all add: rd field_names_def m go_command_def\<close>)
qed

lemma decode_data_read:
  "env_data en = Some (JObj gs) \<Longrightarrow> string_field ''errandId'' gs = Some (env_errand_id en) \<Longrightarrow>
   int_field ''errandVersion'' gs = Some (env_errand_version en) \<Longrightarrow>
   decode_data en get = (case get gs of None \<Rightarrow> Inl Undecodable | Some x \<Rightarrow> Inr x)"
  by (simp add: decode_data_def struct_fields_def equal_fold_def split: option.split)

text \<open>Credit-service reads from the body of a published command what order-service put there.\<close>

lemma command_decoded:
  assumes body: "command_body m c = Some body" "m_data m = CreditPayload c" "m_exchange m = exchange_commands" and go: "go_command c"
    and same: "same_json body' body"
  obtains en where "decode_envelope (m_routing_key m) (Some body') = Inr en" "env_message_id en = m_message_id m"
    "decode_command (m_routing_key m) en = Inr (sent_command (m_routing_key m) c)"
proof -
  have enc: "encodes m" using body(1) by (simp add: command_body_def split: if_splits)
  then have cmd: "m_routing_key m \<in> set credit_commands" "cc_errand_id c = m_errand_id m" "cc_errand_version c = m_errand_version m"
    and head: "m_type m = m_routing_key m" "m_message_id m \<noteq> []" "m_errand_id m \<noteq> []" "1 \<le> m_errand_version m"
    using body(2,3) by (auto simp: encodes_def valid_route_def valid_command_def Let_def exchange_commands_def exchange_events_def)
  let ?e = "\<lparr>env_message_id = m_message_id m, env_correlation_id = m_correlation_id m, env_type = m_type m,
        env_occurred_at = m_occurred_at m, env_errand_id = m_errand_id m, env_errand_version = m_errand_version m,
        env_data = Some (JObj (command_fields c))\<rparr>"
  have js: "envelope_to_json ?e = Some body" using body(1) enc by (simp add: command_body_def)
  have "in_int64 (env_errand_version ?e)" using go cmd(3) by (simp add: go_command_def)
  then obtain d where d: "envelope_of_json body' = Some (?e\<lparr>env_data := Some d\<rparr>)" "same_json d (JObj (command_fields c))"
    by (rule envelope_read [OF js same]) simp_all
  obtain gs where gs: "d = JObj gs" "string_field ''errandId'' gs = Some (cc_errand_id c)" "int_field ''errandVersion'' gs = Some (cc_errand_version c)"
    "string_field ''requesterId'' gs = Some (cc_requester_id c)" "string_field ''courierId'' gs = Some (cc_courier_id c)"
    "int_field ''amount'' gs = Some (cc_amount c)" "int_field ''newAmount'' gs = Some (cc_new_amount c)" "int_field ''seq'' gs = Some (cc_seq c)"
    by (rule command_read [OF go d(2)])
  let ?en = "?e\<lparr>env_data := Some d\<rparr>"
  have dec: "decode_envelope (m_routing_key m) (Some body') = Inr ?en" using d(1) head by (simp add: decode_envelope_def)
  note data = decode_data_read [of _ gs]
  have "decode_command (m_routing_key m) ?en = Inr (sent_command (m_routing_key m) c)"
    using cmd gs by (auto simp: decode_command_def data reserve_data_def adjust_data_def release_data_def transfer_data_def pair_option_def
        sent_command_def credit_commands_def)
  with dec show thesis by (intro that) simp_all
qed

section \<open>Results\<close>

text \<open>The results an operation may give; a refusal carries its code.\<close>

fun answer_fits :: "command \<Rightarrow> credit_result \<Rightarrow> bool" where
  "answer_fits (Reserve c) r \<longleftrightarrow> res_type r = ResultReserved \<or> res_type r = ResultReservationRefused \<and> res_code r \<noteq> CodeNone"
| "answer_fits (Adjust c) r \<longleftrightarrow> res_type r = ResultAdjusted \<or> res_type r = ResultAdjustRefused \<and> res_code r \<noteq> CodeNone"
| "answer_fits (Release c) r \<longleftrightarrow> res_type r = ResultReleased \<or> res_type r = ResultOperationFailed \<and> res_code r \<noteq> CodeNone"
| "answer_fits (Transfer c) r \<longleftrightarrow> res_type r = ResultTransferred \<or> res_type r = ResultOperationFailed \<and> res_code r \<noteq> CodeNone"

lemma reserve_op_answer: "reserve_op env oid sub amount s = Inr (r, s') \<Longrightarrow> answer_fits (Reserve c) r"
  by (auto simp: reserve_op_def tx_bind_Inr_iff on_not_found_Inr_iff is_order_released_def Let_def split: if_splits)

lemma adjust_op_answer: "adjust_op env oid sub new_amount seq s = Inr (r, s') \<Longrightarrow> answer_fits (Adjust c) r"
  by (auto simp: adjust_op_def Let_def adjust_refused_def elim!: tx_bind_InrE split: if_splits option.splits)

lemma release_op_answer: "release_op env oid sub s = Inr (r, s') \<Longrightarrow> answer_fits (Release c) r"
  by (auto simp: release_op_def Let_def elim!: tx_bind_InrE split: if_splits option.splits reservation_status.splits)

lemma transfer_writes_answer: "transfer_writes env oid amount res rw cw s = Inr (r, s') \<Longrightarrow> answer_fits (Transfer c) r"
  by (auto simp: transfer_writes_def Let_def op_failed_def elim!: tx_bind_InrE split: if_splits)

lemma transfer_op_answer:
  assumes "transfer_op env oid x y amount s = Inr (r, s')"
  shows "answer_fits (Transfer c) r"
proof -
  from assms show ?thesis
    unfolding transfer_op_def on_not_found_Inr_iff
    by (elim disjE exE conjE)
      (auto simp: op_failed_def Let_def elim!: tx_bind_InrE dest!: transfer_writes_answer [where c = c]
       split: if_splits prod.splits reservation_status.splits)
qed

lemma command_op_answer:
  "command_op env c = Some (rp, op) \<Longrightarrow> op s = Inr (r, s') \<Longrightarrow> answer_fits c r"
  by (cases c) (auto simp: args_defs split: if_splits simp del: answer_fits.simps
      dest: reserve_op_answer adjust_op_answer release_op_answer transfer_op_answer)

text \<open>The keys order-service gives to its commands.\<close>

definition command_key :: "string \<Rightarrow> string \<Rightarrow> string \<Rightarrow> bool" where
  "command_key kind eid key \<longleftrightarrow>
     (if kind = kind_credit_reserve then key = idempotency_key eid ''reserve'' 0
      else if kind = kind_credit_release then key = idempotency_key eid ''release'' 0
      else if kind = kind_credit_transfer then key = idempotency_key eid ''transfer'' 0
      else has_prefix (eid @ '':adjust:'') key \<or> has_prefix (eid @ '':adjust-revert:'') key)"

lemma has_prefix_append [simp]: "has_prefix p (p @ s)"
  by (simp add: has_prefix_def)

lemma has_prefix_iff: "has_prefix p s \<longleftrightarrow> (\<exists>t. s = p @ t)"
  unfolding has_prefix_def by (metis append_eq_conv_conj append_take_drop_id)

lemma has_prefix_trans: "has_prefix (p @ q) s \<Longrightarrow> has_prefix p s"
  by (auto simp: has_prefix_iff)

lemma command_key_prefix:
  assumes "command_key kind eid key"
  shows "has_prefix (eid @ '':'') key"
proof -
  have "has_prefix (eid @ '':'') (idempotency_key eid op 0)" for op
    using has_prefix_append [of "eid @ '':''" op] by (simp add: idempotency_key_def)
  moreover have "has_prefix (eid @ '':'') key" if "has_prefix (eid @ '':adjust:'') key"
    using has_prefix_trans [of "eid @ '':''" "''adjust:''" key] that by simp
  moreover have "has_prefix (eid @ '':'') key" if "has_prefix (eid @ '':adjust-revert:'') key"
    using has_prefix_trans [of "eid @ '':''" "''adjust-revert:''" key] that by simp
  ultimately show ?thesis using assms by (auto simp: command_key_def split: if_splits)
qed

lemma result_read:
  assumes js: "envelope_to_json (build_result rp r now) = Some j" and same: "same_json j' j"
    and int: "in_int64 (rp_errand_version rp)" "in_int64 (res_amount r)" "in_int64 (res_seq r)"
  obtains e gs where "envelope_of_json j' = Some e" "env_message_id e = rp_command_message_id rp @ '':'' @ result_type_text (res_type r)"
    "env_correlation_id e = rp_command_message_id rp" "env_type e = result_type_text (res_type r)"
    "env_occurred_at e = truncate_second now" "env_errand_id e = rp_order_id rp" "env_errand_version e = rp_errand_version rp"
    "env_data e = Some (JObj gs)" "result_data (env_data e) = Some (res_amount r, res_seq r, result_code_text (res_code r))"
proof -
  let ?fs = "omit_empty_num ''amount'' (res_amount r) @ omit_empty_num ''seq'' (res_seq r) @ omit_empty_str ''code'' (result_code_text (res_code r))"
  let ?e = "build_result rp r now"
  have "in_int64 (env_errand_version ?e)" "env_data ?e = Some (JObj ?fs)" using int(1) by (simp_all add: build_result_def)
  with js same obtain d where d: "envelope_of_json j' = Some (?e\<lparr>env_data := Some d\<rparr>)" "same_json d (JObj ?fs)"
    by (rule envelope_read)
  have "named ?fs" by (simp add: named_def field_names_def)
  with d(2) obtain gs where gs: "d = JObj gs" "reads gs (map_of ?fs)" by (rule object_read)
  note rd = readsD [OF gs(2)]
  have "int_field ''amount'' gs = Some (res_amount r)" "int_field ''seq'' gs = Some (res_seq r)"
    "string_field ''code'' gs = Some (result_code_text (res_code r))"
    using int(2,3) by (simp_all add: rd field_names_def map_add_def)
  then have "result_data (Some (JObj gs)) = Some (res_amount r, res_seq r, result_code_text (res_code r))"
    by (simp add: result_data_def struct_fields_def)
  with d(1) gs(1) show thesis by (intro that [of "?e\<lparr>env_data := Some d\<rparr>" gs]) (simp_all add: build_result_def)
qed

lemma code_text_Nil [simp]: "result_code_text c = [] \<longleftrightarrow> c = CodeNone"
  by (cases c) simp_all

lemma result_type_length: "length (result_type_text t) \<le> 30"
  by (cases t) simp_all

lemma result_type_known_keys: "result_type_text t \<in> set credit_results" "result_type_text t \<in> set result_keys"
  by (cases t; simp add: credit_results_def result_defs result_keys_def all_result_types_def)+

text \<open>The result answers the command: order-service accepts it under the key it was sent with.\<close>

lemma answer_matches:
  assumes "kind \<in> set credit_commands" "command_key kind eid key" "answer_fits (sent_command kind c) r"
  shows "answers_command (result_type_text (res_type r)) eid key" "needs_code (result_type_text (res_type r)) \<longrightarrow> res_code r \<noteq> CodeNone"
  using assms by (auto simp: credit_commands_def sent_command_def command_key_def answers_command_def needs_code_def result_defs)

lemma answer_accepted:
  assumes kind: "kind \<in> set credit_commands" "command_key kind eid key" "answer_fits (sent_command kind c) r"
    and rp: "rp_command_message_id rp = key" "rp_order_id rp = eid" "1 \<le> rp_errand_version rp" and ids: "eid \<noteq> []" "length key \<le> 200"
    and int: "in_int64 (rp_errand_version rp)" "in_int64 (res_amount r)" "in_int64 (res_seq r)"
    and js: "envelope_to_json (build_result rp r now) = Some j" "same_json j' j" and clock: "truncate_second now \<noteq> zero_time"
  obtains en m where "check_result (result_type_text (res_type r)) (Some j') = Inr en"
    "decode_result (result_type_text (res_type r)) (Some j') = Some m" "env_correlation_id (rs_env m) = key" "env_errand_id (rs_env m) = eid"
    "rs_amount m = res_amount r" "rs_seq m = res_seq r" "rs_code m = result_code_text (res_code r)"
proof -
  obtain e gs where e: "envelope_of_json j' = Some e" "env_message_id e = rp_command_message_id rp @ '':'' @ result_type_text (res_type r)"
    "env_correlation_id e = rp_command_message_id rp" "env_type e = result_type_text (res_type r)"
    "env_occurred_at e = truncate_second now" "env_errand_id e = rp_order_id rp" "env_errand_version e = rp_errand_version rp"
    "env_data e = Some (JObj gs)" "result_data (env_data e) = Some (res_amount r, res_seq r, result_code_text (res_code r))"
    by (rule result_read [OF js int])
  have key: "key \<noteq> []" "has_prefix (eid @ '':'') key" using command_key_prefix [OF kind(2)] by (auto simp: has_prefix_iff)
  have "check_result (result_type_text (res_type r)) (Some j') = Inr e"
    using e ids key(1) clock rp result_type_known_keys(2) [of "res_type r"] result_type_length [of "res_type r"] by (simp add: check_result_def)
  moreover have "decode_result (result_type_text (res_type r)) (Some j') = Some \<lparr>rs_routing_key = result_type_text (res_type r), rs_env = e,
      rs_amount = res_amount r, rs_seq = res_seq r, rs_code = result_code_text (res_code r)\<rparr>"
    using e ids(1) key rp answer_matches [OF kind] result_type_known_keys(1) [of "res_type r"] by (simp add: decode_result_def)
  ultimately show thesis by (rule that) (simp_all add: e(3,6) rp(1,2))
qed

section \<open>From the transition to the answer\<close>

lemma credit_row_key:
  assumes nx: "next_transition e ev a input now = Inr t" and inv: "errand_inv e" and row: "row \<in> set (t_outbox t)" "ob_payload row = CreditPayload c"
  shows "ob_kind row \<in> set credit_commands" "command_key (ob_kind row) (e_id e) (ob_key row)" "cc_errand_id c = e_id e" "cc_errand_version c = t_new_version t"
proof -
  obtain r where r: "r \<in> set transition_table" "rl_from r = e_status e" "t_outbox t = outbox_rows r e t input" by (rule transition_summary [OF nx])
  have mem: "row \<in> set (credit_rows r e t input)"
    using row unfolding r(3) outbox_rows_def by (auto simp: event_row_def Let_def split: if_splits)
  show "ob_kind row \<in> set credit_commands" "cc_errand_id c = e_id e"
    using credit_rows_content [OF nx inv r(1,2) mem] row(2) by (auto simp: credit_content_def)
  have ver: "t_new_version t = e_version e + (if edit_requested t = None then 1 else 0)" "t_expected_version t = e_version e"
    by (rule transition_summary [OF nx], assumption)+
  have pos: "0 < t_expected_version t" if "edit_requested t = Some p" for p
  proof -
    obtain q where q: "q \<in> set transition_table" "rl_to q = t_to t" by (rule transition_summary [OF nx])
    then have "e_status (apply_to t e) \<noteq> StatusNone" using rule_publishes(1) [OF q(1)] by simp
    from errand_inv_started [OF errand_inv_step [OF nx inv] this] have "1 \<le> t_new_version t" by simp
    with ver that show ?thesis by simp
  qed
  have adj: "has_prefix (e_id e @ '':'' @ opn @ '':'') (idempotency_key (e_id e) opn v)" if "0 < v" for opn v
    using that by (simp add: idempotency_key_def has_prefix_iff)
  have pos': "0 < t_new_version t" if "reverts_adjust e t input"
    using that ver errand_inv_started [OF inv] errand_inv_pending(1) [OF inv] by (auto simp: reverts_adjust_def)
  show "command_key (ob_kind row) (e_id e) (ob_key row)"
    using mem adj [of "t_expected_version t" "''adjust''"] adj [of "t_new_version t" "''adjust-revert''"] pos pos'
    by (cases "rl_credit r"; cases "edit_requested t"; cases "reverts_adjust e t input") (auto simp: credit_rows_def credit_row_def command_key_def Let_def)
  show "cc_errand_version c = t_new_version t"
    using mem row(2) by (cases "rl_credit r"; cases "edit_requested t") (auto simp: credit_rows_def credit_row_def Let_def split: if_splits)
qed

text \<open>
  An answer in credit-service's outbox that its publisher accepts and order-service reads as the result \<open>r\<close>
  of the command \<open>key\<close> of the errand \<open>eid\<close>.
\<close>

definition answer_readable :: "string \<Rightarrow> string \<Rightarrow> credit_result \<Rightarrow> credit_outbox_row \<Rightarrow> bool" where
  "answer_readable eid key r answer \<longleftrightarrow> (\<forall>j. same_json j (co_payload answer) \<longrightarrow>
     (\<exists>en. check_result (co_routing_key answer) (Some j) = Inr en)
     \<and> (\<exists>res. decode_result (co_routing_key answer) (Some j) = Some res \<and> env_correlation_id (rs_env res) = key
         \<and> env_errand_id (rs_env res) = eid \<and> rs_amount res = res_amount r \<and> rs_seq res = res_seq r
         \<and> rs_code res = result_code_text (res_code r)))"

lemma command_op_reply:
  "command_op env (sent_command kind c) = Some (rp, op) \<Longrightarrow> rp = mk_reply (to_lower (cc_errand_id c)) (cc_errand_version c)"
  by (auto simp: sent_command_def split: if_splits)

lemma command_answer:
  assumes run: "run_command (credit_service ic clock) env key (sent_command kind c) s = (Inr r, s')"
    and typed: "command_typed (sent_command kind c)" and inv: "credit_inv s" and go: "go_command c"
    and fresh: "key \<notin> pc_message_id ` set (db_processed s)" "result_key key r \<notin> co_key ` set (db_outbox s)"
    and kind: "kind \<in> set credit_commands" "command_key kind eid key" and eid: "cc_errand_id c = eid" "to_lower eid = eid" "eid \<noteq> []"
    and len: "length key \<le> 200" and clock: "truncate_second clock \<noteq> zero_time"
  shows "\<exists>answer \<in> set (db_outbox s'). answer_fits (sent_command kind c) r \<and> answer_readable eid key r answer"
proof -
  obtain rp op s1 where op: "command_op env (sent_command kind c) = Some (rp, op)" "op s = Inr (r, s1)"
    by (rule run_command_fresh [OF run fresh(1)])
  have "execute (credit_service ic clock) env key rp op s = (Inr r, s')" using run op(1) by (simp add: run_command_eq)
  from execute_accepted [OF this] have ver: "1 \<le> rp_errand_version rp" by simp
  have rng: "in_range s" using inv by (simp add: credit_inv_def)
  have fits: "answer_fits (sent_command kind c) r" by (rule command_op_answer [OF op])
  have int: "in_int64 (res_amount r)" "in_int64 (res_seq r)" using command_op_typed [OF op typed rng] by simp_all
  obtain answer rp' op' where ans: "answer \<in> set (db_outbox s')" "co_key answer = result_key key r"
    "co_routing_key answer = result_type_text (res_type r)"
    "envelope_to_json (build_result (rp'\<lparr>rp_command_message_id := key\<rparr>) r clock) = Some (co_payload answer)"
    "command_op env (sent_command kind c) = Some (rp', op')"
    by (rule run_command_message [OF run typed inv fresh(2)])
  have rp: "rp = mk_reply eid (cc_errand_version c)" "rp' = rp" using command_op_reply [OF op(1)] op(1) ans(5) eid by simp_all
  let ?rp = "rp\<lparr>rp_command_message_id := key\<rparr>"
  have "answer_readable eid key r answer" unfolding answer_readable_def ans(3)
  proof (intro allI impI)
    fix j
    assume same: "same_json j (co_payload answer)"
    obtain en m where "check_result (result_type_text (res_type r)) (Some j) = Inr en"
      "decode_result (result_type_text (res_type r)) (Some j) = Some m" "env_correlation_id (rs_env m) = key" "env_errand_id (rs_env m) = eid"
      "rs_amount m = res_amount r" "rs_seq m = res_seq r" "rs_code m = result_code_text (res_code r)"
      by (rule answer_accepted [OF kind fits, of ?rp clock "co_payload answer" j])
        (use ver int ans(4) rp same eid len clock go in \<open>simp_all add: mk_reply_def go_command_def\<close>)
    then show "(\<exists>en. check_result (result_type_text (res_type r)) (Some j) = Inr en)
      \<and> (\<exists>res. decode_result (result_type_text (res_type r)) (Some j) = Some res \<and> env_correlation_id (rs_env res) = key
         \<and> env_errand_id (rs_env res) = eid \<and> rs_amount res = res_amount r \<and> rs_seq res = res_seq r
         \<and> rs_code res = result_code_text (res_code r))" by blast
  qed
  with ans(1) fits show ?thesis by blast
qed

end
