(* ===== verification/Protocol_Properties.thy ===== *)
theory Protocol_Properties
  imports Credit_Protocol Store_Properties Credit_Example
begin

text \<open>The property of the protocol that spans order-service and credit-service.\<close>

text \<open>
  C40. Every credit command is understood and its answer comes home. Take any credit command a decision of
  \<^verbatim>\<open>Next\<close> puts in the outbox: order-service publishes it; credit-service decodes the message, in
  whatever order the stored JSON keeps its keys; and when it acknowledges the command for the first time,
  its outbox holds an answer that its publisher accepts and that order-service decodes as the answer to
  this command of this errand, with the amount, the sequence number and the code of the result.
\<close>

theorem credit_command_answered:
  assumes "next_transition e ev a input now = Inr t" and "errand_inv e" and "row \<in> set (t_outbox t)" and "ob_payload row = CreditPayload c"
    and "go_command c" and "uuid_pattern (e_id e)" and "to_lower (e_id e) = e_id e" and "t_new_version t \<le> max_int32"
    and "now \<noteq> zero_time" and "format_time now \<noteq> None" and "at \<noteq> zero_time" and "format_time at \<noteq> None"
    and "credit_inv s" and "ob_key row \<notin> pc_message_id ` set (db_processed s)" and "\<And>r. result_key (ob_key row) r \<notin> co_key ` set (db_outbox s)"
    and "truncate_second clock \<noteq> zero_time"
  shows "\<exists>m body. message_from_outbox (msg_row_of (new_outbox n at row)) = Some m \<and> command_body m c = Some body
    \<and> (\<forall>body' s' err. same_json body' body \<longrightarrow> handle (credit_service ic clock) env (m_routing_key m) (Some body') s = (err, s') \<longrightarrow>
         err \<noteq> Some Undecodable
         \<and> (err = None \<longrightarrow> (\<exists>answer \<in> set (db_outbox s'). \<exists>r. answer_fits (sent_command (ob_kind row) c) r
              \<and> answer_readable (e_id e) (ob_key row) r answer)))"
proof -
  note row = credit_row_key [OF assms(1-4)]
  have len: "length (e_id e) = 36" using assms(6) by (rule uuid_pattern_length)
  obtain m where m: "message_from_outbox (msg_row_of (new_outbox n at row)) = Some m"
    using transition_row_publishable [OF assms(1-3) len assms(8-12)] by auto
  note msg = message_from_outbox_Some [OF m]
  have kind: "m_routing_key m = ob_kind row" "m_exchange m = exchange_commands"
    using m row(1) by (auto simp: message_from_outbox_def Let_def msg_row_of_def new_outbox_def split: prod.splits if_splits)
  have data: "m_data m = CreditPayload c" "m_message_id m = ob_key row"
    using msg(2,4) assms(4) by (simp_all add: msg_row_of_def new_outbox_def)
  obtain body where body: "command_body m c = Some body"
    using msg(1) by (auto simp: command_body_def encodes_def envelope_to_json_def)
  obtain opn v where k: "ob_key row = idempotency_key (e_id e) opn v" "length opn \<le> 30" "v \<le> t_new_version t"
    using transition_row_key [OF assms(1-3)] by blast
  have short: "length (ob_key row) \<le> 200" unfolding k(1) by (rule length_idempotency_key [OF len k(2)]) (use k(3) assms(8) in simp)
  have answered: "err \<noteq> Some Undecodable
      \<and> (err = None \<longrightarrow> (\<exists>answer \<in> set (db_outbox s'). \<exists>r. answer_fits (sent_command (ob_kind row) c) r \<and> answer_readable (e_id e) (ob_key row) r answer))"
    if same: "same_json body' body" and h: "handle (credit_service ic clock) env (m_routing_key m) (Some body') s = (err, s')" for body' s' err
  proof -
    let ?c = "sent_command (ob_kind row) c"
    obtain en where en: "decode_envelope (m_routing_key m) (Some body') = Inr en" "env_message_id en = m_message_id m"
      "decode_command (m_routing_key m) en = Inr (sent_command (m_routing_key m) c)"
      by (rule command_decoded [OF body data(1) kind(2) assms(5) same])
    then obtain out where run: "run_command (credit_service ic clock) env (ob_key row) ?c s = (out, s')"
      "err = (case out of Inl x \<Rightarrow> Some (Wallet x) | Inr _ \<Rightarrow> None)"
      using h kind(1) data(2) by (auto simp: handle_def split: prod.splits sum.splits)
    have typed: "command_typed ?c" using decode_command_typed [OF en(3)] kind(1) by simp
    have "\<exists>answer \<in> set (db_outbox s'). answer_fits ?c r \<and> answer_readable (e_id e) (ob_key row) r answer" if "out = Inr r" for r
      by (rule command_answer [OF run(1) [unfolded that] typed assms(13,5,14,15) row(1-3) assms(7) _ short assms(16)]) (use len in auto)
    then show ?thesis using run(2) by (cases out) auto
  qed
  with m body show ?thesis by blast
qed

text \<open>Ada's submission, for an errand credit-service has never heard of and a requester without a wallet.\<close>

definition ex_asked :: errand where
  "ex_asked = ex_new\<lparr>e_id := ex_other_order\<rparr>"

lemma ex_asked_fields [simp]: "e_id ex_asked = ex_other_order" "e_status ex_asked = StatusNone" "e_version ex_asked = 0"
  "e_requester_id ex_asked = ''ada''" "e_details ex_asked = ex_order_details" "new_errand ex_asked" "ex_other_order \<noteq> []"
  by (simp_all add: ex_asked_def ex_new_def ex_submitted_def new_errand_def ex_other_order_def)

lemma ex_asked_row:
  obtains t row c where "next_transition ex_asked EventSubmit ada no_input 0 = Inr t" "t_new_version t = 1" "row \<in> set (t_outbox t)"
    "ob_payload row = CreditPayload c" "ob_kind row = kind_credit_reserve" "ob_key row = idempotency_key ex_other_order ''reserve'' 0"
    "c = empty_command\<lparr>cc_amount := 300, cc_errand_id := ex_other_order, cc_errand_version := 1, cc_requester_id := ''ada''\<rparr>"
proof -
  obtain t where t: "next_transition ex_asked EventSubmit ada no_input 0 = Inr t" "t_new_version t = 1" "ch_details (t_changes t) = None"
    by (simp add: next_transition_def rules_for_def transition_table_def terminal_def Let_def ada_def)
      (simp add: fail_or_def finish_transition_def start_transition_def no_changes_def Let_def)
  obtain r where r: "r \<in> set transition_table" "rl_event r = EventSubmit" "t_outbox t = outbox_rows r ex_asked t no_input"
    by (rule transition_summary [OF t(1)])
  then have "r \<in> set (filter (\<lambda>r. rl_event r = EventSubmit) transition_table)" by simp
  then have credit: "rl_credit r = CreditReserve" unfolding transition_table_def by simp
  let ?row = "credit_row ex_asked t kind_credit_reserve ''reserve'' 0 (empty_command\<lparr>cc_amount := 300\<rparr>)"
  have "d_reward (e_details (apply_to t ex_asked)) = 300" using t(3) by simp
  then have "?row \<in> set (t_outbox t)" unfolding r(3) outbox_rows_def credit_rows_def by (simp add: credit Let_def del: apply_to_fields)
  then show thesis by (rule that [OF t(1,2)]) (simp_all add: t(2) credit_row_def)
qed

lemma ex_refused:
  assumes "c = empty_command\<lparr>cc_amount := 300, cc_errand_id := ex_other_order, cc_errand_version := 1, cc_requester_id := ''ada''\<rparr>"
    and "key \<noteq> []" "length key \<le> 200"
  obtains s' where "run_command (credit_service 50 0) ex_env key (sent_command kind_credit_reserve c) ex_db
    = (Inr ((mk_result ResultReservationRefused)\<lparr>res_code := CodeAccountNotFound\<rparr>), s')"
proof -
  have res: "get_reservation_by_order ex_other_order ex_db = Inl ErrNotFound"
    by (simp add: get_reservation_by_order_def mapped_def one_row_def ex_db_def ex_reservation_def ex_order_def ex_other_order_def)
  have wal: "lock_wallets_by_auth0_subject [''ada''] ex_db = Inl ErrNotFound"
    by (simp add: lock_wallets_by_auth0_subject_def ex_db_def ex_alice_def ex_bob_def)
  have op: "reserve_op ex_env ex_other_order ''ada'' 300 ex_db = Inr ((mk_result ResultReservationRefused)\<lparr>res_code := CodeAccountNotFound\<rparr>, ex_db)"
    using res wal by (simp add: reserve_op_def is_order_released_def tx_bind_def lift_repo_def on_not_found_def tx_catch_def tx_get_def tx_return_def)
      (simp add: ex_db_def)
  have sub: "validate_subject ''ada''"
    by (simp add: validate_subject_def max_subject_length_def trim_space_def runes_def chunks_ascii is_space_def is_control_def)
  have cmd: "command_op ex_env (sent_command kind_credit_reserve c) = Some (mk_reply ex_other_order 1, reserve_args ex_env (ex_other_order, ''ada'', 300))"
    using sub by (simp add: assms(1) sent_command_def empty_command_def)
  have op': "reserve_args ex_env (ex_other_order, ''ada'', 300) ex_db
      = Inr ((mk_result ResultReservationRefused)\<lparr>res_code := CodeAccountNotFound\<rparr>, ex_db)" using op by (simp add: args_defs)
  have msg: "key \<notin> pc_message_id ` set (db_processed ex_db)" "length key \<le> max_message_id_length" "1 \<le> rp_errand_version (mk_reply ex_other_order 1)"
    using assms(3) by (simp_all add: ex_db_def max_message_id_length_def mk_reply_def)
  show thesis by (rule run_command_ok [OF cmd op' msg(1) refl assms(2) msg(2,3) ex_clock]) (rule that)
qed

theorem credit_command_answered_witness:
  "\<exists>row c m body s' answer r. ob_payload row = CreditPayload c
     \<and> message_from_outbox (msg_row_of (new_outbox 1 0 row)) = Some m \<and> command_body m c = Some body
     \<and> handle (credit_service 50 0) ex_env (m_routing_key m) (Some body) ex_db = (None, s')
     \<and> answer \<in> set (db_outbox s') \<and> answer_readable ex_other_order (ob_key row) r answer"
proof (rule ex_asked_row)
  fix t row c
  assume t: "next_transition ex_asked EventSubmit ada no_input 0 = Inr t" "t_new_version t = 1" "row \<in> set (t_outbox t)"
    "ob_payload row = CreditPayload c" "ob_kind row = kind_credit_reserve" "ob_key row = idempotency_key ex_other_order ''reserve'' 0"
    "c = empty_command\<lparr>cc_amount := 300, cc_errand_id := ex_other_order, cc_errand_version := 1, cc_requester_id := ''ada''\<rparr>"
  have inv: "errand_inv ex_asked" by (rule new_errand_inv) simp
  have time: "(0::int) \<noteq> zero_time" "format_time 0 \<noteq> None" "truncate_second 0 \<noteq> zero_time"
    using ex_clock by (simp_all add: zero_time_def duration_defs clock_ok_def truncate_second_def)
  have go: "go_command c" by (simp add: t(7) go_command_def empty_command_def in_int64_def int64_min_def int64_max_def)
  have id: "uuid_pattern (e_id ex_asked)" "to_lower (e_id ex_asked) = e_id ex_asked" "t_new_version t \<le> max_int32"
    by (simp_all add: t(2) max_int32_def)
  have fresh: "ob_key row \<notin> pc_message_id ` set (db_processed ex_db)" "result_key (ob_key row) r \<notin> co_key ` set (db_outbox ex_db)" for r
    by (simp_all add: ex_db_def)
  obtain m body where m: "message_from_outbox (msg_row_of (new_outbox 1 0 row)) = Some m" "command_body m c = Some body"
    and answered: "\<And>body' s' err. same_json body' body \<Longrightarrow> handle (credit_service 50 0) ex_env (m_routing_key m) (Some body') ex_db = (err, s') \<Longrightarrow>
      err = None \<longrightarrow> (\<exists>answer \<in> set (db_outbox s'). \<exists>r. answer_fits (sent_command (ob_kind row) c) r \<and> answer_readable (e_id ex_asked) (ob_key row) r answer)"
    using credit_command_answered [OF t(1) inv t(3,4) go id time(1,2) time(1,2) ex_credit_inv(1) fresh time(3), of 1 50 ex_env] by blast
  have data: "m_data m = CreditPayload c" "m_message_id m = ob_key row" "m_routing_key m = ob_kind row" "m_exchange m = exchange_commands"
    using message_from_outbox_Some [OF m(1)] m(1) t(4,5)
    by (auto simp: message_from_outbox_def Let_def msg_row_of_def new_outbox_def credit_commands_def split: prod.splits if_splits)
  obtain en where en: "decode_envelope (m_routing_key m) (Some body) = Inr en" "env_message_id en = m_message_id m"
    "decode_command (m_routing_key m) en = Inr (sent_command (m_routing_key m) c)"
    by (rule command_decoded [OF m(2) data(1,4) go same_json_refl])
  obtain s' where "run_command (credit_service 50 0) ex_env (ob_key row) (sent_command kind_credit_reserve c) ex_db
    = (Inr ((mk_result ResultReservationRefused)\<lparr>res_code := CodeAccountNotFound\<rparr>), s')"
    by (rule ex_refused [OF t(7), of "ob_key row"]) (simp_all add: t(6) idempotency_key_def ex_other_order_def)
  then have h: "handle (credit_service 50 0) ex_env (m_routing_key m) (Some body) ex_db = (None, s')"
    using en data t(5) by (simp add: handle_def)
  from answered [OF same_json_refl this] obtain answer r where "answer \<in> set (db_outbox s')" "answer_readable (e_id ex_asked) (ob_key row) r answer" by blast
  with t(4) m h show ?thesis by (intro exI conjI) auto
qed

end
