(* ===== verification/Supplier_Deletion.thy ===== *)
theory Supplier_Deletion
  imports Supplier_Fence
begin

text \<open>
  supplier-service's store of guarded deletions: the deletion half of package \<^verbatim>\<open>supplierrepo\<close> with
  the statements of \<^verbatim>\<open>queries/deletions.sql\<close> and the constraints of the migration. A deletion
  operation is claimed by one worker at a time under a lease; every transition of its state names the
  claim. As in the order database, UUID columns hold the canonical text of the UUID a string denotes, which
  the cast of the statement (the parameter \<open>uuid\<close>) computes, and time columns keep the value written.
\<close>

section \<open>Rows and tables\<close>

datatype deletion_state = DeletionRequested | DeletionReleasePending | DeletionCommitPending
  | DeletionRejectedActiveErrands | DeletionCompleted

datatype deletion_failure = FailureAcquireUnavailable | FailureAcquireAmbiguous | FailureInspectUnavailable
  | FailureReleaseUnavailable | FailureCommitUnavailable

record deletion_row =
  dl_operation_id :: string
  dl_supplier_id :: string
  dl_state :: deletion_state
  dl_attempt_count :: int
  dl_max_attempts :: int
  dl_next_attempt_at :: "int option"
  dl_last_failure :: "deletion_failure option"
  dl_claim_id :: "string option"
  dl_lease_expires_at :: "int option"
  dl_requested_at :: int
  dl_updated_at :: int
  dl_deleted_at :: "int option"
  dl_completed_at :: "int option"

record supplier_row =
  su_supplier_id :: string
  su_current_version_id :: string
  su_normalized_name :: string
  su_created_at :: int
  su_updated_at :: int
  su_deleted_at :: "int option"

record supplier_db =
  sd_suppliers :: "supplier_row list"
  sd_deletions :: "deletion_row list"

text \<open>The \<^verbatim>\<open>CHECK\<close> constraints of the two tables that the statements below can break.\<close>

definition deletion_check :: "deletion_row \<Rightarrow> bool" where
  "deletion_check r \<longleftrightarrow>
     dl_max_attempts r > 0 \<and> 0 \<le> dl_attempt_count r \<and> dl_attempt_count r \<le> dl_max_attempts r
     \<and> (dl_claim_id r = None \<longleftrightarrow> dl_lease_expires_at r = None)
     \<and> (\<forall>t \<in> set_option (dl_lease_expires_at r). dl_updated_at r < t)
     \<and> (dl_state r \<in> {DeletionCommitPending, DeletionCompleted} \<longleftrightarrow> dl_deleted_at r \<noteq> None)
     \<and> (dl_state r = DeletionCompleted \<longleftrightarrow> dl_completed_at r \<noteq> None)
     \<and> (dl_state r \<in> {DeletionRejectedActiveErrands, DeletionCompleted} \<longrightarrow> dl_claim_id r = None \<and> dl_next_attempt_at r = None)
     \<and> dl_requested_at r \<le> dl_updated_at r
     \<and> (\<forall>t \<in> set_option (dl_deleted_at r). dl_requested_at r \<le> t)
     \<and> (\<forall>t \<in> set_option (dl_completed_at r). \<forall>d \<in> set_option (dl_deleted_at r). d \<le> t)"

definition supplier_check :: "supplier_row \<Rightarrow> bool" where
  "supplier_check s \<longleftrightarrow> su_created_at s \<le> su_updated_at s \<and> (\<forall>t \<in> set_option (su_deleted_at s). su_created_at s \<le> t)"

section \<open>Statements\<close>

text \<open>\<open>DeletionDatabase\<close> is any failure of the database itself: a cast, a constraint, a lost connection.\<close>

datatype deletion_error = DeletionInvalidArgument | DeletionOperationNotFound | DeletionSupplierNotFound
  | DeletionOperationMismatch | DeletionClaimLost | DeletionInvalidTransition | DeletionDatabase

type_synonym 'a del = "(supplier_db, deletion_error, 'a) tx"

definition del_uuid :: "uuid_reader \<Rightarrow> string \<Rightarrow> string del" where
  "del_uuid uuid v = (case uuid v of None \<Rightarrow> tx_fail DeletionDatabase | Some u \<Rightarrow> tx_return u)"

definition find_deletion :: "string \<Rightarrow> supplier_db \<Rightarrow> deletion_row option" where
  "find_deletion op db = find (\<lambda>r. dl_operation_id r = op) (sd_deletions db)"

text \<open>The insert checks the new row before it looks for a conflict; the foreign key is checked on a row that was inserted.\<close>

definition create_or_get_operation :: "uuid_reader \<Rightarrow> string \<Rightarrow> string \<Rightarrow> int \<Rightarrow> int \<Rightarrow> deletion_row del" where
  "create_or_get_operation uuid operation_id supplier_id max_attempts now =
     tx_bind (del_uuid uuid operation_id) (\<lambda>op.
     tx_bind (del_uuid uuid supplier_id) (\<lambda>sid.
     tx_bind (tx_get id) (\<lambda>db.
       let row = \<lparr>dl_operation_id = op, dl_supplier_id = sid, dl_state = DeletionRequested, dl_attempt_count = 0,
             dl_max_attempts = max_attempts, dl_next_attempt_at = Some now, dl_last_failure = None, dl_claim_id = None,
             dl_lease_expires_at = None, dl_requested_at = now, dl_updated_at = now, dl_deleted_at = None, dl_completed_at = None\<rparr>
       in if \<not> deletion_check row then tx_fail DeletionDatabase
          else case find_deletion op db of
              Some r \<Rightarrow> tx_return r
            | None \<Rightarrow>
                if \<not> list_ex (\<lambda>s. su_supplier_id s = sid) (sd_suppliers db) then tx_fail DeletionSupplierNotFound
                else tx_bind (tx_put (\<lambda>db. db\<lparr>sd_deletions := sd_deletions db @ [row]\<rparr>)) (\<lambda>_. tx_return row))))"

definition pending_state :: "deletion_state \<Rightarrow> bool" where
  "pending_state s \<longleftrightarrow> s \<in> {DeletionRequested, DeletionReleasePending, DeletionCommitPending}"

definition claimable_deletion :: "int \<Rightarrow> deletion_row \<Rightarrow> bool" where
  "claimable_deletion now r \<longleftrightarrow>
     pending_state (dl_state r) \<and> dl_attempt_count r < dl_max_attempts r
     \<and> (case dl_next_attempt_at r of None \<Rightarrow> False | Some t \<Rightarrow> t \<le> now)
     \<and> (dl_claim_id r = None \<or> (case dl_lease_expires_at r of None \<Rightarrow> False | Some t \<Rightarrow> t \<le> now))"

definition holds_claim :: "string \<Rightarrow> int \<Rightarrow> deletion_row \<Rightarrow> bool" where
  "holds_claim claim now r \<longleftrightarrow>
     dl_claim_id r = Some claim \<and> (case dl_lease_expires_at r of None \<Rightarrow> False | Some t \<Rightarrow> now < t)"

text \<open>An \<^verbatim>\<open>UPDATE\<close> of the operation with a condition: the number of rows it changed, and the changed row.\<close>

definition update_operation :: "string \<Rightarrow> (deletion_row \<Rightarrow> bool) \<Rightarrow> (deletion_row \<Rightarrow> deletion_row) \<Rightarrow> deletion_row option del" where
  "update_operation op p f =
     tx_bind (tx_get id) (\<lambda>db. case find (\<lambda>r. dl_operation_id r = op \<and> p r) (sd_deletions db) of
         None \<Rightarrow> tx_return None
       | Some r \<Rightarrow>
           if \<not> deletion_check (f r) then tx_fail DeletionDatabase
           else tx_bind (tx_put (\<lambda>db. db\<lparr>sd_deletions := update_where (\<lambda>r. dl_operation_id r = op \<and> p r) f (sd_deletions db)\<rparr>))
             (\<lambda>_. tx_return (Some (f r))))"

definition claim_operation :: "uuid_reader \<Rightarrow> string \<Rightarrow> string \<Rightarrow> int \<Rightarrow> int \<Rightarrow> deletion_row option del" where
  "claim_operation uuid operation_id claim_id now lease =
     tx_bind (del_uuid uuid claim_id) (\<lambda>claim.
     tx_bind (del_uuid uuid operation_id) (\<lambda>op.
       update_operation op (claimable_deletion now)
         (\<lambda>r. r\<lparr>dl_claim_id := Some claim, dl_lease_expires_at := Some lease,
           dl_attempt_count := dl_attempt_count r + 1, dl_updated_at := now\<rparr>)))"

text \<open>The transitions of a claimed operation share their condition.\<close>

definition move_operation :: "uuid_reader \<Rightarrow> string \<Rightarrow> string \<Rightarrow> int \<Rightarrow> (deletion_row \<Rightarrow> bool)
    \<Rightarrow> (deletion_row \<Rightarrow> deletion_row) \<Rightarrow> nat del" where
  "move_operation uuid operation_id claim_id now p f =
     tx_bind (del_uuid uuid operation_id) (\<lambda>op.
     tx_bind (del_uuid uuid claim_id) (\<lambda>claim.
     tx_bind (update_operation op (\<lambda>r. p r \<and> holds_claim claim now r) f) (\<lambda>changed.
       tx_return (if changed = None then 0 else 1))))"

definition set_release_pending :: "int \<Rightarrow> deletion_row \<Rightarrow> deletion_row" where
  "set_release_pending now r = r\<lparr>dl_state := DeletionReleasePending, dl_next_attempt_at := Some now,
     dl_last_failure := None, dl_updated_at := now\<rparr>"

definition set_rejected :: "int \<Rightarrow> deletion_row \<Rightarrow> deletion_row" where
  "set_rejected now r = r\<lparr>dl_state := DeletionRejectedActiveErrands, dl_next_attempt_at := None,
     dl_last_failure := None, dl_claim_id := None, dl_lease_expires_at := None, dl_updated_at := now\<rparr>"

definition set_commit_pending :: "int \<Rightarrow> deletion_row \<Rightarrow> deletion_row" where
  "set_commit_pending now r = r\<lparr>dl_state := DeletionCommitPending, dl_next_attempt_at := Some now,
     dl_last_failure := None, dl_deleted_at := Some now, dl_updated_at := now\<rparr>"

definition set_completed :: "int \<Rightarrow> deletion_row \<Rightarrow> deletion_row" where
  "set_completed now r = r\<lparr>dl_state := DeletionCompleted, dl_next_attempt_at := None, dl_last_failure := None,
     dl_claim_id := None, dl_lease_expires_at := None, dl_completed_at := Some now, dl_updated_at := now\<rparr>"

definition set_retry :: "int option \<Rightarrow> deletion_failure \<Rightarrow> int \<Rightarrow> deletion_row \<Rightarrow> deletion_row" where
  "set_retry next failure now r = r\<lparr>dl_next_attempt_at := next, dl_last_failure := Some failure,
     dl_claim_id := None, dl_lease_expires_at := None, dl_updated_at := now\<rparr>"

definition soft_delete_supplier :: "uuid_reader \<Rightarrow> int \<Rightarrow> string \<Rightarrow> nat del" where
  "soft_delete_supplier uuid now supplier_id =
     tx_bind (del_uuid uuid supplier_id) (\<lambda>sid.
     tx_bind (tx_get id) (\<lambda>db.
       let p = (\<lambda>s. su_supplier_id s = sid \<and> su_deleted_at s = None);
           f = (\<lambda>s. s\<lparr>su_deleted_at := Some now, su_updated_at := now\<rparr>)
       in case find p (sd_suppliers db) of
            None \<Rightarrow> tx_return 0
          | Some s \<Rightarrow> if \<not> supplier_check (f s) then tx_fail DeletionDatabase
              else tx_bind (tx_put (\<lambda>db. db\<lparr>sd_suppliers := update_where p f (sd_suppliers db)\<rparr>)) (\<lambda>_. tx_return 1)))"

section \<open>The store\<close>

record deletion_record =
  dr_operation_id :: string
  dr_supplier_id :: string
  dr_state :: deletion_state
  dr_attempt_count :: int
  dr_max_attempts :: int
  dr_next_attempt_at :: "int option"
  dr_failure :: "deletion_failure option"
  dr_claim_id :: string
  dr_lease_expires_at :: "int option"
  dr_requested_at :: int
  dr_updated_at :: int
  dr_deleted_at :: "int option"
  dr_completed_at :: "int option"

definition deletion_record_of :: "deletion_row \<Rightarrow> deletion_record" where
  "deletion_record_of r = \<lparr>dr_operation_id = dl_operation_id r, dr_supplier_id = dl_supplier_id r, dr_state = dl_state r,
     dr_attempt_count = dl_attempt_count r, dr_max_attempts = dl_max_attempts r, dr_next_attempt_at = dl_next_attempt_at r,
     dr_failure = dl_last_failure r, dr_claim_id = (case dl_claim_id r of None \<Rightarrow> [] | Some c \<Rightarrow> c),
     dr_lease_expires_at = dl_lease_expires_at r, dr_requested_at = dl_requested_at r, dr_updated_at = dl_updated_at r,
     dr_deleted_at = dl_deleted_at r, dr_completed_at = dl_completed_at r\<rparr>"

definition create_or_get_deletion :: "uuid_reader \<Rightarrow> string \<Rightarrow> string \<Rightarrow> int \<Rightarrow> int \<Rightarrow> supplier_db
    \<Rightarrow> (deletion_error + deletion_record) \<times> supplier_db" where
  "create_or_get_deletion uuid operation_id supplier_id max_attempts now db =
     (if max_attempts \<le> 0 \<or> max_int32 < max_attempts then (Inl DeletionInvalidArgument, db)
      else case run_tx (create_or_get_operation uuid operation_id supplier_id max_attempts now) db of
          (Inl e, db') \<Rightarrow> (Inl e, db')
        | (Inr row, db') \<Rightarrow>
            if dl_supplier_id row \<noteq> supplier_id then (Inl DeletionOperationMismatch, db')
            else (Inr (deletion_record_of row), db'))"

definition get_deletion :: "uuid_reader \<Rightarrow> string \<Rightarrow> supplier_db \<Rightarrow> deletion_error + deletion_record" where
  "get_deletion uuid operation_id db =
     (case uuid operation_id of None \<Rightarrow> Inl DeletionDatabase
      | Some op \<Rightarrow> (case find_deletion op db of
            None \<Rightarrow> Inl DeletionOperationNotFound | Some r \<Rightarrow> Inr (deletion_record_of r)))"

definition maximum_pending_deletion_page :: int where "maximum_pending_deletion_page = 100"

definition list_claimable_deletions :: "int \<Rightarrow> int \<Rightarrow> supplier_db \<Rightarrow> deletion_error + deletion_record list" where
  "list_claimable_deletions now limit db =
     (if limit \<le> 0 \<or> maximum_pending_deletion_page < limit then Inl DeletionInvalidArgument
      else Inr (map deletion_record_of (take (nat limit)
        (sort_key dl_operation_id (filter (claimable_deletion now) (sd_deletions db))))))"

definition claim_deletion :: "uuid_reader \<Rightarrow> string \<Rightarrow> string \<Rightarrow> int \<Rightarrow> int \<Rightarrow> supplier_db
    \<Rightarrow> (deletion_error + deletion_record option) \<times> supplier_db" where
  "claim_deletion uuid operation_id claim_id now lease db =
     (if lease \<le> now then (Inl DeletionInvalidArgument, db)
      else case run_tx (claim_operation uuid operation_id claim_id now lease) db of
          (Inl e, db') \<Rightarrow> (Inl e, db')
        | (Inr row, db') \<Rightarrow> (Inr (map_option deletion_record_of row), db'))"

text \<open>
  Why a transition changed no row. The reading is a statement of its own, but callers ask of an error only
  whether it is \<^verbatim>\<open>SUPPLIER_NOT_FOUND\<close>, which it never is.
\<close>

definition diagnose_transition :: "uuid_reader \<Rightarrow> string \<Rightarrow> string \<Rightarrow> int \<Rightarrow> deletion_state option \<Rightarrow> supplier_db \<Rightarrow> deletion_error" where
  "diagnose_transition uuid operation_id claim_id now expected db =
     (case uuid operation_id of None \<Rightarrow> DeletionDatabase
      | Some op \<Rightarrow> (case find_deletion op db of
            None \<Rightarrow> DeletionInvalidTransition
          | Some r \<Rightarrow>
              if dr_claim_id (deletion_record_of r) \<noteq> claim_id \<or> (case dl_lease_expires_at r of None \<Rightarrow> True | Some t \<Rightarrow> t \<le> now)
              then DeletionClaimLost
              else if (case expected of None \<Rightarrow> False | Some s \<Rightarrow> dl_state r \<noteq> s) then DeletionInvalidTransition
              else DeletionInvalidTransition))"

definition transition_result :: "uuid_reader \<Rightarrow> string \<Rightarrow> string \<Rightarrow> int \<Rightarrow> deletion_state option
    \<Rightarrow> (deletion_error + nat) \<times> supplier_db \<Rightarrow> (deletion_error + unit) \<times> supplier_db" where
  "transition_result uuid operation_id claim_id now expected x =
     (case x of (Inl e, db) \<Rightarrow> (Inl e, db)
      | (Inr n, db) \<Rightarrow> if n = 1 then (Inr (), db)
          else (Inl (diagnose_transition uuid operation_id claim_id now expected db), db))"

definition mark_deletion_release_pending :: "uuid_reader \<Rightarrow> string \<Rightarrow> string \<Rightarrow> int \<Rightarrow> supplier_db
    \<Rightarrow> (deletion_error + unit) \<times> supplier_db" where
  "mark_deletion_release_pending uuid operation_id claim_id now db =
     transition_result uuid operation_id claim_id now (Some DeletionRequested)
       (run_tx (move_operation uuid operation_id claim_id now (\<lambda>r. dl_state r = DeletionRequested) (set_release_pending now)) db)"

definition mark_deletion_rejected :: "uuid_reader \<Rightarrow> string \<Rightarrow> string \<Rightarrow> int \<Rightarrow> supplier_db
    \<Rightarrow> (deletion_error + unit) \<times> supplier_db" where
  "mark_deletion_rejected uuid operation_id claim_id now db =
     transition_result uuid operation_id claim_id now (Some DeletionReleasePending)
       (run_tx (move_operation uuid operation_id claim_id now (\<lambda>r. dl_state r = DeletionReleasePending) (set_rejected now)) db)"

definition delete_current_tx :: "uuid_reader \<Rightarrow> string \<Rightarrow> string \<Rightarrow> string \<Rightarrow> int \<Rightarrow> unit del" where
  "delete_current_tx uuid supplier_id operation_id claim_id now =
     tx_bind (soft_delete_supplier uuid now supplier_id) (\<lambda>rows.
       if rows \<noteq> 1 then tx_fail DeletionSupplierNotFound
       else tx_bind (del_uuid uuid supplier_id) (\<lambda>sid.
         tx_bind (move_operation uuid operation_id claim_id now
             (\<lambda>r. dl_supplier_id r = sid \<and> dl_state r = DeletionRequested) (set_commit_pending now)) (\<lambda>rows.
           if rows \<noteq> 1 then tx_bind (tx_get (diagnose_transition uuid operation_id claim_id now (Some DeletionRequested))) tx_fail
           else tx_return ())))"

definition delete_current_and_mark_commit_pending :: "uuid_reader \<Rightarrow> string \<Rightarrow> string \<Rightarrow> string \<Rightarrow> int \<Rightarrow> supplier_db
    \<Rightarrow> (deletion_error + unit) \<times> supplier_db" where
  "delete_current_and_mark_commit_pending uuid supplier_id operation_id claim_id now =
     run_tx (delete_current_tx uuid supplier_id operation_id claim_id now)"

definition complete_deletion :: "uuid_reader \<Rightarrow> string \<Rightarrow> string \<Rightarrow> int \<Rightarrow> supplier_db
    \<Rightarrow> (deletion_error + unit) \<times> supplier_db" where
  "complete_deletion uuid operation_id claim_id now db =
     transition_result uuid operation_id claim_id now (Some DeletionCommitPending)
       (run_tx (move_operation uuid operation_id claim_id now (\<lambda>r. dl_state r = DeletionCommitPending) (set_completed now)) db)"

definition schedule_deletion_retry :: "uuid_reader \<Rightarrow> string \<Rightarrow> string \<Rightarrow> deletion_failure \<Rightarrow> int option \<Rightarrow> int \<Rightarrow> supplier_db
    \<Rightarrow> (deletion_error + unit) \<times> supplier_db" where
  "schedule_deletion_retry uuid operation_id claim_id failure next now db =
     transition_result uuid operation_id claim_id now None
       (run_tx (move_operation uuid operation_id claim_id now (\<lambda>r. pending_state (dl_state r)) (set_retry next failure now)) db)"

end
