(* ===== verification/Fence_Http.thy ===== *)
theory Fence_Http
  imports Supplier_Deletion Go_Json
begin

text \<open>
  The fence routes between the two services: order-service's handler (\<^verbatim>\<open>fence/handler.go\<close>) and what
  supplier-service's client (\<^verbatim>\<open>orderclient/client.go\<close>) makes of one response. A request body is the
  sequence of JSON values in the stream, a response is its status and its body; both \<^verbatim>\<open>Fence\<close>
  structs have the fields of the record \<open>fence\<close>.
\<close>

section \<open>Ids and fields\<close>

text \<open>supplier-service's pattern also asks for a version digit and a variant digit.\<close>

definition is_version_digit :: "char \<Rightarrow> bool" where
  "is_version_digit c \<longleftrightarrow> c \<in> set ''12345678''"

definition is_variant_digit :: "char \<Rightarrow> bool" where
  "is_variant_digit c \<longleftrightarrow> c \<in> set ''89abAB''"

definition rfc_uuid_shape :: "(char \<Rightarrow> bool) list" where
  "rfc_uuid_shape =
     replicate 8 is_hex @ [(=) CHR ''-''] @ replicate 4 is_hex @ [(=) CHR ''-'']
     @ [is_version_digit] @ replicate 3 is_hex @ [(=) CHR ''-''] @ [is_variant_digit] @ replicate 3 is_hex
     @ [(=) CHR ''-''] @ replicate 12 is_hex"

definition valid_rfc_uuid :: "string \<Rightarrow> bool" where
  "valid_rfc_uuid s \<longleftrightarrow> list_all2 (\<lambda>p c. p c) rfc_uuid_shape s"

definition set_bool :: "json \<Rightarrow> bool option \<Rightarrow> bool option" where
  "set_bool v acc = (case acc of None \<Rightarrow> None
     | Some d \<Rightarrow> (case v of JNull \<Rightarrow> Some d | JBool b \<Rightarrow> Some b | _ \<Rightarrow> None))"

definition bool_field :: "string \<Rightarrow> (string \<times> json) list \<Rightarrow> bool option" where
  "bool_field name fs =
     foldl (\<lambda>acc (k, v). if field_matches name k then set_bool v acc else acc) (Some False) fs"

section \<open>The handler\<close>

datatype fence_route = AcquireRoute | InspectRoute | CommitRoute | ReleaseRoute

record fence_request =
  fq_route :: fence_route
  fq_operation_id :: string
  fq_body :: "raw_json list"

record fence_response =
  fp_status :: nat
  fp_body :: raw_json

fun wire_text :: "wire_state \<Rightarrow> string" where
  "wire_text StateOpen = ''open''"
| "wire_text StateCommitted = ''committed''"
| "wire_text StateReleased = ''released''"

definition error_response :: "app_code \<Rightarrow> fence_response" where
  "error_response code = \<lparr>fp_status = http_status code, fp_body = Some (JObj [(''code'', JStr (app_code_text code))])\<rparr>"

definition fence_fields :: "fence \<Rightarrow> (string \<times> json) list" where
  "fence_fields f = [(''operationId'', JStr (fn_operation_id f)), (''supplierId'', JStr (fn_supplier_id f)),
     (''state'', JStr (wire_text (fn_state f))), (''hasActiveErrands'', JBool (fn_has_active_errands f))]"

definition respond :: "fence_error + fence \<Rightarrow> fence_response" where
  "respond x = (case x of
      Inl (FenceApp code) \<Rightarrow> error_response code
    | Inl FenceInternal \<Rightarrow> error_response Internal
    | Inr f \<Rightarrow> \<lparr>fp_status = 200, fp_body = Some (JObj (fence_fields f))\<rparr>)"

text \<open>The caller's subject and the operation's id. The routes pass the service token's check first.\<close>

definition fence_target :: "string option \<Rightarrow> fence_request \<Rightarrow> app_code + (string \<times> string)" where
  "fence_target caller request = (case caller of
      None \<Rightarrow> Inl Unauthenticated
    | Some subject \<Rightarrow>
        if subject = [] then Inl Unauthenticated
        else if \<not> uuid_pattern (fq_operation_id request) then Inl InvalidArgument
        else Inr (subject, to_lower (fq_operation_id request)))"

text \<open>The optional string field \<^verbatim>\<open>supplierId\<close>; no other field is allowed.\<close>

definition acquire_field :: "(string \<times> json) list \<Rightarrow> app_code + string option" where
  "acquire_field fs =
     foldl (\<lambda>acc (k, v). case acc of Inl e \<Rightarrow> Inl e | Inr x \<Rightarrow>
         if \<not> field_matches ''supplierId'' k then Inl ValidationFailed
         else (case v of JNull \<Rightarrow> Inr None | JStr s \<Rightarrow> Inr (Some s) | _ \<Rightarrow> Inl ValidationFailed)) (Inr None) fs"

definition decode_acquire :: "raw_json list \<Rightarrow> app_code + string" where
  "decode_acquire body = (case body of
      [] \<Rightarrow> Inl InvalidArgument
    | value # rest \<Rightarrow>
        (case (case value of Some (JObj fs) \<Rightarrow> acquire_field fs | Some JNull \<Rightarrow> Inr None | _ \<Rightarrow> Inl InvalidArgument) of
           Inl e \<Rightarrow> Inl e
         | Inr sid \<Rightarrow>
             if rest \<noteq> [] then Inl InvalidArgument
             else (case sid of None \<Rightarrow> Inl ValidationFailed
               | Some s \<Rightarrow> if uuid_pattern s then Inr (to_lower s) else Inl ValidationFailed)))"

definition serve_fence :: "uuid_reader \<Rightarrow> int \<Rightarrow> string option \<Rightarrow> fence_request \<Rightarrow> ops_state \<Rightarrow> fence_response \<times> ops_state" where
  "serve_fence uuid now caller request s =
     (case fence_target caller request of
        Inl code \<Rightarrow> (error_response code, s)
      | Inr (actor, operation_id) \<Rightarrow> (case fq_route request of
            AcquireRoute \<Rightarrow> (case decode_acquire (fq_body request) of
                Inl code \<Rightarrow> (error_response code, s)
              | Inr supplier_id \<Rightarrow> apfst respond (acquire uuid now actor operation_id supplier_id s))
          | InspectRoute \<Rightarrow> (respond (inspect uuid operation_id s), s)
          | CommitRoute \<Rightarrow> apfst respond (commit_fence uuid now actor operation_id s)
          | ReleaseRoute \<Rightarrow> apfst respond (release_fence uuid now actor operation_id s)))"

section \<open>One attempt of the client\<close>

datatype client_error = ErrUnavailable | ErrFenceNotFound | ErrInvalidTransition | ErrRejected | ErrInvalidResponse

definition read_wire_state :: "string \<Rightarrow> wire_state option" where
  "read_wire_state s = (if s = ''open'' then Some StateOpen else if s = ''committed'' then Some StateCommitted
     else if s = ''released'' then Some StateReleased else None)"

definition decode_fence :: "raw_json \<Rightarrow> client_error + fence" where
  "decode_fence body =
     (let obj = (case body of Some (JObj fs) \<Rightarrow> Some fs | Some JNull \<Rightarrow> Some [] | _ \<Rightarrow> None)
      in case obj of None \<Rightarrow> Inl ErrInvalidResponse
         | Some fs \<Rightarrow> (case (string_field ''operationId'' fs, string_field ''supplierId'' fs, string_field ''state'' fs,
                 bool_field ''hasActiveErrands'' fs) of
               (Some op, Some sid, Some state, Some active) \<Rightarrow>
                 (case read_wire_state state of None \<Rightarrow> Inl ErrInvalidResponse
                  | Some st \<Rightarrow> if \<not> valid_rfc_uuid sid then Inl ErrInvalidResponse
                      else Inr \<lparr>fn_operation_id = op, fn_supplier_id = sid, fn_state = st, fn_has_active_errands = active\<rparr>)
             | _ \<Rightarrow> Inl ErrInvalidResponse))"

text \<open>The fence, or the error and whether it may be retried; \<open>None\<close> is a request that got no response.\<close>

definition client_attempt :: "fence_response option \<Rightarrow> (client_error \<times> bool) + fence" where
  "client_attempt r = (case r of
      None \<Rightarrow> Inl (ErrUnavailable, True)
    | Some response \<Rightarrow>
        (let status = fp_status response in
         if status = 200 then (case decode_fence (fp_body response) of Inl e \<Rightarrow> Inl (e, False) | Inr f \<Rightarrow> Inr f)
         else if status = 429 \<or> status \<ge> 500 then Inl (ErrUnavailable, True)
         else if status = 404 then Inl (ErrFenceNotFound, False)
         else if status = 409 then Inl (ErrInvalidTransition, False)
         else if 400 \<le> status then Inl (ErrRejected, False)
         else Inl (ErrInvalidResponse, False)))"

section \<open>What the client reads is what the service found\<close>

lemma fence_field_keys:
  "to_lower ''operationId'' = ''operationid''" "to_lower ''supplierId'' = ''supplierid''" "to_lower ''state'' = ''state''"
  "to_lower ''hasActiveErrands'' = ''hasactiveerrands''"
  by code_simp+

lemma field_names_apart:
  "field_matches ''operationId'' k \<longleftrightarrow> to_lower k = ''operationid''" "field_matches ''supplierId'' k \<longleftrightarrow> to_lower k = ''supplierid''"
  "field_matches ''state'' k \<longleftrightarrow> to_lower k = ''state''" "field_matches ''hasActiveErrands'' k \<longleftrightarrow> to_lower k = ''hasactiveerrands''"
  by (simp_all add: field_matches_def fence_field_keys)

lemma read_wire_text [simp]: "read_wire_state (wire_text s) = Some s"
  by (cases s) (simp_all add: read_wire_state_def)

lemma decode_fence_fields:
  "decode_fence (Some (JObj (fence_fields f))) = (if valid_rfc_uuid (fn_supplier_id f) then Inr f else Inl ErrInvalidResponse)"
  by (simp add: decode_fence_def fence_fields_def string_field_def bool_field_def set_bool_def field_names_apart fence_field_keys)

lemma error_response_read: "client_attempt (Some (error_response code)) = Inr f \<longleftrightarrow> False"
  by (cases code) (simp_all add: client_attempt_def error_response_def Let_def)

lemma respond_read:
  "client_attempt (Some (respond x)) = Inr f \<longleftrightarrow> x = Inr f \<and> valid_rfc_uuid (fn_supplier_id f)"
proof (cases x)
  case (Inl e)
  then show ?thesis by (cases e) (simp_all add: respond_def error_response_read)
next
  case (Inr g)
  then show ?thesis by (auto simp: respond_def client_attempt_def decode_fence_fields)
qed

end
