(* ===== verification/Deletion_Workflow.thy ===== *)
theory Deletion_Workflow
  imports Fence_Http
begin

text \<open>
  Guarded deletion in supplier-service: the fence client's calls (\<^verbatim>\<open>orderclient/client.go\<close>), the
  workflow the handler and the reconciler share (\<^verbatim>\<open>delete/workflow.go\<close>), the
  \<^verbatim>\<open>DELETE\<close> handler and one pass of the reconciler. Each is a program that stops at every
  interaction with its surroundings (the clock, fresh ids, the context, the store, order-service) and goes
  on with the answer, so that other workers can act between any two of them.
\<close>

section \<open>Programs\<close>

datatype store_call =
    CreateOrGetDeletion string string int int
  | GetDeletion string
  | ListClaimableDeletions int int
  | ClaimDeletion string string int int
  | MarkDeletionReleasePending string string int
  | MarkDeletionRejectedActiveErrands string string int
  | DeleteCurrentAndMarkCommitPending string string string int
  | CompleteDeletion string string int
  | ScheduleDeletionRetry string string deletion_failure "int option" int

datatype store_answer = Done | Found deletion_record | Listed "deletion_record list" | Claimed "deletion_record option"

type_synonym store_result = "deletion_error + store_answer"

datatype 'a prog =
    Return 'a
  | Now "int \<Rightarrow> 'a prog"
  | NewClaimID "string \<Rightarrow> 'a prog"
  | ContextEnded "bool \<Rightarrow> 'a prog"
  | Store store_call "store_result \<Rightarrow> 'a prog"
  | Send fence_request "fence_response option \<Rightarrow> 'a prog"

primrec prog_bind :: "'a prog \<Rightarrow> ('a \<Rightarrow> 'b prog) \<Rightarrow> 'b prog" where
  "prog_bind (Return a) f = f a"
| "prog_bind (Now k) f = Now (\<lambda>x. prog_bind (k x) f)"
| "prog_bind (NewClaimID k) f = NewClaimID (\<lambda>x. prog_bind (k x) f)"
| "prog_bind (ContextEnded k) f = ContextEnded (\<lambda>x. prog_bind (k x) f)"
| "prog_bind (Store c k) f = Store c (\<lambda>x. prog_bind (k x) f)"
| "prog_bind (Send r k) f = Send r (\<lambda>x. prog_bind (k x) f)"

section \<open>Calls of the store\<close>

definition call_answer :: "(deletion_error + 'a) \<times> supplier_db \<Rightarrow> ('a \<Rightarrow> store_answer) \<Rightarrow> store_result \<times> supplier_db" where
  "call_answer x f = (case x of (Inl e, db) \<Rightarrow> (Inl e, db) | (Inr a, db) \<Rightarrow> (Inr (f a), db))"

fun exec_store :: "uuid_reader \<Rightarrow> store_call \<Rightarrow> supplier_db \<Rightarrow> store_result \<times> supplier_db" where
  "exec_store uuid (CreateOrGetDeletion op sid attempts now) db = call_answer (create_or_get_deletion uuid op sid attempts now db) Found"
| "exec_store uuid (GetDeletion op) db = call_answer (get_deletion uuid op db, db) Found"
| "exec_store uuid (ListClaimableDeletions now limit) db = call_answer (list_claimable_deletions now limit db, db) Listed"
| "exec_store uuid (ClaimDeletion op claim now lease) db = call_answer (claim_deletion uuid op claim now lease db) Claimed"
| "exec_store uuid (MarkDeletionReleasePending op claim now) db = call_answer (mark_deletion_release_pending uuid op claim now db) (\<lambda>_. Done)"
| "exec_store uuid (MarkDeletionRejectedActiveErrands op claim now) db = call_answer (mark_deletion_rejected uuid op claim now db) (\<lambda>_. Done)"
| "exec_store uuid (DeleteCurrentAndMarkCommitPending sid op claim now) db =
     call_answer (delete_current_and_mark_commit_pending uuid sid op claim now db) (\<lambda>_. Done)"
| "exec_store uuid (CompleteDeletion op claim now) db = call_answer (complete_deletion uuid op claim now db) (\<lambda>_. Done)"
| "exec_store uuid (ScheduleDeletionRetry op claim failure next now) db =
     call_answer (schedule_deletion_retry uuid op claim failure next now db) (\<lambda>_. Done)"

text \<open>A call as a program; an answer of another shape does not occur.\<close>

definition store_unit :: "store_call \<Rightarrow> (deletion_error + unit) prog" where
  "store_unit c = Store c (\<lambda>r. Return (case r of Inl e \<Rightarrow> Inl e | Inr _ \<Rightarrow> Inr ()))"

definition store_record :: "store_call \<Rightarrow> (deletion_error + deletion_record) prog" where
  "store_record c = Store c (\<lambda>r. Return (case r of Inl e \<Rightarrow> Inl e | Inr (Found d) \<Rightarrow> Inr d | Inr _ \<Rightarrow> Inl DeletionDatabase))"

definition store_list :: "store_call \<Rightarrow> (deletion_error + deletion_record list) prog" where
  "store_list c = Store c (\<lambda>r. Return (case r of Inl e \<Rightarrow> Inl e | Inr (Listed ds) \<Rightarrow> Inr ds | Inr _ \<Rightarrow> Inl DeletionDatabase))"

definition store_claim :: "store_call \<Rightarrow> (deletion_error + deletion_record option) prog" where
  "store_claim c = Store c (\<lambda>r. Return (case r of Inl e \<Rightarrow> Inl e | Inr (Claimed d) \<Rightarrow> Inr d | Inr _ \<Rightarrow> Inl DeletionDatabase))"

section \<open>The fence client\<close>

text \<open>
  The retries of one call: another attempt follows a failure that may be retried, unless the context has
  ended or ends during the pause. The constructor of the client refuses fewer than one attempt, so the
  first is always made; \<open>n\<close> counts the attempts after it.
\<close>

primrec retry_attempts :: "nat \<Rightarrow> fence_request \<Rightarrow> (client_error + fence) prog" where
  "retry_attempts 0 request = Send request (\<lambda>r. case client_attempt r of
       Inr f \<Rightarrow> Return (if equal_fold (fn_operation_id f) (fq_operation_id request) then Inr f else Inl ErrInvalidResponse)
     | Inl (e, retryable) \<Rightarrow> if retryable then ContextEnded (\<lambda>_. Return (Inl e)) else Return (Inl e))"
| "retry_attempts (Suc n) request = Send request (\<lambda>r. case client_attempt r of
       Inr f \<Rightarrow> Return (if equal_fold (fn_operation_id f) (fq_operation_id request) then Inr f else Inl ErrInvalidResponse)
     | Inl (e, retryable) \<Rightarrow>
         if \<not> retryable then Return (Inl e)
         else ContextEnded (\<lambda>ended. if ended then Return (Inl e)
           else ContextEnded (\<lambda>done. if done then Return (Inl ErrUnavailable) else retry_attempts n request)))"

definition client_call :: "nat \<Rightarrow> fence_route \<Rightarrow> string \<Rightarrow> raw_json list \<Rightarrow> (client_error + fence) prog" where
  "client_call max_attempts route operation_id body =
     (if \<not> valid_rfc_uuid operation_id then Return (Inl ErrRejected)
      else retry_attempts (max_attempts - 1) \<lparr>fq_route = route, fq_operation_id = operation_id, fq_body = body\<rparr>)"

definition client_acquire :: "nat \<Rightarrow> string \<Rightarrow> string \<Rightarrow> (client_error + fence) prog" where
  "client_acquire max_attempts operation_id supplier_id =
     prog_bind (client_call max_attempts AcquireRoute operation_id [Some (JObj [(''supplierId'', JStr supplier_id)])]) (\<lambda>x.
       Return (case x of Inl e \<Rightarrow> Inl e
         | Inr f \<Rightarrow> if equal_fold (fn_supplier_id f) supplier_id then Inr f else Inl ErrInvalidResponse))"

definition client_inspect :: "nat \<Rightarrow> string \<Rightarrow> (client_error + fence) prog" where
  "client_inspect max_attempts operation_id = client_call max_attempts InspectRoute operation_id []"

definition client_transition :: "nat \<Rightarrow> fence_route \<Rightarrow> string \<Rightarrow> wire_state \<Rightarrow> (client_error + unit) prog" where
  "client_transition max_attempts route operation_id want =
     prog_bind (client_call max_attempts route operation_id []) (\<lambda>x.
       Return (case x of Inl e \<Rightarrow> Inl e | Inr f \<Rightarrow> if fn_state f \<noteq> want then Inl ErrInvalidResponse else Inr ()))"

definition client_commit :: "nat \<Rightarrow> string \<Rightarrow> (client_error + unit) prog" where
  "client_commit max_attempts operation_id = client_transition max_attempts CommitRoute operation_id StateCommitted"

definition client_release :: "nat \<Rightarrow> string \<Rightarrow> (client_error + unit) prog" where
  "client_release max_attempts operation_id = client_transition max_attempts ReleaseRoute operation_id StateReleased"

section \<open>The workflow\<close>

datatype deletion_outcome = OutcomeCompleted | OutcomeRejectedActiveErrands | OutcomeCommitPending | OutcomeFenceUnavailable
  | OutcomeReleaseUnavailable | OutcomeFenceReleased | OutcomeSupplierNotFound | OutcomeInternal

text \<open>The handler's attempts, lease and backoff, and the attempts of the client it is wired to.\<close>

record deletion_config =
  dc_max_attempts :: int
  dc_lease_duration :: int
  dc_retry_backoff :: int
  dc_client_attempts :: nat

definition schedule_retry :: "deletion_config \<Rightarrow> deletion_record \<Rightarrow> string \<Rightarrow> deletion_failure \<Rightarrow> int \<Rightarrow> unit prog" where
  "schedule_retry cfg rec claim failure now =
     (let next = (if dr_attempt_count rec < dr_max_attempts rec then Some (now + dc_retry_backoff cfg) else None)
      in prog_bind (store_unit (ScheduleDeletionRetry (dr_operation_id rec) claim failure next now)) (\<lambda>_. Return ()))"

definition stop_retrying :: "deletion_record \<Rightarrow> string \<Rightarrow> int \<Rightarrow> unit prog" where
  "stop_retrying rec claim now =
     prog_bind (store_unit (ScheduleDeletionRetry (dr_operation_id rec) claim FailureAcquireAmbiguous None now)) (\<lambda>_. Return ())"

definition workflow_release :: "deletion_config \<Rightarrow> deletion_record \<Rightarrow> string \<Rightarrow> int \<Rightarrow> deletion_outcome prog" where
  "workflow_release cfg rec claim now =
     prog_bind (client_release (dc_client_attempts cfg) (dr_operation_id rec)) (\<lambda>x. case x of
         Inl _ \<Rightarrow> prog_bind (schedule_retry cfg rec claim FailureReleaseUnavailable now) (\<lambda>_. Return OutcomeReleaseUnavailable)
       | Inr _ \<Rightarrow> prog_bind (store_unit (MarkDeletionRejectedActiveErrands (dr_operation_id rec) claim now)) (\<lambda>y. case y of
             Inl _ \<Rightarrow> Return OutcomeInternal
           | Inr _ \<Rightarrow> Return OutcomeRejectedActiveErrands))"

definition workflow_commit :: "deletion_config \<Rightarrow> deletion_record \<Rightarrow> string \<Rightarrow> int \<Rightarrow> deletion_outcome prog" where
  "workflow_commit cfg rec claim now =
     (let finish = prog_bind (store_unit (CompleteDeletion (dr_operation_id rec) claim now)) (\<lambda>y. case y of
              Inl _ \<Rightarrow> Return OutcomeInternal | Inr _ \<Rightarrow> Return OutcomeCompleted);
          again = prog_bind (schedule_retry cfg rec claim FailureCommitUnavailable now) (\<lambda>_. Return OutcomeCommitPending)
      in prog_bind (client_commit (dc_client_attempts cfg) (dr_operation_id rec)) (\<lambda>x. case x of
             Inr _ \<Rightarrow> finish
           | Inl _ \<Rightarrow> prog_bind (client_inspect (dc_client_attempts cfg) (dr_operation_id rec)) (\<lambda>y. case y of
                 Inl _ \<Rightarrow> again
               | Inr f \<Rightarrow> if fn_state f \<noteq> StateCommitted then again else finish)))"

text \<open>The soft delete, and the release of the fence when it failed and the operation is still this claim's.\<close>

definition workflow_delete :: "deletion_config \<Rightarrow> deletion_record \<Rightarrow> string \<Rightarrow> int \<Rightarrow> deletion_outcome prog" where
  "workflow_delete cfg rec claim now =
     prog_bind (store_unit (DeleteCurrentAndMarkCommitPending (dr_supplier_id rec) (dr_operation_id rec) claim now)) (\<lambda>x. case x of
         Inr _ \<Rightarrow> workflow_commit cfg rec claim now
       | Inl e \<Rightarrow>
           let answer = Return (if e = DeletionSupplierNotFound then OutcomeSupplierNotFound else OutcomeInternal)
           in prog_bind (store_record (GetDeletion (dr_operation_id rec))) (\<lambda>y. case y of
                Inl _ \<Rightarrow> answer
              | Inr current \<Rightarrow>
                  if dr_state current = DeletionRequested \<and> dr_claim_id current = claim
                  then prog_bind (client_release (dc_client_attempts cfg) (dr_operation_id rec)) (\<lambda>_. answer)
                  else answer))"

definition workflow_acquired :: "deletion_config \<Rightarrow> deletion_record \<Rightarrow> string \<Rightarrow> int \<Rightarrow> fence \<Rightarrow> deletion_outcome prog" where
  "workflow_acquired cfg rec claim now f =
     (if \<not> equal_fold (fn_supplier_id f) (dr_supplier_id rec)
      then prog_bind (schedule_retry cfg rec claim FailureAcquireAmbiguous now) (\<lambda>_. Return OutcomeFenceUnavailable)
      else case fn_state f of
          StateOpen \<Rightarrow>
            if fn_has_active_errands f
            then prog_bind (store_unit (MarkDeletionReleasePending (dr_operation_id rec) claim now)) (\<lambda>x. case x of
                Inl _ \<Rightarrow> Return OutcomeInternal
              | Inr _ \<Rightarrow> workflow_release cfg rec claim now)
            else workflow_delete cfg rec claim now
        | StateCommitted \<Rightarrow> workflow_delete cfg rec claim now
        | StateReleased \<Rightarrow> prog_bind (stop_retrying rec claim now) (\<lambda>_. Return OutcomeFenceReleased))"

definition workflow_acquire :: "deletion_config \<Rightarrow> deletion_record \<Rightarrow> string \<Rightarrow> int \<Rightarrow> deletion_outcome prog" where
  "workflow_acquire cfg rec claim now =
     prog_bind (client_acquire (dc_client_attempts cfg) (dr_operation_id rec) (dr_supplier_id rec)) (\<lambda>x. case x of
         Inr f \<Rightarrow> workflow_acquired cfg rec claim now f
       | Inl _ \<Rightarrow> prog_bind (client_inspect (dc_client_attempts cfg) (dr_operation_id rec)) (\<lambda>y. case y of
             Inr f \<Rightarrow> workflow_acquired cfg rec claim now f
           | Inl _ \<Rightarrow> prog_bind (schedule_retry cfg rec claim FailureAcquireUnavailable now) (\<lambda>_. Return OutcomeFenceUnavailable)))"

definition workflow_advance :: "deletion_config \<Rightarrow> deletion_record \<Rightarrow> string \<Rightarrow> int \<Rightarrow> deletion_outcome prog" where
  "workflow_advance cfg rec claim now = (case dr_state rec of
      DeletionRequested \<Rightarrow> workflow_acquire cfg rec claim now
    | DeletionReleasePending \<Rightarrow> workflow_release cfg rec claim now
    | DeletionCommitPending \<Rightarrow> workflow_commit cfg rec claim now
    | _ \<Rightarrow> Return OutcomeInternal)"

section \<open>The handler\<close>

text \<open>Who asks (\<open>None\<close>: no principal; otherwise whether it may manage suppliers), the path and the header.\<close>

record delete_request =
  dq_manager :: "bool option"
  dq_supplier_id :: string
  dq_idempotency_key :: string

datatype delete_reply = NoContent | ErrorReply nat string | PendingReply string

definition outcome_reply :: "string \<Rightarrow> deletion_outcome \<Rightarrow> delete_reply" where
  "outcome_reply op outcome = (case outcome of
      OutcomeCompleted \<Rightarrow> NoContent
    | OutcomeRejectedActiveErrands \<Rightarrow> ErrorReply 409 ''SUPPLIER_HAS_ACTIVE_ERRANDS''
    | OutcomeCommitPending \<Rightarrow> PendingReply op
    | OutcomeFenceUnavailable \<Rightarrow> ErrorReply 503 ''DELETION_FENCE_UNAVAILABLE''
    | OutcomeReleaseUnavailable \<Rightarrow> ErrorReply 503 ''DELETION_FENCE_UNAVAILABLE''
    | OutcomeFenceReleased \<Rightarrow> ErrorReply 503 ''DELETION_FENCE_UNAVAILABLE''
    | OutcomeSupplierNotFound \<Rightarrow> ErrorReply 404 ''SUPPLIER_NOT_FOUND''
    | OutcomeInternal \<Rightarrow> ErrorReply 500 ''INTERNAL'')"

text \<open>The claim of an operation that is not terminal, and its advance.\<close>

definition delete_claimed :: "deletion_config \<Rightarrow> string \<Rightarrow> deletion_record \<Rightarrow> int \<Rightarrow> delete_reply prog" where
  "delete_claimed cfg op rec now =
     NewClaimID (\<lambda>claim.
       prog_bind (store_claim (ClaimDeletion op claim now (now + dc_lease_duration cfg))) (\<lambda>x. case x of
           Inl _ \<Rightarrow> Return (ErrorReply 500 ''INTERNAL'')
         | Inr None \<Rightarrow> Return (if dr_state rec = DeletionCommitPending then PendingReply op
             else ErrorReply 503 ''DELETION_FENCE_UNAVAILABLE'')
         | Inr (Some claimed) \<Rightarrow> prog_bind (workflow_advance cfg claimed claim now) (\<lambda>outcome. Return (outcome_reply op outcome))))"

definition delete_supplier :: "deletion_config \<Rightarrow> delete_request \<Rightarrow> delete_reply prog" where
  "delete_supplier cfg request =
     (let key = trim_space (dq_idempotency_key request); sid = dq_supplier_id request in
      if dq_manager request = None then Return (ErrorReply 401 ''UNAUTHENTICATED'')
      else if dq_manager request = Some False then Return (ErrorReply 403 ''FORBIDDEN'')
      else if \<not> valid_rfc_uuid sid then Return (ErrorReply 400 ''INVALID_ARGUMENT'')
      else if key = [] then Return (ErrorReply 400 ''INVALID_ARGUMENT'')
      else if \<not> valid_rfc_uuid key then Return (ErrorReply 400 ''INVALID_ARGUMENT'')
      else Now (\<lambda>now.
        prog_bind (store_record (CreateOrGetDeletion key sid (dc_max_attempts cfg) now)) (\<lambda>x. case x of
            Inl DeletionOperationMismatch \<Rightarrow> Return (ErrorReply 400 ''INVALID_ARGUMENT'')
          | Inl DeletionSupplierNotFound \<Rightarrow> Return (ErrorReply 404 ''SUPPLIER_NOT_FOUND'')
          | Inl _ \<Rightarrow> Return (ErrorReply 500 ''INTERNAL'')
          | Inr rec \<Rightarrow> (case dr_state rec of
                DeletionCompleted \<Rightarrow> Return NoContent
              | DeletionRejectedActiveErrands \<Rightarrow> Return (ErrorReply 409 ''SUPPLIER_HAS_ACTIVE_ERRANDS'')
              | _ \<Rightarrow> delete_claimed cfg key rec now))))"

section \<open>The reconciler\<close>

definition reconcile_batch_size :: int where "reconcile_batch_size = 100"

text \<open>The loop over the listed operations, with the number claimed so far.\<close>

primrec reconcile_records :: "deletion_config \<Rightarrow> deletion_record list \<Rightarrow> nat \<Rightarrow> nat prog" where
  "reconcile_records cfg [] claimed = Return claimed"
| "reconcile_records cfg (rec # recs) claimed =
     ContextEnded (\<lambda>ended. if ended then Return claimed
       else Now (\<lambda>now. NewClaimID (\<lambda>claim.
         prog_bind (store_claim (ClaimDeletion (dr_operation_id rec) claim now (now + dc_lease_duration cfg))) (\<lambda>x. case x of
             Inr (Some current) \<Rightarrow> prog_bind (workflow_advance cfg current claim now) (\<lambda>_. reconcile_records cfg recs (claimed + 1))
           | _ \<Rightarrow> reconcile_records cfg recs claimed))))"

definition reconcile_once :: "deletion_config \<Rightarrow> nat prog" where
  "reconcile_once cfg = Now (\<lambda>now.
     prog_bind (store_list (ListClaimableDeletions now reconcile_batch_size)) (\<lambda>x. case x of
         Inl _ \<Rightarrow> Return 0
       | Inr recs \<Rightarrow> reconcile_records cfg recs 0))"

definition default_deletion_config :: "nat \<Rightarrow> deletion_config" where
  "default_deletion_config client_attempts = \<lparr>dc_max_attempts = 5, dc_lease_duration = 60 * second,
     dc_retry_backoff = 30 * second, dc_client_attempts = client_attempts\<rparr>"

end
