(* ===== verification/Deletion_Rows.thy ===== *)
theory Deletion_Rows
  imports Deletion_Workflow
begin

text \<open>
  What a call of the deletion store does to the rows. Whatever the call, it leaves the tables alone,
  inserts one requested operation, or changes one operation along an edge of its state machine; in the last
  case the changing call named the row's claim, or took the claim of a row that was free.
\<close>

section \<open>The state machine of an operation\<close>

inductive row_change :: "uuid_reader \<Rightarrow> store_call \<Rightarrow> deletion_row \<Rightarrow> deletion_row \<Rightarrow> bool" for uuid where
  claimed: "uuid oid = Some (dl_operation_id row) \<Longrightarrow> uuid cl = Some claim \<Longrightarrow> claimable_deletion now row \<Longrightarrow>
    row_change uuid (ClaimDeletion oid cl now lease) row (row\<lparr>dl_claim_id := Some claim, dl_lease_expires_at := Some lease,
      dl_attempt_count := dl_attempt_count row + 1, dl_updated_at := now\<rparr>)"
| release_pending: "uuid oid = Some (dl_operation_id row) \<Longrightarrow> uuid cl = Some claim \<Longrightarrow> dl_claim_id row = Some claim \<Longrightarrow>
    dl_state row = DeletionRequested \<Longrightarrow> row_change uuid (MarkDeletionReleasePending oid cl now) row (set_release_pending now row)"
| rejected: "uuid oid = Some (dl_operation_id row) \<Longrightarrow> uuid cl = Some claim \<Longrightarrow> dl_claim_id row = Some claim \<Longrightarrow>
    dl_state row = DeletionReleasePending \<Longrightarrow> row_change uuid (MarkDeletionRejectedActiveErrands oid cl now) row (set_rejected now row)"
| commit_pending: "uuid oid = Some (dl_operation_id row) \<Longrightarrow> uuid cl = Some claim \<Longrightarrow> dl_claim_id row = Some claim \<Longrightarrow>
    dl_state row = DeletionRequested \<Longrightarrow> uuid supplier = Some (dl_supplier_id row) \<Longrightarrow>
    row_change uuid (DeleteCurrentAndMarkCommitPending supplier oid cl now) row (set_commit_pending now row)"
| completed: "uuid oid = Some (dl_operation_id row) \<Longrightarrow> uuid cl = Some claim \<Longrightarrow> dl_claim_id row = Some claim \<Longrightarrow>
    dl_state row = DeletionCommitPending \<Longrightarrow> row_change uuid (CompleteDeletion oid cl now) row (set_completed now row)"
| retried: "uuid oid = Some (dl_operation_id row) \<Longrightarrow> uuid cl = Some claim \<Longrightarrow> dl_claim_id row = Some claim \<Longrightarrow>
    row_change uuid (ScheduleDeletionRetry oid cl failure next now) row (set_retry next failure now row)"

inductive_cases row_changeE: "row_change uuid c row row'"

inductive_simps row_change_simps:
  "row_change uuid (ClaimDeletion oid cl now lease) row row'"
  "row_change uuid (MarkDeletionReleasePending oid cl now) row row'"
  "row_change uuid (MarkDeletionRejectedActiveErrands oid cl now) row row'"
  "row_change uuid (DeleteCurrentAndMarkCommitPending supplier oid cl now) row row'"
  "row_change uuid (CompleteDeletion oid cl now) row row'"
  "row_change uuid (ScheduleDeletionRetry oid cl failure next now) row row'"
  "row_change uuid (CreateOrGetDeletion oid supplier attempts now) row row'"
  "row_change uuid (GetDeletion oid) row row'"
  "row_change uuid (ListClaimableDeletions now limit) row row'"

lemmas set_row_defs = set_release_pending_def set_rejected_def set_commit_pending_def set_completed_def set_retry_def

lemma row_change_ids:
  "row_change uuid c row row' \<Longrightarrow> dl_operation_id row' = dl_operation_id row \<and> dl_supplier_id row' = dl_supplier_id row"
  by (erule row_changeE) (simp_all add: set_row_defs)

text \<open>A call that reports success has changed a row; a claim reports the row it leaves.\<close>

fun took_effect :: "store_call \<Rightarrow> store_result \<Rightarrow> deletion_row \<Rightarrow> bool" where
  "took_effect (ClaimDeletion _ _ _ _) r row' \<longleftrightarrow> r = Inr (Claimed (Some (deletion_record_of row')))"
| "took_effect _ r row' \<longleftrightarrow> r = Inr Done"

fun no_effect :: "store_call \<Rightarrow> store_result \<Rightarrow> bool" where
  "no_effect (CreateOrGetDeletion _ _ _ _) r \<longleftrightarrow> True"
| "no_effect (GetDeletion _) r \<longleftrightarrow> True"
| "no_effect (ListClaimableDeletions _ _) r \<longleftrightarrow> True"
| "no_effect (ClaimDeletion _ _ _ _) r \<longleftrightarrow> (\<forall>rec. r \<noteq> Inr (Claimed (Some rec)))"
| "no_effect _ r \<longleftrightarrow> (\<exists>e. r = Inl e)"

definition fresh_deletion :: "uuid_reader \<Rightarrow> deletion_row \<Rightarrow> bool" where
  "fresh_deletion uuid row \<longleftrightarrow> dl_state row = DeletionRequested \<and> dl_claim_id row = None
     \<and> (\<exists>oid. uuid oid = Some (dl_operation_id row)) \<and> (\<exists>sid. uuid sid = Some (dl_supplier_id row))"

definition suppliers_after :: "store_call \<Rightarrow> string \<Rightarrow> supplier_db \<Rightarrow> supplier_row list" where
  "suppliers_after c sid db = (case c of
      DeleteCurrentAndMarkCommitPending _ _ _ now \<Rightarrow>
        update_where (\<lambda>s. su_supplier_id s = sid \<and> su_deleted_at s = None)
          (\<lambda>s. s\<lparr>su_deleted_at := Some now, su_updated_at := now\<rparr>) (sd_suppliers db)
    | _ \<Rightarrow> sd_suppliers db)"

definition deletion_keys :: "supplier_db \<Rightarrow> bool" where
  "deletion_keys db \<longleftrightarrow> distinct (map dl_operation_id (sd_deletions db))"

section \<open>Statements\<close>

lemma find_deletion_key:
  assumes "deletion_keys db" "r \<in> set (sd_deletions db)"
  shows "find_deletion (dl_operation_id r) db = Some r"
  using assms by (simp add: deletion_keys_def find_deletion_def find_key_unique)

lemma find_deletion_Some: "find_deletion op db = Some r \<Longrightarrow> r \<in> set (sd_deletions db) \<and> dl_operation_id r = op"
  using find_Some_mem by (fastforce simp: find_deletion_def)

lemma update_where_row:
  assumes "deletion_keys db" "find_deletion op db = Some row" "p row"
  shows "update_where (\<lambda>r. dl_operation_id r = op \<and> p r) f (sd_deletions db)
       = update_where (\<lambda>r. dl_operation_id r = op) (\<lambda>_. f row) (sd_deletions db)"
proof -
  have "r = row" if "r \<in> set (sd_deletions db)" "dl_operation_id r = op" for r
    using find_deletion_key [OF assms(1) that(1)] that(2) assms(2) by simp
  then show ?thesis using assms(3) by (auto simp: update_where_def)
qed

lemma update_operation_Inr:
  assumes keys: "deletion_keys db" and up: "update_operation op p f db = Inr (changed, db')"
  obtains "changed = None" "db' = db"
  | row where "find_deletion op db = Some row" "p row" "changed = Some (f row)"
      "db' = db\<lparr>sd_deletions := update_where (\<lambda>r. dl_operation_id r = op) (\<lambda>_. f row) (sd_deletions db)\<rparr>"
proof (cases "find (\<lambda>r. dl_operation_id r = op \<and> p r) (sd_deletions db)")
  case None
  with up that(1) show thesis by (simp add: update_operation_def tx_bind_def)
next
  case (Some row)
  then have mem: "row \<in> set (sd_deletions db)" "dl_operation_id row = op" "p row" using find_Some_mem by fastforce+
  have row: "find_deletion op db = Some row" using find_deletion_key [OF keys mem(1)] mem(2) by simp
  from up Some have "changed = Some (f row)"
    "db' = db\<lparr>sd_deletions := update_where (\<lambda>r. dl_operation_id r = op \<and> p r) f (sd_deletions db)\<rparr>"
    by (auto simp: update_operation_def tx_bind_def split: if_splits)
  with that(2) [OF row mem(3)] update_where_row [OF keys row, of p f] mem(3) show thesis by simp
qed

text \<open>A transition of a claimed operation and the answer its caller gets.\<close>

lemma moved_cases:
  assumes keys: "deletion_keys db"
    and x: "transition_result uuid oid cl now expected (run_tx (move_operation uuid oid cl now p f) db) = (r, db')"
  obtains e where "r = Inl e" "db' = db"
  | op claim row where "r = Inr ()" "uuid oid = Some op" "uuid cl = Some claim" "find_deletion op db = Some row" "p row"
      "dl_claim_id row = Some claim"
      "db' = db\<lparr>sd_deletions := update_where (\<lambda>r. dl_operation_id r = op) (\<lambda>_. f row) (sd_deletions db)\<rparr>"
proof (cases "move_operation uuid oid cl now p f db")
  case (Inl e)
  with x have "r = Inl e" "db' = db" by (simp_all add: run_tx_def transition_result_def)
  then show thesis by (rule that(1))
next
  case (Inr v)
  obtain n d where v: "v = (n, d)" by (cases v)
  obtain op claim changed where m: "uuid oid = Some op" "uuid cl = Some claim"
    "update_operation op (\<lambda>r. p r \<and> holds_claim claim now r) f db = Inr (changed, d)" "n = (if changed = None then 0 else 1)"
    using Inr v by (auto simp: move_operation_def del_uuid_def tx_bind_iff split: option.splits)
  from update_operation_Inr [OF keys m(3)] show thesis
  proof cases
    case 1
    with x Inr v m(4) that(1) show thesis by (auto simp: run_tx_def transition_result_def)
  next
    case (2 row)
    with x Inr v m(4) that(2) [OF _ m(1,2) 2(1)] show thesis by (auto simp: run_tx_def transition_result_def holds_claim_def)
  qed
qed

lemma deleted_cases:
  assumes keys: "deletion_keys db" and x: "delete_current_and_mark_commit_pending uuid supplier oid cl now db = (r, db')"
  obtains e where "r = Inl e" "db' = db"
  | op sid claim row where "r = Inr ()" "uuid oid = Some op" "uuid cl = Some claim" "uuid supplier = Some sid" "find_deletion op db = Some row"
      "dl_supplier_id row = sid" "dl_state row = DeletionRequested" "dl_claim_id row = Some claim"
      "db' = db\<lparr>sd_suppliers := suppliers_after (DeleteCurrentAndMarkCommitPending supplier oid cl now) sid db,
        sd_deletions := update_where (\<lambda>r. dl_operation_id r = op) (\<lambda>_. set_commit_pending now row) (sd_deletions db)\<rparr>"
proof (cases "delete_current_tx uuid supplier oid cl now db")
  case (Inl e)
  with x have "r = Inl e" "db' = db" by (simp_all add: delete_current_and_mark_commit_pending_def run_tx_def)
  then show thesis by (rule that(1))
next
  case (Inr v)
  let ?p = "\<lambda>s. su_supplier_id s = the (uuid supplier) \<and> su_deleted_at s = None"
  let ?f = "\<lambda>s. s\<lparr>su_deleted_at := Some now, su_updated_at := now\<rparr>"
  let ?d = "db\<lparr>sd_suppliers := update_where ?p ?f (sd_suppliers db)\<rparr>"
  from Inr obtain sid op claim changed d where m: "uuid supplier = Some sid" "uuid oid = Some op" "uuid cl = Some claim"
    "update_operation op (\<lambda>r. (dl_supplier_id r = sid \<and> dl_state r = DeletionRequested) \<and> holds_claim claim now r) (set_commit_pending now) ?d
       = Inr (Some changed, d)" "v = ((), d)"
    by (auto simp: delete_current_tx_def soft_delete_supplier_def move_operation_def del_uuid_def tx_bind_iff Let_def
        split: option.splits if_splits)
  have keys': "deletion_keys ?d" using keys by (simp add: deletion_keys_def)
  from update_operation_Inr [OF keys' m(4)] obtain row where row: "find_deletion op ?d = Some row"
    "dl_supplier_id row = sid" "dl_state row = DeletionRequested" "holds_claim claim now row"
    "d = ?d\<lparr>sd_deletions := update_where (\<lambda>r. dl_operation_id r = op) (\<lambda>_. set_commit_pending now row) (sd_deletions ?d)\<rparr>"
    by cases auto
  have d: "db' = d" "r = Inr ()" using x Inr m(5) by (simp_all add: delete_current_and_mark_commit_pending_def run_tx_def)
  show thesis
    by (rule that(2) [OF d(2) m(2,3,1)], unfold d(1) row(5)) (use m(1) row(1-4) in \<open>simp_all add: find_deletion_def holds_claim_def suppliers_after_def\<close>)
qed

lemma claim_cases:
  assumes keys: "deletion_keys db" and x: "claim_deletion uuid oid cl now lease db = (r, db')"
  obtains "\<And>d. r \<noteq> Inr (Some d)" "db' = db"
  | op claim row where "uuid oid = Some op" "uuid cl = Some claim" "find_deletion op db = Some row" "claimable_deletion now row"
      "r = Inr (Some (deletion_record_of (row\<lparr>dl_claim_id := Some claim, dl_lease_expires_at := Some lease,
        dl_attempt_count := dl_attempt_count row + 1, dl_updated_at := now\<rparr>)))"
      "db' = db\<lparr>sd_deletions := update_where (\<lambda>r. dl_operation_id r = op) (\<lambda>_. row\<lparr>dl_claim_id := Some claim, dl_lease_expires_at := Some lease,
        dl_attempt_count := dl_attempt_count row + 1, dl_updated_at := now\<rparr>) (sd_deletions db)\<rparr>"
proof (cases "lease \<le> now")
  case True
  with x that(1) show thesis by (auto simp: claim_deletion_def)
next
  case False
  show thesis
  proof (cases "claim_operation uuid oid cl now lease db")
    case (Inl e)
    with x False that(1) show thesis by (auto simp: claim_deletion_def run_tx_def)
  next
    case (Inr v)
    obtain changed d where v: "v = (changed, d)" by (cases v)
    obtain op claim where m: "uuid oid = Some op" "uuid cl = Some claim"
      "update_operation op (claimable_deletion now) (\<lambda>r. r\<lparr>dl_claim_id := Some claim, dl_lease_expires_at := Some lease,
           dl_attempt_count := dl_attempt_count r + 1, dl_updated_at := now\<rparr>) db = Inr (changed, d)"
      using Inr v by (auto simp: claim_operation_def del_uuid_def tx_bind_iff split: option.splits)
    from update_operation_Inr [OF keys m(3)] show thesis
    proof cases
      case 1
      with x False Inr v that(1) show thesis by (auto simp: claim_deletion_def run_tx_def)
    next
      case (2 row)
      with x False Inr v that(2) [OF m(1,2) 2(1)] show thesis by (simp add: claim_deletion_def run_tx_def)
    qed
  qed
qed

lemma created_cases:
  assumes x: "create_or_get_deletion uuid oid supplier attempts now db = (r, db')"
  obtains "db' = db"
  | row where "db' = db\<lparr>sd_deletions := sd_deletions db @ [row]\<rparr>" "find_deletion (dl_operation_id row) db = None" "fresh_deletion uuid row"
proof (cases "create_or_get_operation uuid oid supplier attempts now db")
  case (Inl e)
  with x that(1) show thesis by (auto simp: create_or_get_deletion_def run_tx_def split: if_splits)
next
  case (Inr v)
  obtain row d where v: "v = (row, d)" by (cases v)
  have "db' = db \<or> db' = d" using x Inr v by (auto simp: create_or_get_deletion_def run_tx_def split: if_splits)
  moreover have "d = db \<or> d = db\<lparr>sd_deletions := sd_deletions db @ [row]\<rparr> \<and> find_deletion (dl_operation_id row) db = None \<and> fresh_deletion uuid row"
    using Inr v by (auto simp: create_or_get_operation_def del_uuid_def tx_bind_iff Let_def fresh_deletion_def split: if_splits option.splits)
  ultimately show thesis using that by blast
qed

section \<open>Any call\<close>

lemma call_answer_eq:
  "call_answer x f = (r, db') \<longleftrightarrow> (\<exists>e. x = (Inl e, db') \<and> r = Inl e) \<or> (\<exists>a. x = (Inr a, db') \<and> r = Inr (f a))"
  by (cases x; cases "fst x") (auto simp: call_answer_def)

theorem exec_store_cases:
  assumes keys: "deletion_keys db" and x: "exec_store uuid c db = (r, db')"
  obtains (same) "db' = db" "no_effect c r"
  | (inserted) row where "db' = db\<lparr>sd_deletions := sd_deletions db @ [row]\<rparr>" "find_deletion (dl_operation_id row) db = None"
      "fresh_deletion uuid row" "no_effect c r"
  | (changed) row row' where "find_deletion (dl_operation_id row) db = Some row" "row_change uuid c row row'" "took_effect c r row'"
      "db' = db\<lparr>sd_suppliers := suppliers_after c (dl_supplier_id row) db,
        sd_deletions := update_where (\<lambda>r. dl_operation_id r = dl_operation_id row) (\<lambda>_. row') (sd_deletions db)\<rparr>"
proof -
  note found = find_deletion_Some
  have moved: thesis if c: "transition_result uuid oid cl now expected (run_tx (move_operation uuid oid cl now p f) db) = (y, db')"
      "r = (case y of Inl e \<Rightarrow> Inl e | Inr _ \<Rightarrow> Inr Done)"
    and ch: "\<And>row claim. uuid oid = Some (dl_operation_id row) \<Longrightarrow> uuid cl = Some claim \<Longrightarrow> p row \<Longrightarrow> dl_claim_id row = Some claim \<Longrightarrow>
      row_change uuid c row (f row)"
    and kind: "\<And>r. no_effect c r \<longleftrightarrow> (\<exists>e. r = Inl e)" "\<And>row r. took_effect c r row \<longleftrightarrow> r = Inr Done" "\<And>sid. suppliers_after c sid db = sd_suppliers db"
    for oid cl now expected p f y
    using moved_cases [OF keys c(1)]
  proof cases
    case (1 e)
    with c(2) kind(1) same show thesis by simp
  next
    case (2 op claim row)
    with found [OF 2(4)] ch [of row claim] changed [of row "f row"] c(2) kind(2,3) show thesis by simp
  qed
  show thesis
  proof (cases c)
    case (CreateOrGetDeletion oid sid attempts now)
    with x have "\<exists>y. create_or_get_deletion uuid oid sid attempts now db = (y, db')" by (auto simp: call_answer_eq)
    then obtain y where "create_or_get_deletion uuid oid sid attempts now db = (y, db')" ..
    from created_cases [OF this] CreateOrGetDeletion same inserted show thesis by auto
  next
    case (GetDeletion oid)
    with x same show thesis by (auto simp: call_answer_eq)
  next
    case (ListClaimableDeletions now limit)
    with x same show thesis by (auto simp: call_answer_eq)
  next
    case (ClaimDeletion oid cl now lease)
    with x obtain y where y: "claim_deletion uuid oid cl now lease db = (y, db')" "r = (case y of Inl e \<Rightarrow> Inl e | Inr d \<Rightarrow> Inr (Claimed d))"
      by (auto simp: call_answer_eq)
    from claim_cases [OF keys y(1)] show thesis
    proof cases
      case 1
      with same y(2) ClaimDeletion show thesis by (auto split: sum.splits)
    next
      case (2 op claim row)
      with found [OF 2(3)] changed [of row] y(2) ClaimDeletion row_change.claimed [of uuid oid row cl claim now lease] show thesis
        by (simp add: suppliers_after_def)
    qed
  next
    case (MarkDeletionReleasePending oid cl now)
    with x obtain y where y: "mark_deletion_release_pending uuid oid cl now db = (y, db')" "r = (case y of Inl e \<Rightarrow> Inl e | Inr _ \<Rightarrow> Inr Done)"
      by (auto simp: call_answer_eq)
    show thesis
      by (rule moved [OF y(1) [unfolded mark_deletion_release_pending_def] y(2)]) (use MarkDeletionReleasePending in \<open>auto simp: suppliers_after_def intro: row_change.intros\<close>)
  next
    case (MarkDeletionRejectedActiveErrands oid cl now)
    with x obtain y where y: "mark_deletion_rejected uuid oid cl now db = (y, db')" "r = (case y of Inl e \<Rightarrow> Inl e | Inr _ \<Rightarrow> Inr Done)"
      by (auto simp: call_answer_eq)
    show thesis
      by (rule moved [OF y(1) [unfolded mark_deletion_rejected_def] y(2)]) (use MarkDeletionRejectedActiveErrands in \<open>auto simp: suppliers_after_def intro: row_change.intros\<close>)
  next
    case (DeleteCurrentAndMarkCommitPending supplier oid cl now)
    with x obtain y where y: "delete_current_and_mark_commit_pending uuid supplier oid cl now db = (y, db')"
      "r = (case y of Inl e \<Rightarrow> Inl e | Inr _ \<Rightarrow> Inr Done)"
      by (auto simp: call_answer_eq)
    from deleted_cases [OF keys y(1)] show thesis
    proof cases
      case (1 e)
      with same y(2) DeleteCurrentAndMarkCommitPending show thesis by simp
    next
      case (2 op sid claim row)
      with found [OF 2(5)] changed [of row] y(2) DeleteCurrentAndMarkCommitPending
        row_change.commit_pending [of uuid oid row cl claim supplier now] show thesis by simp
    qed
  next
    case (CompleteDeletion oid cl now)
    with x obtain y where y: "complete_deletion uuid oid cl now db = (y, db')" "r = (case y of Inl e \<Rightarrow> Inl e | Inr _ \<Rightarrow> Inr Done)"
      by (auto simp: call_answer_eq)
    show thesis
      by (rule moved [OF y(1) [unfolded complete_deletion_def] y(2)]) (use CompleteDeletion in \<open>auto simp: suppliers_after_def intro: row_change.intros\<close>)
  next
    case (ScheduleDeletionRetry oid cl failure nxt now)
    with x obtain y where y: "schedule_deletion_retry uuid oid cl failure nxt now db = (y, db')" "r = (case y of Inl e \<Rightarrow> Inl e | Inr _ \<Rightarrow> Inr Done)"
      by (auto simp: call_answer_eq)
    show thesis
      by (rule moved [OF y(1) [unfolded schedule_deletion_retry_def] y(2)]) (use ScheduleDeletionRetry in \<open>auto simp: suppliers_after_def intro: row_change.intros\<close>)
  qed
qed

end
