(* ===== verification/Deletion_World.thy ===== *)
theory Deletion_World
  imports Deletion_Rows Fence_Safety
begin

text \<open>
  The two services at work on deletions: any number of requests and reconciler passes, each a program
  that has come to some interaction, over one supplier database and one order database. A call of the store
  or a request to order-service takes effect or not, and its answer arrives or not; the errands of
  order-service and the catalogue change in between. One clock serves all replicas; a claim id is never
  drawn twice.
\<close>

section \<open>The state and its actions\<close>

text \<open>A worker remembers, for the statement of what is late, the end of the lease it took last.\<close>

record worker =
  wk_prog :: "unit prog"
  wk_lease :: "int option"

record world =
  wd_clock :: int
  wd_suppliers :: supplier_db
  wd_orders :: ops_state
  wd_claims :: "(string \<times> nat) list"
  wd_workers :: "worker list"

text \<open>
  What becomes of a call: it is served and answered, it is served but the answer is lost, or it is not
  served. In the last case a request to order-service may be answered by an error of something in between.
\<close>

datatype fate = Answered | Unanswered | Unserved "fence_response option"

datatype action =
    Tick int
  | BeginDelete delete_request
  | BeginReconcile
  | ReadClock nat
  | DrawClaim nat string
  | AskContext nat bool
  | CallStore nat fate
  | CallFence nat fate int "string option"

definition worker_at :: "nat \<Rightarrow> world \<Rightarrow> worker option" where
  "worker_at i w = (if i < length (wd_workers w) then Some (wd_workers w ! i) else None)"

definition set_worker :: "nat \<Rightarrow> worker \<Rightarrow> world \<Rightarrow> world" where
  "set_worker i wk w = w\<lparr>wd_workers := (wd_workers w)[i := wk]\<rparr>"

definition add_worker :: "unit prog \<Rightarrow> world \<Rightarrow> world" where
  "add_worker p w = w\<lparr>wd_workers := wd_workers w @ [\<lparr>wk_prog = p, wk_lease = None\<rparr>]\<rparr>"

definition lease_after :: "store_call \<Rightarrow> store_result \<Rightarrow> int option \<Rightarrow> int option" where
  "lease_after c r old = (case c of
      ClaimDeletion _ _ _ lease \<Rightarrow> (case r of Inr (Claimed (Some _)) \<Rightarrow> Some lease | _ \<Rightarrow> old)
    | _ \<Rightarrow> old)"

text \<open>A release that reaches order-service after the lease its sender took.\<close>

definition late_release :: "fence_request \<Rightarrow> worker \<Rightarrow> world \<Rightarrow> bool" where
  "late_release request wk w \<longleftrightarrow> fq_route request = ReleaseRoute
     \<and> (case wk_lease wk of None \<Rightarrow> False | Some t \<Rightarrow> t \<le> wd_clock w)"

definition store_act :: "uuid_reader \<Rightarrow> nat \<Rightarrow> worker \<Rightarrow> store_call \<Rightarrow> (store_result \<Rightarrow> unit prog) \<Rightarrow> fate \<Rightarrow> world \<Rightarrow> world" where
  "store_act uuid i wk c k fate w =
     (let (r, db) = exec_store uuid c (wd_suppliers w) in case fate of
        Answered \<Rightarrow> set_worker i \<lparr>wk_prog = k r, wk_lease = lease_after c r (wk_lease wk)\<rparr> (w\<lparr>wd_suppliers := db\<rparr>)
      | Unanswered \<Rightarrow> set_worker i (wk\<lparr>wk_prog := k (Inl DeletionDatabase)\<rparr>) (w\<lparr>wd_suppliers := db\<rparr>)
      | Unserved _ \<Rightarrow> set_worker i (wk\<lparr>wk_prog := k (Inl DeletionDatabase)\<rparr>) w)"

definition fence_act :: "uuid_reader \<Rightarrow> nat \<Rightarrow> worker \<Rightarrow> fence_request \<Rightarrow> (fence_response option \<Rightarrow> unit prog) \<Rightarrow> fate
    \<Rightarrow> int \<Rightarrow> string option \<Rightarrow> world \<Rightarrow> world" where
  "fence_act uuid i wk request k fate now caller w =
     (let (response, s) = serve_fence uuid now caller request (wd_orders w) in case fate of
        Answered \<Rightarrow> set_worker i (wk\<lparr>wk_prog := k (Some response)\<rparr>) (w\<lparr>wd_orders := s\<rparr>)
      | Unanswered \<Rightarrow> set_worker i (wk\<lparr>wk_prog := k None\<rparr>) (w\<lparr>wd_orders := s\<rparr>)
      | Unserved r \<Rightarrow> set_worker i (wk\<lparr>wk_prog := k (if map_option fp_status r = Some 200 then None else r)\<rparr>) w)"

text \<open>
  One action; \<open>None\<close> when it is not possible. With \<open>late\<close> false a release reaches order-service only
  while the lease of its sender lasts.
\<close>

fun act :: "uuid_reader \<Rightarrow> deletion_config \<Rightarrow> bool \<Rightarrow> action \<Rightarrow> world \<Rightarrow> world option" where
  "act uuid cfg late (Tick t) w = (if wd_clock w \<le> t then Some (w\<lparr>wd_clock := t\<rparr>) else None)"
| "act uuid cfg late (BeginDelete request) w = Some (add_worker (prog_bind (delete_supplier cfg request) (\<lambda>_. Return ())) w)"
| "act uuid cfg late BeginReconcile w = Some (add_worker (prog_bind (reconcile_once cfg) (\<lambda>_. Return ())) w)"
| "act uuid cfg late (ReadClock i) w = (case worker_at i w of
      Some wk \<Rightarrow> (case wk_prog wk of Now k \<Rightarrow> Some (set_worker i (wk\<lparr>wk_prog := k (wd_clock w)\<rparr>) w) | _ \<Rightarrow> None)
    | None \<Rightarrow> None)"
| "act uuid cfg late (DrawClaim i c) w = (case worker_at i w of
      Some wk \<Rightarrow> (case wk_prog wk of
          NewClaimID k \<Rightarrow>
            if uuid c = Some c \<and> c \<notin> fst ` set (wd_claims w)
            then Some (set_worker i (wk\<lparr>wk_prog := k c\<rparr>) (w\<lparr>wd_claims := (c, i) # wd_claims w\<rparr>)) else None
        | _ \<Rightarrow> None)
    | None \<Rightarrow> None)"
| "act uuid cfg late (AskContext i ended) w = (case worker_at i w of
      Some wk \<Rightarrow> (case wk_prog wk of ContextEnded k \<Rightarrow> Some (set_worker i (wk\<lparr>wk_prog := k ended\<rparr>) w) | _ \<Rightarrow> None)
    | None \<Rightarrow> None)"
| "act uuid cfg late (CallStore i fate) w = (case worker_at i w of
      Some wk \<Rightarrow> (case wk_prog wk of Store c k \<Rightarrow> Some (store_act uuid i wk c k fate w) | _ \<Rightarrow> None)
    | None \<Rightarrow> None)"
| "act uuid cfg late (CallFence i fate now caller) w = (case worker_at i w of
      Some wk \<Rightarrow> (case wk_prog wk of
          Send request k \<Rightarrow>
            if \<not> late \<and> late_release request wk w \<and> (case fate of Unserved _ \<Rightarrow> False | _ \<Rightarrow> True) then None
            else Some (fence_act uuid i wk request k fate now caller w)
        | _ \<Rightarrow> None)
    | None \<Rightarrow> None)"

text \<open>Writes of the catalogue: a new supplier, or a new version of one that is not deleted.\<close>

definition catalogue_step :: "supplier_row list \<Rightarrow> supplier_row list \<Rightarrow> bool" where
  "catalogue_step ss ss' \<longleftrightarrow>
     (\<exists>s. su_deleted_at s = None \<and> ss' = ss @ [s])
     \<or> (\<exists>sid f. (\<forall>s. su_supplier_id (f s) = su_supplier_id s \<and> su_deleted_at (f s) = su_deleted_at s)
          \<and> ss' = update_where (\<lambda>s. su_supplier_id s = sid \<and> su_deleted_at s = None) f ss)"

inductive world_step :: "uuid_reader \<Rightarrow> deletion_config \<Rightarrow> bool \<Rightarrow> world \<Rightarrow> world \<Rightarrow> bool" for uuid cfg late where
  acted: "act uuid cfg late a w = Some w' \<Longrightarrow> world_step uuid cfg late w w'"
| errands: "errand_step uuid (wd_orders w) s \<Longrightarrow> world_step uuid cfg late w (w\<lparr>wd_orders := s\<rparr>)"
| catalogue: "catalogue_step (sd_suppliers (wd_suppliers w)) ss \<Longrightarrow>
    world_step uuid cfg late w (w\<lparr>wd_suppliers := (wd_suppliers w)\<lparr>sd_suppliers := ss\<rparr>\<rparr>)"

text \<open>Before the first request: nothing deleted, no operation, no fence, no worker; any consistent errands.\<close>

definition fresh_world :: "uuid_reader \<Rightarrow> world \<Rightarrow> bool" where
  "fresh_world uuid w \<longleftrightarrow> store_inv uuid (fst (wd_orders w)) \<and> od_fences (fst (wd_orders w)) = []
     \<and> sd_deletions (wd_suppliers w) = [] \<and> (\<forall>s \<in> set (sd_suppliers (wd_suppliers w)). su_deleted_at s = None)
     \<and> wd_claims w = [] \<and> wd_workers w = []"

section \<open>What a worker may do when\<close>

text \<open>
  A discipline the programs keep. A worker holds nothing, a fresh claim id, or an operation at some phase;
  the phase decides which calls are allowed, and the answer which phase follows. \<open>PhaseGuarded\<close> is the
  knowledge that the fence stands and the supplier is unused, \<open>PhaseUnsure\<close> what is left after a failed
  soft delete.
\<close>

datatype phase = PhaseRequested | PhaseGuarded | PhaseUnsure | PhaseReleasing | PhaseCommitting

datatype held = Idle | Fresh string | Holds string string string int phase

fun phase_of :: "deletion_state \<Rightarrow> phase" where
  "phase_of DeletionRequested = PhaseRequested"
| "phase_of DeletionReleasePending = PhaseReleasing"
| "phase_of DeletionRejectedActiveErrands = PhaseReleasing"
| "phase_of DeletionCommitPending = PhaseCommitting"
| "phase_of DeletionCompleted = PhaseCommitting"

text \<open>Calls of the store, given the last reading of the clock.\<close>

fun store_ok :: "int \<Rightarrow> held \<Rightarrow> store_call \<Rightarrow> bool" where
  "store_ok t h (ClaimDeletion oid c now lease) \<longleftrightarrow> h = Fresh c \<and> now \<le> t"
| "store_ok t (Holds op sid c lease ph) (MarkDeletionReleasePending oid cl now) \<longleftrightarrow> oid = op \<and> cl = c \<and> ph = PhaseRequested"
| "store_ok t (Holds op sid c lease ph) (MarkDeletionRejectedActiveErrands oid cl now) \<longleftrightarrow> oid = op \<and> cl = c \<and> ph = PhaseReleasing"
| "store_ok t (Holds op sid c lease ph) (DeleteCurrentAndMarkCommitPending supplier oid cl now) \<longleftrightarrow>
     oid = op \<and> cl = c \<and> supplier = sid \<and> ph = PhaseGuarded"
| "store_ok t (Holds op sid c lease ph) (CompleteDeletion oid cl now) \<longleftrightarrow> oid = op \<and> cl = c \<and> ph = PhaseCommitting"
| "store_ok t (Holds op sid c lease ph) (ScheduleDeletionRetry oid cl failure next now) \<longleftrightarrow> oid = op \<and> cl = c"
| "store_ok t h (CreateOrGetDeletion oid sid attempts now) \<longleftrightarrow> True"
| "store_ok t h (GetDeletion oid) \<longleftrightarrow> True"
| "store_ok t h (ListClaimableDeletions now limit) \<longleftrightarrow> True"
| "store_ok t h c \<longleftrightarrow> False"

fun store_then :: "held \<Rightarrow> store_call \<Rightarrow> store_result \<Rightarrow> held" where
  "store_then h (ClaimDeletion oid c now lease) (Inr (Claimed (Some d))) =
     Holds (dr_operation_id d) (dr_supplier_id d) c lease (phase_of (dr_state d))"
| "store_then h (ClaimDeletion oid c now lease) r = Idle"
| "store_then (Holds op sid c lease ph) (MarkDeletionReleasePending oid cl now) (Inr _) = Holds op sid c lease PhaseReleasing"
| "store_then (Holds op sid c lease ph) (DeleteCurrentAndMarkCommitPending supplier oid cl now) (Inr _) = Holds op sid c lease PhaseCommitting"
| "store_then (Holds op sid c lease ph) (DeleteCurrentAndMarkCommitPending supplier oid cl now) (Inl _) = Holds op sid c lease PhaseUnsure"
| "store_then (Holds op sid c lease PhaseUnsure) (GetDeletion oid) (Inr (Found d)) =
     (if oid = op \<and> dr_state d = DeletionRequested \<and> dr_claim_id d = c then Holds op sid c lease PhaseRequested else Idle)"
| "store_then h (CreateOrGetDeletion oid sid attempts now) r = h"
| "store_then h (ListClaimableDeletions now limit) r = h"
| "store_then h c r = Idle"

fun send_ok :: "held \<Rightarrow> fence_request \<Rightarrow> bool" where
  "send_ok (Holds op sid c lease ph) request \<longleftrightarrow> fq_operation_id request = op \<and> (case fq_route request of
      AcquireRoute \<Rightarrow> ph = PhaseRequested \<and> fq_body request = [Some (JObj [(''supplierId'', JStr sid)])]
    | InspectRoute \<Rightarrow> True
    | CommitRoute \<Rightarrow> ph = PhaseCommitting
    | ReleaseRoute \<Rightarrow> ph \<in> {PhaseRequested, PhaseReleasing})"
| "send_ok h request \<longleftrightarrow> False"

text \<open>A fence that permits the deletion.\<close>

definition permits :: "string \<Rightarrow> fence \<Rightarrow> bool" where
  "permits sid f \<longleftrightarrow> equal_fold (fn_supplier_id f) sid
     \<and> (fn_state f = StateOpen \<and> \<not> fn_has_active_errands f \<or> fn_state f = StateCommitted)"

definition with_fence :: "held \<Rightarrow> fence_route \<Rightarrow> fence \<Rightarrow> held" where
  "with_fence h route f = (case h of
      Holds op sid c lease PhaseRequested \<Rightarrow>
        if route \<in> {AcquireRoute, InspectRoute} \<and> permits sid f then Holds op sid c lease PhaseGuarded else h
    | _ \<Rightarrow> h)"

definition send_then :: "held \<Rightarrow> fence_request \<Rightarrow> fence_response option \<Rightarrow> held" where
  "send_then h request r = (case client_attempt r of
      Inl _ \<Rightarrow> h
    | Inr f \<Rightarrow> if equal_fold (fn_operation_id f) (fq_operation_id request) then with_fence h (fq_route request) f else h)"

inductive disciplined :: "int \<Rightarrow> held \<Rightarrow> 'a prog \<Rightarrow> ('a \<Rightarrow> int \<Rightarrow> held \<Rightarrow> bool) \<Rightarrow> bool" where
  returns: "Q a t h \<Longrightarrow> disciplined t h (Return a) Q"
| now: "(\<And>t'. disciplined t' h (k t') Q) \<Longrightarrow> disciplined t h (Now k) Q"
| new_claim: "(\<And>c. disciplined t (Fresh c) (k c) Q) \<Longrightarrow> disciplined t h (NewClaimID k) Q"
| ended: "(\<And>b. disciplined t h (k b) Q) \<Longrightarrow> disciplined t h (ContextEnded k) Q"
| store: "store_ok t h c \<Longrightarrow> (\<And>r. disciplined t (store_then h c r) (k r) Q) \<Longrightarrow> disciplined t h (Store c k) Q"
| send: "send_ok h request \<Longrightarrow> (\<And>r. disciplined t (send_then h request r) (k r) Q) \<Longrightarrow> disciplined t h (Send request k) Q"

inductive_simps disciplined_simps [simp]:
  "disciplined t h (Return a) Q"
  "disciplined t h (Now k) Q"
  "disciplined t h (NewClaimID k) Q"
  "disciplined t h (ContextEnded k) Q"
  "disciplined t h (Store c k) Q"
  "disciplined t h (Send request k) Q"

lemma disciplined_bind:
  "disciplined t h p Q \<Longrightarrow> (\<And>a t' h'. Q a t' h' \<Longrightarrow> disciplined t' h' (f a) R) \<Longrightarrow> disciplined t h (prog_bind p f) R"
  by (induction t h p Q rule: disciplined.induct) (auto intro: disciplined.intros)

lemma disciplined_weaken:
  "disciplined t h p Q \<Longrightarrow> (\<And>a t' h'. Q a t' h' \<Longrightarrow> R a t' h') \<Longrightarrow> disciplined t h p R"
  by (induction t h p Q rule: disciplined.induct) (auto intro: disciplined.intros)

section \<open>The programs keep the discipline\<close>

abbreviation any_end :: "'a \<Rightarrow> int \<Rightarrow> held \<Rightarrow> bool" where
  "any_end \<equiv> \<lambda>_ _ _. True"

lemma disciplined_store_unit:
  assumes "store_ok t h c" "\<And>r. store_then h c r = store_then h c (case r of Inl e \<Rightarrow> Inl e | Inr _ \<Rightarrow> Inr Done)"
    "\<And>e. disciplined t (store_then h c (Inl e)) (f (Inl e)) Q" "disciplined t (store_then h c (Inr Done)) (f (Inr ())) Q"
  shows "disciplined t h (prog_bind (store_unit c) f) Q"
  unfolding store_unit_def prog_bind.simps
proof (rule disciplined.store [OF assms(1)])
  fix r
  show "disciplined t (store_then h c r) (f (case r of Inl e \<Rightarrow> Inl e | Inr _ \<Rightarrow> Inr ())) Q"
    by (subst assms(2)) (use assms(3,4) in \<open>simp split: sum.splits\<close>)
qed

lemma disciplined_attempts:
  "send_ok h request \<Longrightarrow> disciplined t h (retry_attempts n request)
     (\<lambda>x t' h'. t' = t \<and> h' = (case x of Inl _ \<Rightarrow> h | Inr f \<Rightarrow> with_fence h (fq_route request) f))"
  by (induction n) (auto simp: send_then_def split: sum.splits prod.splits if_splits)

lemma disciplined_call:
  assumes "send_ok h \<lparr>fq_route = route, fq_operation_id = op, fq_body = body\<rparr>"
  shows "disciplined t h (client_call n route op body) (\<lambda>x t' h'. t' = t \<and> h' = (case x of Inl _ \<Rightarrow> h | Inr f \<Rightarrow> with_fence h route f))"
  using disciplined_attempts [OF assms, of t "n - 1", unfolded fence_request.simps] by (simp add: client_call_def)

lemma with_fence_other: "route \<notin> {AcquireRoute, InspectRoute} \<Longrightarrow> with_fence h route f = h"
  by (auto simp: with_fence_def split: held.splits phase.splits)

lemma disciplined_release:
  assumes "h = Holds op sid c lease ph" "ph = PhaseRequested \<or> ph = PhaseReleasing"
  shows "disciplined t h (client_release n op) (\<lambda>x t' h'. t' = t \<and> h' = h)"
  unfolding client_release_def client_transition_def
  by (rule disciplined_bind [OF disciplined_call]) (use assms in \<open>auto simp: with_fence_other split: sum.splits\<close>)

lemma disciplined_commit:
  assumes "h = Holds op sid c lease PhaseCommitting"
  shows "disciplined t h (client_commit n op) (\<lambda>x t' h'. t' = t \<and> h' = h)"
  unfolding client_commit_def client_transition_def
  by (rule disciplined_bind [OF disciplined_call]) (use assms in \<open>auto simp: with_fence_other split: sum.splits\<close>)

lemma disciplined_inspect:
  assumes "h = Holds op sid c lease ph"
  shows "disciplined t h (client_inspect n op) (\<lambda>x t' h'. t' = t \<and> h' = (case x of Inl _ \<Rightarrow> h | Inr f \<Rightarrow> with_fence h InspectRoute f))"
  unfolding client_inspect_def by (rule disciplined_call) (use assms in simp)

lemma disciplined_acquire:
  assumes "h = Holds op sid c lease PhaseRequested"
  shows "disciplined t h (client_acquire n op sid) (\<lambda>x t' h'. t' = t \<and> h' = (case x of Inl _ \<Rightarrow> h | Inr f \<Rightarrow> with_fence h AcquireRoute f))"
  unfolding client_acquire_def
  by (rule disciplined_bind [OF disciplined_call]) (use assms in \<open>auto simp: with_fence_def permits_def split: sum.splits\<close>)

lemma disciplined_retry:
  "disciplined t (Holds (dr_operation_id rec) sid c lease ph) (schedule_retry cfg rec c failure now) any_end"
  by (simp add: schedule_retry_def Let_def store_unit_def)

lemma disciplined_workflow_release:
  assumes "dr_operation_id rec = op"
  shows "disciplined t (Holds op sid c lease PhaseReleasing) (workflow_release cfg rec c now) any_end"
  unfolding workflow_release_def assms [symmetric]
  by (rule disciplined_bind [OF disciplined_release [OF refl]])
    (auto simp: store_unit_def split: sum.splits intro!: disciplined_bind [OF disciplined_retry])

lemma disciplined_workflow_commit:
  assumes "dr_operation_id rec = op"
  shows "disciplined t (Holds op sid c lease PhaseCommitting) (workflow_commit cfg rec c now) any_end"
proof -
  let ?h = "Holds (dr_operation_id rec) sid c lease PhaseCommitting"
  let ?finish = "prog_bind (store_unit (CompleteDeletion (dr_operation_id rec) c now)) (\<lambda>y. case y of
              Inl _ \<Rightarrow> Return OutcomeInternal | Inr _ \<Rightarrow> Return OutcomeCompleted)"
  let ?again = "prog_bind (schedule_retry cfg rec c FailureCommitUnavailable now) (\<lambda>_. Return OutcomeCommitPending)"
  have finish: "disciplined t' ?h ?finish any_end" for t' by (simp add: store_unit_def split: sum.splits)
  have again: "disciplined t' ?h ?again any_end" for t' by (rule disciplined_bind [OF disciplined_retry]) simp
  have same: "with_fence ?h InspectRoute f = ?h" for f by (simp add: with_fence_def)
  show ?thesis unfolding workflow_commit_def Let_def assms [symmetric]
  proof (rule disciplined_bind [OF disciplined_commit [OF refl]])
    fix x :: "client_error + unit" and t' h' assume "t' = t \<and> h' = ?h"
    then show "disciplined t' h' (case x of Inl _ \<Rightarrow> prog_bind (client_inspect (dc_client_attempts cfg) (dr_operation_id rec))
          (\<lambda>y. case y of Inl _ \<Rightarrow> ?again | Inr f \<Rightarrow> if fn_state f \<noteq> StateCommitted then ?again else ?finish) | Inr _ \<Rightarrow> ?finish) any_end"
      using finish again same by (auto split: sum.splits intro!: disciplined_bind [OF disciplined_inspect [OF refl]])
  qed
qed

lemma disciplined_workflow_delete:
  assumes "dr_operation_id rec = op" "dr_supplier_id rec = sid"
  shows "disciplined t (Holds op sid c lease PhaseGuarded) (workflow_delete cfg rec c now) any_end"
  unfolding workflow_delete_def assms [symmetric]
  by (auto simp: store_unit_def store_record_def Let_def split: sum.splits store_answer.splits
      intro!: disciplined_workflow_commit disciplined_bind [OF disciplined_release [OF refl]])

lemma disciplined_workflow_acquired:
  assumes "dr_operation_id rec = op" "dr_supplier_id rec = sid" "h = Holds op sid c lease PhaseRequested" "route \<in> {AcquireRoute, InspectRoute}"
  shows "disciplined t (with_fence h route f) (workflow_acquired cfg rec c now f) any_end"
proof (cases "permits sid f")
  case True
  with assms show ?thesis
    by (auto simp: workflow_acquired_def with_fence_def permits_def intro!: disciplined_workflow_delete)
next
  case False
  have held: "with_fence h route f = Holds (dr_operation_id rec) sid c lease PhaseRequested" using False assms by (simp add: with_fence_def)
  show ?thesis unfolding held workflow_acquired_def
    using False assms(1,2)
    by (auto simp: permits_def store_unit_def stop_retrying_def split: wire_state.splits sum.splits
        intro!: disciplined_bind [OF disciplined_retry] disciplined_workflow_release)
qed

lemma disciplined_workflow_acquire:
  assumes "dr_operation_id rec = op" "dr_supplier_id rec = sid"
  shows "disciplined t (Holds op sid c lease PhaseRequested) (workflow_acquire cfg rec c now) any_end"
proof -
  let ?h = "Holds op sid c lease PhaseRequested"
  note acquired = disciplined_workflow_acquired [OF assms refl]
  have "disciplined t' ?h (prog_bind (schedule_retry cfg rec c FailureAcquireUnavailable now) (\<lambda>_. Return OutcomeFenceUnavailable)) any_end" for t'
    unfolding assms(1) [symmetric] by (rule disciplined_bind [OF disciplined_retry]) simp
  with acquired show ?thesis unfolding workflow_acquire_def assms
    by (auto split: sum.splits intro!: disciplined_bind [OF disciplined_acquire [OF refl]] disciplined_bind [OF disciplined_inspect [OF refl]])
qed

lemma disciplined_advance:
  assumes "dr_operation_id rec = op" "dr_supplier_id rec = sid"
  shows "disciplined t (Holds op sid c lease (phase_of (dr_state rec))) (workflow_advance cfg rec c now) any_end"
  using assms by (cases "dr_state rec")
    (simp_all add: workflow_advance_def disciplined_workflow_acquire disciplined_workflow_release disciplined_workflow_commit)

lemma disciplined_claim:
  assumes "now \<le> t" "\<And>e t' h'. disciplined t' h' (f (Inl e)) Q" "\<And>t' h'. disciplined t' h' (f (Inr None)) Q"
    and "\<And>rec. disciplined t (Holds (dr_operation_id rec) (dr_supplier_id rec) c lease (phase_of (dr_state rec))) (f (Inr (Some rec))) Q"
  shows "disciplined t (Fresh c) (prog_bind (store_claim (ClaimDeletion oid c now lease)) f) Q"
proof -
  have "disciplined t (store_then (Fresh c) (ClaimDeletion oid c now lease) (Inr (Claimed d))) (f (Inr d)) Q" for d
    using assms(3,4) by (cases d) simp_all
  with assms show ?thesis by (auto simp: store_claim_def split: sum.splits store_answer.splits)
qed

lemma disciplined_delete_claimed:
  "now \<le> t \<Longrightarrow> disciplined t h (delete_claimed cfg op rec now) any_end"
  unfolding delete_claimed_def disciplined_simps
  by (intro allI disciplined_claim) (auto intro!: disciplined_bind [OF disciplined_advance])

lemma disciplined_delete: "disciplined t h (delete_supplier cfg request) any_end"
  by (auto simp: delete_supplier_def Let_def store_record_def disciplined_delete_claimed
      split: sum.splits store_answer.splits deletion_error.splits deletion_state.splits)

lemma disciplined_reconcile_records: "disciplined t h (reconcile_records cfg recs n) any_end"
proof (induction recs arbitrary: t h n)
  case (Cons rec recs)
  then show ?case
    by (auto intro!: disciplined_claim disciplined_bind [OF disciplined_advance])
qed simp

lemma disciplined_reconcile: "disciplined t h (reconcile_once cfg) any_end"
  by (auto simp: reconcile_once_def store_list_def disciplined_reconcile_records split: sum.splits store_answer.splits)

end
