(* ===== verification/Fence_Serving.thy ===== *)
theory Fence_Serving
  imports Fence_Safety Fence_Http
begin

text \<open>
  What a request to the fence routes can do to the order database, and what a fence the client accepted
  says about it.
\<close>

section \<open>Where fences come from\<close>

text \<open>Canonical UUID texts are in lower case, as PostgreSQL and pgx print them.\<close>

definition uuid_lower :: "uuid_reader \<Rightarrow> bool" where
  "uuid_lower uuid \<longleftrightarrow> (\<forall>s u. uuid s = Some u \<longrightarrow> to_lower u = u)"

definition fence_origin :: "uuid_reader \<Rightarrow> (string \<Rightarrow> bool) \<Rightarrow> fence_row list \<Rightarrow> fence_row \<Rightarrow> bool" where
  "fence_origin uuid commits fs f' \<longleftrightarrow>
     (fe_state f' = FenceCommitted \<longrightarrow> commits (fe_operation_id f')
        \<or> (\<exists>f \<in> set fs. fe_operation_id f = fe_operation_id f' \<and> fe_state f = FenceCommitted))
     \<and> (uuid (fe_supplier_id f') = Some (fe_supplier_id f') \<or> (\<exists>f \<in> set fs. fe_supplier_id f = fe_supplier_id f'))"

definition fences_from :: "uuid_reader \<Rightarrow> (string \<Rightarrow> bool) \<Rightarrow> ops_state \<Rightarrow> ops_state \<Rightarrow> bool" where
  "fences_from uuid commits s s' \<longleftrightarrow> (\<exists>fs. fst s' = (fst s)\<lparr>od_fences := fs\<rparr>)
     \<and> (\<forall>f' \<in> set (od_fences (fst s')). fence_origin uuid commits (od_fences (fst s)) f')"

lemma fences_from_refl: "fst s' = fst s \<Longrightarrow> fences_from uuid commits s s'"
  by (force simp: fences_from_def fence_origin_def intro: exI [of _ "od_fences (fst s)"])

lemma fences_from_trans: "transp (fences_from uuid commits)"
proof (rule transpI)
  fix a b c assume ab: "fences_from uuid commits a b" and bc: "fences_from uuid commits b c"
  have "fence_origin uuid commits (od_fences (fst a)) f" if f: "f \<in> set (od_fences (fst c))" for f
  proof -
    have from_b: "fence_origin uuid commits (od_fences (fst b)) f" using bc f by (simp add: fences_from_def)
    have from_a: "\<And>g. g \<in> set (od_fences (fst b)) \<Longrightarrow> fence_origin uuid commits (od_fences (fst a)) g" using ab by (simp add: fences_from_def)
    show ?thesis using from_b from_a unfolding fence_origin_def by metis
  qed
  moreover obtain fs fs' where "fst b = (fst a)\<lparr>od_fences := fs\<rparr>" "fst c = (fst b)\<lparr>od_fences := fs'\<rparr>"
    using ab bc unfolding fences_from_def by blast
  then have "fst c = (fst a)\<lparr>od_fences := fs'\<rparr>" by simp
  ultimately show "fences_from uuid commits a c" unfolding fences_from_def by blast
qed

lemmas fences_from_bind = tx_keeps_bind [OF _ _ fences_from_trans]

lemma fences_from_basic:
  "tx_keeps (fences_from uuid commits) (tx_return a)" "tx_keeps (fences_from uuid commits) (tx_fail err)"
  "tx_keeps (fences_from uuid commits) (tx_get g)" "tx_keeps (fences_from uuid commits) (ops_uuid uuid v)"
  "tx_keeps (fences_from uuid commits) (get_fence_row op)" "tx_keeps (fences_from uuid commits) (count_active_errands_for_supplier uuid sid)"
  "tx_keeps (fences_from uuid commits) (audit now actor action oid out reason)"
  by (auto simp: tx_keeps_def ops_uuid_def get_fence_row_def count_active_errands_for_supplier_def audit_def insert_audit_def tx_bind_iff
      split: option.splits if_splits intro: fences_from_refl)

lemma fences_from_active: "tx_keeps (fences_from uuid commits) (with_active_errands uuid stored)"
  unfolding with_active_errands_def by (intro fences_from_bind fences_from_basic)

lemma fences_from_insert:
  assumes "uuid sid = Some sid"
  shows "tx_keeps (fences_from uuid commits) (insert_fence now op sid)"
proof (rule tx_keepsI)
  fix s a s' assume "insert_fence now op sid s = Inr (a, s')"
  then consider "s' = s" | f where "fst s' = (fst s)\<lparr>od_fences := od_fences (fst s) @ [f]\<rparr>" "fe_state f = FenceOpen" "fe_supplier_id f = sid"
    by (auto simp: insert_fence_def set_fences_def tx_bind_iff split: option.splits prod.splits)
  then show "fences_from uuid commits s s'"
  proof cases
    case 2
    then show ?thesis using assms by (auto simp: fences_from_def fence_origin_def)
  qed (simp add: fences_from_refl)
qed

lemma fences_from_close_row:
  assumes "state = FenceCommitted \<longrightarrow> commits op"
  shows "tx_keeps (fences_from uuid commits) (close_fence_row now op state)"
proof (rule tx_keepsI)
  fix s a s' assume "close_fence_row now op state s = Inr (a, s')"
  then consider "s' = s" | "fst s' = (fst s)\<lparr>od_fences := update_where (\<lambda>f. fe_operation_id f = op \<and> fe_state f = FenceOpen)
      (\<lambda>f. f\<lparr>fe_state := state, fe_updated_at := now\<rparr>) (od_fences (fst s))\<rparr>"
    by (auto simp: close_fence_row_def set_fences_def tx_bind_iff split: option.splits prod.splits)
  then show "fences_from uuid commits s s'"
  proof cases
    case 2
    have "fence_origin uuid commits (od_fences (fst s)) f'" if "f' \<in> set (od_fences (fst s'))" for f'
      using that 2 assms unfolding fence_origin_def by (auto simp: set_update_where)
    with 2 show ?thesis by (auto simp: fences_from_def)
  qed (simp add: fences_from_refl)
qed

lemma fences_from_acquire:
  assumes "uuid_reader_ok uuid"
  shows "tx_keeps (fences_from uuid commits) (acquire_tx uuid now actor oid sid)"
proof -
  have create: "tx_keeps (fences_from uuid commits) (create_fence uuid now oid sid)"
  proof (cases "uuid oid = None \<or> uuid sid = None")
    case True
    then show ?thesis by (auto simp: create_fence_def ops_uuid_def tx_keeps_def tx_bind_iff)
  next
    case False
    then obtain op u where u: "uuid oid = Some op" "uuid sid = Some u" by auto
    with uuid_reader_okD(1) [OF assms u(2)] show ?thesis
      unfolding create_fence_def
      by (auto simp: ops_uuid_def intro!: fences_from_bind fences_from_insert fences_from_basic)
  qed
  show ?thesis unfolding acquire_tx_def lock_supplier_def
    by (auto intro!: fences_from_bind fences_from_basic create fences_from_active)
qed

lemma fences_from_close:
  assumes "\<And>op. state = FenceCommitted \<Longrightarrow> uuid oid = Some op \<Longrightarrow> commits op"
  shows "tx_keeps (fences_from uuid commits) (close_tx uuid now actor action oid state)"
proof -
  have "tx_keeps (fences_from uuid commits) (close_fence uuid now oid state)"
  proof (cases "uuid oid")
    case None
    then show ?thesis by (auto simp: close_fence_def ops_uuid_def tx_keeps_def tx_bind_iff split: if_splits)
  next
    case (Some op)
    have row: "tx_keeps (fences_from uuid commits) (close_fence_row now op state)" by (rule fences_from_close_row) (use assms Some in simp)
    have rest: "tx_keeps (fences_from uuid commits) (case closed of Some r \<Rightarrow> tx_return r | None \<Rightarrow> tx_bind (get_fence uuid oid) (\<lambda>current.
        if fe_state current \<noteq> state then tx_fail OpsStateConflict else tx_return current))" for closed
      unfolding get_fence_def by (auto split: option.splits intro!: fences_from_bind fences_from_basic)
    have "tx_keeps (fences_from uuid commits) (tx_bind (ops_uuid uuid oid) (\<lambda>op. tx_bind (close_fence_row now op state) (\<lambda>closed.
        case closed of Some r \<Rightarrow> tx_return r | None \<Rightarrow> tx_bind (get_fence uuid oid) (\<lambda>current.
          if fe_state current \<noteq> state then tx_fail OpsStateConflict else tx_return current))))"
      unfolding Some ops_uuid_def option.case tx_bind_return by (rule fences_from_bind [OF row rest])
    then show ?thesis unfolding close_fence_def by (simp add: fences_from_basic)
  qed
  then show ?thesis unfolding close_tx_def by (intro fences_from_bind fences_from_basic fences_from_active)
qed

lemma fences_from_answered:
  assumes "tx_keeps (fences_from uuid commits) m" "answered now actor action oid (run_tx m s) = (x, s')"
  shows "fences_from uuid commits s s'"
proof (cases "m s")
  case (Inr v)
  with assms show ?thesis by (cases v) (auto simp: run_tx_def answered_def dest: tx_keepsD)
next
  case (Inl err)
  have "fst (snd (run_tx (audit now actor action oid out reason) s)) = fst s" for out reason
    by (auto simp: run_tx_def audit_def insert_audit_def split: prod.splits)
  then have "fst s' = fst s" using assms(2) Inl by (auto simp: run_tx_def answered_def refuse_def split: prod.splits fence_error.splits)
  then show ?thesis by (rule fences_from_refl)
qed

section \<open>Requests\<close>

text \<open>The use case a request reaches, on the ids in lower case.\<close>

lemma serve_fence_cases:
  assumes "serve_fence uuid now caller request s = (response, s')"
  obtains (refused) code where "response = error_response code" "s' = s"
  | (acquired) actor sid x where "fq_route request = AcquireRoute" "decode_acquire (fq_body request) = Inr sid"
      "acquire uuid now actor (to_lower (fq_operation_id request)) sid s = (x, s')" "response = respond x"
  | (inspected) "fq_route request = InspectRoute" "s' = s" "response = respond (inspect uuid (to_lower (fq_operation_id request)) s)"
  | (committed) actor x where "fq_route request = CommitRoute"
      "commit_fence uuid now actor (to_lower (fq_operation_id request)) s = (x, s')" "response = respond x"
  | (released) actor x where "fq_route request = ReleaseRoute"
      "release_fence uuid now actor (to_lower (fq_operation_id request)) s = (x, s')" "response = respond x"
  using assms
  by (auto simp: serve_fence_def fence_target_def apfst_def map_prod_def split: sum.splits option.splits if_splits fence_route.splits prod.splits)

lemma serve_fences_from:
  assumes ok: "uuid_reader_ok uuid" and sv: "serve_fence uuid now caller request s = (response, s')"
  shows "fences_from uuid (\<lambda>op. fq_route request = CommitRoute \<and> uuid (to_lower (fq_operation_id request)) = Some op) s s'"
  using sv
proof (cases rule: serve_fence_cases)
  case (acquired actor sid x)
  then show ?thesis using fences_from_answered [OF fences_from_acquire [OF ok]] by (simp add: acquire_def)
next
  case (committed actor x)
  then show ?thesis using fences_from_answered [OF fences_from_close] by (simp add: commit_fence_def close_def)
next
  case (released actor x)
  have "fences_from uuid (\<lambda>op. fq_route request = CommitRoute \<and> uuid (to_lower (fq_operation_id request)) = Some op) s s'"
    by (rule fences_from_answered [OF fences_from_close]) (use released in \<open>auto simp: release_fence_def close_def\<close>)
  then show ?thesis .
qed (simp_all add: fences_from_refl)

lemma serve_guarded:
  assumes ok: "uuid_reader_ok uuid" and sv: "serve_fence uuid now caller request s = (response, s')"
    and other: "fq_route request = ReleaseRoute \<Longrightarrow> uuid (to_lower (fq_operation_id request)) \<noteq> Some op"
    and g: "guarded uuid op sid (fst s)"
  shows "guarded uuid op sid (fst s')"
  using sv
proof (cases rule: serve_fence_cases)
  case (acquired actor sid' x)
  then show ?thesis using guarded_step [OF ok platform_step.acquired g] by blast
next
  case (committed actor x)
  then show ?thesis using guarded_step [OF ok platform_step.committed g] by blast
next
  case (released actor x)
  then show ?thesis using guarded_step [OF ok platform_step.released g] other by blast
qed (use g in simp_all)

section \<open>Accepted fences\<close>

lemma with_active_errands_Inr:
  assumes "with_active_errands uuid row s = Inr (f, s')"
  shows "fst s' = fst s" "fn_state f = wire (fe_state row)" "fn_supplier_id f = fe_supplier_id row"
    "uuid (fe_supplier_id row) = Some u \<Longrightarrow> fn_has_active_errands f \<longleftrightarrow> supplier_in_use uuid u (fst s)"
  using assms
  by (auto simp: with_active_errands_def count_active_errands_for_supplier_def ops_uuid_def tx_bind_iff supplier_in_use_def list_ex_iff
      filter_empty_conv split: if_splits option.splits)

lemma acquire_Inr:
  assumes "acquire uuid now actor oid supplier s = (Inr f, s')"
  obtains op sid row s1 s2 where "uuid oid = Some op" "uuid supplier = Some sid" "find_fence op (fst s1) = Some row" "fe_supplier_id row = sid"
    "with_active_errands uuid row s1 = Inr (f, s2)" "fst s' = fst s2"
proof -
  have "run_tx (acquire_tx uuid now actor oid supplier) s = (Inr f, s')"
    using assms by (auto simp: acquire_def answered_def split: sum.splits prod.splits)
  then have "acquire_tx uuid now actor oid supplier s = Inr (f, s')" by (rule run_tx_InrD)
  then obtain row c s1 s2 where a: "create_fence uuid now oid supplier s = Inr ((row, c), s1)" "with_active_errands uuid row s1 = Inr (f, s2)"
    "audit now actor audit_action_acquire oid ''SUCCEEDED'' [] s2 = Inr ((), s')"
    by (auto simp: acquire_tx_def lock_supplier_def ops_uuid_def tx_bind_iff split: option.splits)
  obtain op sid where c: "uuid oid = Some op" "uuid supplier = Some sid" "find_fence op (fst s1) = Some row" "fe_supplier_id row = sid"
    by (rule create_fence_Inr [OF a(1)])
  have "fst s' = fst s2" using a(3) by (auto simp: audit_def insert_audit_def split: if_splits prod.splits)
  from that [OF c a(2) this] show thesis .
qed

lemma inspect_Inr:
  assumes "inspect uuid oid s = Inr f"
  obtains op row s2 where "uuid oid = Some op" "find_fence op (fst s) = Some row" "with_active_errands uuid row s = Inr (f, s2)"
  using assms by (auto simp: inspect_def get_fence_def get_fence_row_def ops_uuid_def tx_bind_iff split: option.splits sum.splits prod.splits)

text \<open>
  An accepted fence of the operation \<open>op\<close>, read on the database \<open>db\<close>: it is the fence stored there, and
  an open one without active errands guards its supplier.
\<close>

definition stored_fence :: "uuid_reader \<Rightarrow> string \<Rightarrow> fence \<Rightarrow> order_db \<Rightarrow> bool" where
  "stored_fence uuid op f db \<longleftrightarrow>
     (\<exists>row \<in> set (od_fences db). fe_operation_id row = op \<and> fe_supplier_id row = fn_supplier_id f \<and> wire (fe_state row) = fn_state f)
     \<and> (uuid (fn_supplier_id f) = Some (fn_supplier_id f) \<longrightarrow>
          (fn_has_active_errands f \<longleftrightarrow> supplier_in_use uuid (fn_supplier_id f) db))"

lemma found_stored:
  assumes "find_fence op (fst s) = Some row" "with_active_errands uuid row s = Inr (f, s2)" "db = fst s2"
  shows "stored_fence uuid op f db"
  using with_active_errands_Inr [OF assms(2)] find_Some_mem [of _ _ row] assms(1,3)
  by (auto simp: stored_fence_def find_fence_def)

lemma served_fence_stored:
  assumes sv: "serve_fence uuid now caller request s = (response, s')" and read: "client_attempt (Some response) = Inr f"
    and route: "fq_route request \<in> {AcquireRoute, InspectRoute}" and op: "uuid (to_lower (fq_operation_id request)) = Some op"
  shows "stored_fence uuid op f (fst s')"
  using sv
proof (cases rule: serve_fence_cases)
  case (refused code)
  with read show ?thesis by (simp add: error_response_read)
next
  case (acquired actor sid x)
  then have "acquire uuid now actor (to_lower (fq_operation_id request)) sid s = (Inr f, s')" using read by (simp add: respond_read)
  from acquire_Inr [OF this] obtain op' row s1 s2 where a: "uuid (to_lower (fq_operation_id request)) = Some op'" "find_fence op' (fst s1) = Some row"
    "with_active_errands uuid row s1 = Inr (f, s2)" "fst s' = fst s2" by metis
  with found_stored [OF a(2,3,4)] op show ?thesis by simp
next
  case inspected
  then have "inspect uuid (to_lower (fq_operation_id request)) s = Inr f" using read by (simp add: respond_read)
  from inspect_Inr [OF this] obtain op' row s2 where a: "uuid (to_lower (fq_operation_id request)) = Some op'" "find_fence op' (fst s) = Some row"
    "with_active_errands uuid row s = Inr (f, s2)" by metis
  with found_stored [OF a(2,3), of "fst s'"] with_active_errands_Inr(1) [OF a(3)] op inspected(2) show ?thesis by simp
qed (use route in simp_all)

lemma stored_fence_guards:
  assumes "store_inv uuid db" "stored_fence uuid op f db" "fn_state f = StateOpen" "\<not> fn_has_active_errands f"
    "uuid (fn_supplier_id f) = Some (fn_supplier_id f)"
  shows "guarded uuid op (fn_supplier_id f) db"
proof -
  obtain row where row: "row \<in> set (od_fences db)" "fe_operation_id row = op" "fe_supplier_id row = fn_supplier_id f" "wire (fe_state row) = StateOpen"
    using assms(2,3) by (auto simp: stored_fence_def)
  then have "fe_state row = FenceOpen" by (cases "fe_state row") simp_all
  with row assms show ?thesis by (auto simp: guarded_def fence_held_def list_ex_iff stored_fence_def)
qed

end
