(* ===== verification/Deletion_Safety.thy ===== *)
theory Deletion_Safety
  imports Deletion_World Fence_Serving
begin

text \<open>
  The invariant of guarded deletion: whatever requests, reconcilers and failures do, an operation that has
  deleted its supplier keeps a fence in force, and no active errand uses the supplier. Every worker knows
  what its phase says, as long as the operation carries its claim.
\<close>

section \<open>The invariant\<close>

definition deletes :: "deletion_state \<Rightarrow> bool" where
  "deletes s \<longleftrightarrow> s \<in> {DeletionCommitPending, DeletionCompleted}"

definition rejects :: "deletion_state \<Rightarrow> bool" where
  "rejects s \<longleftrightarrow> s \<in> {DeletionReleasePending, DeletionRejectedActiveErrands}"

abbreviation operations :: "world \<Rightarrow> deletion_row set" where
  "operations w \<equiv> set (sd_deletions (wd_suppliers w))"

abbreviation orders_db :: "world \<Rightarrow> order_db" where
  "orders_db w \<equiv> fst (wd_orders w)"

definition claims_inv :: "uuid_reader \<Rightarrow> world \<Rightarrow> bool" where
  "claims_inv uuid w \<longleftrightarrow> deletion_keys (wd_suppliers w) \<and> distinct (map fst (wd_claims w))
     \<and> (\<forall>r \<in> operations w. uuid (dl_operation_id r) = Some (dl_operation_id r) \<and> uuid (dl_supplier_id r) = Some (dl_supplier_id r))
     \<and> (\<forall>r \<in> operations w. \<forall>c. dl_claim_id r = Some c \<longrightarrow> c \<in> fst ` set (wd_claims w))"

definition fences_inv :: "uuid_reader \<Rightarrow> world \<Rightarrow> bool" where
  "fences_inv uuid w \<longleftrightarrow> store_inv uuid (orders_db w)
     \<and> (\<forall>f \<in> set (od_fences (orders_db w)). uuid (fe_supplier_id f) = Some (fe_supplier_id f))
     \<and> (\<forall>f \<in> set (od_fences (orders_db w)). fe_state f = FenceCommitted \<longrightarrow>
          (\<exists>r \<in> operations w. dl_operation_id r = fe_operation_id f \<and> deletes (dl_state r)))"

definition deletions_inv :: "uuid_reader \<Rightarrow> world \<Rightarrow> bool" where
  "deletions_inv uuid w \<longleftrightarrow>
     (\<forall>r \<in> operations w. deletes (dl_state r) \<longrightarrow> guarded uuid (dl_operation_id r) (dl_supplier_id r) (orders_db w))
     \<and> (\<forall>s \<in> set (sd_suppliers (wd_suppliers w)). su_deleted_at s \<noteq> None \<longrightarrow>
          (\<exists>r \<in> operations w. deletes (dl_state r) \<and> dl_supplier_id r = su_supplier_id s))"

fun phase_fact :: "uuid_reader \<Rightarrow> order_db \<Rightarrow> string \<Rightarrow> phase \<Rightarrow> deletion_row \<Rightarrow> bool" where
  "phase_fact uuid od c PhaseRequested r \<longleftrightarrow> (dl_claim_id r = Some c \<longrightarrow> dl_state r = DeletionRequested)"
| "phase_fact uuid od c PhaseGuarded r \<longleftrightarrow>
     (dl_claim_id r = Some c \<longrightarrow> dl_state r = DeletionRequested \<and> guarded uuid (dl_operation_id r) (dl_supplier_id r) od)"
| "phase_fact uuid od c PhaseUnsure r \<longleftrightarrow> (dl_claim_id r = Some c \<longrightarrow> dl_state r \<in> {DeletionRequested, DeletionCommitPending})"
| "phase_fact uuid od c PhaseReleasing r \<longleftrightarrow> rejects (dl_state r)"
| "phase_fact uuid od c PhaseCommitting r \<longleftrightarrow> deletes (dl_state r)"

definition holds_row :: "uuid_reader \<Rightarrow> int \<Rightarrow> order_db \<Rightarrow> string \<Rightarrow> int \<Rightarrow> phase \<Rightarrow> deletion_row \<Rightarrow> bool" where
  "holds_row uuid clock od c lease ph r \<longleftrightarrow>
     (clock < lease \<longrightarrow> dl_claim_id r = Some c) \<and> (dl_claim_id r = Some c \<longrightarrow> dl_lease_expires_at r = Some lease)
     \<and> phase_fact uuid od c ph r"

fun knows :: "uuid_reader \<Rightarrow> world \<Rightarrow> nat \<Rightarrow> held \<Rightarrow> bool" where
  "knows uuid w i Idle \<longleftrightarrow> True"
| "knows uuid w i (Fresh c) \<longleftrightarrow> (c, i) \<in> set (wd_claims w) \<and> uuid c = Some c \<and> (\<forall>r \<in> operations w. dl_claim_id r \<noteq> Some c)"
| "knows uuid w i (Holds op sid c lease ph) \<longleftrightarrow> (c, i) \<in> set (wd_claims w) \<and> uuid c = Some c
     \<and> (\<exists>r \<in> operations w. dl_operation_id r = op \<and> dl_supplier_id r = sid \<and> holds_row uuid (wd_clock w) (orders_db w) c lease ph r)"

definition lease_known :: "worker \<Rightarrow> held \<Rightarrow> bool" where
  "lease_known wk h \<longleftrightarrow> (\<forall>op sid c lease ph. h = Holds op sid c lease ph \<longrightarrow> wk_lease wk = Some lease)"

definition worker_ok :: "uuid_reader \<Rightarrow> world \<Rightarrow> nat \<Rightarrow> worker \<Rightarrow> bool" where
  "worker_ok uuid w i wk \<longleftrightarrow>
     (\<exists>t h. disciplined t h (wk_prog wk) any_end \<and> t \<le> wd_clock w \<and> knows uuid w i h \<and> lease_known wk h)"

definition world_inv :: "uuid_reader \<Rightarrow> world \<Rightarrow> bool" where
  "world_inv uuid w \<longleftrightarrow> claims_inv uuid w \<and> fences_inv uuid w \<and> deletions_inv uuid w
     \<and> (\<forall>i < length (wd_workers w). worker_ok uuid w i (wd_workers w ! i))"

lemma fresh_world_inv: "fresh_world uuid w \<Longrightarrow> world_inv uuid w"
  by (simp add: fresh_world_def world_inv_def claims_inv_def fences_inv_def deletions_inv_def deletion_keys_def)

section \<open>Frames\<close>

lemma operation_unique:
  "claims_inv uuid w \<Longrightarrow> r \<in> operations w \<Longrightarrow> r' \<in> operations w \<Longrightarrow> dl_operation_id r = dl_operation_id r' \<Longrightarrow> r = r'"
  by (metis claims_inv_def deletion_keys_def distinct_key_eq)

lemma claim_owner:
  "claims_inv uuid w \<Longrightarrow> (c, i) \<in> set (wd_claims w) \<Longrightarrow> (c, j) \<in> set (wd_claims w) \<Longrightarrow> i = j"
  by (metis claims_inv_def eq_key_imp_eq_value)

text \<open>A change of the workers alone keeps what the others know.\<close>

lemma knows_workers [simp]: "knows uuid (w\<lparr>wd_workers := ws\<rparr>) i h = knows uuid w i h"
  by (cases h) simp_all

lemma worker_ok_workers [simp]: "worker_ok uuid (w\<lparr>wd_workers := ws\<rparr>) i wk = worker_ok uuid w i wk"
  by (simp add: worker_ok_def)

lemma inv_workers [simp]:
  "claims_inv uuid (w\<lparr>wd_workers := ws\<rparr>) = claims_inv uuid w" "fences_inv uuid (w\<lparr>wd_workers := ws\<rparr>) = fences_inv uuid w"
  "deletions_inv uuid (w\<lparr>wd_workers := ws\<rparr>) = deletions_inv uuid w"
  by (simp_all add: claims_inv_def fences_inv_def deletions_inv_def)

lemma worker_ok_mono:
  assumes "worker_ok uuid w i wk" "wd_clock w \<le> wd_clock w'" "\<And>h. knows uuid w i h \<Longrightarrow> knows uuid w' i h"
  shows "worker_ok uuid w' i wk"
  using assms unfolding worker_ok_def by (meson order_trans)

text \<open>A step of one worker: the others keep what they know, and it goes on as its phase says.\<close>

lemma world_inv_step:
  assumes inv: "world_inv uuid w" and i: "i < length (wd_workers w)"
    and ws: "wd_workers w' = wd_workers w" and clock: "wd_clock w' = wd_clock w"
    and parts: "claims_inv uuid w'" "fences_inv uuid w'" "deletions_inv uuid w'"
    and others: "\<And>j h. j \<noteq> i \<Longrightarrow> knows uuid w j h \<Longrightarrow> knows uuid w' j h"
    and own: "worker_ok uuid w' i wk"
  shows "world_inv uuid (set_worker i wk w')"
proof -
  have "worker_ok uuid w' j (wd_workers w ! j)" if "j < length (wd_workers w)" "j \<noteq> i" for j
    using worker_ok_mono [of uuid w j _ w'] inv others that clock by (simp add: world_inv_def)
  with own i parts show ?thesis by (simp add: world_inv_def set_worker_def ws nth_list_update)
qed

lemma world_inv_frame:
  assumes "world_inv uuid w" "wd_workers w' = wd_workers w" "wd_clock w \<le> wd_clock w'"
    "claims_inv uuid w'" "fences_inv uuid w'" "deletions_inv uuid w'" "\<And>j h. knows uuid w j h \<Longrightarrow> knows uuid w' j h"
  shows "world_inv uuid w'"
  using assms worker_ok_mono [of uuid w _ _ w'] by (simp add: world_inv_def)

lemma world_inv_add:
  assumes "world_inv uuid w" "\<And>t. disciplined t Idle p any_end"
  shows "world_inv uuid (add_worker p w)"
proof -
  have "worker_ok uuid w i \<lparr>wk_prog = p, wk_lease = None\<rparr>" for i
    unfolding worker_ok_def by (rule exI [of _ "wd_clock w"], rule exI [of _ Idle]) (use assms(2) in \<open>simp add: lease_known_def\<close>)
  with assms(1) show ?thesis by (auto simp: world_inv_def add_worker_def nth_append less_Suc_eq)
qed

section \<open>Steps that touch no database\<close>

lemma tick_inv:
  assumes "world_inv uuid w" "wd_clock w \<le> t"
  shows "world_inv uuid (w\<lparr>wd_clock := t\<rparr>)"
proof (rule world_inv_frame [OF assms(1)])
  show "knows uuid (w\<lparr>wd_clock := t\<rparr>) j h" if "knows uuid w j h" for j h
    using that assms(2) by (cases h) (auto simp: holds_row_def intro!: bexI)
qed (use assms in \<open>simp_all add: world_inv_def claims_inv_def fences_inv_def deletions_inv_def\<close>)

lemma worker_ok_prog:
  "disciplined t h p any_end \<Longrightarrow> t \<le> wd_clock w \<Longrightarrow> knows uuid w i h \<Longrightarrow> lease_known wk h \<Longrightarrow> worker_ok uuid w i (wk\<lparr>wk_prog := p\<rparr>)"
  unfolding worker_ok_def lease_known_def by auto

lemma read_clock_inv:
  assumes inv: "world_inv uuid w" and i: "i < length (wd_workers w)" and p: "wk_prog (wd_workers w ! i) = Now k"
  shows "world_inv uuid (set_worker i ((wd_workers w ! i)\<lparr>wk_prog := k (wd_clock w)\<rparr>) w)"
proof (rule world_inv_step [OF inv i])
  obtain t h where "disciplined t h (Now k) any_end" "knows uuid w i h" "lease_known (wd_workers w ! i) h"
    using inv i p unfolding world_inv_def worker_ok_def by metis
  then show "worker_ok uuid w i ((wd_workers w ! i)\<lparr>wk_prog := k (wd_clock w)\<rparr>)" by (intro worker_ok_prog [of "wd_clock w" h]) simp_all
qed (use inv in \<open>simp_all add: world_inv_def\<close>)

lemma ask_context_inv:
  assumes inv: "world_inv uuid w" and i: "i < length (wd_workers w)" and p: "wk_prog (wd_workers w ! i) = ContextEnded k"
  shows "world_inv uuid (set_worker i ((wd_workers w ! i)\<lparr>wk_prog := k b\<rparr>) w)"
proof (rule world_inv_step [OF inv i])
  obtain t h where "disciplined t h (ContextEnded k) any_end" "t \<le> wd_clock w" "knows uuid w i h" "lease_known (wd_workers w ! i) h"
    using inv i p unfolding world_inv_def worker_ok_def by metis
  then show "worker_ok uuid w i ((wd_workers w ! i)\<lparr>wk_prog := k b\<rparr>)" by (intro worker_ok_prog) simp_all
qed (use inv in \<open>simp_all add: world_inv_def\<close>)

lemma draw_claim_inv:
  assumes inv: "world_inv uuid w" and i: "i < length (wd_workers w)" and p: "wk_prog (wd_workers w ! i) = NewClaimID k"
    and c: "uuid c = Some c" "c \<notin> fst ` set (wd_claims w)"
  shows "world_inv uuid (set_worker i ((wd_workers w ! i)\<lparr>wk_prog := k c\<rparr>) (w\<lparr>wd_claims := (c, i) # wd_claims w\<rparr>))"
proof (rule world_inv_step [OF inv i])
  obtain t h where k: "disciplined t h (NewClaimID k) any_end" "t \<le> wd_clock w" using inv i p unfolding world_inv_def worker_ok_def by metis
  have "\<forall>r \<in> operations w. dl_claim_id r \<noteq> Some c" using inv c(2) by (auto simp: world_inv_def claims_inv_def)
  with k c(1) show "worker_ok uuid (w\<lparr>wd_claims := (c, i) # wd_claims w\<rparr>) i ((wd_workers w ! i)\<lparr>wk_prog := k c\<rparr>)"
    by (intro worker_ok_prog [of t "Fresh c"]) (simp_all add: lease_known_def)
  show "claims_inv uuid (w\<lparr>wd_claims := (c, i) # wd_claims w\<rparr>)" using inv c by (auto simp: world_inv_def claims_inv_def)
  show "knows uuid (w\<lparr>wd_claims := (c, i) # wd_claims w\<rparr>) j h" if "knows uuid w j h" for j h using that by (cases h) auto
qed (use inv in \<open>simp_all add: world_inv_def fences_inv_def deletions_inv_def\<close>)

section \<open>Calls of the store\<close>

definition with_row :: "supplier_row list \<Rightarrow> deletion_row \<Rightarrow> deletion_row \<Rightarrow> world \<Rightarrow> world" where
  "with_row ss row row' w = w\<lparr>wd_suppliers := (wd_suppliers w)\<lparr>sd_suppliers := ss,
     sd_deletions := update_where (\<lambda>r. dl_operation_id r = dl_operation_id row) (\<lambda>_. row') (sd_deletions (wd_suppliers w))\<rparr>\<rparr>"

lemma with_row_fields [simp]:
  "wd_clock (with_row ss row row' w) = wd_clock w" "wd_orders (with_row ss row row' w) = wd_orders w"
  "wd_claims (with_row ss row row' w) = wd_claims w" "wd_workers (with_row ss row row' w) = wd_workers w"
  "sd_suppliers (wd_suppliers (with_row ss row row' w)) = ss"
  by (simp_all add: with_row_def)

lemma with_row_operations:
  assumes "claims_inv uuid w" "row \<in> operations w"
  shows "operations (with_row ss row row' w) = insert row' (operations w - {row})"
  using assms by (simp add: with_row_def claims_inv_def deletion_keys_def set_update_key)

text \<open>What a change of an operation by a worker amounts to: \<open>c\<close> is the claim it names or takes.\<close>

definition proper_change :: "uuid_reader \<Rightarrow> world \<Rightarrow> string \<Rightarrow> deletion_row \<Rightarrow> deletion_row \<Rightarrow> bool" where
  "proper_change uuid w c row row' \<longleftrightarrow>
     dl_operation_id row' = dl_operation_id row \<and> dl_supplier_id row' = dl_supplier_id row
     \<and> dl_claim_id row' \<in> {Some c, None}
     \<and> (dl_claim_id row \<in> {Some c, None} \<or> (\<exists>l. dl_lease_expires_at row = Some l \<and> l \<le> wd_clock w))
     \<and> (rejects (dl_state row) \<longrightarrow> rejects (dl_state row')) \<and> (deletes (dl_state row) \<longrightarrow> deletes (dl_state row'))
     \<and> (deletes (dl_state row') \<longrightarrow> deletes (dl_state row) \<or> guarded uuid (dl_operation_id row) (dl_supplier_id row) (orders_db w))"

lemma row_change_proper:
  assumes inv: "claims_inv uuid w" and row: "row \<in> operations w" and ch: "row_change uuid call row row'"
    and ok: "store_ok t h call" "t \<le> wd_clock w" "knows uuid w i h"
  obtains c where "(c, i) \<in> set (wd_claims w)" "proper_change uuid w c row row'"
proof -
  have own: "uuid (dl_operation_id row) = Some (dl_operation_id row)" using inv row by (simp add: claims_inv_def)
  have unique: "r = row" if "r \<in> operations w" "dl_operation_id r = dl_operation_id row" for r using operation_unique [OF inv that(1) row that(2)] .
  have "\<exists>c. (c, i) \<in> set (wd_claims w) \<and> proper_change uuid w c row row'"
    using ch
  proof (cases rule: row_change.cases)
    case (claimed oid cl claim now lease)
    with ok have "h = Fresh cl" "now \<le> wd_clock w" by simp_all
    with claimed ok(3) show ?thesis
      by (intro exI [of _ cl]) (auto simp: proper_change_def claimable_deletion_def split: option.splits)
  next
    case (commit_pending oid cl claim supplier now)
    with ok obtain op lease where h: "h = Holds op supplier cl lease PhaseGuarded" "oid = op" by (cases h) auto
    have c: "(cl, i) \<in> set (wd_claims w)" "uuid cl = Some cl" using ok(3) h by simp_all
    obtain r where r: "r \<in> operations w" "dl_operation_id r = op" "phase_fact uuid (orders_db w) cl PhaseGuarded r" using ok(3) h by (auto simp: holds_row_def)
    have "uuid op = Some op" using inv r(1,2) by (auto simp: claims_inv_def)
    with commit_pending h(2) r unique have "r = row" by simp
    with r(3) commit_pending c show ?thesis
      by (intro exI [of _ cl]) (auto simp: proper_change_def set_row_defs deletes_def rejects_def)
  next
    case (release_pending oid cl claim now)
    with ok(1,3) show ?thesis by (cases h) (auto simp: proper_change_def set_row_defs deletes_def rejects_def)
  next
    case (rejected oid cl claim now)
    with ok(1,3) show ?thesis by (cases h) (auto simp: proper_change_def set_row_defs deletes_def rejects_def)
  next
    case (completed oid cl claim now)
    with ok(1,3) show ?thesis by (cases h) (auto simp: proper_change_def set_row_defs deletes_def rejects_def)
  next
    case (retried oid cl claim failure nxt now)
    with ok(1,3) show ?thesis by (cases h) (auto simp: proper_change_def set_row_defs)
  qed
  with that show thesis by blast
qed

lemma knows_with_row:
  assumes inv: "claims_inv uuid w" and row: "row \<in> operations w" and c: "(c, i) \<in> set (wd_claims w)" "proper_change uuid w c row row'"
    and j: "j \<noteq> i" and h: "knows uuid w j h"
  shows "knows uuid (with_row ss row row' w) j h"
proof (cases h)
  case (Fresh d)
  with h claim_owner [OF inv] c(1) j have "d \<noteq> c" by auto
  with Fresh h c(2) with_row_operations [OF inv row] show ?thesis by (auto simp: proper_change_def)
next
  case (Holds op sid d lease ph)
  with h obtain r where r: "r \<in> operations w" "dl_operation_id r = op" "dl_supplier_id r = sid" "holds_row uuid (wd_clock w) (orders_db w) d lease ph r" by auto
  from Holds h claim_owner [OF inv] c(1) j have d: "d \<noteq> c" by auto
  have "\<exists>r' \<in> operations (with_row ss row row' w). dl_operation_id r' = op \<and> dl_supplier_id r' = sid
      \<and> holds_row uuid (wd_clock w) (orders_db w) d lease ph r'"
  proof (cases "r = row")
    case True
    have "dl_claim_id row' \<noteq> Some d" "\<not> wd_clock w < lease" using d c(2) r(4) True by (auto simp: proper_change_def holds_row_def)
    with True r c(2) with_row_operations [OF inv row] show ?thesis
      by (intro bexI [of _ row']) (cases ph; auto simp: proper_change_def holds_row_def)+
  qed (use r with_row_operations [OF inv row] in auto)
  with Holds h show ?thesis by simp
qed simp

lemma suppliers_after_deleted:
  assumes "s \<in> set (suppliers_after call sid db)" "su_deleted_at s \<noteq> None"
  shows "(\<exists>s' \<in> set (sd_suppliers db). su_deleted_at s' \<noteq> None \<and> su_supplier_id s' = su_supplier_id s)
    \<or> su_supplier_id s = sid \<and> (\<exists>supplier oid cl now. call = DeleteCurrentAndMarkCommitPending supplier oid cl now)"
  using assms by (cases call) (auto simp: suppliers_after_def set_update_where)

lemma with_row_parts:
  assumes inv: "claims_inv uuid w" "fences_inv uuid w" "deletions_inv uuid w" and row: "row \<in> operations w"
    and c: "(c, i) \<in> set (wd_claims w)" "proper_change uuid w c row row'" and ch: "row_change uuid call row row'"
  defines "w' \<equiv> with_row (suppliers_after call (dl_supplier_id row) (wd_suppliers w)) row row' w"
  shows "claims_inv uuid w'" "fences_inv uuid w'" "deletions_inv uuid w'"
proof -
  have ops: "operations w' = insert row' (operations w - {row})" unfolding w'_def by (rule with_row_operations [OF inv(1) row])
  have ids: "dl_operation_id row' = dl_operation_id row" "dl_supplier_id row' = dl_supplier_id row" using c(2) by (simp_all add: proper_change_def)
  have keys: "deletion_keys (wd_suppliers w')"
    using inv(1) ids row unfolding claims_inv_def deletion_keys_def w'_def with_row_def by (simp add: update_where_def comp_def if_distrib cong: if_cong)
  have fields: "wd_claims w' = wd_claims w" "wd_orders w' = wd_orders w" by (simp_all add: w'_def)
  have "c' \<in> fst ` set (wd_claims w)" if "dl_claim_id row' = Some c'" for c'
    using that c by (force simp: proper_change_def)
  with inv(1) keys ids row show "claims_inv uuid w'"
    unfolding claims_inv_def ops fields by auto
  have kept: "\<exists>r' \<in> operations w'. dl_operation_id r' = dl_operation_id r \<and> dl_supplier_id r' = dl_supplier_id r \<and> deletes (dl_state r')"
    if "r \<in> operations w" "deletes (dl_state r)" for r
    using that c(2) ids ops by (cases "r = row") (auto simp: proper_change_def)
  show "fences_inv uuid w'"
    using inv(2) kept unfolding fences_inv_def fields by metis
  show "deletions_inv uuid w'"
    unfolding deletions_inv_def fields
  proof (intro conjI ballI impI)
    fix r assume "r \<in> operations w'" "deletes (dl_state r)"
    then show "guarded uuid (dl_operation_id r) (dl_supplier_id r) (orders_db w)"
      using inv(3) row ids c(2) ops unfolding deletions_inv_def proper_change_def by auto
  next
    fix s assume s: "s \<in> set (sd_suppliers (wd_suppliers w'))" "su_deleted_at s \<noteq> None"
    from suppliers_after_deleted [of s call "dl_supplier_id row" "wd_suppliers w"] s
    consider s' where "s' \<in> set (sd_suppliers (wd_suppliers w))" "su_deleted_at s' \<noteq> None" "su_supplier_id s' = su_supplier_id s"
      | "su_supplier_id s = dl_supplier_id row" "deletes (dl_state row')"
      using ch by (auto simp: w'_def row_change_simps set_row_defs deletes_def)
    then show "\<exists>r \<in> operations w'. deletes (dl_state r) \<and> dl_supplier_id r = su_supplier_id s"
    proof cases
      case 1
      with inv(3) obtain r where "r \<in> operations w" "deletes (dl_state r)" "dl_supplier_id r = su_supplier_id s" unfolding deletions_inv_def by metis
      with kept show ?thesis by metis
    next
      case 2
      with ids ops show ?thesis by (intro bexI [of _ row']) simp_all
    qed
  qed
qed

text \<open>A new operation changes nothing for anybody.\<close>

definition with_new_row :: "deletion_row \<Rightarrow> world \<Rightarrow> world" where
  "with_new_row row w = w\<lparr>wd_suppliers := (wd_suppliers w)\<lparr>sd_deletions := sd_deletions (wd_suppliers w) @ [row]\<rparr>\<rparr>"

lemma with_new_row_fields [simp]:
  "wd_clock (with_new_row row w) = wd_clock w" "wd_orders (with_new_row row w) = wd_orders w" "wd_claims (with_new_row row w) = wd_claims w"
  "wd_workers (with_new_row row w) = wd_workers w" "sd_suppliers (wd_suppliers (with_new_row row w)) = sd_suppliers (wd_suppliers w)"
  "operations (with_new_row row w) = insert row (operations w)"
  by (simp_all add: with_new_row_def)

lemma with_new_row_parts:
  assumes ok: "uuid_reader_ok uuid" and inv: "claims_inv uuid w" "fences_inv uuid w" "deletions_inv uuid w"
    and row: "fresh_deletion uuid row" "find_deletion (dl_operation_id row) (wd_suppliers w) = None"
  shows "claims_inv uuid (with_new_row row w)" "fences_inv uuid (with_new_row row w)" "deletions_inv uuid (with_new_row row w)"
    "knows uuid w j h \<Longrightarrow> knows uuid (with_new_row row w) j h"
proof -
  have ids: "uuid (dl_operation_id row) = Some (dl_operation_id row)" "uuid (dl_supplier_id row) = Some (dl_supplier_id row)"
    using row(1) uuid_reader_okD(1) [OF ok] by (auto simp: fresh_deletion_def)
  have new: "dl_claim_id row = None" "\<not> deletes (dl_state row)" using row(1) by (simp_all add: fresh_deletion_def deletes_def)
  have "deletion_keys (wd_suppliers (with_new_row row w))"
    using inv(1) row(2) by (auto simp: claims_inv_def deletion_keys_def with_new_row_def find_deletion_def find_None_iff2)
  with inv(1) ids new show "claims_inv uuid (with_new_row row w)" by (auto simp: claims_inv_def)
  show "fences_inv uuid (with_new_row row w)" using inv(2) unfolding fences_inv_def by force
  show "deletions_inv uuid (with_new_row row w)" using inv(3) new unfolding deletions_inv_def by force
  show "knows uuid (with_new_row row w) j h" if "knows uuid w j h" using that new by (cases h) auto
qed

text \<open>What the caller knows after the call, whether it got the answer or an error of the database instead.\<close>

lemma knows_row:
  assumes inv: "claims_inv uuid w" and row: "row \<in> operations w" and k: "knows uuid w i (Holds op sid c lease ph)"
    and op: "uuid op = Some (dl_operation_id row)"
  shows "op = dl_operation_id row" "sid = dl_supplier_id row" "holds_row uuid (wd_clock w) (orders_db w) c lease ph row"
proof -
  obtain r where r: "r \<in> operations w" "dl_operation_id r = op" "dl_supplier_id r = sid" "holds_row uuid (wd_clock w) (orders_db w) c lease ph r"
    using k by auto
  have "uuid op = Some op" using inv r(1,2) by (auto simp: claims_inv_def)
  with op have eq: "op = dl_operation_id row" by simp
  with operation_unique [OF inv r(1) row] r show "op = dl_operation_id row" "sid = dl_supplier_id row"
    "holds_row uuid (wd_clock w) (orders_db w) c lease ph row" by auto
qed

lemma own_changed:
  assumes inv: "claims_inv uuid w" and row: "row \<in> operations w" and ch: "row_change uuid call row row'" and eff: "took_effect call r row'"
    and ok: "store_ok t h call" "knows uuid w i h" and r': "r' = r \<or> r' = Inl DeletionDatabase"
  shows "knows uuid (with_row ss row row' w) i (store_then h call r')"
  using ch
proof (cases rule: row_change.cases)
  case (claimed oid cl claim now lease)
  with ok have h: "h = Fresh cl" "claim = cl" by simp_all
  have "phase_fact uuid od cl (phase_of (dl_state row)) row'" for od using claimed(2) by (cases "dl_state row") (auto simp: deletes_def rejects_def)
  with claimed h ok(2) r' eff with_row_operations [OF inv row] show ?thesis by (auto simp: deletion_record_of_def holds_row_def)
next
  case (release_pending oid cl claim now)
  with ok(1) obtain sid lease where h: "h = Holds oid sid cl lease PhaseRequested" by (cases h) auto
  note k = knows_row [OF inv row ok(2) [unfolded h] release_pending(3)]
  from k(3) have "holds_row uuid (wd_clock w) (orders_db w) cl lease PhaseReleasing row'"
    using release_pending(2) by (simp add: holds_row_def set_row_defs rejects_def)
  with release_pending h ok(2) k r' eff with_row_operations [OF inv row] show ?thesis
    by (auto simp: set_row_defs)
next
  case (commit_pending oid cl claim supplier now)
  with ok(1) obtain lease where h: "h = Holds oid supplier cl lease PhaseGuarded" by (cases h) auto
  note k = knows_row [OF inv row ok(2) [unfolded h] commit_pending(3)]
  from k(3) have "holds_row uuid (wd_clock w) (orders_db w) cl lease ph row'" if "ph = PhaseCommitting \<or> ph = PhaseUnsure" for ph
    using commit_pending(2) that by (auto simp: holds_row_def set_row_defs deletes_def)
  with commit_pending h ok(2) k r' eff with_row_operations [OF inv row] show ?thesis
    by (auto simp: set_row_defs)
next
  case (rejected oid cl claim now)
  then show ?thesis by (cases h) simp_all
next
  case (completed oid cl claim now)
  then show ?thesis by (cases h) simp_all
next
  case (retried oid cl claim failure nxt now)
  then show ?thesis by (cases h) simp_all
qed

lemma own_same:
  assumes inv: "claims_inv uuid w" and ok: "uuid_reader_ok uuid" "store_ok t h call" "knows uuid w i h" and eff: "no_effect call r"
    and read: "\<And>oid d. call = GetDeletion oid \<Longrightarrow> r = Inr (Found d) \<Longrightarrow> get_deletion uuid oid (wd_suppliers w) = Inr d"
  shows "knows uuid w i (store_then h call r)"
proof (cases call)
  case (ClaimDeletion oid c now lease)
  have "store_then h call r = Idle" using eff ClaimDeletion by (cases "(h, call, r)" rule: store_then.cases) auto
  then show ?thesis by simp
next
  case (GetDeletion oid)
  show ?thesis
  proof (cases "store_then h call r = Idle")
    case False
    then obtain op sid c lease d where h: "h = Holds op sid c lease PhaseUnsure" "r = Inr (Found d)" "oid = op" "dr_state d = DeletionRequested"
      "dr_claim_id d = c" "store_then h call r = Holds op sid c lease PhaseRequested"
      using GetDeletion by (cases "(h, call, r)" rule: store_then.cases) (auto split: if_splits)
    have "c \<noteq> []" using ok(1,3) h(1) by (auto simp: uuid_reader_ok_def)
    from read [OF GetDeletion h(2)] obtain op' r where r: "uuid op = Some op'" "find_deletion op' (wd_suppliers w) = Some r" "d = deletion_record_of r"
      using h(3) by (auto simp: get_deletion_def split: option.splits)
    from find_deletion_Some [OF r(2)] have mem: "r \<in> operations w" "uuid op = Some (dl_operation_id r)" using r(1) by simp_all
    note k = knows_row [OF inv mem(1) ok(3) [unfolded h(1)] mem(2)]
    from h(4) r(3) have "dl_state r = DeletionRequested" by (simp add: deletion_record_of_def)
    with k mem(1) ok(3) h(1,6) show ?thesis by (auto simp: holds_row_def)
  qed simp
next
  case (DeleteCurrentAndMarkCommitPending supplier oid cl now)
  with ok(2) obtain lease where h: "h = Holds oid supplier cl lease PhaseGuarded" by (cases h) auto
  with DeleteCurrentAndMarkCommitPending eff ok(3) show ?thesis by (auto simp: holds_row_def)
next
  case (MarkDeletionReleasePending oid cl now)
  with eff show ?thesis by (cases h) auto
qed (use ok eff in \<open>cases "(h, call, r)" rule: store_then.cases; auto\<close>)+

lemma disciplined_StoreD:
  assumes "worker_ok uuid w i wk" "wk_prog wk = Store c k"
  obtains t h where "store_ok t h c" "\<And>r. disciplined t (store_then h c r) (k r) any_end" "t \<le> wd_clock w" "knows uuid w i h" "lease_known wk h"
  using assms unfolding worker_ok_def by auto

lemma lease_known_after:
  assumes "lease_known wk h"
  shows "lease_known \<lparr>wk_prog = p, wk_lease = lease_after c r (wk_lease wk)\<rparr> (store_then h c r)"
    "lease_known (wk\<lparr>wk_prog := p\<rparr>) (store_then h c (Inl e))"
proof -
  show "lease_known \<lparr>wk_prog = p, wk_lease = lease_after c r (wk_lease wk)\<rparr> (store_then h c r)"
    using assms by (cases "(h, c, r)" rule: store_then.cases) (auto simp: lease_known_def lease_after_def split: if_splits)
  show "lease_known (wk\<lparr>wk_prog := p\<rparr>) (store_then h c (Inl e))"
    using assms by (cases "(h, c, Inl e :: store_result)" rule: store_then.cases) (auto simp: lease_known_def)
qed

lemma exec_inv:
  assumes ok: "uuid_reader_ok uuid" and inv: "world_inv uuid w" and i: "i < length (wd_workers w)"
    and st: "store_ok t h c" "t \<le> wd_clock w" "knows uuid w i h"
    and x: "exec_store uuid c (wd_suppliers w) = (r, db)" and r': "r' = r \<or> r' = Inl DeletionDatabase"
    and go: "disciplined t (store_then h c r') (wk_prog wk) any_end" "lease_known wk (store_then h c r')"
  shows "world_inv uuid (set_worker i wk (w\<lparr>wd_suppliers := db\<rparr>))"
proof -
  have parts: "claims_inv uuid w" "fences_inv uuid w" "deletions_inv uuid w" using inv by (simp_all add: world_inv_def)
  have keys: "deletion_keys (wd_suppliers w)" using parts(1) by (simp add: claims_inv_def)
  have read: "get_deletion uuid oid (wd_suppliers w) = Inr d" if "c = GetDeletion oid" "r' = Inr (Found d)" for oid d
    using that x r' by (auto simp: call_answer_eq)
  have lost: "no_effect c (Inl e)" for e by (cases c) simp_all
  have own: "worker_ok uuid w0 i wk" if "knows uuid w0 i (store_then h c r')" "wd_clock w0 = wd_clock w" for w0
    using that go st(2) unfolding worker_ok_def by auto
  from keys x show ?thesis
  proof (cases rule: exec_store_cases)
    case same
    have "knows uuid w i (store_then h c r')" by (rule own_same [OF parts(1) ok st(1,3)]) (use same(2) r' lost read in auto)
    with own [of w] have "worker_ok uuid w i wk" by simp
    then have "world_inv uuid (set_worker i wk w)" by (intro world_inv_step [OF inv i refl refl parts]) simp_all
    with same(1) show ?thesis by simp
  next
    case (inserted row)
    have w0: "w\<lparr>wd_suppliers := db\<rparr> = with_new_row row w" using inserted(1) by (simp add: with_new_row_def)
    note new = with_new_row_parts [OF ok parts inserted(3,2)]
    have "knows uuid w i (store_then h c r')" by (rule own_same [OF parts(1) ok st(1,3)]) (use inserted(4) r' lost read in auto)
    then have "worker_ok uuid (with_new_row row w) i wk" using own [of "with_new_row row w"] new(4) by simp
    then show ?thesis unfolding w0 by (intro world_inv_step [OF inv i _ _ new(1-3)]) (simp_all add: new(4))
  next
    case (changed row row')
    let ?w = "with_row (suppliers_after c (dl_supplier_id row) (wd_suppliers w)) row row' w"
    have w0: "w\<lparr>wd_suppliers := db\<rparr> = ?w" using changed(4) by (simp add: with_row_def)
    have row: "row \<in> operations w" using find_deletion_Some [OF changed(1)] by simp
    obtain cl where cl: "(cl, i) \<in> set (wd_claims w)" "proper_change uuid w cl row row'"
      by (rule row_change_proper [OF parts(1) row changed(2) st])
    have "knows uuid ?w i (store_then h c r')" by (rule own_changed [OF parts(1) row changed(2,3) st(1,3) r'])
    with own [of ?w] have "worker_ok uuid ?w i wk" by simp
    then show ?thesis unfolding w0
      by (intro world_inv_step [OF inv i _ _ with_row_parts [OF parts row cl changed(2)]]) (simp_all add: knows_with_row [OF parts(1) row cl])
  qed
qed

lemma store_act_inv:
  assumes ok: "uuid_reader_ok uuid" and inv: "world_inv uuid w" and i: "i < length (wd_workers w)"
    and p: "wk_prog (wd_workers w ! i) = Store c k"
  shows "world_inv uuid (store_act uuid i (wd_workers w ! i) c k fate w)"
proof -
  let ?wk = "wd_workers w ! i"
  have "worker_ok uuid w i ?wk" using inv i by (simp add: world_inv_def)
  then obtain t h where st: "store_ok t h c" "\<And>r. disciplined t (store_then h c r) (k r) any_end" "t \<le> wd_clock w" "knows uuid w i h" "lease_known ?wk h"
    using disciplined_StoreD [OF _ p] by metis
  obtain r db where x: "exec_store uuid c (wd_suppliers w) = (r, db)" by (cases "exec_store uuid c (wd_suppliers w)")
  note lease = lease_known_after [OF st(5)]
  note run = exec_inv [OF ok inv i st(1,3,4)]
  show ?thesis
  proof (cases fate)
    case Answered
    then show ?thesis using run [OF x disjI1 [OF refl]] st(2) lease(1) x by (simp add: store_act_def)
  next
    case Unanswered
    then show ?thesis using run [OF x disjI2 [OF refl]] st(2) lease(2) x by (simp add: store_act_def)
  next
    case (Unserved resp)
    have parts: "claims_inv uuid w" "fences_inv uuid w" "deletions_inv uuid w" using inv by (simp_all add: world_inv_def)
    have "no_effect c (Inl DeletionDatabase)" by (cases c) simp_all
    then have "knows uuid w i (store_then h c (Inl DeletionDatabase))" by (rule own_same [OF parts(1) ok st(1,4)]) simp
    then have "worker_ok uuid w i (?wk\<lparr>wk_prog := k (Inl DeletionDatabase)\<rparr>)" by (rule worker_ok_prog [OF st(2,3)]) (use lease(2) in \<open>simp add: lease_known_def\<close>)
    then have "world_inv uuid (set_worker i (?wk\<lparr>wk_prog := k (Inl DeletionDatabase)\<rparr>) w)" by (intro world_inv_step [OF inv i refl refl parts]) simp_all
    with Unserved x show ?thesis by (simp add: store_act_def)
  qed
qed

section \<open>Requests to order-service\<close>

lemma held_in_force:
  assumes claims: "claims_inv uuid w" and k: "knows uuid w i (Holds op sid c lease ph)"
  obtains r where "r \<in> operations w" "dl_operation_id r = op" "dl_supplier_id r = sid" "uuid op = Some op" "uuid sid = Some sid"
    "holds_row uuid (wd_clock w) (orders_db w) c lease ph r"
proof -
  obtain r where r: "r \<in> operations w" "dl_operation_id r = op" "dl_supplier_id r = sid" "holds_row uuid (wd_clock w) (orders_db w) c lease ph r"
    using k by auto
  moreover from r(1-3) claims have "uuid op = Some op" "uuid sid = Some sid" by (auto simp: claims_inv_def)
  ultimately show thesis using that by blast
qed

text \<open>
  A fence is released only for an operation that has not deleted its supplier, and whose claim is not with
  another worker that relies on the fence.
\<close>

definition may_release :: "world \<Rightarrow> nat \<Rightarrow> string \<Rightarrow> bool" where
  "may_release w i op \<longleftrightarrow> (\<forall>r \<in> operations w. dl_operation_id r = op \<longrightarrow>
     \<not> deletes (dl_state r) \<and> (dl_state r = DeletionRequested \<longrightarrow> (\<exists>c. dl_claim_id r = Some c \<and> (c, i) \<in> set (wd_claims w))))"

lemma timely_release:
  assumes claims: "claims_inv uuid w" and k: "knows uuid w i h" and send: "send_ok h request" "fq_route request = ReleaseRoute"
    and lease: "lease_known wk h" and timely: "\<not> late_release request wk w"
  shows "may_release w i (fq_operation_id request)"
proof -
  obtain op sid c lease ph where h: "h = Holds op sid c lease ph" "fq_operation_id request = op" "ph \<in> {PhaseRequested, PhaseReleasing}"
    using send by (cases h) auto
  obtain r where r: "r \<in> operations w" "dl_operation_id r = op" "holds_row uuid (wd_clock w) (orders_db w) c lease ph r"
    using held_in_force [OF claims k [unfolded h(1)]] by metis
  have "wd_clock w < lease" using lease timely h(1) send(2) by (auto simp: lease_known_def late_release_def)
  with r(3) h(3) have "\<not> deletes (dl_state r) \<and> (dl_state r = DeletionRequested \<longrightarrow> dl_claim_id r = Some c)"
    by (auto simp: holds_row_def rejects_def deletes_def)
  moreover have "(c, i) \<in> set (wd_claims w)" using k h(1) by simp
  moreover have "r' = r" if "r' \<in> operations w" "dl_operation_id r' = op" for r' using operation_unique [OF claims that(1) r(1)] that(2) r(2) by simp
  ultimately show ?thesis using h(2) by (auto simp: may_release_def)
qed

lemma knows_orders:
  assumes k: "knows uuid w j h"
    and g: "\<And>r c. r \<in> operations w \<Longrightarrow> dl_state r = DeletionRequested \<Longrightarrow> dl_claim_id r = Some c \<Longrightarrow> (c, j) \<in> set (wd_claims w) \<Longrightarrow>
      (\<exists>op sid lease. h = Holds op sid c lease PhaseGuarded) \<Longrightarrow>
      guarded uuid (dl_operation_id r) (dl_supplier_id r) (orders_db w) \<Longrightarrow> guarded uuid (dl_operation_id r) (dl_supplier_id r) (fst s')"
  shows "knows uuid (w\<lparr>wd_orders := s'\<rparr>) j h"
proof (cases h)
  case (Holds op sid c lease ph)
  with k obtain r where r: "r \<in> operations w" "dl_operation_id r = op" "dl_supplier_id r = sid" "holds_row uuid (wd_clock w) (orders_db w) c lease ph r"
    and c: "(c, j) \<in> set (wd_claims w)" "uuid c = Some c" by auto
  have "holds_row uuid (wd_clock w) (fst s') c lease ph r" using r(4) g [OF r(1) _ _ c(1)] Holds by (cases ph) (auto simp: holds_row_def)
  with Holds r c show ?thesis by auto
qed (use k in simp_all)

lemma served_parts:
  assumes ok: "uuid_reader_ok uuid" "uuid_lower uuid" and inv: "claims_inv uuid w" "fences_inv uuid w" "deletions_inv uuid w"
    and k: "knows uuid w i h" and send: "send_ok h request" and sv: "serve_fence uuid now caller request (wd_orders w) = (response, s')"
    and rel: "fq_route request = ReleaseRoute \<Longrightarrow> may_release w i (fq_operation_id request)"
  defines "w' \<equiv> w\<lparr>wd_orders := s'\<rparr>"
  shows "claims_inv uuid w'" "fences_inv uuid w'" "deletions_inv uuid w'"
    "knows uuid w j h' \<Longrightarrow> j \<noteq> i \<or> h' = h \<Longrightarrow> knows uuid w' j h'"
proof -
  obtain op sid c lease ph where h: "h = Holds op sid c lease ph" "fq_operation_id request = op" using send by (cases h) auto
  obtain r where r: "r \<in> operations w" "dl_operation_id r = op" "uuid op = Some op" "holds_row uuid (wd_clock w) (orders_db w) c lease ph r"
    using held_in_force [OF inv(1) k [unfolded h(1)]] by metis
  have op: "uuid (to_lower (fq_operation_id request)) = Some op" using ok(2) r(3) h(2) by (simp add: uuid_lower_def)
  have fields: "operations w' = operations w" "wd_claims w' = wd_claims w" "orders_db w' = fst s'" "wd_suppliers w' = wd_suppliers w"
    by (simp_all add: w'_def)
  note ff = serve_fences_from [OF ok(1) sv, unfolded op option.inject fences_from_def]
  show "claims_inv uuid w'" using inv(1) by (simp add: claims_inv_def w'_def)
  have store: "store_inv uuid (fst s')" using ff inv(2) store_inv_fences [OF ok(1)] by (auto simp: fences_inv_def)
  have "\<exists>r \<in> operations w. dl_operation_id r = fe_operation_id f \<and> deletes (dl_state r)"
    if f: "f \<in> set (od_fences (fst s'))" "fe_state f = FenceCommitted" for f
  proof (cases "fq_route request = CommitRoute \<and> op = fe_operation_id f")
    case True
    then have "ph = PhaseCommitting" using send h by simp
    with r True show ?thesis by (auto simp: holds_row_def)
  next
    case False
    with ff f obtain f' where "f' \<in> set (od_fences (orders_db w))" "fe_operation_id f' = fe_operation_id f" "fe_state f' = FenceCommitted"
      unfolding fence_origin_def by blast
    with inv(2) show ?thesis unfolding fences_inv_def by metis
  qed
  moreover have "uuid (fe_supplier_id f) = Some (fe_supplier_id f)" if "f \<in> set (od_fences (fst s'))" for f
    using ff that inv(2) unfolding fences_inv_def fence_origin_def by metis
  ultimately show "fences_inv uuid w'" using store unfolding fences_inv_def fields by blast
  have keep: "guarded uuid o' sid' (fst s')" if "guarded uuid o' sid' (orders_db w)" "fq_route request = ReleaseRoute \<longrightarrow> o' \<noteq> op" for o' sid'
    by (rule serve_guarded [OF ok(1) sv _ that(1)]) (use that(2) op in auto)
  show "deletions_inv uuid w'"
    using inv(3) keep rel h(2) unfolding deletions_inv_def fields may_release_def by metis
  show "knows uuid w' j h'" if kj: "knows uuid w j h'" and other: "j \<noteq> i \<or> h' = h"
    unfolding w'_def
  proof (rule knows_orders [OF kj])
    fix r' c' assume r': "r' \<in> operations w" "dl_state r' = DeletionRequested" "dl_claim_id r' = Some c'" "(c', j) \<in> set (wd_claims w)"
      "\<exists>op sid lease. h' = Holds op sid c' lease PhaseGuarded" "guarded uuid (dl_operation_id r') (dl_supplier_id r') (orders_db w)"
    have "dl_operation_id r' \<noteq> op" if route: "fq_route request = ReleaseRoute"
    proof
      assume "dl_operation_id r' = op"
      then have "(c', i) \<in> set (wd_claims w)" using rel [OF route] r'(1-3) h(2) by (auto simp: may_release_def)
      then have "j = i" using claim_owner [OF inv(1) r'(4)] by simp
      with other r'(5) send route show False by auto
    qed
    with keep r'(6) show "guarded uuid (dl_operation_id r') (dl_supplier_id r') (fst s')" by blast
  qed
qed

text \<open>An accepted fence that permits the deletion guards the supplier, if the operation is still its reader's.\<close>

lemma knows_with_fence:
  assumes ok: "uuid_reader_ok uuid" "uuid_lower uuid" and inv: "claims_inv uuid w" "fences_inv uuid w" and k: "knows uuid w i h"
    and send: "send_ok h request" and st: "fq_route request \<in> {AcquireRoute, InspectRoute} \<Longrightarrow> stored_fence uuid (fq_operation_id request) f (orders_db w)"
  shows "knows uuid w i (with_fence h (fq_route request) f)"
proof (cases "with_fence h (fq_route request) f = h")
  case False
  then obtain op sid c lease where h: "h = Holds op sid c lease PhaseRequested" "permits sid f" "fq_route request \<in> {AcquireRoute, InspectRoute}"
    "with_fence h (fq_route request) f = Holds op sid c lease PhaseGuarded"
    by (auto simp: with_fence_def split: held.splits phase.splits if_splits)
  obtain r where r: "r \<in> operations w" "dl_operation_id r = op" "dl_supplier_id r = sid" "uuid sid = Some sid"
    "holds_row uuid (wd_clock w) (orders_db w) c lease PhaseRequested r" using held_in_force [OF inv(1) k [unfolded h(1)]] by metis
  have sf: "stored_fence uuid op f (orders_db w)" using st [OF h(3)] send h(1) by simp
  then obtain row where row: "row \<in> set (od_fences (orders_db w))" "fe_operation_id row = op" "fe_supplier_id row = fn_supplier_id f"
    "wire (fe_state row) = fn_state f" unfolding stored_fence_def by blast
  have canon: "uuid (fn_supplier_id f) = Some (fn_supplier_id f)" using inv(2) row(1,3) unfolding fences_inv_def by metis
  with h(2) r(4) ok(2) have sid: "fn_supplier_id f = sid" by (simp add: permits_def equal_fold_def uuid_lower_def)
  have "guarded uuid op sid (orders_db w)" if cl: "dl_claim_id r = Some c"
  proof (cases "fn_state f = StateCommitted")
    case True
    then have "fe_state row = FenceCommitted" using row(4) by (cases "fe_state row") simp_all
    then obtain r' where "r' \<in> operations w" "dl_operation_id r' = op" "deletes (dl_state r')" using inv(2) row(1,2) unfolding fences_inv_def by metis
    with operation_unique [OF inv(1) r(1)] r(2,5) cl show ?thesis by (auto simp: holds_row_def deletes_def)
  next
    case False
    with stored_fence_guards [OF _ sf _ _ canon] h(2) inv(2) sid show ?thesis by (simp add: permits_def fences_inv_def)
  qed
  with r h(4) k h(1) show ?thesis by (auto simp: holds_row_def)
qed (use k in simp)

lemma knows_send_then:
  assumes ok: "uuid_reader_ok uuid" "uuid_lower uuid" and inv: "claims_inv uuid (w\<lparr>wd_orders := s'\<rparr>)" "fences_inv uuid (w\<lparr>wd_orders := s'\<rparr>)"
    and k: "knows uuid (w\<lparr>wd_orders := s'\<rparr>) i h" and send: "send_ok h request"
    and sv: "serve_fence uuid now caller request (wd_orders w) = (response, s')"
  shows "knows uuid (w\<lparr>wd_orders := s'\<rparr>) i (send_then h request (Some response))"
proof -
  obtain op sid c lease ph where h: "h = Holds op sid c lease ph" "fq_operation_id request = op" using send by (cases h) auto
  have "uuid op = Some op" using held_in_force [OF inv(1) k [unfolded h(1)]] by metis
  then have op: "uuid (to_lower (fq_operation_id request)) = Some (fq_operation_id request)" using ok(2) h(2) by (simp add: uuid_lower_def)
  have "knows uuid (w\<lparr>wd_orders := s'\<rparr>) i (with_fence h (fq_route request) f)" if "client_attempt (Some response) = Inr f" for f
    by (rule knows_with_fence [OF ok inv k send]) (use served_fence_stored [OF sv that _ op] in simp)
  with k show ?thesis by (auto simp: send_then_def split: sum.splits)
qed

lemma refused_no_fence: "map_option fp_status r \<noteq> Some 200 \<Longrightarrow> send_then h request r = h"
  by (cases r) (auto simp: send_then_def client_attempt_def Let_def split: sum.splits if_splits)

lemma fence_act_inv:
  assumes ok: "uuid_reader_ok uuid" "uuid_lower uuid" and inv: "world_inv uuid w" and i: "i < length (wd_workers w)"
    and p: "wk_prog (wd_workers w ! i) = Send request k"
    and timely: "late_release request (wd_workers w ! i) w \<Longrightarrow> \<exists>r. fate = Unserved r"
  shows "world_inv uuid (fence_act uuid i (wd_workers w ! i) request k fate now caller w)"
proof -
  let ?wk = "wd_workers w ! i"
  have parts: "claims_inv uuid w" "fences_inv uuid w" "deletions_inv uuid w" using inv by (simp_all add: world_inv_def)
  have "worker_ok uuid w i ?wk" using inv i by (simp add: world_inv_def)
  then obtain t h where st: "send_ok h request" "\<And>r. disciplined t (send_then h request r) (k r) any_end" "t \<le> wd_clock w" "knows uuid w i h"
    "lease_known ?wk h" using p unfolding worker_ok_def by auto
  obtain response s' where sv: "serve_fence uuid now caller request (wd_orders w) = (response, s')" by (rule prod.exhaust)
  have known: "lease_known ?wk (send_then h request r)" for r
    using st(5) by (auto simp: lease_known_def send_then_def with_fence_def split: sum.splits held.splits phase.splits if_splits)
  have unserved: "world_inv uuid (set_worker i (?wk\<lparr>wk_prog := k r\<rparr>) w)" if "map_option fp_status r \<noteq> Some 200" for r
  proof -
    have "worker_ok uuid w i (?wk\<lparr>wk_prog := k r\<rparr>)"
      by (rule worker_ok_prog [OF st(2,3) _ known]) (use refused_no_fence [OF that] st(4) in simp)
    then show ?thesis by (intro world_inv_step [OF inv i refl refl parts]) simp_all
  qed
  have served: "world_inv uuid (set_worker i (?wk\<lparr>wk_prog := k r\<rparr>) (w\<lparr>wd_orders := s'\<rparr>))"
    if r: "r = Some response \<or> r = None" and now: "\<not> late_release request ?wk w" for r
  proof -
    have rel: "may_release w i (fq_operation_id request)" if "fq_route request = ReleaseRoute"
      by (rule timely_release [OF parts(1) st(4,1) that st(5) now])
    note new = served_parts [OF ok parts st(4,1) sv rel]
    have k0: "knows uuid (w\<lparr>wd_orders := s'\<rparr>) i h" by (rule new(4) [OF _ st(4)]) simp_all
    have "knows uuid (w\<lparr>wd_orders := s'\<rparr>) i (send_then h request r)"
      using r knows_send_then [OF ok new(1,2) k0 st(1) sv] k0 refused_no_fence [of None h request] by auto
    then have "worker_ok uuid (w\<lparr>wd_orders := s'\<rparr>) i (?wk\<lparr>wk_prog := k r\<rparr>)"
      by (intro worker_ok_prog [OF st(2) _ _ known]) (use st(3) in simp_all)
    then show ?thesis by (intro world_inv_step [OF inv i _ _ new(1-3)]) (simp_all add: new(4))
  qed
  show ?thesis
    using unserved served timely sv by (cases fate) (auto simp: fence_act_def)
qed

section \<open>Runs\<close>

lemma act_inv:
  assumes ok: "uuid_reader_ok uuid" "uuid_lower uuid" and inv: "world_inv uuid w" and a: "act uuid cfg False a w = Some w'"
  shows "world_inv uuid w'"
proof (cases a)
  case (Tick t)
  with a tick_inv [OF inv] show ?thesis by (auto split: if_splits)
next
  case (BeginDelete request)
  have "disciplined t Idle (prog_bind (delete_supplier cfg request) (\<lambda>_. Return ())) any_end" for t
    by (rule disciplined_bind [OF disciplined_delete]) simp
  with BeginDelete a world_inv_add [OF inv] show ?thesis by auto
next
  case BeginReconcile
  have "disciplined t Idle (prog_bind (reconcile_once cfg) (\<lambda>_. Return ())) any_end" for t
    by (rule disciplined_bind [OF disciplined_reconcile]) simp
  with BeginReconcile a world_inv_add [OF inv] show ?thesis by auto
next
  case (ReadClock i)
  with a read_clock_inv [OF inv] show ?thesis by (auto simp: worker_at_def split: if_splits prog.splits)
next
  case (DrawClaim i c)
  with a draw_claim_inv [OF inv] show ?thesis by (auto simp: worker_at_def split: if_splits prog.splits)
next
  case (AskContext i b)
  with a ask_context_inv [OF inv] show ?thesis by (auto simp: worker_at_def split: if_splits prog.splits)
next
  case (CallStore i fate)
  with a store_act_inv [OF ok(1) inv] show ?thesis by (auto simp: worker_at_def split: if_splits prog.splits)
next
  case (CallFence i fate now caller)
  with a obtain request k where p: "i < length (wd_workers w)" "wk_prog (wd_workers w ! i) = Send request k"
    "w' = fence_act uuid i (wd_workers w ! i) request k fate now caller w"
    "late_release request (wd_workers w ! i) w \<Longrightarrow> \<exists>r. fate = Unserved r"
    by (auto simp: worker_at_def split: if_splits prog.splits fate.splits)
  from fence_act_inv [OF ok inv p(1,2,4)] p(3) show ?thesis by simp
qed

lemma errands_inv:
  assumes ok: "uuid_reader_ok uuid" and inv: "world_inv uuid w" and st: "errand_step uuid (wd_orders w) s"
  shows "world_inv uuid (w\<lparr>wd_orders := s\<rparr>)"
proof (rule world_inv_frame [OF inv])
  have parts: "claims_inv uuid w" "fences_inv uuid w" "deletions_inv uuid w" using inv by (simp_all add: world_inv_def)
  have keep: "store_inv uuid (fst s)" "od_fences (fst s) = od_fences (orders_db w)"
    using errand_step_keeps [OF ok st] parts(2) by (simp_all add: fences_inv_def)
  note guard = guarded_errand_step [OF ok st]
  show "claims_inv uuid (w\<lparr>wd_orders := s\<rparr>)" using parts(1) by (simp add: claims_inv_def)
  show "fences_inv uuid (w\<lparr>wd_orders := s\<rparr>)" using parts(2) keep by (simp add: fences_inv_def)
  show "deletions_inv uuid (w\<lparr>wd_orders := s\<rparr>)" using parts(3) guard by (simp add: deletions_inv_def)
  show "knows uuid (w\<lparr>wd_orders := s\<rparr>) j h" if "knows uuid w j h" for j h by (rule knows_orders [OF that]) (rule guard)
qed simp_all

lemma catalogue_deleted:
  assumes "catalogue_step ss ss'" "s' \<in> set ss'" "su_deleted_at s' \<noteq> None"
  shows "s' \<in> set ss"
  using assms by (auto simp: catalogue_step_def set_update_where)

lemma catalogue_inv:
  assumes inv: "world_inv uuid w" and st: "catalogue_step (sd_suppliers (wd_suppliers w)) ss"
  shows "world_inv uuid (w\<lparr>wd_suppliers := (wd_suppliers w)\<lparr>sd_suppliers := ss\<rparr>\<rparr>)"
proof (rule world_inv_frame [OF inv])
  let ?w = "w\<lparr>wd_suppliers := (wd_suppliers w)\<lparr>sd_suppliers := ss\<rparr>\<rparr>"
  have parts: "claims_inv uuid w" "fences_inv uuid w" "deletions_inv uuid w" using inv by (simp_all add: world_inv_def)
  show "claims_inv uuid ?w" using parts(1) by (simp add: claims_inv_def deletion_keys_def)
  show "fences_inv uuid ?w" using parts(2) by (simp add: fences_inv_def)
  show "deletions_inv uuid ?w" using parts(3) catalogue_deleted [OF st] by (simp add: deletions_inv_def)
  show "knows uuid ?w j h" if "knows uuid w j h" for j h using that by (cases h) simp_all
qed simp_all

lemma world_step_inv:
  assumes "uuid_reader_ok uuid" "uuid_lower uuid" "world_step uuid cfg False w w'" "world_inv uuid w"
  shows "world_inv uuid w'"
  using assms(3,4)
  by (cases rule: world_step.cases) (auto intro: act_inv [OF assms(1,2)] errands_inv [OF assms(1)] catalogue_inv)

lemma world_run_inv:
  assumes "uuid_reader_ok uuid" "uuid_lower uuid" "(world_step uuid cfg False)\<^sup>*\<^sup>* w w'" "world_inv uuid w"
  shows "world_inv uuid w'"
  using assms(3,4) by (induction rule: rtranclp_induct) (auto intro: world_step_inv [OF assms(1,2)])

end
