(* ===== verification/Deletion_Run.thy ===== *)
theory Deletion_Run
  imports Deletion_Rows Fence_Serving
begin

text \<open>
  A deletion that meets no failure and no other worker: the programs run from their start to their end on
  the two databases, every call served and answered.
\<close>

section \<open>Undisturbed runs\<close>

record surroundings =
  sr_now :: int
  sr_claim :: string
  sr_order_now :: int
  sr_actor :: string

type_synonym both_dbs = "supplier_db \<times> ops_state"

primrec alone :: "uuid_reader \<Rightarrow> surroundings \<Rightarrow> 'a prog \<Rightarrow> both_dbs \<Rightarrow> 'a \<times> both_dbs" where
  "alone uuid sr (Return a) st = (a, st)"
| "alone uuid sr (Now k) st = alone uuid sr (k (sr_now sr)) st"
| "alone uuid sr (NewClaimID k) st = alone uuid sr (k (sr_claim sr)) st"
| "alone uuid sr (ContextEnded k) st = alone uuid sr (k False) st"
| "alone uuid sr (Store c k) st = (case exec_store uuid c (fst st) of (r, db) \<Rightarrow> alone uuid sr (k r) (db, snd st))"
| "alone uuid sr (Send request k) st = (case serve_fence uuid (sr_order_now sr) (Some (sr_actor sr)) request (snd st) of
      (response, s) \<Rightarrow> alone uuid sr (k (Some response)) (fst st, s))"

lemma alone_bind: "alone uuid sr (prog_bind p f) st = (case alone uuid sr p st of (a, st') \<Rightarrow> alone uuid sr (f a) st')"
  by (induction p arbitrary: st) (auto split: prod.splits)

lemma alone_store_unit: "alone uuid sr (store_unit c) (db, s) =
    (case exec_store uuid c db of (r, db') \<Rightarrow> (case r of Inl e \<Rightarrow> Inl e | Inr _ \<Rightarrow> Inr (), (db', s)))"
  by (simp add: store_unit_def split: prod.splits)

section \<open>UUIDs\<close>

text \<open>The standard form of a UUID is read, and printed in lower case.\<close>

definition uuid_standard :: "uuid_reader \<Rightarrow> bool" where
  "uuid_standard uuid \<longleftrightarrow> (\<forall>s. uuid_pattern s \<longrightarrow> uuid s = Some (to_lower s))"

lemma rfc_uuid_pattern: "valid_rfc_uuid s \<Longrightarrow> uuid_pattern s"
proof -
  have "is_hex c" if "is_version_digit c \<or> is_variant_digit c" for c
    using that by (auto simp: is_version_digit_def is_variant_digit_def is_hex_def)
  then show "uuid_pattern s" if "valid_rfc_uuid s"
    using that unfolding valid_rfc_uuid_def uuid_pattern_def rfc_uuid_shape_def uuid_shape_def
    by (auto simp: list_all2_Cons1 list_all2_append1 numeral_eq_Suc)
qed

lemma find_conj: "find p xs = Some x \<Longrightarrow> q x \<Longrightarrow> find (\<lambda>x. p x \<and> q x) xs = Some x"
  by (induction xs) (auto split: if_splits)

section \<open>The fence service\<close>

definition edits_readable :: "uuid_reader \<Rightarrow> order_db \<Rightarrow> bool" where
  "edits_readable uuid db \<longleftrightarrow> (\<forall>r \<in> set (od_errands db). \<forall>d. er_pending_edit r = Some d \<longrightarrow> uuid (d_supplier_id d) \<noteq> None)"

lemma counted:
  assumes "edits_readable uuid (fst s)" "uuid (fe_supplier_id row) = Some (fe_supplier_id row)"
  shows "with_active_errands uuid row s = Inr (\<lparr>fn_operation_id = fe_operation_id row, fn_supplier_id = fe_supplier_id row,
    fn_state = wire (fe_state row), fn_has_active_errands = supplier_in_use uuid (fe_supplier_id row) (fst s)\<rparr>, s)"
proof -
  have "\<not> list_ex (\<lambda>r. counts_for uuid (fe_supplier_id row) r = None) (od_errands (fst s))"
    using assms(1) by (auto simp: edits_readable_def list_ex_iff counts_for_def split: option.splits)
  then show ?thesis using assms(2)
    by (simp add: with_active_errands_def count_active_errands_for_supplier_def ops_uuid_def tx_bind_def supplier_in_use_def list_ex_iff
        filter_empty_conv)
qed

lemma audited:
  assumes "actor \<noteq> []" "action \<noteq> []" "oid \<noteq> []"
  obtains au where "audit now actor action oid ''SUCCEEDED'' [] s = Inr ((), (fst s, au))"
  using assms by (cases s) (auto simp: audit_def insert_audit_def audit_target_type_def audit_outcomes_def)

text \<open>The first acquisition, and the end of an open fence.\<close>

lemma acquire_first:
  assumes ids: "uuid op = Some op" "uuid sid = Some sid" and fresh: "find_fence op (fst s) = None"
    and read: "edits_readable uuid (fst s)" and named: "actor \<noteq> []" "op \<noteq> []"
  obtains row s' where "acquire uuid now actor op sid s = (Inr \<lparr>fn_operation_id = op, fn_supplier_id = sid, fn_state = StateOpen,
      fn_has_active_errands = supplier_in_use uuid sid (fst s)\<rparr>, s')"
    "fst s' = (fst s)\<lparr>od_fences := od_fences (fst s) @ [row]\<rparr>" "find_fence op (fst s') = Some row" "fe_state row = FenceOpen" "fe_supplier_id row = sid"
proof -
  let ?row = "\<lparr>fe_operation_id = op, fe_supplier_id = sid, fe_state = FenceOpen, fe_created_at = now, fe_updated_at = now\<rparr>"
  let ?s = "(fst s\<lparr>od_fences := od_fences (fst s) @ [?row]\<rparr>, snd s)"
  have find: "find_fence op (fst ?s) = Some ?row" using fresh by (simp add: find_fence_def find_None_iff2 find_snoc)
  have create: "create_fence uuid now op sid s = Inr ((?row, True), ?s)"
    using ids fresh find by (cases s) (simp add: create_fence_def ops_uuid_def insert_fence_def set_fences_def get_fence_row_def tx_bind_def)
  have "edits_readable uuid (fst ?s)" "supplier_in_use uuid sid (fst ?s) = supplier_in_use uuid sid (fst s)"
    using read by (simp_all add: edits_readable_def supplier_in_use_def)
  with counted [of uuid ?s ?row] ids(2) have count: "with_active_errands uuid ?row ?s = Inr (\<lparr>fn_operation_id = op, fn_supplier_id = sid,
      fn_state = StateOpen, fn_has_active_errands = supplier_in_use uuid sid (fst s)\<rparr>, ?s)" by simp
  obtain au where au: "audit now actor audit_action_acquire op ''SUCCEEDED'' [] ?s = Inr ((), (fst ?s, au))"
    using audited [OF named(1) _ named(2), of audit_action_acquire now ?s] by (auto simp: audit_action_acquire_def)
  have "acquire uuid now actor op sid s = (Inr \<lparr>fn_operation_id = op, fn_supplier_id = sid, fn_state = StateOpen,
      fn_has_active_errands = supplier_in_use uuid sid (fst s)\<rparr>, (fst ?s, au))"
    using ids(2) create count au by (simp add: acquire_def answered_def run_tx_def acquire_tx_def lock_supplier_def ops_uuid_def tx_bind_def)
  from that [OF this, of ?row] find show thesis by simp
qed

lemma acquire_again:
  assumes ids: "uuid op = Some op" "uuid sid = Some sid" and row: "find_fence op (fst s) = Some row" "fe_state row = FenceOpen" "fe_supplier_id row = sid"
    and read: "edits_readable uuid (fst s)" and named: "actor \<noteq> []" "op \<noteq> []"
  obtains au where "acquire uuid now actor op sid s = (Inr \<lparr>fn_operation_id = op, fn_supplier_id = sid, fn_state = StateOpen,
      fn_has_active_errands = supplier_in_use uuid sid (fst s)\<rparr>, (fst s, au))"
proof -
  have rid: "fe_operation_id row = op" using find_Some_mem [of _ _ row] row(1) by (auto simp: find_fence_def)
  have create: "create_fence uuid now op sid s = Inr ((row, False), s)"
    using ids row by (simp add: create_fence_def ops_uuid_def insert_fence_def get_fence_row_def tx_bind_def)
  have count: "with_active_errands uuid row s = Inr (\<lparr>fn_operation_id = op, fn_supplier_id = sid, fn_state = StateOpen,
      fn_has_active_errands = supplier_in_use uuid sid (fst s)\<rparr>, s)" using counted [OF read, of row] ids(2) row(2,3) rid by simp
  obtain au where au: "audit now actor audit_action_acquire op ''SUCCEEDED'' [] s = Inr ((), (fst s, au))"
    using audited [OF named(1) _ named(2), of audit_action_acquire now s] by (auto simp: audit_action_acquire_def)
  show thesis
    by (rule that [of au]) (use ids(2) create count au in \<open>simp add: acquire_def answered_def run_tx_def acquire_tx_def lock_supplier_def ops_uuid_def tx_bind_def\<close>)
qed

lemma close_open:
  assumes ids: "uuid op = Some op" "uuid sid = Some sid" and row: "find_fence op (fst s) = Some row" "fe_state row = FenceOpen" "fe_supplier_id row = sid"
    and read: "edits_readable uuid (fst s)" and named: "actor \<noteq> []" "op \<noteq> []" "action \<noteq> []" and state: "state = FenceCommitted \<or> state = FenceReleased"
  obtains row' s' active where "close uuid now actor action op state s = (Inr \<lparr>fn_operation_id = op, fn_supplier_id = sid, fn_state = wire state,
      fn_has_active_errands = active\<rparr>, s')"
    "find_fence op (fst s') = Some row'" "fe_state row' = state" "fe_supplier_id row' = sid" "od_errands (fst s') = od_errands (fst s)"
    "od_fences (fst s') = update_where (\<lambda>f. fe_operation_id f = op \<and> fe_state f = FenceOpen) (\<lambda>f. f\<lparr>fe_state := state, fe_updated_at := now\<rparr>) (od_fences (fst s))"
proof -
  let ?f = "\<lambda>f. f\<lparr>fe_state := state, fe_updated_at := now\<rparr>"
  let ?s = "(fst s\<lparr>od_fences := update_where (\<lambda>f. fe_operation_id f = op \<and> fe_state f = FenceOpen) ?f (od_fences (fst s))\<rparr>, snd s)"
  have rid: "fe_operation_id row = op" using find_Some_mem [of _ _ row] row(1) by (auto simp: find_fence_def)
  have "find (\<lambda>f. fe_operation_id f = op \<and> fe_state f = FenceOpen) (od_fences (fst s)) = Some row"
    by (rule find_conj) (use row in \<open>simp_all add: find_fence_def\<close>)
  then have closed: "close_fence uuid now op state s = Inr (?f row, ?s)"
    using ids(1) state by (auto simp: close_fence_def ops_uuid_def close_fence_row_def set_fences_def tx_bind_def split: prod.splits)
  have find: "find_fence op (fst ?s) = Some (?f row)"
    using row rid by (simp add: find_fence_def find_update_where_key [where key = fe_operation_id])
  have "edits_readable uuid (fst ?s)" using read by (simp add: edits_readable_def)
  with counted [of uuid ?s "?f row"] ids(2) row(3) rid have count: "with_active_errands uuid (?f row) ?s = Inr (\<lparr>fn_operation_id = op,
      fn_supplier_id = sid, fn_state = wire state, fn_has_active_errands = supplier_in_use uuid sid (fst ?s)\<rparr>, ?s)" by simp
  obtain au where au: "audit now actor action op ''SUCCEEDED'' [] ?s = Inr ((), (fst ?s, au))" by (rule audited [OF named(1,3,2)])
  have "close uuid now actor action op state s = (Inr \<lparr>fn_operation_id = op, fn_supplier_id = sid, fn_state = wire state,
      fn_has_active_errands = supplier_in_use uuid sid (fst ?s)\<rparr>, (fst ?s, au))"
    using closed count au by (simp add: close_def answered_def run_tx_def close_tx_def tx_bind_def)
  from that [OF this, of "?f row"] find row(3) show thesis by simp
qed

lemma alone_client_call:
  assumes ids: "valid_rfc_uuid op" "valid_rfc_uuid sid"
    and sv: "serve_fence uuid (sr_order_now sr) (Some (sr_actor sr)) \<lparr>fq_route = route, fq_operation_id = op, fq_body = body\<rparr> s
      = (respond (Inr \<lparr>fn_operation_id = op, fn_supplier_id = sid, fn_state = state, fn_has_active_errands = active\<rparr>), s')"
  shows "alone uuid sr (client_call n route op body) (db, s)
    = (Inr \<lparr>fn_operation_id = op, fn_supplier_id = sid, fn_state = state, fn_has_active_errands = active\<rparr>, (db, s'))"
proof -
  let ?f = "\<lparr>fn_operation_id = op, fn_supplier_id = sid, fn_state = state, fn_has_active_errands = active\<rparr>"
  have "client_attempt (Some (respond (Inr ?f))) = Inr ?f" using ids(2) by (simp add: respond_read)
  then have "alone uuid sr (retry_attempts m \<lparr>fq_route = route, fq_operation_id = op, fq_body = body\<rparr>) (db, s) = (Inr ?f, (db, s'))" for m
    using sv by (cases m) (simp_all add: equal_fold_def)
  then show ?thesis using ids(1) by (simp add: client_call_def)
qed

section \<open>The store\<close>

lemma move_done:
  assumes ids: "uuid op = Some op" "uuid c = Some c" and row: "find_deletion op db = Some row" "p row" "holds_claim c now row" "deletion_check (f row)"
    and key: "\<And>r. dl_operation_id (f r) = dl_operation_id r"
  obtains db' where "move_operation uuid op c now p f db = Inr (1, db')" "find_deletion op db' = Some (f row)" "sd_suppliers db' = sd_suppliers db"
proof -
  let ?p = "\<lambda>r. p r \<and> holds_claim c now r"
  let ?db = "db\<lparr>sd_deletions := update_where (\<lambda>r. dl_operation_id r = op \<and> ?p r) f (sd_deletions db)\<rparr>"
  have rid: "dl_operation_id row = op" using find_deletion_Some [OF row(1)] by simp
  have "find (\<lambda>r. dl_operation_id r = op \<and> ?p r) (sd_deletions db) = Some row"
    by (rule find_conj) (use row in \<open>simp_all add: find_deletion_def\<close>)
  then have "update_operation op ?p f db = Inr (Some (f row), ?db)" using row(4) by (simp add: update_operation_def tx_bind_def)
  then have "move_operation uuid op c now p f db = Inr (1, ?db)" using ids by (simp add: move_operation_def del_uuid_def tx_bind_def)
  moreover have "find_deletion op ?db = Some (f row)"
    using row rid key by (simp add: find_deletion_def find_update_where_key [where key = dl_operation_id])
  ultimately show thesis using that [of ?db] by simp
qed

lemma claim_done:
  assumes ids: "uuid oid = Some op" "uuid c = Some c" and row: "find_deletion op db = Some row" "claimable_deletion now row" and lease: "now < lease"
  defines "row' \<equiv> row\<lparr>dl_claim_id := Some c, dl_lease_expires_at := Some lease, dl_attempt_count := dl_attempt_count row + 1, dl_updated_at := now\<rparr>"
  assumes chk: "deletion_check row'"
  obtains db' where "exec_store uuid (ClaimDeletion oid c now lease) db = (Inr (Claimed (Some (deletion_record_of row'))), db')"
    "find_deletion op db' = Some row'" "sd_suppliers db' = sd_suppliers db" "sd_deletions db = [row] \<longrightarrow> sd_deletions db' = [row']"
proof -
  let ?f = "\<lambda>r. r\<lparr>dl_claim_id := Some c, dl_lease_expires_at := Some lease, dl_attempt_count := dl_attempt_count r + 1, dl_updated_at := now\<rparr>"
  let ?db = "db\<lparr>sd_deletions := update_where (\<lambda>r. dl_operation_id r = op \<and> claimable_deletion now r) ?f (sd_deletions db)\<rparr>"
  have rid: "dl_operation_id row = op" using find_deletion_Some [OF row(1)] by simp
  have "find (\<lambda>r. dl_operation_id r = op \<and> claimable_deletion now r) (sd_deletions db) = Some row"
    by (rule find_conj) (use row in \<open>simp_all add: find_deletion_def\<close>)
  then have "update_operation op (claimable_deletion now) ?f db = Inr (Some row', ?db)"
    using chk by (simp add: update_operation_def tx_bind_def row'_def)
  then have 1: "exec_store uuid (ClaimDeletion oid c now lease) db = (Inr (Claimed (Some (deletion_record_of row'))), ?db)"
    using ids lease by (simp add: call_answer_def claim_deletion_def claim_operation_def run_tx_def tx_bind_def del_uuid_def)
  have 2: "find_deletion op ?db = Some row'"
    using row rid by (simp add: find_deletion_def find_update_where_key [where key = dl_operation_id] row'_def)
  show thesis by (rule that [OF 1 2]) (use row(2) rid in \<open>simp_all add: row'_def\<close>)
qed

lemma set_row_keys:
  "dl_operation_id (set_release_pending now r) = dl_operation_id r" "dl_operation_id (set_rejected now r) = dl_operation_id r"
  "dl_operation_id (set_commit_pending now r) = dl_operation_id r" "dl_operation_id (set_completed now r) = dl_operation_id r"
  by (simp_all add: set_row_defs)

definition live_supplier :: "string \<Rightarrow> int \<Rightarrow> supplier_db \<Rightarrow> bool" where
  "live_supplier sid now db \<longleftrightarrow> (\<exists>s. find (\<lambda>s. su_supplier_id s = sid \<and> su_deleted_at s = None) (sd_suppliers db) = Some s \<and> su_created_at s \<le> now)"

definition supplier_gone :: "string \<Rightarrow> supplier_db \<Rightarrow> bool" where
  "supplier_gone sid db \<longleftrightarrow> (\<forall>s \<in> set (sd_suppliers db). su_supplier_id s = sid \<longrightarrow> su_deleted_at s \<noteq> None)"

lemma delete_done:
  assumes ids: "uuid op = Some op" "uuid c = Some c" "uuid sid = Some sid" and live: "live_supplier sid now db"
    and row: "find_deletion op db = Some row" "dl_supplier_id row = sid" "dl_state row = DeletionRequested" "holds_claim c now row"
      "deletion_check (set_commit_pending now row)"
  obtains db' where "delete_current_and_mark_commit_pending uuid sid op c now db = (Inr (), db')" "find_deletion op db' = Some (set_commit_pending now row)"
    "supplier_gone sid db'" "map su_supplier_id (sd_suppliers db') = map su_supplier_id (sd_suppliers db)"
proof -
  let ?p = "\<lambda>s. su_supplier_id s = sid \<and> su_deleted_at s = None" and ?f = "\<lambda>s. s\<lparr>su_deleted_at := Some now, su_updated_at := now\<rparr>"
  let ?db = "db\<lparr>sd_suppliers := update_where ?p ?f (sd_suppliers db)\<rparr>"
  obtain su where su: "find ?p (sd_suppliers db) = Some su" "su_created_at su \<le> now" using live by (auto simp: live_supplier_def)
  have soft: "soft_delete_supplier uuid now sid db = Inr (1, ?db)"
    using ids(3) su by (simp add: soft_delete_supplier_def del_uuid_def tx_bind_def supplier_check_def)
  have "find_deletion op ?db = Some row" using row(1) by (simp add: find_deletion_def)
  then obtain db' where db': "move_operation uuid op c now (\<lambda>r. dl_supplier_id r = sid \<and> dl_state r = DeletionRequested) (set_commit_pending now) ?db = Inr (1, db')"
    "find_deletion op db' = Some (set_commit_pending now row)" "sd_suppliers db' = sd_suppliers ?db"
    by (rule move_done [where f = "set_commit_pending now" and p = "\<lambda>r. dl_supplier_id r = sid \<and> dl_state r = DeletionRequested", OF ids(1,2)])
      (use row in \<open>simp_all add: set_row_keys\<close>)
  have "delete_current_and_mark_commit_pending uuid sid op c now db = (Inr (), db')"
    using soft db'(1) ids(3)
    by (simp add: delete_current_and_mark_commit_pending_def delete_current_tx_def run_tx_def tx_bind_def del_uuid_def)
  moreover have sup: "sd_suppliers db' = map (\<lambda>s. if ?p s then ?f s else s) (sd_suppliers db)" using db'(3) by (simp add: update_where_def)
  have "supplier_gone sid db'" unfolding supplier_gone_def sup
  proof (intro ballI impI)
    fix s assume s: "s \<in> set (map (\<lambda>s. if ?p s then ?f s else s) (sd_suppliers db))" and sid: "su_supplier_id s = sid"
    from s obtain s0 where s0: "s = (if ?p s0 then ?f s0 else s0)" unfolding set_map by blast
    show "su_deleted_at s \<noteq> None"
    proof (cases "?p s0")
      case True
      with s0 have "s = ?f s0" by simp
      then show ?thesis by simp
    next
      case False
      with s0 have "s = s0" by simp
      with False sid show ?thesis by simp
    qed
  qed
  moreover have "map su_supplier_id (sd_suppliers db') = map su_supplier_id (sd_suppliers db)" unfolding sup by simp
  ultimately show thesis using that [OF _ db'(2)] by blast
qed

section \<open>The workflow\<close>

definition op_state :: "string \<Rightarrow> deletion_state \<Rightarrow> supplier_db \<Rightarrow> bool" where
  "op_state op state db \<longleftrightarrow> (\<exists>r. find_deletion op db = Some r \<and> dl_state r = state)"

definition fence_is :: "string \<Rightarrow> string \<Rightarrow> fence_state \<Rightarrow> order_db \<Rightarrow> bool" where
  "fence_is op sid state db \<longleftrightarrow> (\<exists>r. find_fence op db = Some r \<and> fe_supplier_id r = sid \<and> fe_state r = state)"

text \<open>A claimed operation, fresh on the side of order-service.\<close>

definition ready :: "uuid_reader \<Rightarrow> surroundings \<Rightarrow> string \<Rightarrow> string \<Rightarrow> deletion_row \<Rightarrow> both_dbs \<Rightarrow> bool" where
  "ready uuid sr op sid row st \<longleftrightarrow>
     uuid op = Some op \<and> uuid sid = Some sid \<and> uuid (sr_claim sr) = Some (sr_claim sr)
     \<and> valid_rfc_uuid op \<and> valid_rfc_uuid sid \<and> to_lower op = op \<and> to_lower sid = sid \<and> sr_actor sr \<noteq> []
     \<and> find_deletion op (fst st) = Some row \<and> dl_supplier_id row = sid \<and> dl_state row = DeletionRequested
     \<and> holds_claim (sr_claim sr) (sr_now sr) row \<and> deletion_check row \<and> dl_requested_at row \<le> sr_now sr
     \<and> live_supplier sid (sr_now sr) (fst st) \<and> find_fence op (fst (snd st)) = None \<and> edits_readable uuid (fst (snd st))"

lemma served_acquire:
  assumes "valid_rfc_uuid op" "valid_rfc_uuid sid" "to_lower op = op" "to_lower sid = sid" "actor \<noteq> []"
  shows "serve_fence uuid now (Some actor) \<lparr>fq_route = AcquireRoute, fq_operation_id = op, fq_body = [Some (JObj [(''supplierId'', JStr sid)])]\<rparr> s
    = apfst respond (acquire uuid now actor op sid s)"
  using assms rfc_uuid_pattern
  by (simp add: serve_fence_def fence_target_def decode_acquire_def acquire_field_def field_names_apart fence_field_keys)

lemma served_close:
  assumes "valid_rfc_uuid op" "to_lower op = op" "actor \<noteq> []"
  shows "serve_fence uuid now (Some actor) \<lparr>fq_route = CommitRoute, fq_operation_id = op, fq_body = body\<rparr> s = apfst respond (commit_fence uuid now actor op s)"
    "serve_fence uuid now (Some actor) \<lparr>fq_route = ReleaseRoute, fq_operation_id = op, fq_body = body\<rparr> s = apfst respond (release_fence uuid now actor op s)"
  using assms rfc_uuid_pattern by (simp_all add: serve_fence_def fence_target_def)

lemma ready_served:
  assumes r: "ready uuid sr op sid row (db, s)"
  obtains f s' where "serve_fence uuid (sr_order_now sr) (Some (sr_actor sr)) \<lparr>fq_route = AcquireRoute, fq_operation_id = op,
        fq_body = [Some (JObj [(''supplierId'', JStr sid)])]\<rparr> s = (respond (Inr \<lparr>fn_operation_id = op, fn_supplier_id = sid, fn_state = StateOpen,
      fn_has_active_errands = supplier_in_use uuid sid (fst s)\<rparr>), s')"
    "fst s' = (fst s)\<lparr>od_fences := od_fences (fst s) @ [f]\<rparr>" "find_fence op (fst s') = Some f" "fe_state f = FenceOpen" "fe_supplier_id f = sid"
proof -
  have op: "op \<noteq> []" using r by (auto simp: ready_def valid_rfc_uuid_def rfc_uuid_shape_def)
  obtain f s' where a: "acquire uuid (sr_order_now sr) (sr_actor sr) op sid s = (Inr \<lparr>fn_operation_id = op, fn_supplier_id = sid, fn_state = StateOpen,
      fn_has_active_errands = supplier_in_use uuid sid (fst s)\<rparr>, s')" "fst s' = (fst s)\<lparr>od_fences := od_fences (fst s) @ [f]\<rparr>"
    "find_fence op (fst s') = Some f" "fe_state f = FenceOpen" "fe_supplier_id f = sid"
    by (rule acquire_first [of uuid op sid s "sr_actor sr" "sr_order_now sr"]) (use r op in \<open>simp_all add: ready_def\<close>)
  show thesis by (rule that [OF _ a(2-5)]) (use r a(1) in \<open>simp add: ready_def served_acquire\<close>)
qed

lemma ready_acquire:
  assumes r: "ready uuid sr op sid row (db, s)"
  obtains s' where "alone uuid sr (client_acquire n op sid) (db, s) = (Inr \<lparr>fn_operation_id = op, fn_supplier_id = sid, fn_state = StateOpen,
      fn_has_active_errands = supplier_in_use uuid sid (fst s)\<rparr>, (db, s'))"
    "fence_is op sid FenceOpen (fst s')" "od_errands (fst s') = od_errands (fst s)"
proof (rule ready_served [OF r])
  fix f s'
  assume a: "serve_fence uuid (sr_order_now sr) (Some (sr_actor sr)) \<lparr>fq_route = AcquireRoute, fq_operation_id = op,
        fq_body = [Some (JObj [(''supplierId'', JStr sid)])]\<rparr> s = (respond (Inr \<lparr>fn_operation_id = op, fn_supplier_id = sid, fn_state = StateOpen,
      fn_has_active_errands = supplier_in_use uuid sid (fst s)\<rparr>), s')"
    "fst s' = (fst s)\<lparr>od_fences := od_fences (fst s) @ [f]\<rparr>" "find_fence op (fst s') = Some f" "fe_state f = FenceOpen" "fe_supplier_id f = sid"
  have "valid_rfc_uuid op" "valid_rfc_uuid sid" using r by (simp_all add: ready_def)
  from alone_client_call [OF this a(1)] a(2-5) show thesis
    using that [of s'] by (simp add: client_acquire_def alone_bind equal_fold_def fence_is_def)
qed

lemma alone_close:
  assumes ids: "uuid op = Some op" "uuid sid = Some sid" "valid_rfc_uuid op" "valid_rfc_uuid sid" "to_lower op = op" "sr_actor sr \<noteq> []"
    and s: "fence_is op sid FenceOpen (fst s)" "edits_readable uuid (fst s)"
  obtains s' s'' where "alone uuid sr (client_commit n op) (db, s) = (Inr (), (db, s'))" "fence_is op sid FenceCommitted (fst s')"
    "alone uuid sr (client_release n op) (db, s) = (Inr (), (db, s''))" "fence_is op sid FenceReleased (fst s'')"
proof -
  have op: "op \<noteq> []" using ids(3) by (auto simp: valid_rfc_uuid_def rfc_uuid_shape_def)
  obtain row where row: "find_fence op (fst s) = Some row" "fe_state row = FenceOpen" "fe_supplier_id row = sid" using s(1) by (auto simp: fence_is_def)
  have ex: "\<exists>row' s' active. close uuid (sr_order_now sr) (sr_actor sr) action op state s = (Inr \<lparr>fn_operation_id = op, fn_supplier_id = sid,
      fn_state = wire state, fn_has_active_errands = active\<rparr>, s') \<and> fence_is op sid state (fst s')"
    if "state = FenceCommitted \<or> state = FenceReleased" "action \<noteq> []" for state action
    by (rule close_open [where now = "sr_order_now sr", OF ids(1,2) row s(2) ids(6) op that(2,1)]) (unfold fence_is_def, blast)
  obtain s' active where c: "commit_fence uuid (sr_order_now sr) (sr_actor sr) op s = (Inr \<lparr>fn_operation_id = op, fn_supplier_id = sid,
      fn_state = StateCommitted, fn_has_active_errands = active\<rparr>, s')" "fence_is op sid FenceCommitted (fst s')"
    using ex [of FenceCommitted audit_action_commit] by (auto simp: commit_fence_def audit_action_commit_def)
  obtain s'' active' where d: "release_fence uuid (sr_order_now sr) (sr_actor sr) op s = (Inr \<lparr>fn_operation_id = op, fn_supplier_id = sid,
      fn_state = StateReleased, fn_has_active_errands = active'\<rparr>, s'')" "fence_is op sid FenceReleased (fst s'')"
    using ex [of FenceReleased audit_action_release] by (auto simp: release_fence_def audit_action_release_def)
  have "alone uuid sr (client_call n CommitRoute op []) (db, s) = (Inr \<lparr>fn_operation_id = op, fn_supplier_id = sid, fn_state = StateCommitted,
      fn_has_active_errands = active\<rparr>, (db, s'))" by (rule alone_client_call) (use ids c(1) in \<open>simp_all add: served_close\<close>)
  moreover have "alone uuid sr (client_call n ReleaseRoute op []) (db, s) = (Inr \<lparr>fn_operation_id = op, fn_supplier_id = sid, fn_state = StateReleased,
      fn_has_active_errands = active'\<rparr>, (db, s''))" by (rule alone_client_call) (use ids d(1) in \<open>simp_all add: served_close\<close>)
  ultimately show thesis using that c(2) d(2) by (simp add: client_commit_def client_release_def client_transition_def alone_bind)
qed

text \<open>The rows of a claimed operation pass the checks on its way.\<close>

lemma ready_checks:
  assumes "ready uuid sr op sid row st"
  shows "deletion_check (set_release_pending (sr_now sr) row)" "deletion_check (set_rejected (sr_now sr) (set_release_pending (sr_now sr) row))"
    "deletion_check (set_commit_pending (sr_now sr) row)" "deletion_check (set_completed (sr_now sr) (set_commit_pending (sr_now sr) row))"
    "holds_claim (sr_claim sr) (sr_now sr) (set_release_pending (sr_now sr) row)" "holds_claim (sr_claim sr) (sr_now sr) (set_commit_pending (sr_now sr) row)"
  using assms by (auto simp: ready_def holds_claim_def deletion_check_def set_row_defs split: option.splits)

lemma advance_in_use:
  assumes r: "ready uuid sr op sid row (db, s)" and used: "supplier_in_use uuid sid (fst s)"
  obtains db' s' where "alone uuid sr (workflow_advance cfg (deletion_record_of row) (sr_claim sr) (sr_now sr)) (db, s) = (OutcomeRejectedActiveErrands, (db', s'))"
    "op_state op DeletionRejectedActiveErrands db'" "sd_suppliers db' = sd_suppliers db" "fence_is op sid FenceReleased (fst s')"
proof -
  let ?now = "sr_now sr" and ?c = "sr_claim sr" and ?n = "dc_client_attempts cfg"
  have f: "uuid op = Some op" "uuid sid = Some sid" "uuid ?c = Some ?c" "valid_rfc_uuid op" "valid_rfc_uuid sid" "to_lower op = op" "sr_actor sr \<noteq> []"
    "find_deletion op db = Some row" "dl_supplier_id row = sid" "dl_state row = DeletionRequested" "holds_claim ?c ?now row" "edits_readable uuid (fst s)"
    using r by (simp_all add: ready_def)
  note chk = ready_checks [OF r]
  have rid: "dl_operation_id row = op" using find_deletion_Some [OF f(8)] by simp
  obtain s1 where a: "alone uuid sr (client_acquire ?n op sid) (db, s) = (Inr \<lparr>fn_operation_id = op, fn_supplier_id = sid, fn_state = StateOpen,
      fn_has_active_errands = supplier_in_use uuid sid (fst s)\<rparr>, (db, s1))" "fence_is op sid FenceOpen (fst s1)" "od_errands (fst s1) = od_errands (fst s)"
    by (rule ready_acquire [OF r])
  have read: "edits_readable uuid (fst s1)" using f(12) a(3) by (simp add: edits_readable_def)
  obtain db1 where m: "move_operation uuid op ?c ?now (\<lambda>r. dl_state r = DeletionRequested) (set_release_pending ?now) db = Inr (1, db1)"
    "find_deletion op db1 = Some (set_release_pending ?now row)" "sd_suppliers db1 = sd_suppliers db"
    by (rule move_done [where f = "set_release_pending ?now" and p = "\<lambda>r. dl_state r = DeletionRequested", OF f(1,3,8,10,11) chk(1)]) (simp_all add: set_row_keys)
  obtain s2 where rel: "alone uuid sr (client_release ?n op) (db1, s1) = (Inr (), (db1, s2))" "fence_is op sid FenceReleased (fst s2)"
    using alone_close [OF f(1,2,4-7) a(2) read] by metis
  obtain db2 where m2: "move_operation uuid op ?c ?now (\<lambda>r. dl_state r = DeletionReleasePending) (set_rejected ?now) db1 = Inr (1, db2)"
    "find_deletion op db2 = Some (set_rejected ?now (set_release_pending ?now row))" "sd_suppliers db2 = sd_suppliers db1"
    by (rule move_done [where f = "set_rejected ?now" and p = "\<lambda>r. dl_state r = DeletionReleasePending", OF f(1,3) m(2) _ chk(5,2)])
      (simp_all add: set_row_defs)
  have "alone uuid sr (workflow_advance cfg (deletion_record_of row) ?c ?now) (db, s) = (OutcomeRejectedActiveErrands, (db2, s2))"
    using a(1) rel(1) m(1) m2(1) rid f(9,10) used
    by (simp add: workflow_advance_def workflow_acquire_def workflow_acquired_def workflow_release_def deletion_record_of_def alone_bind equal_fold_def
        alone_store_unit call_answer_def mark_deletion_release_pending_def mark_deletion_rejected_def transition_result_def run_tx_def)
  then show thesis using that m2 m(3) rel(2) by (simp add: op_state_def set_row_defs)
qed

lemma advance_unused:
  assumes r: "ready uuid sr op sid row (db, s)" and unused: "\<not> supplier_in_use uuid sid (fst s)"
  obtains db' s' where "alone uuid sr (workflow_advance cfg (deletion_record_of row) (sr_claim sr) (sr_now sr)) (db, s) = (OutcomeCompleted, (db', s'))"
    "op_state op DeletionCompleted db'" "supplier_gone sid db'" "map su_supplier_id (sd_suppliers db') = map su_supplier_id (sd_suppliers db)"
    "fence_is op sid FenceCommitted (fst s')"
proof -
  let ?now = "sr_now sr" and ?c = "sr_claim sr" and ?n = "dc_client_attempts cfg"
  have f: "uuid op = Some op" "uuid sid = Some sid" "uuid ?c = Some ?c" "valid_rfc_uuid op" "valid_rfc_uuid sid" "to_lower op = op" "sr_actor sr \<noteq> []"
    "find_deletion op db = Some row" "dl_supplier_id row = sid" "dl_state row = DeletionRequested" "holds_claim ?c ?now row" "edits_readable uuid (fst s)"
    "live_supplier sid ?now db"
    using r by (simp_all add: ready_def)
  note chk = ready_checks [OF r]
  have rid: "dl_operation_id row = op" using find_deletion_Some [OF f(8)] by simp
  obtain s1 where a: "alone uuid sr (client_acquire ?n op sid) (db, s) = (Inr \<lparr>fn_operation_id = op, fn_supplier_id = sid, fn_state = StateOpen,
      fn_has_active_errands = supplier_in_use uuid sid (fst s)\<rparr>, (db, s1))" "fence_is op sid FenceOpen (fst s1)" "od_errands (fst s1) = od_errands (fst s)"
    by (rule ready_acquire [OF r])
  have read: "edits_readable uuid (fst s1)" using f(12) a(3) by (simp add: edits_readable_def)
  obtain db1 where m: "delete_current_and_mark_commit_pending uuid sid op ?c ?now db = (Inr (), db1)" "find_deletion op db1 = Some (set_commit_pending ?now row)"
    "supplier_gone sid db1" "map su_supplier_id (sd_suppliers db1) = map su_supplier_id (sd_suppliers db)"
    by (rule delete_done [OF f(1,3,2,13,8-11) chk(3)])
  obtain s2 where com: "alone uuid sr (client_commit ?n op) (db1, s1) = (Inr (), (db1, s2))" "fence_is op sid FenceCommitted (fst s2)"
    using alone_close [OF f(1,2,4-7) a(2) read] by metis
  obtain db2 where m2: "move_operation uuid op ?c ?now (\<lambda>r. dl_state r = DeletionCommitPending) (set_completed ?now) db1 = Inr (1, db2)"
    "find_deletion op db2 = Some (set_completed ?now (set_commit_pending ?now row))" "sd_suppliers db2 = sd_suppliers db1"
    by (rule move_done [where f = "set_completed ?now" and p = "\<lambda>r. dl_state r = DeletionCommitPending", OF f(1,3) m(2) _ chk(6,4)])
      (simp_all add: set_row_defs)
  have "alone uuid sr (workflow_advance cfg (deletion_record_of row) ?c ?now) (db, s) = (OutcomeCompleted, (db2, s2))"
    using a(1) com(1) m(1) m2(1) rid f(9,10) unused
    by (simp add: workflow_advance_def workflow_acquire_def workflow_acquired_def workflow_delete_def workflow_commit_def deletion_record_of_def alone_bind
        equal_fold_def alone_store_unit call_answer_def complete_deletion_def transition_result_def run_tx_def Let_def)
  then show thesis using that m2 m(3,4) com(2) by (simp add: op_state_def set_row_defs supplier_gone_def)
qed

section \<open>Requests\<close>

lemma rfc_uuid_to_lower:
  assumes "valid_rfc_uuid s"
  shows "valid_rfc_uuid (to_lower s)"
proof -
  have digits: "is_version_digit (to_lower_char c)" if "is_version_digit c" for c
    using that by (auto simp: is_version_digit_def to_lower_char_def)
  have variants: "is_variant_digit (to_lower_char c)" if "is_variant_digit c" for c
  proof -
    have "c \<in> {CHR ''8'', CHR ''9'', CHR ''a'', CHR ''b'', CHR ''A'', CHR ''B''}" using that by (simp add: is_variant_digit_def)
    moreover have "to_lower_char CHR ''8'' = CHR ''8''" "to_lower_char CHR ''9'' = CHR ''9''" "to_lower_char CHR ''a'' = CHR ''a''"
      "to_lower_char CHR ''b'' = CHR ''b''" "to_lower_char CHR ''A'' = CHR ''a''" "to_lower_char CHR ''B'' = CHR ''b''" by code_simp+
    ultimately show ?thesis by (auto simp: is_variant_digit_def)
  qed
  have keep: "p (to_lower_char c)" if "p \<in> set rfc_uuid_shape" "p c" for p c
    using that digits variants to_lower_hex by (auto simp: rfc_uuid_shape_def)
  show ?thesis unfolding valid_rfc_uuid_def to_lower_def list_all2_conv_all_nth
  proof (intro conjI allI impI)
    show "length rfc_uuid_shape = length (map to_lower_char s)" using assms by (simp add: valid_rfc_uuid_def list_all2_lengthD)
    fix i assume i: "i < length rfc_uuid_shape"
    then have "(rfc_uuid_shape ! i) (s ! i)" "i < length s" using assms by (auto simp: valid_rfc_uuid_def list_all2_conv_all_nth)
    with keep nth_mem [OF i] show "(rfc_uuid_shape ! i) (map to_lower_char s ! i)" by simp
  qed
qed

text \<open>What a request finds: an administrator, a supplier that is not deleted, and a key never used.\<close>

definition first_request :: "uuid_reader \<Rightarrow> deletion_config \<Rightarrow> surroundings \<Rightarrow> delete_request \<Rightarrow> both_dbs \<Rightarrow> bool" where
  "first_request uuid cfg sr request st \<longleftrightarrow>
     uuid_standard uuid \<and> dq_manager request = Some True \<and> valid_rfc_uuid (dq_supplier_id request)
     \<and> valid_rfc_uuid (trim_space (dq_idempotency_key request))
     \<and> uuid (sr_claim sr) = Some (sr_claim sr) \<and> sr_actor sr \<noteq> []
     \<and> 0 < dc_max_attempts cfg \<and> dc_max_attempts cfg \<le> max_int32 \<and> 0 < dc_lease_duration cfg
     \<and> live_supplier (to_lower (dq_supplier_id request)) (sr_now sr) (fst st)
     \<and> find_deletion (to_lower (trim_space (dq_idempotency_key request))) (fst st) = None
     \<and> find_fence (to_lower (trim_space (dq_idempotency_key request))) (fst (snd st)) = None
     \<and> edits_readable uuid (fst (snd st))"

definition requested_row :: "deletion_config \<Rightarrow> int \<Rightarrow> string \<Rightarrow> string \<Rightarrow> deletion_row" where
  "requested_row cfg now op sid = \<lparr>dl_operation_id = op, dl_supplier_id = sid, dl_state = DeletionRequested, dl_attempt_count = 0,
     dl_max_attempts = dc_max_attempts cfg, dl_next_attempt_at = Some now, dl_last_failure = None, dl_claim_id = None,
     dl_lease_expires_at = None, dl_requested_at = now, dl_updated_at = now, dl_deleted_at = None, dl_completed_at = None\<rparr>"

definition claimed_row :: "deletion_config \<Rightarrow> surroundings \<Rightarrow> string \<Rightarrow> string \<Rightarrow> deletion_row" where
  "claimed_row cfg sr op sid = (requested_row cfg (sr_now sr) op sid)\<lparr>dl_claim_id := Some (sr_claim sr),
     dl_lease_expires_at := Some (sr_now sr + dc_lease_duration cfg), dl_attempt_count := 1\<rparr>"

lemma first_created:
  assumes f: "first_request uuid cfg sr request (db, s)"
  defines "key \<equiv> trim_space (dq_idempotency_key request)"
  defines "row \<equiv> requested_row cfg (sr_now sr) (to_lower key) (to_lower (dq_supplier_id request))"
  shows "exec_store uuid (CreateOrGetDeletion key (dq_supplier_id request) (dc_max_attempts cfg) (sr_now sr)) db
    = (if to_lower (dq_supplier_id request) = dq_supplier_id request then Inr (Found (deletion_record_of row)) else Inl DeletionOperationMismatch,
       db\<lparr>sd_deletions := sd_deletions db @ [row]\<rparr>)"
proof -
  have ids: "uuid key = Some (to_lower key)" "uuid (dq_supplier_id request) = Some (to_lower (dq_supplier_id request))"
    using f rfc_uuid_pattern by (simp_all add: first_request_def uuid_standard_def key_def)
  have "list_ex (\<lambda>x. su_supplier_id x = to_lower (dq_supplier_id request)) (sd_suppliers db)"
    using f find_Some_mem by (fastforce simp: first_request_def live_supplier_def list_ex_iff)
  moreover have "deletion_check row" using f by (simp add: first_request_def row_def requested_row_def deletion_check_def)
  ultimately show ?thesis using f ids
    by (simp add: call_answer_def create_or_get_deletion_def create_or_get_operation_def run_tx_def tx_bind_def del_uuid_def Let_def first_request_def
        row_def requested_row_def key_def)
qed

lemma first_claimed:
  assumes f: "first_request uuid cfg sr request (db, s)"
  defines "key \<equiv> trim_space (dq_idempotency_key request)"
  defines "op \<equiv> to_lower key" and "sid \<equiv> to_lower (dq_supplier_id request)"
  assumes oid: "oid = key \<or> oid = op"
  obtains db' where "exec_store uuid (ClaimDeletion oid (sr_claim sr) (sr_now sr) (sr_now sr + dc_lease_duration cfg))
      (db\<lparr>sd_deletions := sd_deletions db @ [requested_row cfg (sr_now sr) op sid]\<rparr>)
    = (Inr (Claimed (Some (deletion_record_of (claimed_row cfg sr op sid)))), db')"
    "ready uuid sr op sid (claimed_row cfg sr op sid) (db', s)" "sd_suppliers db' = sd_suppliers db"
    "sd_deletions db = [] \<longrightarrow> sd_deletions db' = [claimed_row cfg sr op sid]"
proof -
  let ?row = "requested_row cfg (sr_now sr) op sid" and ?now = "sr_now sr"
  let ?db = "db\<lparr>sd_deletions := sd_deletions db @ [?row]\<rparr>"
  have valid: "valid_rfc_uuid op" "valid_rfc_uuid sid" using f rfc_uuid_to_lower by (simp_all add: first_request_def op_def sid_def key_def)
  have ids: "uuid oid = Some op" "uuid op = Some op" "uuid sid = Some sid" "uuid (sr_claim sr) = Some (sr_claim sr)"
    using f oid rfc_uuid_pattern [OF valid(1)] rfc_uuid_pattern [OF valid(2)] rfc_uuid_pattern
    by (auto simp: first_request_def uuid_standard_def key_def op_def sid_def)
  have "\<And>r. r \<in> set (sd_deletions db) \<Longrightarrow> dl_operation_id r \<noteq> op"
    using f by (auto simp: first_request_def op_def key_def find_deletion_def find_None_iff2)
  then have found: "find_deletion op ?db = Some ?row" by (simp add: find_deletion_def find_snoc requested_row_def)
  have cl: "claimable_deletion ?now ?row" using f by (simp add: claimable_deletion_def pending_state_def requested_row_def first_request_def)
  have lease: "?now < ?now + dc_lease_duration cfg" using f by (simp add: first_request_def)
  have chk: "deletion_check (claimed_row cfg sr op sid)" using f by (simp add: claimed_row_def requested_row_def deletion_check_def first_request_def)
  have frow: "?row\<lparr>dl_claim_id := Some (sr_claim sr), dl_lease_expires_at := Some (?now + dc_lease_duration cfg),
      dl_attempt_count := dl_attempt_count ?row + 1, dl_updated_at := ?now\<rparr> = claimed_row cfg sr op sid" by (simp add: claimed_row_def requested_row_def)
  obtain db' where db': "exec_store uuid (ClaimDeletion oid (sr_claim sr) ?now (?now + dc_lease_duration cfg)) ?db
      = (Inr (Claimed (Some (deletion_record_of (claimed_row cfg sr op sid)))), db')"
    "find_deletion op db' = Some (claimed_row cfg sr op sid)" "sd_suppliers db' = sd_suppliers ?db"
    "sd_deletions ?db = [?row] \<longrightarrow> sd_deletions db' = [claimed_row cfg sr op sid]"
    by (rule claim_done [OF ids(1,4) found cl lease, unfolded frow, OF chk])
  have "ready uuid sr op sid (claimed_row cfg sr op sid) (db', s)"
    using f ids valid chk db'
    by (auto simp: ready_def first_request_def op_def sid_def key_def live_supplier_def holds_claim_def claimed_row_def requested_row_def)
  with that db' show thesis by simp
qed

section \<open>Whole requests\<close>

lemma alone_delete_supplier:
  assumes f: "first_request uuid cfg sr request (db, s)" and lower: "to_lower (dq_supplier_id request) = dq_supplier_id request"
  obtains db' row where "ready uuid sr (to_lower (trim_space (dq_idempotency_key request))) (dq_supplier_id request) row (db', s)"
    "sd_suppliers db' = sd_suppliers db"
    "alone uuid sr (delete_supplier cfg request) (db, s) = (case alone uuid sr (workflow_advance cfg (deletion_record_of row) (sr_claim sr) (sr_now sr)) (db', s)
       of (outcome, st) \<Rightarrow> (outcome_reply (trim_space (dq_idempotency_key request)) outcome, st))"
proof -
  let ?key = "trim_space (dq_idempotency_key request)"
  let ?row = "claimed_row cfg sr (to_lower ?key) (dq_supplier_id request)"
  note created = first_created [OF f, unfolded lower]
  obtain db' where db': "exec_store uuid (ClaimDeletion ?key (sr_claim sr) (sr_now sr) (sr_now sr + dc_lease_duration cfg))
      (db\<lparr>sd_deletions := sd_deletions db @ [requested_row cfg (sr_now sr) (to_lower ?key) (dq_supplier_id request)]\<rparr>)
    = (Inr (Claimed (Some (deletion_record_of ?row))), db')"
    "ready uuid sr (to_lower ?key) (dq_supplier_id request) ?row (db', s)" "sd_suppliers db' = sd_suppliers db"
    using first_claimed [OF f disjI1 [OF refl], unfolded lower] by metis
  have "?key \<noteq> []" using f by (auto simp: first_request_def valid_rfc_uuid_def rfc_uuid_shape_def)
  then have "alone uuid sr (delete_supplier cfg request) (db, s) = alone uuid sr (prog_bind (workflow_advance cfg (deletion_record_of ?row) (sr_claim sr) (sr_now sr))
      (\<lambda>outcome. Return (outcome_reply ?key outcome))) (db', s)"
    using f created db'(1)
    by (simp add: delete_supplier_def first_request_def Let_def store_record_def store_claim_def delete_claimed_def deletion_record_of_def
        requested_row_def del: exec_store.simps)
  then show thesis using that [OF db'(2,3)] by (simp add: alone_bind)
qed

lemma alone_reconcile:
  assumes f: "first_request uuid cfg sr request (db, s)" and none: "sd_deletions db = []"
  defines "op \<equiv> to_lower (trim_space (dq_idempotency_key request))" and "sid \<equiv> to_lower (dq_supplier_id request)"
  obtains db' row where "ready uuid sr op sid row (db', s)" "sd_suppliers db' = sd_suppliers db"
    "alone uuid sr (reconcile_once cfg) (db\<lparr>sd_deletions := [requested_row cfg (sr_now sr) op sid]\<rparr>, s)
      = (1, snd (alone uuid sr (workflow_advance cfg (deletion_record_of row) (sr_claim sr) (sr_now sr)) (db', s)))"
proof -
  let ?row = "requested_row cfg (sr_now sr) op sid" and ?row' = "claimed_row cfg sr op sid"
  have listed: "list_claimable_deletions (sr_now sr) reconcile_batch_size (db\<lparr>sd_deletions := [?row]\<rparr>) = Inr [deletion_record_of ?row]"
    using f by (simp add: list_claimable_deletions_def reconcile_batch_size_def maximum_pending_deletion_page_def claimable_deletion_def
        pending_state_def requested_row_def first_request_def)
  obtain db' where db': "exec_store uuid (ClaimDeletion op (sr_claim sr) (sr_now sr) (sr_now sr + dc_lease_duration cfg)) (db\<lparr>sd_deletions := [?row]\<rparr>)
    = (Inr (Claimed (Some (deletion_record_of ?row'))), db')" "ready uuid sr op sid ?row' (db', s)" "sd_suppliers db' = sd_suppliers db"
    using first_claimed [OF f disjI2 [OF refl], folded op_def sid_def, unfolded none append_Nil] by metis
  have "dr_operation_id (deletion_record_of ?row) = op" by (simp add: deletion_record_of_def requested_row_def)
  then have "alone uuid sr (reconcile_once cfg) (db\<lparr>sd_deletions := [?row]\<rparr>, s)
      = (1, snd (alone uuid sr (workflow_advance cfg (deletion_record_of ?row') (sr_claim sr) (sr_now sr)) (db', s)))"
    using listed db'(1) by (simp add: reconcile_once_def store_list_def store_claim_def call_answer_def alone_bind split: prod.splits)
  then show thesis by (rule that [OF db'(2,3)])
qed

end
