(* ===== verification/Deletion_Example.thy ===== *)
theory Deletion_Example
  imports Deletion_Safety Deletion_Run
begin

text \<open>
  Runs of the deletion protocol on concrete data: the steps of one worker as steps of the world, a
  deletion up to the soft delete, and the run in which a release that arrives late opens the fence of a
  deleted supplier.
\<close>

section \<open>A reader of UUIDs and sample ids\<close>

definition text_reader :: uuid_reader where
  "text_reader s = (if uuid_pattern s then Some (to_lower s) else None)"

lemma uuid_pattern_no_colon: "uuid_pattern s \<Longrightarrow> no_colon s"
proof -
  assume s: "uuid_pattern s"
  have "c \<noteq> CHR '':''" if c: "c \<in> set s" for c
  proof -
    obtain i where i: "i < length s" "s ! i = c" using c by (auto simp: in_set_conv_nth)
    with s have "(uuid_shape ! i) c" "i < length uuid_shape" by (auto simp: uuid_pattern_def list_all2_conv_all_nth)
    then obtain p where "p \<in> set uuid_shape" "p c" by (metis nth_mem)
    then show ?thesis by (auto simp: uuid_shape_def is_hex_def)
  qed
  then show "no_colon s" by (auto simp: no_colon_def)
qed

lemma text_reader_ok: "uuid_reader_ok text_reader" "uuid_lower text_reader" "uuid_standard text_reader"
proof -
  have "\<not> uuid_pattern []" using uuid_pattern_length [of "[]"] by auto
  then show "uuid_reader_ok text_reader"
    using uuid_pattern_length uuid_pattern_to_lower uuid_pattern_no_colon
    by (auto simp: uuid_reader_ok_def text_reader_def split: if_splits)
  show "uuid_lower text_reader" "uuid_standard text_reader" by (auto simp: uuid_lower_def uuid_standard_def text_reader_def split: if_splits)
qed

definition sample_uuid :: "char \<Rightarrow> string" where
  "sample_uuid c = replicate 8 c @ ''-'' @ replicate 4 c @ ''-4'' @ replicate 3 c @ ''-8'' @ replicate 3 c @ ''-'' @ replicate 12 c"

definition sample_sid :: string where "sample_sid = sample_uuid CHR ''1''"
definition sample_op :: string where "sample_op = sample_uuid CHR ''3''"
definition first_claim :: string where "first_claim = sample_uuid CHR ''4''"
definition second_claim :: string where "second_claim = sample_uuid CHR ''5''"

lemma sample_uuid_valid: "is_hex c \<Longrightarrow> valid_rfc_uuid (sample_uuid c)"
  by (simp add: valid_rfc_uuid_def rfc_uuid_shape_def sample_uuid_def numeral_eq_Suc is_version_digit_def is_variant_digit_def)

lemma to_lower_4_8: "to_lower_char CHR ''4'' = CHR ''4''" "to_lower_char CHR ''8'' = CHR ''8''"
  by (simp_all add: to_lower_char_def)

lemma sample_uuid_lower: "to_lower_char c = c \<Longrightarrow> to_lower (sample_uuid c) = sample_uuid c"
  by (simp add: to_lower_def sample_uuid_def to_lower_4_8)

lemma sample_uuid_inj: "sample_uuid c = sample_uuid d \<longleftrightarrow> c = d"
  by (simp add: sample_uuid_def)

lemma sample_digit: "is_hex CHR ''1''" "is_hex CHR ''3''" "is_hex CHR ''4''" "is_hex CHR ''5''"
  "to_lower_char CHR ''1'' = CHR ''1''" "to_lower_char CHR ''3'' = CHR ''3''" "to_lower_char CHR ''5'' = CHR ''5''"
  by (simp_all add: is_hex_def to_lower_char_def)

text \<open>A text of visible ASCII characters has nothing to trim.\<close>

lemma chunks_visible: "(\<And>c. c \<in> set s \<Longrightarrow> byte_of c < 128) \<Longrightarrow> chunks s = map (\<lambda>c. (byte_of c, [c])) s"
  by (induction s) (simp_all add: chunks_ascii)

lemma trim_visible:
  assumes "\<And>c. c \<in> set s \<Longrightarrow> byte_of c < 128 \<and> \<not> is_space (byte_of c)"
  shows "trim_space s = s"
proof -
  have d: "dropWhile (is_space \<circ> fst) xs = xs" if "\<And>x. x \<in> set xs \<Longrightarrow> \<not> is_space (fst x)" for xs :: "(nat \<times> string) list"
    using that by (cases xs) simp_all
  let ?cs = "map (\<lambda>c. (byte_of c, [c])) s"
  have c: "chunks s = ?cs" by (rule chunks_visible) (use assms in blast)
  have l: "dropWhile (is_space \<circ> fst) ?cs = ?cs" "dropWhile (is_space \<circ> fst) (rev ?cs) = rev ?cs"
    by (rule d, use assms in auto)+
  have "concat (map (\<lambda>c. [c]) s) = s" by (induction s) simp_all
  then show ?thesis unfolding trim_space_def c l by (simp add: l comp_def del: rev_map)
qed

lemma sample_valid: "valid_rfc_uuid sample_sid" "valid_rfc_uuid sample_op" "trim_space sample_op = sample_op"
proof -
  show "valid_rfc_uuid sample_sid" "valid_rfc_uuid sample_op" by (simp_all add: sample_sid_def sample_op_def sample_uuid_valid sample_digit)
  show "trim_space sample_op = sample_op" by (rule trim_visible) (auto simp: sample_op_def sample_uuid_def is_space_def)
qed

lemma sample_lower: "to_lower sample_sid = sample_sid" "to_lower sample_op = sample_op"
  by (simp_all add: sample_sid_def sample_op_def sample_uuid_lower sample_digit)

lemma claims_read: "text_reader first_claim = Some first_claim" "text_reader second_claim = Some second_claim" "first_claim \<noteq> second_claim"
  by (simp_all add: first_claim_def second_claim_def text_reader_def sample_uuid_inj sample_uuid_lower sample_digit to_lower_4_8
      rfc_uuid_pattern sample_uuid_valid)

lemma sample_read: "text_reader sample_sid = Some sample_sid" "text_reader sample_op = Some sample_op"
  using sample_valid sample_lower rfc_uuid_pattern by (simp_all add: text_reader_def)

section \<open>Steps of a worker\<close>

definition mk_world :: "int \<Rightarrow> supplier_db \<Rightarrow> ops_state \<Rightarrow> (string \<times> nat) list \<Rightarrow> worker list \<Rightarrow> world" where
  "mk_world t db s cs ws = \<lparr>wd_clock = t, wd_suppliers = db, wd_orders = s, wd_claims = cs, wd_workers = ws\<rparr>"

text \<open>The next interaction of a program, and the program after its answer.\<close>

fun store_head :: "'a prog \<Rightarrow> store_call option" where
  "store_head (Store c k) = Some c" | "store_head p = None"

fun send_head :: "'a prog \<Rightarrow> fence_request option" where
  "send_head (Send r k) = Some r" | "send_head p = None"

fun on_now :: "int \<Rightarrow> 'a prog \<Rightarrow> 'a prog" where "on_now t (Now k) = k t" | "on_now t p = p"
fun on_claim :: "string \<Rightarrow> 'a prog \<Rightarrow> 'a prog" where "on_claim c (NewClaimID k) = k c" | "on_claim c p = p"
fun on_context :: "'a prog \<Rightarrow> 'a prog" where "on_context (ContextEnded k) = k False" | "on_context p = p"
fun on_store :: "store_result \<Rightarrow> 'a prog \<Rightarrow> 'a prog" where "on_store r (Store c k) = k r" | "on_store r p = p"
fun on_send :: "fence_response option \<Rightarrow> 'a prog \<Rightarrow> 'a prog" where "on_send r (Send q k) = k r" | "on_send r p = p"

lemma mk_world_steps:
  assumes i: "i < length ws" "ws ! i = \<lparr>wk_prog = p, wk_lease = l\<rparr>"
  shows "p = Now k \<Longrightarrow> world_step uuid cfg late (mk_world t db s cs ws) (mk_world t db s cs (ws[i := \<lparr>wk_prog = on_now t p, wk_lease = l\<rparr>]))"
    "p = NewClaimID k' \<Longrightarrow> uuid c = Some c \<Longrightarrow> c \<notin> fst ` set cs \<Longrightarrow>
      world_step uuid cfg late (mk_world t db s cs ws) (mk_world t db s ((c, i) # cs) (ws[i := \<lparr>wk_prog = on_claim c p, wk_lease = l\<rparr>]))"
    "p = ContextEnded kc \<Longrightarrow> world_step uuid cfg late (mk_world t db s cs ws) (mk_world t db s cs (ws[i := \<lparr>wk_prog = on_context p, wk_lease = l\<rparr>]))"
    "store_head p = Some call \<Longrightarrow> exec_store uuid call db = (r, db') \<Longrightarrow>
      world_step uuid cfg late (mk_world t db s cs ws) (mk_world t db' s cs (ws[i := \<lparr>wk_prog = on_store r p, wk_lease = lease_after call r l\<rparr>]))"
    "store_head p = Some call \<Longrightarrow> world_step uuid cfg late (mk_world t db s cs ws)
      (mk_world t db s cs (ws[i := \<lparr>wk_prog = on_store (Inl DeletionDatabase) p, wk_lease = l\<rparr>]))"
    "send_head p = Some request \<Longrightarrow> late \<or> fq_route request \<noteq> ReleaseRoute \<Longrightarrow> serve_fence uuid now caller request s = (response, s') \<Longrightarrow>
      world_step uuid cfg late (mk_world t db s cs ws) (mk_world t db s' cs (ws[i := \<lparr>wk_prog = on_send (Some response) p, wk_lease = l\<rparr>]))"
proof -
  note d = worker_at_def set_worker_def mk_world_def store_act_def fence_act_def late_release_def
  show "world_step uuid cfg late (mk_world t db s cs ws) (mk_world t db s cs (ws[i := \<lparr>wk_prog = on_now t p, wk_lease = l\<rparr>]))" if "p = Now k"
    by (rule world_step.acted [of _ _ _ "ReadClock i"]) (use i that in \<open>simp add: d\<close>)
  show "world_step uuid cfg late (mk_world t db s cs ws) (mk_world t db s ((c, i) # cs) (ws[i := \<lparr>wk_prog = on_claim c p, wk_lease = l\<rparr>]))"
    if "p = NewClaimID k'" "uuid c = Some c" "c \<notin> fst ` set cs"
    by (rule world_step.acted [of _ _ _ "DrawClaim i c"]) (use i that in \<open>simp add: d\<close>)
  show "world_step uuid cfg late (mk_world t db s cs ws) (mk_world t db s cs (ws[i := \<lparr>wk_prog = on_context p, wk_lease = l\<rparr>]))" if "p = ContextEnded kc"
    by (rule world_step.acted [of _ _ _ "AskContext i False"]) (use i that in \<open>simp add: d\<close>)
  show "world_step uuid cfg late (mk_world t db s cs ws) (mk_world t db' s cs (ws[i := \<lparr>wk_prog = on_store r p, wk_lease = lease_after call r l\<rparr>]))"
    if "store_head p = Some call" "exec_store uuid call db = (r, db')"
    by (rule world_step.acted [of _ _ _ "CallStore i Answered"]) (use i that in \<open>cases p; simp add: d del: exec_store.simps\<close>)
  show "world_step uuid cfg late (mk_world t db s cs ws) (mk_world t db s cs (ws[i := \<lparr>wk_prog = on_store (Inl DeletionDatabase) p, wk_lease = l\<rparr>]))"
    if "store_head p = Some call"
    by (rule world_step.acted [of _ _ _ "CallStore i (Unserved None)"]) (use i that in \<open>cases p; simp add: d split: prod.splits del: exec_store.simps\<close>)
  show "world_step uuid cfg late (mk_world t db s cs ws) (mk_world t db s' cs (ws[i := \<lparr>wk_prog = on_send (Some response) p, wk_lease = l\<rparr>]))"
    if "send_head p = Some request" "late \<or> fq_route request \<noteq> ReleaseRoute" "serve_fence uuid now caller request s = (response, s')"
    by (rule world_step.acted [of _ _ _ "CallFence i Answered now caller"]) (use i that in \<open>cases p; auto simp: d\<close>)
qed

section \<open>The programs of a deletion\<close>

definition sample_cfg :: deletion_config where
  "sample_cfg = default_deletion_config 1"

lemma sample_cfg_fields [simp]: "dc_max_attempts sample_cfg = 5" "dc_lease_duration sample_cfg = 60 * second" "dc_client_attempts sample_cfg = 1"
  by (simp_all add: sample_cfg_def default_deletion_config_def)

definition sample_request :: delete_request where
  "sample_request = \<lparr>dq_manager = Some True, dq_supplier_id = sample_sid, dq_idempotency_key = sample_op\<rparr>"

abbreviation unit_end :: "'a \<Rightarrow> unit prog" where
  "unit_end \<equiv> \<lambda>_. Return ()"

lemma delete_prog:
  "\<exists>k. prog_bind (delete_supplier sample_cfg sample_request) unit_end = Now k"
  "store_head (on_now t (prog_bind (delete_supplier sample_cfg sample_request) unit_end)) = Some (CreateOrGetDeletion sample_op sample_sid 5 t)"
  "dr_state rec = DeletionRequested \<Longrightarrow> on_store (Inr (Found rec)) (on_now t (prog_bind (delete_supplier sample_cfg sample_request) unit_end))
     = prog_bind (delete_claimed sample_cfg sample_op rec t) unit_end"
proof -
  have "sample_op \<noteq> []" by (simp add: sample_op_def sample_uuid_def)
  then show "\<exists>k. prog_bind (delete_supplier sample_cfg sample_request) unit_end = Now k"
    "store_head (on_now t (prog_bind (delete_supplier sample_cfg sample_request) unit_end)) = Some (CreateOrGetDeletion sample_op sample_sid 5 t)"
    "dr_state rec = DeletionRequested \<Longrightarrow> on_store (Inr (Found rec)) (on_now t (prog_bind (delete_supplier sample_cfg sample_request) unit_end))
     = prog_bind (delete_claimed sample_cfg sample_op rec t) unit_end"
    by (simp_all add: delete_supplier_def sample_request_def sample_valid Let_def store_record_def)
qed

lemma claim_prog:
  "\<exists>k. prog_bind (delete_claimed sample_cfg op rec t) unit_end = NewClaimID k"
  "store_head (on_claim c (prog_bind (delete_claimed sample_cfg op rec t) unit_end)) = Some (ClaimDeletion op c t (t + 60 * second))"
  "on_store (Inr (Claimed (Some rec'))) (on_claim c (prog_bind (delete_claimed sample_cfg op rec t) unit_end))
     = prog_bind (prog_bind (workflow_advance sample_cfg rec' c t) (\<lambda>outcome. Return (outcome_reply op outcome))) unit_end"
  by (simp_all add: delete_claimed_def store_claim_def)

lemma prog_bind_assoc: "prog_bind (prog_bind p f) g = prog_bind p (\<lambda>x. prog_bind (f x) g)"
  by (induction p) simp_all

lemma acquire_prog:
  assumes "dr_state rec = DeletionRequested" "dr_operation_id rec = op" "dr_supplier_id rec = sid" "valid_rfc_uuid op" "valid_rfc_uuid sid"
  shows "send_head (prog_bind (workflow_advance sample_cfg rec c t) g) =
      Some \<lparr>fq_route = AcquireRoute, fq_operation_id = op, fq_body = [Some (JObj [(''supplierId'', JStr sid)])]\<rparr>"
    "on_send (Some (respond (Inr \<lparr>fn_operation_id = op, fn_supplier_id = sid, fn_state = StateOpen, fn_has_active_errands = False\<rparr>)))
       (prog_bind (workflow_advance sample_cfg rec c t) g) = prog_bind (workflow_delete sample_cfg rec c t) g"
proof -
  have "client_attempt (Some (respond (Inr \<lparr>fn_operation_id = op, fn_supplier_id = sid, fn_state = StateOpen, fn_has_active_errands = False\<rparr>)))
      = Inr \<lparr>fn_operation_id = op, fn_supplier_id = sid, fn_state = StateOpen, fn_has_active_errands = False\<rparr>" using assms(5) by (simp add: respond_read)
  with assms show "send_head (prog_bind (workflow_advance sample_cfg rec c t) g) =
      Some \<lparr>fq_route = AcquireRoute, fq_operation_id = op, fq_body = [Some (JObj [(''supplierId'', JStr sid)])]\<rparr>"
    "on_send (Some (respond (Inr \<lparr>fn_operation_id = op, fn_supplier_id = sid, fn_state = StateOpen, fn_has_active_errands = False\<rparr>)))
       (prog_bind (workflow_advance sample_cfg rec c t) g) = prog_bind (workflow_delete sample_cfg rec c t) g"
    by (simp_all add: workflow_advance_def workflow_acquire_def workflow_acquired_def client_acquire_def client_call_def prog_bind_assoc equal_fold_def)
qed

lemma failed_prog:
  assumes "dr_operation_id rec = op" "dr_supplier_id rec = sid" "valid_rfc_uuid op"
  shows "store_head (prog_bind (workflow_delete sample_cfg rec c t) g) = Some (DeleteCurrentAndMarkCommitPending sid op c t)"
    "store_head (on_store (Inl DeletionDatabase) (prog_bind (workflow_delete sample_cfg rec c t) g)) = Some (GetDeletion op)"
    "dr_state d = DeletionRequested \<Longrightarrow> dr_claim_id d = c \<Longrightarrow>
      send_head (on_store (Inr (Found d)) (on_store (Inl DeletionDatabase) (prog_bind (workflow_delete sample_cfg rec c t) g)))
        = Some \<lparr>fq_route = ReleaseRoute, fq_operation_id = op, fq_body = []\<rparr>"
  using assms by (simp_all add: workflow_delete_def store_unit_def store_record_def Let_def client_release_def client_transition_def client_call_def)

lemma reconcile_prog:
  "\<exists>k. prog_bind (reconcile_once sample_cfg) unit_end = Now k"
  "store_head (on_now t (prog_bind (reconcile_once sample_cfg) unit_end)) = Some (ListClaimableDeletions t 100)"
  "on_store (Inr (Listed recs)) (on_now t (prog_bind (reconcile_once sample_cfg) unit_end)) = prog_bind (reconcile_records sample_cfg recs 0) unit_end"
  "\<exists>k. prog_bind (reconcile_records sample_cfg (rec # recs) n) unit_end = ContextEnded k"
  "\<exists>k. on_context (prog_bind (reconcile_records sample_cfg (rec # recs) n) unit_end) = Now k"
  "\<exists>k. on_now t (on_context (prog_bind (reconcile_records sample_cfg (rec # recs) n) unit_end)) = NewClaimID k"
  "store_head (on_claim c (on_now t (on_context (prog_bind (reconcile_records sample_cfg (rec # recs) n) unit_end))))
     = Some (ClaimDeletion (dr_operation_id rec) c t (t + 60 * second))"
  "on_store (Inr (Claimed (Some rec'))) (on_claim c (on_now t (on_context (prog_bind (reconcile_records sample_cfg (rec # recs) n) unit_end))))
     = prog_bind (prog_bind (workflow_advance sample_cfg rec' c t) (\<lambda>_. reconcile_records sample_cfg recs (n + 1))) unit_end"
  by (simp_all add: reconcile_once_def store_list_def store_claim_def reconcile_batch_size_def)

section \<open>A deletion up to the soft delete\<close>

definition sample_db :: supplier_db where
  "sample_db = \<lparr>sd_suppliers = [\<lparr>su_supplier_id = sample_sid, su_current_version_id = sample_sid, su_normalized_name = ''deck'',
     su_created_at = 0, su_updated_at = 0, su_deleted_at = None\<rparr>], sd_deletions = []\<rparr>"

definition sample_world :: world where
  "sample_world = mk_world 0 sample_db (empty_order_db, []) [] []"

definition sample_sr :: surroundings where
  "sample_sr = \<lparr>sr_now = 0, sr_claim = first_claim, sr_order_now = 0, sr_actor = ''suppliers''\<rparr>"

lemma sample_fresh: "fresh_world text_reader sample_world"
  by (simp add: fresh_world_def sample_world_def mk_world_def sample_db_def store_inv_empty) (simp add: empty_order_db_def)

lemma sample_unused: "\<not> supplier_in_use uuid sid (empty_order_db\<lparr>od_fences := fs\<rparr>)" "edits_readable uuid (empty_order_db\<lparr>od_fences := fs\<rparr>)"
  by (simp_all add: supplier_in_use_def edits_readable_def empty_order_db_def)

lemma sample_first: "first_request text_reader sample_cfg sample_sr sample_request (sample_db, (empty_order_db, au))"
  using sample_valid sample_lower claims_read text_reader_ok(3) sample_unused(2) [of _ "[]"]
  by (simp add: first_request_def sample_request_def sample_sr_def sample_db_def live_supplier_def find_deletion_def find_fence_def
      max_int32_def second_def) (simp add: empty_order_db_def)

abbreviation deleting :: "deletion_row \<Rightarrow> string \<Rightarrow> int \<Rightarrow> (deletion_outcome \<Rightarrow> unit prog) \<Rightarrow> unit prog" where
  "deleting row c t g \<equiv> prog_bind (workflow_delete sample_cfg (deletion_record_of row) c t) g"

lemma acquired_run:
  obtains db row s f g where "(world_step text_reader sample_cfg late)\<^sup>*\<^sup>* sample_world
      (mk_world 0 db s [(first_claim, 0)] [\<lparr>wk_prog = deleting row first_claim 0 g, wk_lease = Some (60 * second)\<rparr>])"
    "row = claimed_row sample_cfg sample_sr sample_op sample_sid" "ready text_reader sample_sr sample_op sample_sid row (db, (empty_order_db, []))"
    "sd_deletions db = [row]" "fst s = empty_order_db\<lparr>od_fences := [f]\<rparr>" "fe_operation_id f = sample_op" "fe_state f = FenceOpen" "fe_supplier_id f = sample_sid"
proof -
  let ?S = "(world_step text_reader sample_cfg late)\<^sup>*\<^sup>*" and ?s = "(empty_order_db, []) :: ops_state"
  let ?row = "claimed_row sample_cfg sample_sr sample_op sample_sid" and ?old = "requested_row sample_cfg 0 sample_op sample_sid"
  let ?p = "prog_bind (delete_supplier sample_cfg sample_request) unit_end"
  have f: "first_request text_reader sample_cfg sample_sr sample_request (sample_db, ?s)" by (rule sample_first)
  have sr: "sr_now sample_sr = 0" "sr_claim sample_sr = first_claim" "sr_order_now sample_sr = 0" "sr_actor sample_sr = ''suppliers''"
    "trim_space (dq_idempotency_key sample_request) = sample_op" "dq_supplier_id sample_request = sample_sid" "dc_lease_duration sample_cfg = 60 * second"
    by (simp_all add: sample_sr_def sample_request_def sample_valid)
  let ?dba = "sample_db\<lparr>sd_deletions := [?old]\<rparr>"
  have none: "sd_deletions sample_db = []" by (simp add: sample_db_def)
  have created: "exec_store text_reader (CreateOrGetDeletion sample_op sample_sid 5 0) sample_db = (Inr (Found (deletion_record_of ?old)), ?dba)"
    using first_created [OF f] by (simp add: sr sample_lower none del: exec_store.simps)
  obtain db where claimed: "exec_store text_reader (ClaimDeletion sample_op first_claim 0 (0 + 60 * second)) ?dba = (Inr (Claimed (Some (deletion_record_of ?row))), db)"
    "ready text_reader sample_sr sample_op sample_sid ?row (db, ?s)" "sd_deletions db = [?row]"
    using first_claimed [OF f disjI1 [OF refl], unfolded sr sample_lower none append_Nil] by metis
  have empty: "supplier_in_use text_reader sample_sid empty_order_db = False" "od_fences empty_order_db = []"
    by (simp_all add: empty_order_db_def supplier_in_use_def)
  obtain fe s where served: "serve_fence text_reader 0 (Some ''suppliers'') \<lparr>fq_route = AcquireRoute, fq_operation_id = sample_op,
        fq_body = [Some (JObj [(''supplierId'', JStr sample_sid)])]\<rparr> ?s = (respond (Inr \<lparr>fn_operation_id = sample_op, fn_supplier_id = sample_sid,
      fn_state = StateOpen, fn_has_active_errands = False\<rparr>), s)" "fst s = empty_order_db\<lparr>od_fences := [fe]\<rparr>"
    "find_fence sample_op (fst s) = Some fe" "fe_state fe = FenceOpen" "fe_supplier_id fe = sample_sid"
    using ready_served [OF claimed(2), unfolded sr fst_conv empty append_Nil] by metis
  have fop: "fe_operation_id fe = sample_op" using served(2,3) by (auto simp: find_fence_def split: if_splits)
  have rec: "dr_state (deletion_record_of ?old) = DeletionRequested" "dr_state (deletion_record_of ?row) = DeletionRequested"
    "dr_operation_id (deletion_record_of ?row) = sample_op" "dr_supplier_id (deletion_record_of ?row) = sample_sid"
    by (simp_all add: deletion_record_of_def claimed_row_def requested_row_def)
  note steps = mk_world_steps [of 0 "[\<lparr>wk_prog = p, wk_lease = l\<rparr>]" p l for p l, simplified]
  obtain k0 where k0: "?p = Now k0" using delete_prog(1) by blast
  obtain k1 where k1: "prog_bind (delete_claimed sample_cfg sample_op (deletion_record_of ?old) 0) unit_end = NewClaimID k1" using claim_prog(1) by blast
  let ?pb = "prog_bind (delete_claimed sample_cfg sample_op (deletion_record_of ?old) 0) unit_end"
  have "?S sample_world (mk_world 0 sample_db ?s [] [\<lparr>wk_prog = ?p, wk_lease = None\<rparr>])"
    by (rule r_into_rtranclp, rule world_step.acted [of _ _ _ "BeginDelete sample_request"])
      (simp add: sample_world_def mk_world_def add_worker_def)
  also have "?S \<dots> (mk_world 0 sample_db ?s [] [\<lparr>wk_prog = on_now 0 ?p, wk_lease = None\<rparr>])" by (rule r_into_rtranclp, rule steps(1) [OF k0])
  also have "?S \<dots> (mk_world 0 ?dba ?s [] [\<lparr>wk_prog = ?pb, wk_lease = None\<rparr>])"
    using steps(4) [OF delete_prog(2) created] delete_prog(3) [OF rec(1)] by (intro r_into_rtranclp) (simp add: lease_after_def)
  also have "?S \<dots> (mk_world 0 ?dba ?s [(first_claim, 0)] [\<lparr>wk_prog = on_claim first_claim ?pb, wk_lease = None\<rparr>])"
    by (rule r_into_rtranclp, rule steps(2) [OF k1]) (simp_all add: claims_read)
  also have "?S \<dots> (mk_world 0 db ?s [(first_claim, 0)] [\<lparr>wk_prog = prog_bind (prog_bind (workflow_advance sample_cfg (deletion_record_of ?row) first_claim 0)
      (\<lambda>outcome. Return (outcome_reply sample_op outcome))) unit_end, wk_lease = Some (60 * second)\<rparr>])"
    using steps(4) [OF claim_prog(2) claimed(1)] by (intro r_into_rtranclp) (simp add: lease_after_def claim_prog(3))
  also have "?S \<dots> (mk_world 0 db s [(first_claim, 0)] [\<lparr>wk_prog = deleting ?row first_claim 0
      (\<lambda>outcome. prog_bind (Return (outcome_reply sample_op outcome)) unit_end), wk_lease = Some (60 * second)\<rparr>])"
    unfolding prog_bind_assoc
    using steps(6) [OF acquire_prog(1) [OF rec(2-4) sample_valid(2,1)] _ served(1)] by (intro r_into_rtranclp) (auto simp: acquire_prog(2) [OF rec(2-4) sample_valid(2,1)])
  finally show thesis using that [OF _ refl claimed(2,3) served(2) fop served(4,5)] by blast
qed

text \<open>From there the deletion takes one more statement.\<close>

lemma deleted_run:
  obtains w x where "(world_step text_reader sample_cfg late)\<^sup>*\<^sup>* sample_world w" "x \<in> set (sd_suppliers (wd_suppliers w))"
    "su_supplier_id x = sample_sid" "su_deleted_at x \<noteq> None"
proof (rule acquired_run [of late])
  fix db row s f g
  assume run: "(world_step text_reader sample_cfg late)\<^sup>*\<^sup>* sample_world
      (mk_world 0 db s [(first_claim, 0)] [\<lparr>wk_prog = deleting row first_claim 0 g, wk_lease = Some (60 * second)\<rparr>])"
    and ready: "ready text_reader sample_sr sample_op sample_sid row (db, (empty_order_db, []))"
  have f: "find_deletion sample_op db = Some row" "dl_supplier_id row = sample_sid" "dl_state row = DeletionRequested" "holds_claim first_claim 0 row"
    "live_supplier sample_sid 0 db" using ready by (simp_all add: ready_def sample_sr_def)
  have rid: "dl_operation_id row = sample_op" using find_deletion_Some [OF f(1)] by simp
  have chk: "deletion_check (set_commit_pending 0 row)" using ready_checks(3) [OF ready] by (simp add: sample_sr_def)
  obtain db' where db': "delete_current_and_mark_commit_pending text_reader sample_sid sample_op first_claim 0 db = (Inr (), db')" "supplier_gone sample_sid db'"
    "map su_supplier_id (sd_suppliers db') = map su_supplier_id (sd_suppliers db)"
    using delete_done [OF sample_read(2) claims_read(1) sample_read(1) f(5,1-4) chk] by metis
  have ex: "exec_store text_reader (DeleteCurrentAndMarkCommitPending sample_sid sample_op first_claim 0) db = (Inr Done, db')"
    using db'(1) by (simp add: call_answer_def)
  have rec: "dr_operation_id (deletion_record_of row) = sample_op" "dr_supplier_id (deletion_record_of row) = sample_sid"
    using rid f(2) by (simp_all add: deletion_record_of_def)
  let ?ws = "[\<lparr>wk_prog = deleting row first_claim 0 g, wk_lease = Some (60 * second)\<rparr>]"
  have "world_step text_reader sample_cfg late (mk_world 0 db s [(first_claim, 0)] ?ws) (mk_world 0 db' s [(first_claim, 0)]
      (?ws[0 := \<lparr>wk_prog = on_store (Inr Done) (deleting row first_claim 0 g), wk_lease = lease_after (DeleteCurrentAndMarkCommitPending sample_sid sample_op first_claim 0)
        (Inr Done) (Some (60 * second))\<rparr>]))" (is "world_step _ _ _ _ ?w")
    by (rule mk_world_steps(4) [OF _ _ failed_prog(1) [OF rec sample_valid(2)] ex]) simp_all
  with run have reach: "(world_step text_reader sample_cfg late)\<^sup>*\<^sup>* sample_world ?w" by (rule rtranclp.rtrancl_into_rtrancl)
  have "sample_sid \<in> set (map su_supplier_id (sd_suppliers db))" using f(5) unfolding live_supplier_def set_map by (metis (mono_tags, lifting) find_Some_mem image_eqI)
  then obtain x where x: "x \<in> set (sd_suppliers db')" "su_supplier_id x = sample_sid" unfolding db'(3) [symmetric] by auto
  with db'(2) show thesis using that [OF reach, of x] by (simp add: supplier_gone_def mk_world_def)
qed

end
