(* ===== verification/Deletion_Late.thy ===== *)
theory Deletion_Late
  imports Deletion_Example
begin

text \<open>
  A run in which the release of a fence comes late. A worker fails to delete the supplier, finds the operation
  still its own and sends the release; before the release is served its lease runs out, and a pass of the
  reconciler takes the operation over and deletes the supplier on the same fence.
\<close>

definition late_time :: int where
  "late_time = 61 * second"

abbreviation release_sample :: fence_request where
  "release_sample \<equiv> \<lparr>fq_route = ReleaseRoute, fq_operation_id = sample_op, fq_body = []\<rparr>"

abbreviation first_row :: deletion_row where
  "first_row \<equiv> claimed_row sample_cfg sample_sr sample_op sample_sid"

abbreviation second_row :: deletion_row where
  "second_row \<equiv> first_row\<lparr>dl_claim_id := Some second_claim, dl_lease_expires_at := Some (late_time + 60 * second),
     dl_attempt_count := dl_attempt_count first_row + 1, dl_updated_at := late_time\<rparr>"

lemma first_row_fields:
  "dl_operation_id first_row = sample_op" "dl_supplier_id first_row = sample_sid" "dl_state first_row = DeletionRequested"
  "dl_claim_id first_row = Some first_claim" "claimable_deletion late_time first_row" "deletion_check second_row"
  "deletion_check (set_commit_pending late_time second_row)" "holds_claim second_claim late_time second_row"
  by (simp_all add: claimed_row_def requested_row_def sample_sr_def claimable_deletion_def pending_state_def late_time_def second_def
      deletion_check_def set_commit_pending_def holds_claim_def)

text \<open>The first worker has asked whether the operation is its own, and is about to release; its lease ends.\<close>

lemma stopped_run:
  obtains db s f p where "(world_step text_reader sample_cfg late)\<^sup>*\<^sup>* sample_world
      (mk_world late_time db s [(first_claim, 0)] [\<lparr>wk_prog = p, wk_lease = Some (60 * second)\<rparr>])"
    "send_head p = Some release_sample" "sd_deletions db = [first_row]" "live_supplier sample_sid late_time db"
    "fst s = empty_order_db\<lparr>od_fences := [f]\<rparr>" "fe_operation_id f = sample_op" "fe_state f = FenceOpen" "fe_supplier_id f = sample_sid"
proof (rule acquired_run [of late])
  fix db row s f g
  let ?S = "(world_step text_reader sample_cfg late)\<^sup>*\<^sup>*" and ?lease = "Some (60 * second)"
  let ?p = "deleting row first_claim 0 g"
  assume run: "?S sample_world (mk_world 0 db s [(first_claim, 0)] [\<lparr>wk_prog = ?p, wk_lease = ?lease\<rparr>])"
    and row: "row = first_row" and ready: "ready text_reader sample_sr sample_op sample_sid row (db, (empty_order_db, []))"
    and dbs: "sd_deletions db = [row]" "fst s = empty_order_db\<lparr>od_fences := [f]\<rparr>" "fe_operation_id f = sample_op" "fe_state f = FenceOpen" "fe_supplier_id f = sample_sid"
  have live: "live_supplier sample_sid late_time db" using ready by (auto simp: ready_def live_supplier_def sample_sr_def late_time_def second_def)
  have found: "exec_store text_reader (GetDeletion sample_op) db = (Inr (Found (deletion_record_of row)), db)"
    using dbs(1) row first_row_fields(1) sample_read(2) by (simp add: call_answer_def get_deletion_def find_deletion_def)
  have rec: "dr_operation_id (deletion_record_of row) = sample_op" "dr_supplier_id (deletion_record_of row) = sample_sid"
    "dr_state (deletion_record_of row) = DeletionRequested" "dr_claim_id (deletion_record_of row) = first_claim"
    using row first_row_fields by (simp_all add: deletion_record_of_def)
  note steps = mk_world_steps [of 0 "[\<lparr>wk_prog = p, wk_lease = l\<rparr>]" p l for p l, simplified]
  note prog = failed_prog [OF rec(1,2) sample_valid(2)]
  let ?q = "on_store (Inl DeletionDatabase) ?p"
  have "?S sample_world (mk_world 0 db s [(first_claim, 0)] [\<lparr>wk_prog = ?p, wk_lease = ?lease\<rparr>])" by (rule run)
  also have "?S \<dots> (mk_world 0 db s [(first_claim, 0)] [\<lparr>wk_prog = ?q, wk_lease = ?lease\<rparr>])"
    by (rule r_into_rtranclp, rule steps(5) [OF prog(1)])
  also have "?S \<dots> (mk_world 0 db s [(first_claim, 0)] [\<lparr>wk_prog = on_store (Inr (Found (deletion_record_of row))) ?q, wk_lease = ?lease\<rparr>])"
    using steps(4) [OF prog(2) found] by (intro r_into_rtranclp) (simp add: lease_after_def)
  also have "?S \<dots> (mk_world late_time db s [(first_claim, 0)] [\<lparr>wk_prog = on_store (Inr (Found (deletion_record_of row))) ?q, wk_lease = ?lease\<rparr>])"
    by (rule r_into_rtranclp, rule world_step.acted [of _ _ _ "Tick late_time"]) (simp add: mk_world_def late_time_def second_def)
  finally show thesis using that [OF _ prog(3) [OF rec(3,4)] _ live dbs(2-5)] dbs(1) row by blast
qed

text \<open>
  The second worker lists and claims the operation. What follows its workflow is the rest of the pass.
\<close>

definition pass_rest :: "deletion_outcome \<Rightarrow> unit prog" where
  "pass_rest = (\<lambda>_. prog_bind (reconcile_records sample_cfg [] 1) unit_end)"

abbreviation second_record :: deletion_record where
  "second_record \<equiv> deletion_record_of second_row"

lemma second_record_fields:
  "dr_state second_record = DeletionRequested" "dr_operation_id second_record = sample_op" "dr_supplier_id second_record = sample_sid"
  using first_row_fields by (simp_all add: deletion_record_of_def)

text \<open>The world at the time of the take-over, with the second worker at some program.\<close>

definition over_world :: "worker \<Rightarrow> supplier_db \<Rightarrow> ops_state \<Rightarrow> unit prog \<Rightarrow> world" where
  "over_world w0 db s p = mk_world late_time db s [(second_claim, 1), (first_claim, 0)]
     [w0, \<lparr>wk_prog = p, wk_lease = Some (late_time + 60 * second)\<rparr>]"

lemma second_claimed_run:
  assumes del: "sd_deletions db = [first_row]"
  obtains db1 where "(world_step text_reader sample_cfg late)\<^sup>*\<^sup>* (mk_world late_time db s [(first_claim, 0)] [w0])
      (over_world w0 db1 s (prog_bind (workflow_advance sample_cfg second_record second_claim late_time) pass_rest))"
    "find_deletion sample_op db1 = Some second_row" "sd_suppliers db1 = sd_suppliers db"
proof -
  let ?S = "(world_step text_reader sample_cfg late)\<^sup>*\<^sup>*" and ?t = late_time
  let ?W = "\<lambda>db cs p l. mk_world ?t db s cs [w0, \<lparr>wk_prog = p, wk_lease = l\<rparr>]"
  let ?p = "prog_bind (reconcile_once sample_cfg) unit_end" and ?cs = "[(first_claim, 0)]" and ?cs' = "[(second_claim, 1), (first_claim, 0)]"
  let ?old = "deletion_record_of first_row"
  let ?q = "prog_bind (reconcile_records sample_cfg [?old] 0) unit_end"
  have old: "dr_operation_id ?old = sample_op" using first_row_fields by (simp add: deletion_record_of_def)
  note steps = mk_world_steps [of 1 "[w0, \<lparr>wk_prog = p, wk_lease = l\<rparr>]" p l for p l, simplified]
  have listed: "exec_store text_reader (ListClaimableDeletions ?t 100) db = (Inr (Listed [?old]), db)"
    using del first_row_fields(5) by (simp add: call_answer_def list_claimable_deletions_def maximum_pending_deletion_page_def)
  have found: "find_deletion sample_op db = Some first_row" using del first_row_fields(1) by (simp add: find_deletion_def)
  obtain db1 where claimed: "exec_store text_reader (ClaimDeletion sample_op second_claim ?t (?t + 60 * second)) db = (Inr (Claimed (Some second_record)), db1)"
    "find_deletion sample_op db1 = Some second_row" "sd_suppliers db1 = sd_suppliers db"
    by (rule claim_done [OF sample_read(2) claims_read(2) found first_row_fields(5) _ first_row_fields(6)]) (simp_all add: second_def)
  obtain k0 k1 k2 k3 where k: "?p = Now k0" "?q = ContextEnded k1" "on_context ?q = Now k2" "on_now ?t (on_context ?q) = NewClaimID k3"
    using reconcile_prog(1,4-6) by metis
  have "?S (mk_world ?t db s ?cs [w0]) (?W db ?cs ?p None)"
    by (rule r_into_rtranclp, rule world_step.acted [of _ _ _ BeginReconcile]) (simp add: mk_world_def add_worker_def)
  also have "?S \<dots> (?W db ?cs (on_now ?t ?p) None)" by (rule r_into_rtranclp, rule steps(1) [OF k(1)])
  also have "?S \<dots> (?W db ?cs ?q None)"
    using steps(4) [OF reconcile_prog(2) listed] by (intro r_into_rtranclp) (simp add: lease_after_def reconcile_prog(3))
  also have "?S \<dots> (?W db ?cs (on_context ?q) None)" by (rule r_into_rtranclp, rule steps(3) [OF k(2)])
  also have "?S \<dots> (?W db ?cs (on_now ?t (on_context ?q)) None)" by (rule r_into_rtranclp, rule steps(1) [OF k(3)])
  also have "?S \<dots> (?W db ?cs' (on_claim second_claim (on_now ?t (on_context ?q))) None)"
    using steps(2) [OF k(4)] claims_read by (intro r_into_rtranclp) simp
  also have "?S \<dots> (?W db1 ?cs' (prog_bind (workflow_advance sample_cfg second_record second_claim ?t) pass_rest) (Some (?t + 60 * second)))"
    using steps(4) [OF reconcile_prog(7) [of second_claim ?t ?old "[]" 0, unfolded old] claimed(1)]
    by (intro r_into_rtranclp) (simp add: lease_after_def reconcile_prog(8) prog_bind_assoc pass_rest_def del: reconcile_records.simps)
  finally show thesis by (intro that [OF _ claimed(2,3)]) (simp add: over_world_def)
qed

lemma world_run_step:
  "(world_step uuid cfg late)\<^sup>*\<^sup>* a b \<Longrightarrow> world_step uuid cfg late b c \<Longrightarrow> (world_step uuid cfg late)\<^sup>*\<^sup>* a c"
  by (rule rtranclp.rtrancl_into_rtrancl)

text \<open>It finds the fence as it was and deletes the supplier.\<close>

lemma taken_over_run:
  assumes del: "sd_deletions db = [first_row]" and live: "live_supplier sample_sid late_time db"
    and fence: "fst s = empty_order_db\<lparr>od_fences := [f]\<rparr>" "fe_operation_id f = sample_op" "fe_state f = FenceOpen" "fe_supplier_id f = sample_sid"
  obtains db' s' p where "(world_step text_reader sample_cfg late)\<^sup>*\<^sup>* (mk_world late_time db s [(first_claim, 0)] [w0]) (over_world w0 db' s' p)"
    "supplier_gone sample_sid db'" "sample_sid \<in> set (map su_supplier_id (sd_suppliers db'))" "fst s' = fst s"
proof -
  let ?step = "world_step text_reader sample_cfg late" and ?t = late_time
  let ?p = "prog_bind (workflow_advance sample_cfg second_record second_claim ?t) pass_rest"
    and ?q = "prog_bind (workflow_delete sample_cfg second_record second_claim ?t) pass_rest"
  note steps = mk_world_steps [of 1 "[w0, \<lparr>wk_prog = p, wk_lease = l\<rparr>]" p l for p l, simplified]
  note aprog = acquire_prog [OF second_record_fields sample_valid(2,1), of second_claim ?t pass_rest]
  obtain db1 where claims: "?step\<^sup>*\<^sup>* (mk_world ?t db s [(first_claim, 0)] [w0]) (over_world w0 db1 s ?p)"
    and db1: "find_deletion sample_op db1 = Some second_row" "sd_suppliers db1 = sd_suppliers db" by (rule second_claimed_run [OF del])
  have op: "sample_op \<noteq> []" by (simp add: sample_op_def sample_uuid_def)
  have ff: "find_fence sample_op (fst s) = Some f" using fence by (simp add: find_fence_def)
  have edits: "edits_readable text_reader (fst s)" and unused: "supplier_in_use text_reader sample_sid (fst s) = False"
    using fence(1) sample_unused by simp_all
  obtain au where "acquire text_reader 0 ''suppliers'' sample_op sample_sid s = (Inr \<lparr>fn_operation_id = sample_op, fn_supplier_id = sample_sid,
      fn_state = StateOpen, fn_has_active_errands = False\<rparr>, (fst s, au))"
    by (rule acquire_again [OF sample_read(2,1) ff fence(3,4) edits _ op, of "''suppliers''" 0]) (simp_all add: unused)
  then have served: "serve_fence text_reader 0 (Some ''suppliers'') \<lparr>fq_route = AcquireRoute, fq_operation_id = sample_op,
        fq_body = [Some (JObj [(''supplierId'', JStr sample_sid)])]\<rparr> s = (respond (Inr \<lparr>fn_operation_id = sample_op, fn_supplier_id = sample_sid,
      fn_state = StateOpen, fn_has_active_errands = False\<rparr>), (fst s, au))"
    using sample_valid sample_lower by (simp add: served_acquire)
  have live1: "live_supplier sample_sid ?t db1" using live db1(2) by (simp add: live_supplier_def)
  obtain db2 where db2: "delete_current_and_mark_commit_pending text_reader sample_sid sample_op second_claim ?t db1 = (Inr (), db2)"
    "supplier_gone sample_sid db2" "map su_supplier_id (sd_suppliers db2) = map su_supplier_id (sd_suppliers db1)"
    using delete_done [OF sample_read(2) claims_read(2) sample_read(1) live1 db1(1)] first_row_fields by auto
  then have deleted: "exec_store text_reader (DeleteCurrentAndMarkCommitPending sample_sid sample_op second_claim ?t) db1 = (Inr Done, db2)"
    by (simp add: call_answer_def)
  have acquires: "?step (over_world w0 db1 s ?p) (over_world w0 db1 (fst s, au) ?q)"
    unfolding over_world_def using steps(6) [OF aprog(1) _ served, unfolded aprog(2)] by simp
  have deletes: "?step (over_world w0 db1 (fst s, au) ?q) (over_world w0 db2 (fst s, au) (on_store (Inr Done) ?q))"
    unfolding over_world_def using steps(4) [OF failed_prog(1) [OF second_record_fields(2,3) sample_valid(2)] deleted] by (simp add: lease_after_def)
  show thesis
  proof (rule that [OF world_run_step [OF world_run_step [OF claims acquires] deletes] db2(2)])
    show "sample_sid \<in> set (map su_supplier_id (sd_suppliers db2))" unfolding db2(3) db1(2)
      using live unfolding live_supplier_def set_map by (metis (mono_tags, lifting) find_Some_mem image_eqI)
  qed simp
qed

text \<open>The release arrives: the supplier is deleted, and nothing keeps errands from it.\<close>

theorem late_release_lifts_fence:
  "\<exists>w x. (world_step text_reader sample_cfg True)\<^sup>*\<^sup>* sample_world w \<and> x \<in> set (sd_suppliers (wd_suppliers w)) \<and> su_supplier_id x = sample_sid
     \<and> su_deleted_at x \<noteq> None \<and> \<not> blocked sample_sid (fst (wd_orders w))"
proof (rule stopped_run [of True])
  fix db s f p
  let ?S = "(world_step text_reader sample_cfg True)\<^sup>*\<^sup>*" and ?w0 = "\<lparr>wk_prog = p, wk_lease = Some (60 * second)\<rparr>"
  assume run: "?S sample_world (mk_world late_time db s [(first_claim, 0)] [?w0])" and p: "send_head p = Some release_sample"
    and dbs: "sd_deletions db = [first_row]" "live_supplier sample_sid late_time db"
    and f: "fst s = empty_order_db\<lparr>od_fences := [f]\<rparr>" "fe_operation_id f = sample_op" "fe_state f = FenceOpen" "fe_supplier_id f = sample_sid"
  obtain db' s' q where over: "?S (mk_world late_time db s [(first_claim, 0)] [?w0]) (over_world ?w0 db' s' q)"
    "supplier_gone sample_sid db'" "sample_sid \<in> set (map su_supplier_id (sd_suppliers db'))" "fst s' = fst s"
    by (rule taken_over_run [OF dbs f])
  have op: "sample_op \<noteq> []" by (simp add: sample_op_def sample_uuid_def)
  have ff: "find_fence sample_op (fst s') = Some f" "edits_readable text_reader (fst s')" using f over(4) sample_unused(2) by (simp_all add: find_fence_def)
  obtain s'' fe where closed: "release_fence text_reader 0 ''suppliers'' sample_op s' = (Inr fe, s'')"
    "od_fences (fst s'') = update_where (\<lambda>f. fe_operation_id f = sample_op \<and> fe_state f = FenceOpen) (\<lambda>f. f\<lparr>fe_state := FenceReleased, fe_updated_at := 0\<rparr>) (od_fences (fst s'))"
    unfolding release_fence_def
    by (rule close_open [OF sample_read(2,1) ff(1) f(3,4) ff(2), of "''suppliers''" audit_action_release FenceReleased 0])
      (use op in \<open>auto simp: audit_action_release_def\<close>)
  have lifted: "\<not> blocked sample_sid (fst s'')" using closed(2) over(4) f by (simp add: blocked_def update_where_def)
  let ?w1 = "\<lparr>wk_prog = on_send (Some (respond (Inr fe))) p, wk_lease = Some (60 * second)\<rparr>"
  have "serve_fence text_reader 0 (Some ''suppliers'') release_sample s' = (respond (Inr fe), s'')"
    using closed(1) sample_valid sample_lower by (simp add: served_close)
  from mk_world_steps(6) [OF _ _ p _ this, of 0 "[?w0, wk]" "Some (60 * second)" True for wk]
  have released: "world_step text_reader sample_cfg True (over_world ?w0 db' s' q) (over_world ?w1 db' s'' q)" unfolding over_world_def by simp
  have reach: "?S sample_world (over_world ?w1 db' s'' q)" by (rule world_run_step [OF rtranclp_trans [OF run over(1)] released])
  obtain x where "x \<in> set (sd_suppliers db')" "su_supplier_id x = sample_sid" using over(3) by auto
  with over(2) lifted reach show ?thesis
    by (auto simp: supplier_gone_def over_world_def mk_world_def intro!: exI [of _ "over_world ?w1 db' s'' q"] exI [of _ x])
qed

end
