(* ===== verification/Deletion_Properties.thy ===== *)
theory Deletion_Properties
  imports Deletion_Late
begin

text \<open>The properties of the guarded deletion of suppliers, across supplier-service and order-service.\<close>

section \<open>A deleted supplier is not used\<close>

text \<open>
  C11. A supplier that was deleted is not used by any errand, and never will be. Any number of delete
  requests and reconciler passes run at once, each interrupted at any interaction, with calls and answers
  lost, leases that run out and are taken over, and errands and the catalogue changing meanwhile. Whatever
  the order, once a supplier is soft-deleted a fence of order-service stands for it, no active errand has
  it, and no active errand has a pending edit that moves it there. The release of a fence is assumed to
  reach order-service before the lease of the worker that sent it has run out; \<open>late_release_lifts_fence\<close>
  shows a run that breaks the property without this.
\<close>

theorem deleted_supplier_stays_unused:
  assumes "uuid_reader_ok uuid" and "uuid_lower uuid" and "fresh_world uuid w" and "(world_step uuid cfg False)\<^sup>*\<^sup>* w w'"
    and "s \<in> set (sd_suppliers (wd_suppliers w'))" and "su_deleted_at s \<noteq> None"
  shows "blocked (su_supplier_id s) (fst (wd_orders w'))
    \<and> (\<forall>r \<in> set (od_errands (fst (wd_orders w'))). active_status (er_status r) \<longrightarrow> er_supplier_id r \<noteq> su_supplier_id s
        \<and> (\<forall>d. er_pending_edit r = Some d \<longrightarrow> uuid (d_supplier_id d) \<noteq> Some (su_supplier_id s)))"
proof -
  have "deletions_inv uuid w'"
    using world_run_inv [OF assms(1,2,4) fresh_world_inv [OF assms(3)]] by (simp add: world_inv_def)
  with assms(5,6) obtain op where "guarded uuid op (su_supplier_id s) (fst (wd_orders w'))"
    unfolding deletions_inv_def by metis
  then show ?thesis by (auto simp: guarded_def supplier_in_use_def list_ex_iff counts_for_iff dest: fence_held_blocked)
qed

theorem deleted_supplier_stays_unused_witness:
  "\<exists>w s. (world_step text_reader sample_cfg False)\<^sup>*\<^sup>* sample_world w \<and> s \<in> set (sd_suppliers (wd_suppliers w))
     \<and> su_supplier_id s = sample_sid \<and> su_deleted_at s \<noteq> None \<and> blocked sample_sid (fst (wd_orders w))"
proof (rule deleted_run [of False])
  fix w x
  assume "(world_step text_reader sample_cfg False)\<^sup>*\<^sup>* sample_world w" "x \<in> set (sd_suppliers (wd_suppliers w))"
    "su_supplier_id x = sample_sid" "su_deleted_at x \<noteq> None"
  with deleted_supplier_stays_unused [OF text_reader_ok(1,2) sample_fresh, of sample_cfg w x] show ?thesis by auto
qed

section \<open>A request decides\<close>

text \<open>
  C13. A delete request whose calls all reach their services is decided by the active errands of the
  supplier, in one go. With an active errand the reply is 409, the catalogue is unchanged, the operation
  is recorded as rejected and its fence released; without one the reply is 204, the supplier is
  soft-deleted, no other supplier appears or goes, the operation is recorded as completed and its fence
  committed.
\<close>

theorem deletion_request_decides:
  assumes "first_request uuid cfg sr request (db, s)" and "to_lower (dq_supplier_id request) = dq_supplier_id request"
  defines "op \<equiv> to_lower (trim_space (dq_idempotency_key request))" and "sid \<equiv> dq_supplier_id request"
  shows "\<exists>db' s'. alone uuid sr (delete_supplier cfg request) (db, s)
      = (if supplier_in_use uuid sid (fst s) then ErrorReply 409 ''SUPPLIER_HAS_ACTIVE_ERRANDS'' else NoContent, (db', s'))
    \<and> map su_supplier_id (sd_suppliers db') = map su_supplier_id (sd_suppliers db)
    \<and> (if supplier_in_use uuid sid (fst s)
       then sd_suppliers db' = sd_suppliers db \<and> op_state op DeletionRejectedActiveErrands db' \<and> fence_is op sid FenceReleased (fst s')
       else supplier_gone sid db' \<and> op_state op DeletionCompleted db' \<and> fence_is op sid FenceCommitted (fst s'))"
proof -
  obtain db1 row where r: "ready uuid sr op sid row (db1, s)" "sd_suppliers db1 = sd_suppliers db"
    and run: "alone uuid sr (delete_supplier cfg request) (db, s) =
      (case alone uuid sr (workflow_advance cfg (deletion_record_of row) (sr_claim sr) (sr_now sr)) (db1, s)
       of (outcome, st) \<Rightarrow> (outcome_reply (trim_space (dq_idempotency_key request)) outcome, st))"
    using alone_delete_supplier [OF assms(1,2)] unfolding op_def sid_def by blast
  show ?thesis
  proof (cases "supplier_in_use uuid sid (fst s)")
    case True
    show ?thesis by (rule advance_in_use [OF r(1) True, of cfg]) (use run r(2) True in \<open>auto simp: outcome_reply_def\<close>)
  next
    case False
    show ?thesis by (rule advance_unused [OF r(1) False, of cfg]) (use run r(2) False in \<open>auto simp: outcome_reply_def\<close>)
  qed
qed

theorem deletion_request_decides_witness:
  "\<exists>db' s'. alone text_reader sample_sr (delete_supplier sample_cfg sample_request) (sample_db, (empty_order_db, []))
      = (NoContent, (db', s')) \<and> supplier_gone sample_sid db' \<and> fence_is sample_op sample_sid FenceCommitted (fst s')"
proof -
  have "trim_space (dq_idempotency_key sample_request) = sample_op" "dq_supplier_id sample_request = sample_sid"
    by (simp_all add: sample_request_def sample_valid)
  moreover have "supplier_in_use text_reader sample_sid empty_order_db = False" by (simp add: supplier_in_use_def empty_order_db_def)
  ultimately show ?thesis using deletion_request_decides [OF sample_first [of "[]"]] by (auto simp: sample_lower)
qed

section \<open>A supplier id in upper case\<close>

text \<open>
  The identifier is accepted in upper case, stored in lower case and then compared as text. The reply to
  such a request is an error of a bad argument, yet the operation was stored, and the next pass of the
  reconciler deletes the supplier.
\<close>

theorem refused_request_still_deletes:
  assumes first: "first_request uuid cfg sr request (db, s)" and upper: "to_lower (dq_supplier_id request) \<noteq> dq_supplier_id request"
    and none: "sd_deletions db = []" and unused: "\<not> supplier_in_use uuid (to_lower (dq_supplier_id request)) (fst s)"
  shows "\<exists>db1 n db' s'. alone uuid sr (delete_supplier cfg request) (db, s) = (ErrorReply 400 ''INVALID_ARGUMENT'', (db1, s))
    \<and> alone uuid sr (reconcile_once cfg) (db1, s) = (n, (db', s')) \<and> supplier_gone (to_lower (dq_supplier_id request)) db'"
proof -
  let ?sid = "to_lower (dq_supplier_id request)" and ?op = "to_lower (trim_space (dq_idempotency_key request))"
  let ?db1 = "db\<lparr>sd_deletions := [requested_row cfg (sr_now sr) ?op ?sid]\<rparr>"
  have req: "dq_manager request = Some True" "valid_rfc_uuid (dq_supplier_id request)" "valid_rfc_uuid (trim_space (dq_idempotency_key request))"
    "trim_space (dq_idempotency_key request) \<noteq> []" using first by (auto simp: first_request_def valid_rfc_uuid_def rfc_uuid_shape_def)
  have refused: "alone uuid sr (delete_supplier cfg request) (db, s) = (ErrorReply 400 ''INVALID_ARGUMENT'', (?db1, s))"
    using first_created [OF first] upper none req by (simp add: delete_supplier_def Let_def store_record_def del: exec_store.simps)
  obtain db2 row where r: "ready uuid sr ?op ?sid row (db2, s)" and run: "alone uuid sr (reconcile_once cfg) (?db1, s)
      = (1, snd (alone uuid sr (workflow_advance cfg (deletion_record_of row) (sr_claim sr) (sr_now sr)) (db2, s)))"
    using alone_reconcile [OF first none] by metis
  show ?thesis by (rule advance_unused [OF r unused, of cfg]) (use run refused in auto)
qed

end
