(* ===== verification/Spec2Isabelle.thy ===== *)
theory Spec2Isabelle
  imports Credit_Properties Errand_Properties Delivery_Properties Result_Properties Operations_Properties Protocol_Properties
    Deletion_Properties
begin

text \<open>
  A verification of the campus errand platform: its order-service and its credit-service, the two
  services that hold the life cycle of errands and the credits that pay for them, and the guarded deletion
  of suppliers that order-service shares with supplier-service.

  \<^bold>\<open>The program.\<close> A requester submits an errand to order-service with a reward. Order-service stores it,
  asks credit-service to reserve the reward, opens the errand to couriers when the reservation is confirmed,
  and follows it through acceptance, pickup, delivery and verification, with edits, cancellations, deadlines
  and reviews on the way; at its end the reservation is transferred to the courier or released. Every
  decision is made by the pure function \<^verbatim>\<open>errand.Next\<close> and stored, with its outbox rows, in one
  transaction by \<^verbatim>\<open>errandrepo\<close> under a compare-and-swap. A dispatcher publishes the outbox rows;
  credit-service executes commands in one transaction each, at most once per message id, and answers
  through an outbox of its own. A supplier is deleted by supplier-service only behind a fence it acquires
  in order-service, which keeps new errands from the supplier; a request that is interrupted is finished
  by a reconciler under a lease.

  \<^bold>\<open>Foundations.\<close>
  \<^item> \<open>Prelude\<close>: Go's 64-bit integers with their wrap-around, decimal printing, database transactions as
    functions that may fail (\<open>tx\<close>, \<open>run_tx\<close>), tables as lists of rows.
  \<^item> \<open>Go_Strings\<close>, \<open>Go_Json\<close>, \<open>Go_Time\<close>: the parts of Go's standard library the services use: UTF-8 and
    trimming, decoding of JSON into structs, RFC 3339 times.

  \<^bold>\<open>credit-service.\<close>
  \<^item> \<open>Credit_Db\<close>, \<open>Credit_Outbox\<close>: \<^verbatim>\<open>internal/database/walletrepo\<close> and
    \<^verbatim>\<open>outboxrepo\<close>: tables, constraints and statements.
  \<^item> \<open>Wallet_Service\<close>: \<^verbatim>\<open>internal/wallet\<close>: \<^verbatim>\<open>CreateWallet\<close>,
    \<^verbatim>\<open>Reserve\<close>, \<^verbatim>\<open>Adjust\<close>, \<^verbatim>\<open>Release\<close>, \<^verbatim>\<open>Transfer\<close> and
    \<^verbatim>\<open>execute\<close>.
  \<^item> \<open>Credit_Message\<close>: \<^verbatim>\<open>internal/creditmsg\<close>: envelopes, the handler and its dispositions,
    recorded results.
  \<^item> \<open>Wallet_Invariant\<close>, \<open>Wallet_Commands\<close>, \<open>Wallet_Opening\<close>, \<open>Credit_Effects\<close>, \<open>Credit_Progress\<close>: the books
    balance (balances equal the ledger, reserved credits equal the active reservations), every operation
    keeps them balanced, what each operation does, and when it succeeds.
  \<^item> \<open>Credit_Properties\<close>: C1 to C10 and C12, on the runs of \<open>Credit_Example\<close>.

  \<^bold>\<open>order-service, errands.\<close>
  \<^item> \<open>Errand_Types\<close>, \<open>Errand_State\<close>: \<^verbatim>\<open>internal/errand\<close>: the types, the transition table,
    \<^verbatim>\<open>Next\<close> and the outbox rows of a transition.
  \<^item> \<open>Errand_Lifecycle\<close>, \<open>Errand_History\<close>: the invariant of an errand and the histories of events; keys,
    sequence numbers and settlements of its outbox rows.
  \<^item> \<open>Errand_Properties\<close>: C14 to C19.
  \<^item> \<open>Order_Db\<close>, \<open>Errand_Store\<close>: \<^verbatim>\<open>internal/database/errandrepo\<close>: rows, constraints,
    \<^verbatim>\<open>Create\<close>, \<^verbatim>\<open>Apply\<close>, \<^verbatim>\<open>RecordRejection\<close>, \<^verbatim>\<open>ClaimDue\<close>.
  \<^item> \<open>Errand_Rows\<close>, \<open>Errand_Writes\<close>, \<open>Errand_Store_Inv\<close>, \<open>Errand_Trace\<close>, \<open>Errand_Progress\<close>: the round trip of
    rows, what each write does, the invariant of the database, interleaved runs in which a write may use
    an errand read long before, and that the store accepts every decision.
  \<^item> \<open>Errand_Contract\<close>: the contract of a versioned store as a locale, and its interpretation.
  \<^item> \<open>Store_Properties\<close>: C20 to C26.

  \<^bold>\<open>order-service, delivery.\<close>
  \<^item> \<open>Resilience\<close>: \<^verbatim>\<open>internal/resilience\<close>: backoff, the circuit breaker and \<^verbatim>\<open>Do\<close>,
    with calls that begin and end in any order.
  \<^item> \<open>Outbox_Repo\<close>, \<open>Outbox_Ops\<close>: \<^verbatim>\<open>internal/database/msgrepo\<close> and the replay of
    \<^verbatim>\<open>internal/outboxadmin\<close>; sequences of statements and the delivery machine they implement.
  \<^item> \<open>Outbox_Dispatch\<close>, \<open>Outbox_Delivery\<close>: \<^verbatim>\<open>internal/messaging\<close>: messages, the dispatcher's
    batches and the sweep, and what they achieve.
  \<^item> \<open>Delivery_Properties\<close>: C27 to C34.

  \<^bold>\<open>order-service, results and operations.\<close>
  \<^item> \<open>Credit_Results\<close>: \<^verbatim>\<open>internal/creditmsg\<close>: decoding a result of credit-service, applying it to
    its errand with up to three attempts, settling the command it answers. \<open>Result_Handling\<close>: what a
    delivery achieves when other transactions run between any two of its statements (\<open>surroundings\<close> says what
    they may do: keep the database consistent, only advance errands, keep the keys of the outbox; decisions
    others apply and statements on the outbox are shown to do no more).
  \<^item> \<open>Supplier_Fence\<close>: \<^verbatim>\<open>internal/fence\<close> and the fence and audit statements of
    \<^verbatim>\<open>internal/database/opsrepo\<close>. \<open>Fence_Safety\<close>: a fenced supplier without active errands stays
    without them.
  \<^item> \<open>Background_Jobs\<close>: \<^verbatim>\<open>internal/scheduler\<close> and \<^verbatim>\<open>internal/reconciler\<close>: the deadline
    jobs, the reminders and the recovery of stuck credit operations. \<open>Job_Batches\<close>: what a batch achieves.
  \<^item> \<open>Result_Properties\<close>: C35 and C36. \<open>Operations_Properties\<close>: C37 to C39.

  \<^bold>\<open>supplier-service, guarded deletion.\<close>
  \<^item> \<open>Supplier_Deletion\<close>: the deletion half of \<^verbatim>\<open>internal/database/supplierrepo\<close>: operations,
    claims with leases and transitions. \<open>Deletion_Rows\<close>: what a call of the store can change.
  \<^item> \<open>Fence_Http\<close>: \<^verbatim>\<open>order-service/internal/fence/handler.go\<close> and one attempt of
    \<^verbatim>\<open>supplier-service/internal/orderclient\<close>, the two ends of the fence routes; \<open>Fence_Serving\<close>: what
    serving a request does to the fences.
  \<^item> \<open>Deletion_Workflow\<close>: the client's calls with their retries, \<^verbatim>\<open>internal/supplier/delete\<close>:
    the workflow, the \<^verbatim>\<open>DELETE\<close> handler and a pass of the reconciler, each as a program that
    stops at every interaction.
  \<^item> \<open>Deletion_World\<close>, \<open>Deletion_Safety\<close>: any number of such programs over the two databases, interleaved at
    every interaction, with calls and answers lost; a discipline the programs keep, and the invariant it
    gives. \<open>Deletion_Run\<close>: a program that runs undisturbed.
  \<^item> \<open>Deletion_Properties\<close>: C11 and C13, on the runs of \<open>Deletion_Example\<close>, and a request with a supplier id in upper
    case, which is refused and still carried out. \<open>Deletion_Late\<close>: a run in which a release that comes after
    its lease lifts the fence of a deleted supplier.

  \<^bold>\<open>Between the services.\<close>
  \<^item> \<open>Time_Roundtrip\<close>: a time that was written is read back, by the correctness of the calendar.
  \<^item> \<open>Credit_Protocol\<close>: the JSON of commands and results, read whatever the order of its keys; what one service
    writes, the other reads. \<open>Protocol_Properties\<close>: C40.

  \<^bold>\<open>Bounds and fuel.\<close> Functions are total. Two loops have fuel: the sweep, and C34 shows that one more than the
  number of overdue rows is enough, and the draining of a job's batches, where C38 shows the same of the errands
  in the job's state. Durations, amounts and versions are kept at the width of the
  code where it matters (\<open>i64\<close>, \<open>i32\<close>).

  \<^bold>\<open>Parameters.\<close> What lies outside the repository is a parameter: the parsing of UUIDs by pgx and PostgreSQL
  (\<open>uuid_reader\<close>; \<open>uuid_lower\<close> and \<open>uuid_standard\<close> say that it yields and keeps the lower-case standard form), the
  broker's answers, random sources, clocks, the order in which \<^verbatim>\<open>RETURNING\<close> lists rows, and which rows
  other transactions hold locked.

  \<^bold>\<open>Not modelled.\<close> Transactions run one after the other, as their row locks make them appear: a race that
  only a weaker isolation level allows is not seen. Timestamps keep their nanoseconds in the database.
  HTTP handlers, authentication, caches, configuration, start-up, readiness and logging are glue around the
  modelled operations or third-party code; AMQP sessions, timers with their jitter, and polling
  loops are I/O. The replicas of supplier-service are given one clock. The catalogue of supplier-service enters
  only as steps that add suppliers or change ones that are not deleted; user-service is a separate program
  around a third-party API; the frontend is TypeScript.
\<close>

end
